(* ===== verification/Prelude.thy ===== *)
theory Prelude
  imports Main "HOL-Library.Word" "HOL-Library.Signed_Division"
begin

text \<open>
  Shared vocabulary of the development: the machine integers of the native library, its
  error numbers, the bit-field laws that carry every proof about \<open>termios\<close> flags, the
  retry loop \<open>do { ... } while (ret < 0 && errno == EINTR)\<close> that wraps almost every
  system call, and C strings.
\<close>

unbundle bit_operations_syntax

section \<open>Machine integers\<close>

text \<open>
  \<open>tcflag_t\<close>, \<open>speed_t\<close> and \<open>unsigned int\<close> are 32 bits wide, \<open>cc_t\<close> and a
  byte of a buffer 8 bits. A C \<open>int\<close> whose value only travels (a descriptor, a return code,
  a Java \<open>jint\<close> argument) is an \<open>int\<close>; where its width matters it is converted.
\<close>

type_synonym u32 = "32 word"
type_synonym u16 = "16 word"
type_synonym u8 = "8 word"
type_synonym fd = int

definition cc_of_int :: "int \<Rightarrow> u8" where
  \<comment> \<open>the conversion to \<open>cc_t\<close> in an assignment: the low eight bits\<close>
  "cc_of_int i = word_of_int i"

definition jbyte_of_cc :: "u8 \<Rightarrow> int" where
  \<comment> \<open>the cast \<open>(jbyte)\<close>: eight bits read as a signed number\<close>
  "jbyte_of_cc c = sint c"

lemma uint_cc_of_int: "uint (cc_of_int i) = i mod 256"
  by (simp add: cc_of_int_def uint_word_of_int)

lemma uint_cc_of_int_id: "0 \<le> i \<Longrightarrow> i < 256 \<Longrightarrow> uint (cc_of_int i) = i"
  by (simp add: uint_cc_of_int)

lemma sint_cc_roundtrip: "-128 \<le> i \<Longrightarrow> i < 128 \<Longrightarrow> sint (cc_of_int i) = i"
  by (simp add: cc_of_int_def sint_sbintrunc' signed_take_bit_int_eq_self)

definition to_int32 :: "int \<Rightarrow> int" where
  \<comment> \<open>a \<open>long\<close> assigned to an \<open>int\<close>: the low 32 bits, signed\<close>
  "to_int32 i = signed_take_bit 31 i"

lemma to_int32_id: "-(2^31) \<le> i \<Longrightarrow> i < 2^31 \<Longrightarrow> to_int32 i = i"
  by (simp add: to_int32_def signed_take_bit_int_eq_self)

section \<open>Bit fields\<close>

text \<open>
  A flag word is edited with \<open>x AND NOT m OR v\<close> and read with \<open>x AND k\<close>. With the
  masks written out as numerals, distributing the reading mask inwards decides every such
  equation by evaluation.
\<close>

named_theorems bitfield \<open>laws that evaluate masked flag words\<close>

lemmas [bitfield] = bit.conj_disj_distrib2 and.assoc

lemma field_set_get: "(x AND NOT m OR v) AND m = v AND (m :: 'a::len word)"
  by (simp add: bit.conj_disj_distrib2 and.assoc)

lemma field_set_frame:
  fixes m k v x :: "'a::len word"
  assumes "m AND k = 0" and "v AND k = 0"
  shows "(x AND NOT m OR v) AND k = x AND k"
proof (rule bit_word_eqI)
  fix n assume "n < LENGTH('a)"
  have "\<not> (bit m n \<and> bit k n)" and "\<not> (bit v n \<and> bit k n)"
    using assms by (metis bit_and_iff bit_0_eq bot_apply bot_bool_def)+
  with \<open>n < LENGTH('a)\<close> show "bit ((x AND NOT m OR v) AND k) n = bit (x AND k) n"
    by (auto simp: bit_and_iff bit_or_iff bit_not_iff)
qed

lemma field_set_twice:
  "((x AND NOT m OR v) AND NOT m) OR v = (x AND NOT m) OR (v :: 'a::len word)"
  by (rule bit_word_eqI) (auto simp: bit_and_iff bit_or_iff bit_not_iff)

lemma masked_bit:
  fixes u v m k :: "'a::len word"
  assumes "u AND k = v AND k" and "m AND k = m"
  shows "u AND m = v AND m"
proof -
  have "x AND m = (x AND k) AND m" for x :: "'a word"
    using assms(2) by (simp add: and.assoc and.commute [of k m])
  with assms(1) show ?thesis by metis
qed

lemma single_bit_cases: "x AND 2 ^ n = 0 \<or> x AND 2 ^ n = (2 ^ n :: 'a::len word)"
proof (cases "bit x n")
  case True
  have "x AND 2 ^ n = 2 ^ n"
    by (rule bit_word_eqI) (use True in \<open>auto simp: bit_and_iff bit_exp_iff\<close>)
  then show ?thesis ..
next
  case False
  have "x AND 2 ^ n = 0"
    by (rule bit_word_eqI) (use False in \<open>auto simp: bit_and_iff bit_exp_iff\<close>)
  then show ?thesis ..
qed

text \<open>Setting a field to the value it has.\<close>

lemma field_same: "x AND m = v \<Longrightarrow> (x AND NOT m) OR v = (x :: 'a::len word)"
  by (rule bit_word_eqI) (auto simp: bit_and_iff bit_or_iff bit_not_iff)

lemma or_same: "x AND m = m \<Longrightarrow> x OR m = (x :: 'a::len word)"
  by (rule bit_word_eqI) (metis bit_and_iff bit_or_iff)

lemma and_not_same: "x AND m = 0 \<Longrightarrow> x AND NOT m = (x :: 'a::len word)"
  using field_same [of x m 0] by simp

section \<open>Error numbers\<close>

datatype errno = EINTR | EAGAIN | ESRCH | ENOENT | EEXIST | EACCES | EBADF | EBADFD | EIO
  | EINVAL | EOTHER nat

section \<open>Retrying after a signal\<close>

text \<open>
  \<open>do { ret = call(); } while (ret < 0 && errno == EINTR);\<close> as a function of the state the call
  works on. The loop of the source has no bound: with fuel \<open>n\<close> the model makes at most \<open>n\<close>
  calls and is \<open>None\<close> when all of them were interrupted. \<open>eintr_calls\<close> counts the calls that
  are interrupted in a row, and \<open>retry_eintr_enough\<close> shows that any fuel above that count gives
  the loop's result.
\<close>

fun retry_eintr :: "nat \<Rightarrow> ('w \<Rightarrow> errno) \<Rightarrow> ('w \<Rightarrow> int \<times> 'w) \<Rightarrow> 'w \<Rightarrow> (int \<times> 'w) option" where
  "retry_eintr 0 err call w = None"
| "retry_eintr (Suc n) err call w =
     (let (r, w') = call w
      in if r < 0 \<and> err w' = EINTR then retry_eintr n err call w' else Some (r, w'))"

inductive interrupted_for :: "('w \<Rightarrow> errno) \<Rightarrow> ('w \<Rightarrow> int \<times> 'w) \<Rightarrow> nat \<Rightarrow> 'w \<Rightarrow> int \<Rightarrow> 'w \<Rightarrow> bool"
  for err :: "'w \<Rightarrow> errno" and call :: "'w \<Rightarrow> int \<times> 'w" where
  done_now: "call w = (r, w') \<Longrightarrow> \<not> (r < 0 \<and> err w' = EINTR) \<Longrightarrow> interrupted_for err call 0 w r w'"
| again: "call w = (r, w') \<Longrightarrow> r < 0 \<Longrightarrow> err w' = EINTR \<Longrightarrow>
     interrupted_for err call n w' r' w'' \<Longrightarrow> interrupted_for err call (Suc n) w r' w''"

lemma retry_eintr_enough:
  "interrupted_for err call n w r w' \<Longrightarrow> n < fuel \<Longrightarrow> retry_eintr fuel err call w = Some (r, w')"
proof (induction arbitrary: fuel rule: interrupted_for.induct)
  case (done_now w r w')
  then show ?case by (cases fuel) auto
next
  case (again w r w' n r' w'')
  then show ?case by (cases fuel) auto
qed

lemma retry_eintr_not_eintr:
  "retry_eintr fuel err call w = Some (r, w') \<Longrightarrow> \<not> (r < 0 \<and> err w' = EINTR)"
  by (induction fuel arbitrary: w) (auto simp: Let_def split: prod.splits if_splits)

lemma retry_eintr_inv:
  assumes "\<And>w r w'. P w \<Longrightarrow> call w = (r, w') \<Longrightarrow> P w'" and "P w"
    and "retry_eintr fuel err call w = Some (r, w')"
  shows "P w'"
  using assms(2,3)
proof (induction fuel arbitrary: w)
  case (Suc n)
  obtain r1 w1 where c: "call w = (r1, w1)" by (metis surj_pair)
  have "P w1" by (rule assms(1) [OF Suc.prems(1) c])
  with Suc c show ?case by (auto split: if_splits)
qed simp

lemma retry_eintr_once [simp]:
  "call w = (r, w') \<Longrightarrow> \<not> (r < 0 \<and> err w' = EINTR) \<Longrightarrow>
   retry_eintr (Suc n) err call w = Some (r, w')"
  by auto

section \<open>C strings\<close>

text \<open>
  A C string is the characters before its terminator. The loop
  \<open>while (*(p - 1) != '/' && j-- != 1) p--;\<close>, started behind the last character, walks back
  to the last \<open>/\<close>, or to the second character of a name without one: \<open>*(p-1)\<close> of the first
  character is tested with \<open>j = 1\<close>, and the loop stops without stepping over it.
\<close>

fun walk_back :: "string \<Rightarrow> string \<Rightarrow> string" where
  \<comment> \<open>the reversed part of the name before \<open>p\<close>, and the part from \<open>p\<close> on\<close>
  "walk_back [] s = s"
| "walk_back (c # cs) s =
     (if c = CHR ''/'' then s else if cs = [] then s else walk_back cs (c # s))"

definition base_of :: "string \<Rightarrow> string" where
  "base_of name = walk_back (rev name) []"

lemma walk_back_slash:
  "CHR ''/'' \<notin> set b \<Longrightarrow> walk_back (b @ CHR ''/'' # r) s = rev b @ s"
  by (induction b arbitrary: s) auto

lemma base_of_slash: "CHR ''/'' \<notin> set b \<Longrightarrow> base_of (d @ CHR ''/'' # b) = b"
  by (simp add: base_of_def walk_back_slash)

fun drop_until :: "(char \<Rightarrow> bool) \<Rightarrow> string \<Rightarrow> string" where
  "drop_until p [] = []"
| "drop_until p (c # cs) = (if p c then c # cs else drop_until p cs)"

fun digits_of :: "nat \<Rightarrow> string" where
  "digits_of n = (if n < 10 then [char_of (48 + n)]
     else digits_of (n div 10) @ [char_of (48 + n mod 10)])"

declare digits_of.simps [simp del]

definition pad_left :: "nat \<Rightarrow> char \<Rightarrow> string \<Rightarrow> string" where
  "pad_left w c s = replicate (w - length s) c @ s"

text \<open>\<open>atol\<close> and \<open>sscanf("%d")\<close> on the text of a lock file: white space, then digits.\<close>

fun skip_ws :: "string \<Rightarrow> string" where
  "skip_ws [] = []"
| "skip_ws (c # cs) =
     (if c = CHR '' '' \<or> 9 \<le> (of_char c :: nat) \<and> (of_char c :: nat) \<le> 13
      then skip_ws cs else c # cs)"

definition is_dig :: "char \<Rightarrow> bool" where
  "is_dig c \<longleftrightarrow> 48 \<le> (of_char c :: nat) \<and> (of_char c :: nat) \<le> 57"

fun read_digits :: "nat \<Rightarrow> string \<Rightarrow> nat" where
  "read_digits acc [] = acc"
| "read_digits acc (c # cs) =
     (if is_dig c then read_digits (10 * acc + (of_char c - 48)) cs else acc)"

definition atoi :: "string \<Rightarrow> int" where
  "atoi s = to_int32 (case skip_ws s of
       [] \<Rightarrow> 0
     | c # cs \<Rightarrow> if c = CHR ''-'' then - int (read_digits 0 cs)
                else if c = CHR ''+'' then int (read_digits 0 cs)
                else int (read_digits 0 (c # cs)))"

lemma of_char_digit [simp]: "d < 10 \<Longrightarrow> of_char (char_of (48 + d :: nat)) = (48 + d :: nat)"
  by (simp add: of_char_of)

lemma is_dig_char [simp]: "d < 10 \<Longrightarrow> is_dig (char_of (48 + d :: nat))"
  by (simp add: is_dig_def)

lemma read_digits_snoc:
  "\<forall>c \<in> set s. is_dig c \<Longrightarrow>
   read_digits a (s @ t) = read_digits (read_digits a s) t"
  by (induction s arbitrary: a) auto

lemma digits_of_dig: "\<forall>c \<in> set (digits_of n). is_dig c"
proof (induction n rule: digits_of.induct)
  case (1 n)
  then show ?case by (subst digits_of.simps) auto
qed

lemma digits_of_not_Nil [simp]: "digits_of n \<noteq> []"
  by (subst digits_of.simps) simp

lemma read_digits_of: "read_digits 0 (digits_of n) = n"
proof (induction n rule: digits_of.induct)
  case (1 n)
  show ?case
  proof (cases "n < 10")
    case True
    then show ?thesis by (subst digits_of.simps) simp
  next
    case False
    with 1 have "read_digits 0 (digits_of (n div 10)) = n div 10" by simp
    with False show ?thesis
      by (subst digits_of.simps) (simp add: read_digits_snoc digits_of_dig)
  qed
qed

lemma read_digits_stop:
  "\<not> is_dig c \<Longrightarrow> read_digits 0 (digits_of n @ c # t) = n"
  by (simp add: read_digits_snoc digits_of_dig read_digits_of)

lemma skip_ws_spaces [simp]: "skip_ws (replicate k (CHR '' '') @ s) = skip_ws s"
  by (induction k) auto

lemma is_dig_not_space: "is_dig c \<Longrightarrow> skip_ws (c # s) = c # s"
  by (auto simp: is_dig_def)

text \<open>Reading back a padded decimal gives the number: the round trip of a lock file's text.\<close>

lemma atoi_padded:
  assumes "int n < 2^31"
  shows "atoi (pad_left k (CHR '' '') (digits_of n) @ char_of (10::nat) # t) = int n"
proof -
  obtain c cs where d: "digits_of n = c # cs"
    by (cases "digits_of n") auto
  have dig: "is_dig c"
    using digits_of_dig [of n] by (simp add: d)
  have nl: "\<not> is_dig (char_of (10::nat))"
    by (simp add: is_dig_def of_char_of)
  have skip: "skip_ws (pad_left k (CHR '' '') (digits_of n) @ char_of (10::nat) # t)
      = c # cs @ char_of (10::nat) # t"
    using is_dig_not_space [OF dig] by (simp add: pad_left_def d del: skip_ws.simps)
  have c: "c \<noteq> CHR ''-''" "c \<noteq> CHR ''+''"
    using dig by (auto simp: is_dig_def)
  have "read_digits 0 (c # cs @ char_of (10::nat) # t) = n"
    using read_digits_stop [OF nl, of n t] by (simp add: d)
  then show ?thesis
    using c assms by (simp add: atoi_def skip to_int32_id)
qed

text \<open>\<open>sscanf(s, "%d", &x)\<close>: without a number at the front the variable keeps its value.\<close>

definition sscanf_d :: "string \<Rightarrow> int \<Rightarrow> int" where
  "sscanf_d s old =
     (let t = skip_ws s;
          u = (if t \<noteq> [] \<and> (hd t = CHR ''-'' \<or> hd t = CHR ''+'') then tl t else t)
      in if u = [] \<or> \<not> is_dig (hd u) then old else atoi s)"

lemma sscanf_padded:
  assumes "int n < 2^31"
  shows "sscanf_d (pad_left k (CHR '' '') (digits_of n) @ char_of (10::nat) # t) old = int n"
proof -
  obtain c cs where d: "digits_of n = c # cs"
    by (cases "digits_of n") auto
  have dig: "is_dig c"
    using digits_of_dig [of n] by (simp add: d)
  have "skip_ws (pad_left k (CHR '' '') (digits_of n) @ char_of (10::nat) # t)
      = c # cs @ char_of (10::nat) # t"
    using is_dig_not_space [OF dig] by (simp add: pad_left_def d del: skip_ws.simps)
  moreover have "c \<noteq> CHR ''-''" "c \<noteq> CHR ''+''"
    using dig by (auto simp: is_dig_def)
  ultimately show ?thesis
    using dig atoi_padded [OF assms] by (simp add: sscanf_d_def)
qed

text \<open>A decimal of at most ten digits padded to ten characters has ten characters.\<close>

lemma length_digits_of: "n < 10 ^ k \<Longrightarrow> 0 < k \<Longrightarrow> length (digits_of n) \<le> k"
proof (induction n arbitrary: k rule: digits_of.induct)
  case (1 n)
  show ?case
  proof (cases "n < 10")
    case True
    with 1 show ?thesis by (subst digits_of.simps) simp
  next
    case False
    then obtain j where j: "k = Suc j" "0 < j" using 1 by (cases k; cases "k - 1") auto
    with 1 False have "length (digits_of (n div 10)) \<le> j"
      by (simp add: less_mult_imp_div_less mult.commute)
    with False j show ?thesis by (subst digits_of.simps) simp
  qed
qed

lemma length_pad_left [simp]: "length (pad_left w c s) = max w (length s)"
  by (simp add: pad_left_def)

end
