(* ===== verification/Serial_Consts.thy ===== *)
theory Serial_Consts
  imports Prelude
begin

text \<open>
  The constants and structures of \<open>SerialImp.h\<close> and \<open>win32termios.h\<close>. The second header
  repeats the values of the Linux headers, so one set of numerals serves both builds; what the
  builds do not share (\<open>CBAUD\<close>, the four glue speeds) depends on \<open>platform\<close>.
\<close>

section \<open>Builds\<close>

text \<open>
  \<open>Linux\<close>: \<open>TIOCGSERIAL\<close>, \<open>TIOCSERGETLSR\<close>, \<open>TIOCGICOUNT\<close>, \<open>CBAUD\<close>, \<open>CMSPAR\<close> and
  \<open>FHS\<close> are defined. \<open>Win32\<close>: \<open>TIOCSERGETLSR\<close>, \<open>TIOCGICOUNT\<close>, \<open>CBAUD\<close>, \<open>CMSPAR\<close> and the
  speeds \<open>B14400\<close>, \<open>B28800\<close>, \<open>B128000\<close>, \<open>B256000\<close> are defined, \<open>TIOCGSERIAL\<close> is not.
\<close>

datatype platform = Linux | Win32

section \<open>Flag values\<close>

subsection \<open>Input modes, \<open>c_iflag\<close>\<close>

abbreviation (input) IGNBRK :: u32 where "IGNBRK \<equiv> 1"
abbreviation (input) BRKINT :: u32 where "BRKINT \<equiv> 2"
abbreviation (input) IGNPAR :: u32 where "IGNPAR \<equiv> 4"
abbreviation (input) PARMRK :: u32 where "PARMRK \<equiv> 8"
abbreviation (input) INPCK :: u32 where "INPCK \<equiv> 0x10"
abbreviation (input) ISTRIP :: u32 where "ISTRIP \<equiv> 0x20"
abbreviation (input) INLCR :: u32 where "INLCR \<equiv> 0x40"
abbreviation (input) IGNCR :: u32 where "IGNCR \<equiv> 0x80"
abbreviation (input) ICRNL :: u32 where "ICRNL \<equiv> 0x100"
abbreviation (input) IXON :: u32 where "IXON \<equiv> 0x400"
abbreviation (input) IXANY :: u32 where "IXANY \<equiv> 0x800"
abbreviation (input) IXOFF :: u32 where "IXOFF \<equiv> 0x1000"

subsection \<open>Output and local modes\<close>

abbreviation (input) OPOST :: u32 where "OPOST \<equiv> 1"
abbreviation (input) ISIG :: u32 where "ISIG \<equiv> 1"
abbreviation (input) ICANON :: u32 where "ICANON \<equiv> 2"
abbreviation (input) ECHO :: u32 where "ECHO \<equiv> 8"
abbreviation (input) ECHONL :: u32 where "ECHONL \<equiv> 0x40"
abbreviation (input) IEXTEN :: u32 where "IEXTEN \<equiv> 0x8000"

subsection \<open>Control modes, \<open>c_cflag\<close>\<close>

abbreviation (input) CSIZE :: u32 where "CSIZE \<equiv> 0x30"
abbreviation (input) CS5 :: u32 where "CS5 \<equiv> 0"
abbreviation (input) CS6 :: u32 where "CS6 \<equiv> 0x10"
abbreviation (input) CS7 :: u32 where "CS7 \<equiv> 0x20"
abbreviation (input) CS8 :: u32 where "CS8 \<equiv> 0x30"
abbreviation (input) CSTOPB :: u32 where "CSTOPB \<equiv> 0x40"
abbreviation (input) CREAD :: u32 where "CREAD \<equiv> 0x80"
abbreviation (input) PARENB :: u32 where "PARENB \<equiv> 0x100"
abbreviation (input) PARODD :: u32 where "PARODD \<equiv> 0x200"
abbreviation (input) CLOCAL :: u32 where "CLOCAL \<equiv> 0x800"
abbreviation (input) CBAUDEX :: u32 where "CBAUDEX \<equiv> 0x1000"
abbreviation (input) CIGNORE :: u32 where "CIGNORE \<equiv> 0x20000"
abbreviation (input) CMSPAR :: u32 where "CMSPAR \<equiv> 0x40000000"
abbreviation (input) CRTSCTS :: u32 where "CRTSCTS \<equiv> 0x80000000"

subsection \<open>Speeds, \<open>speed_t\<close>\<close>

abbreviation (input) B0 :: u32 where "B0 \<equiv> 0"
abbreviation (input) B50 :: u32 where "B50 \<equiv> 1"
abbreviation (input) B75 :: u32 where "B75 \<equiv> 2"
abbreviation (input) B110 :: u32 where "B110 \<equiv> 3"
abbreviation (input) B134 :: u32 where "B134 \<equiv> 4"
abbreviation (input) B150 :: u32 where "B150 \<equiv> 5"
abbreviation (input) B200 :: u32 where "B200 \<equiv> 6"
abbreviation (input) B300 :: u32 where "B300 \<equiv> 7"
abbreviation (input) B600 :: u32 where "B600 \<equiv> 8"
abbreviation (input) B1200 :: u32 where "B1200 \<equiv> 9"
abbreviation (input) B1800 :: u32 where "B1800 \<equiv> 0xA"
abbreviation (input) B2400 :: u32 where "B2400 \<equiv> 0xB"
abbreviation (input) B4800 :: u32 where "B4800 \<equiv> 0xC"
abbreviation (input) B9600 :: u32 where "B9600 \<equiv> 0xD"
abbreviation (input) B19200 :: u32 where "B19200 \<equiv> 0xE"
abbreviation (input) B38400 :: u32 where "B38400 \<equiv> 0xF"
abbreviation (input) B57600 :: u32 where "B57600 \<equiv> 0x1001"
abbreviation (input) B115200 :: u32 where "B115200 \<equiv> 0x1002"
abbreviation (input) B230400 :: u32 where "B230400 \<equiv> 0x1003"
abbreviation (input) B460800 :: u32 where "B460800 \<equiv> 0x1004"
abbreviation (input) B500000 :: u32 where "B500000 \<equiv> 0x1005"
abbreviation (input) B576000 :: u32 where "B576000 \<equiv> 0x1006"
abbreviation (input) B921600 :: u32 where "B921600 \<equiv> 0x1007"
abbreviation (input) B1000000 :: u32 where "B1000000 \<equiv> 0x1008"
abbreviation (input) B1152000 :: u32 where "B1152000 \<equiv> 0x1009"
abbreviation (input) B1500000 :: u32 where "B1500000 \<equiv> 0x100A"
abbreviation (input) B2000000 :: u32 where "B2000000 \<equiv> 0x100B"
abbreviation (input) B2500000 :: u32 where "B2500000 \<equiv> 0x100C"
abbreviation (input) B3000000 :: u32 where "B3000000 \<equiv> 0x100D"
abbreviation (input) B3500000 :: u32 where "B3500000 \<equiv> 0x100E"
abbreviation (input) B4000000 :: u32 where "B4000000 \<equiv> 0x100F"

subsection \<open>Speeds only the Win32 build defines\<close>

abbreviation (input) B14400 :: u32 where "B14400 \<equiv> 0x2001"
abbreviation (input) B28800 :: u32 where "B28800 \<equiv> 0x2002"
abbreviation (input) B128000 :: u32 where "B128000 \<equiv> 0x2003"
abbreviation (input) B256000 :: u32 where "B256000 \<equiv> 0x2004"

subsection \<open>Indices of \<open>c_cc\<close>\<close>

abbreviation (input) VINTR :: nat where "VINTR \<equiv> 0"
abbreviation (input) VQUIT :: nat where "VQUIT \<equiv> 1"
abbreviation (input) VERASE :: nat where "VERASE \<equiv> 2"
abbreviation (input) VKILL :: nat where "VKILL \<equiv> 3"
abbreviation (input) VEOF :: nat where "VEOF \<equiv> 4"
abbreviation (input) VTIME :: nat where "VTIME \<equiv> 5"
abbreviation (input) VMIN :: nat where "VMIN \<equiv> 6"
abbreviation (input) VSTART :: nat where "VSTART \<equiv> 8"
abbreviation (input) VSTOP :: nat where "VSTOP \<equiv> 9"
abbreviation (input) VSUSP :: nat where "VSUSP \<equiv> 10"
abbreviation (input) VEOL :: nat where "VEOL \<equiv> 11"
abbreviation (input) VREPRINT :: nat where "VREPRINT \<equiv> 12"
abbreviation (input) VWERASE :: nat where "VWERASE \<equiv> 14"
abbreviation (input) VLNEXT :: nat where "VLNEXT \<equiv> 15"
abbreviation (input) VEOL2 :: nat where "VEOL2 \<equiv> 16"

subsection \<open>Modem lines\<close>

abbreviation (input) TIOCM_DTR :: u32 where "TIOCM_DTR \<equiv> 2"
abbreviation (input) TIOCM_RTS :: u32 where "TIOCM_RTS \<equiv> 4"
abbreviation (input) TIOCM_CTS :: u32 where "TIOCM_CTS \<equiv> 0x20"
abbreviation (input) TIOCM_CAR :: u32 where "TIOCM_CAR \<equiv> 0x40"
abbreviation (input) TIOCM_RNG :: u32 where "TIOCM_RNG \<equiv> 0x80"
abbreviation (input) TIOCM_DSR :: u32 where "TIOCM_DSR \<equiv> 0x100"

subsection \<open>Queue selectors of \<open>tcflush\<close>\<close>

abbreviation (input) TCIFLUSH :: nat where "TCIFLUSH \<equiv> 0"
abbreviation (input) TCOFLUSH :: nat where "TCOFLUSH \<equiv> 1"
abbreviation (input) TCIOFLUSH :: nat where "TCIOFLUSH \<equiv> 2"

subsection \<open>Java side: data bits\<close>

abbreviation (input) JDATABITS_5 :: int where "JDATABITS_5 \<equiv> 5"
abbreviation (input) JDATABITS_6 :: int where "JDATABITS_6 \<equiv> 6"
abbreviation (input) JDATABITS_7 :: int where "JDATABITS_7 \<equiv> 7"
abbreviation (input) JDATABITS_8 :: int where "JDATABITS_8 \<equiv> 8"

subsection \<open>Java side: parity\<close>

abbreviation (input) JPARITY_NONE :: int where "JPARITY_NONE \<equiv> 0"
abbreviation (input) JPARITY_ODD :: int where "JPARITY_ODD \<equiv> 1"
abbreviation (input) JPARITY_EVEN :: int where "JPARITY_EVEN \<equiv> 2"
abbreviation (input) JPARITY_MARK :: int where "JPARITY_MARK \<equiv> 3"
abbreviation (input) JPARITY_SPACE :: int where "JPARITY_SPACE \<equiv> 4"

subsection \<open>Java side: stop bits\<close>

abbreviation (input) STOPBITS_1 :: int where "STOPBITS_1 \<equiv> 1"
abbreviation (input) STOPBITS_2 :: int where "STOPBITS_2 \<equiv> 2"
abbreviation (input) STOPBITS_1_5 :: int where "STOPBITS_1_5 \<equiv> 3"

subsection \<open>Java side: flow control bits\<close>

abbreviation (input) FLOWCONTROL_RTSCTS_IN :: u32 where "FLOWCONTROL_RTSCTS_IN \<equiv> 1"
abbreviation (input) FLOWCONTROL_RTSCTS_OUT :: u32 where "FLOWCONTROL_RTSCTS_OUT \<equiv> 2"
abbreviation (input) FLOWCONTROL_XONXOFF_IN :: u32 where "FLOWCONTROL_XONXOFF_IN \<equiv> 4"
abbreviation (input) FLOWCONTROL_XONXOFF_OUT :: u32 where "FLOWCONTROL_XONXOFF_OUT \<equiv> 8"

subsection \<open>Java side: events\<close>

abbreviation (input) SPE_DATA_AVAILABLE :: nat where "SPE_DATA_AVAILABLE \<equiv> 1"
abbreviation (input) SPE_OUTPUT_BUFFER_EMPTY :: nat where "SPE_OUTPUT_BUFFER_EMPTY \<equiv> 2"
abbreviation (input) SPE_CTS :: nat where "SPE_CTS \<equiv> 3"
abbreviation (input) SPE_DSR :: nat where "SPE_DSR \<equiv> 4"
abbreviation (input) SPE_RI :: nat where "SPE_RI \<equiv> 5"
abbreviation (input) SPE_CD :: nat where "SPE_CD \<equiv> 6"
abbreviation (input) SPE_OE :: nat where "SPE_OE \<equiv> 7"
abbreviation (input) SPE_PE :: nat where "SPE_PE \<equiv> 8"
abbreviation (input) SPE_FE :: nat where "SPE_FE \<equiv> 9"
abbreviation (input) SPE_BI :: nat where "SPE_BI \<equiv> 10"

subsection \<open>Java side: port types\<close>

abbreviation (input) PORT_SERIAL :: int where "PORT_SERIAL \<equiv> 1"
abbreviation (input) PORT_PARALLEL :: int where "PORT_PARALLEL \<equiv> 2"
abbreviation (input) PORT_I2C :: int where "PORT_I2C \<equiv> 3"
abbreviation (input) PORT_RS485 :: int where "PORT_RS485 \<equiv> 4"
abbreviation (input) PORT_RAW :: int where "PORT_RAW \<equiv> 5"
subsection \<open>Values that depend on the build\<close>

definition CBAUD :: "platform \<Rightarrow> u32" where
  "CBAUD p = (case p of Linux \<Rightarrow> 0x100F | Win32 \<Rightarrow> 0x300F)"

abbreviation (input) HARDWARE_FLOW_CONTROL :: u32 where "HARDWARE_FLOW_CONTROL \<equiv> CRTSCTS"
abbreviation (input) TIOCM_CD :: u32 where "TIOCM_CD \<equiv> TIOCM_CAR"
abbreviation (input) TIOCM_RI :: u32 where "TIOCM_RI \<equiv> TIOCM_RNG"

section \<open>Structures\<close>

text \<open>
  \<open>c_cc\<close> is an array of \<open>NCCS\<close> characters indexed by the constants above only; a total
  function keeps the reads and writes in range by construction.
\<close>

record termios =
  c_iflag :: u32
  c_oflag :: u32
  c_cflag :: u32
  c_lflag :: u32
  c_cc :: "nat \<Rightarrow> u8"
  c_line :: u8
  c_ispeed :: u32
  c_ospeed :: u32

text \<open>Of the kernel's \<open>serial_struct\<close> the library reads and writes two members.\<close>

record serial_struct =
  custom_divisor :: int
  baud_base :: int

record serial_icounter =
  ic_frame :: u32
  ic_overrun :: u32
  ic_parity :: u32
  ic_brk :: u32

definition zero_termios :: termios where
  "zero_termios = \<lparr>c_iflag = 0, c_oflag = 0, c_cflag = 0, c_lflag = 0, c_cc = (\<lambda>_. 0),
     c_line = 0, c_ispeed = 0, c_ospeed = 0\<rparr>"

end
