(* ===== verification/Line_Params.thy ===== *)
theory Line_Params
  imports Serial_Consts
begin

text \<open>
  The translation between the parameters of \<open>gnu.io.SerialPort\<close> and the flag words of
  \<open>termios\<close>: the \<open>translate_*\<close> functions, \<open>get_java_baudrate\<close>, the readers in
  \<open>set_java_vars\<close>, \<open>nativeGetParity\<close>, \<open>nativeGetFlowControlMode\<close> and the
  \<open>nativeStaticGet*\<close> functions, all as functions of the flag word. The flag word behind a
  pointer argument is passed in and returned next to the return code.
\<close>

section \<open>Speeds\<close>

text \<open>The \<open>switch\<close> of \<open>translate_speed\<close>, in the order of its cases.\<close>

definition speed_cases :: "platform \<Rightarrow> (int \<times> u32) list" where
  "speed_cases p =
     [(0, B0), (50, B50), (75, B75), (110, B110), (134, B134), (150, B150), (200, B200),
      (300, B300), (600, B600), (1200, B1200), (1800, B1800), (2400, B2400), (4800, B4800),
      (9600, B9600)]
     @ (if p = Win32 then [(14400, B14400)] else [])
     @ [(19200, B19200)]
     @ (if p = Win32 then [(28800, B28800)] else [])
     @ [(38400, B38400), (57600, B57600), (115200, B115200)]
     @ (if p = Win32 then [(128000, B128000)] else [])
     @ [(230400, B230400)]
     @ (if p = Win32 then [(256000, B256000)] else [])
     @ [(460800, B460800), (500000, B500000), (576000, B576000), (921600, B921600),
        (1000000, B1000000), (1152000, B1152000), (1500000, B1500000), (2000000, B2000000),
        (2500000, B2500000), (3000000, B3000000), (3500000, B3500000), (4000000, B4000000)]"

definition translate_speed :: "platform \<Rightarrow> int \<Rightarrow> int" where
  "translate_speed p speed =
     (case map_of (speed_cases p) speed of
        Some b \<Rightarrow> uint b
      | None \<Rightarrow> if speed \<ge> 0 then speed else -1)"

text \<open>The \<open>switch\<close> of \<open>get_java_baudrate\<close>.\<close>

definition baud_cases :: "platform \<Rightarrow> (u32 \<times> int) list" where
  "baud_cases p =
     [(B0, 0), (B50, 50), (B75, 75), (B110, 110), (B134, 134), (B150, 150), (B200, 200),
      (B300, 300), (B600, 600), (B1200, 1200), (B1800, 1800), (B2400, 2400), (B4800, 4800),
      (B9600, 9600)]
     @ (if p = Win32 then [(B14400, 14400)] else [])
     @ [(B19200, 19200)]
     @ (if p = Win32 then [(B28800, 28800)] else [])
     @ [(B38400, 38400), (B57600, 57600), (B115200, 115200)]
     @ (if p = Win32 then [(B128000, 128000)] else [])
     @ [(B230400, 230400)]
     @ (if p = Win32 then [(B256000, 256000)] else [])
     @ [(B460800, 460800), (B500000, 500000), (B576000, 576000), (B921600, 921600),
        (B1000000, 1000000), (B1152000, 1152000), (B1500000, 1500000), (B2000000, 2000000),
        (B2500000, 2500000), (B3000000, 3000000), (B3500000, 3500000), (B4000000, 4000000)]"

definition get_java_baudrate :: "platform \<Rightarrow> u32 \<Rightarrow> int" where
  "get_java_baudrate p native_speed =
     (case map_of (baud_cases p) native_speed of Some r \<Rightarrow> r | None \<Rightarrow> -1)"

section \<open>Data bits, stop bits, parity\<close>

definition translate_data_bits :: "u32 \<Rightarrow> int \<Rightarrow> int \<times> u32" where
  "translate_data_bits cflag dataBits =
     (let temp = cflag AND NOT CSIZE in
      if dataBits = JDATABITS_5 then (0, temp OR CS5)
      else if dataBits = JDATABITS_6 then (0, temp OR CS6)
      else if dataBits = JDATABITS_7 then (0, temp OR CS7)
      else if dataBits = JDATABITS_8 then (0, temp OR CS8)
      else (1, cflag))"

definition translate_stop_bits :: "u32 \<Rightarrow> int \<Rightarrow> int \<times> u32" where
  "translate_stop_bits cflag stopBits =
     (if stopBits = STOPBITS_1 then (0, cflag AND NOT CSTOPB)
      else if stopBits = STOPBITS_1_5 then
        (let (r, cflag') = translate_data_bits (cflag OR CSTOPB) JDATABITS_5
         in if r \<noteq> 0 then (1, cflag') else (0, cflag'))
      else if stopBits = STOPBITS_2 then (0, cflag OR CSTOPB)
      else (1, cflag))"

definition translate_parity :: "u32 \<Rightarrow> int \<Rightarrow> int \<times> u32" where
  "translate_parity cflag parity =
     (let c = cflag AND NOT (PARENB OR PARODD OR CMSPAR) in
      if parity = JPARITY_NONE then (0, c)
      else if parity = JPARITY_EVEN then (0, c OR PARENB)
      else if parity = JPARITY_ODD then (0, c OR (PARENB OR PARODD))
      else if parity = JPARITY_MARK then (0, c OR (PARENB OR PARODD OR CMSPAR))
      else if parity = JPARITY_SPACE then (0, c OR (PARENB OR CMSPAR))
      else (1, c))"

section \<open>Reading the flag word back\<close>

text \<open>The three \<open>switch\<close> statements of \<open>set_java_vars\<close>, with the initial values of its locals.\<close>

definition java_databits :: "u32 \<Rightarrow> int" where
  "java_databits cflag =
     (let k = cflag AND CSIZE in
      if k = CS5 then JDATABITS_5 else if k = CS6 then JDATABITS_6
      else if k = CS7 then JDATABITS_7 else if k = CS8 then JDATABITS_8 else -1)"

definition java_parity :: "u32 \<Rightarrow> int" where
  "java_parity cflag =
     (let k = cflag AND (PARENB OR PARODD OR CMSPAR) in
      if k = 0 then JPARITY_NONE
      else if k = PARENB then JPARITY_EVEN
      else if k = PARENB OR PARODD then JPARITY_ODD
      else if k = PARENB OR PARODD OR CMSPAR then JPARITY_MARK
      else if k = PARENB OR CMSPAR then JPARITY_SPACE
      else -1)"

definition java_stopbits :: "u32 \<Rightarrow> int" where
  "java_stopbits cflag =
     (if cflag AND CSTOPB = 0 then STOPBITS_1
      else if cflag AND CSIZE = CS5 then STOPBITS_1_5 else STOPBITS_2)"

text \<open>
  \<open>nativeStaticGetStopBits\<close> tests \<open>c_cflag & CS5\<close> instead; \<open>CS5\<close> is zero.
\<close>

definition static_stopbits :: "u32 \<Rightarrow> int" where
  "static_stopbits cflag =
     (if cflag AND CSTOPB = 0 then STOPBITS_1
      else if cflag AND CSTOPB = CSTOPB then
        (if cflag AND CS5 \<noteq> 0 then STOPBITS_1_5 else STOPBITS_2)
      else -1)"

text \<open>
  \<open>nativeGetParity\<close>. The condition \<open>c_cflag & (PARENB && c_cflag & CMSPAR)\<close> masks the flag
  word with a truth value, that is with 0 or 1.
\<close>

definition native_parity :: "u32 \<Rightarrow> int" where
  "native_parity cflag =
     (if cflag AND PARENB \<noteq> 0 \<and> cflag AND PARODD \<noteq> 0 \<and> cflag AND CMSPAR \<noteq> 0 then JPARITY_MARK
      else if cflag AND (if PARENB \<noteq> 0 \<and> cflag AND CMSPAR \<noteq> 0 then 1 else 0) \<noteq> 0 then JPARITY_SPACE
      else if cflag AND PARENB \<noteq> 0 \<and> cflag AND PARODD \<noteq> 0 then JPARITY_ODD
      else if cflag AND PARENB \<noteq> 0 then JPARITY_EVEN
      else JPARITY_NONE)"

section \<open>Flow control\<close>

text \<open>The edit of the flag words in \<open>setflowcontrol\<close>, and \<open>nativeGetFlowControlMode\<close>.\<close>

definition flow_edit :: "u32 \<Rightarrow> termios \<Rightarrow> termios" where
  "flow_edit flowmode t =
     (let t = (if flowmode AND (FLOWCONTROL_RTSCTS_IN OR FLOWCONTROL_RTSCTS_OUT) \<noteq> 0
               then t\<lparr>c_cflag := c_cflag t OR HARDWARE_FLOW_CONTROL\<rparr>
               else t\<lparr>c_cflag := c_cflag t AND NOT HARDWARE_FLOW_CONTROL\<rparr>);
          t = t\<lparr>c_iflag := c_iflag t AND NOT IXANY\<rparr>;
          t = (if flowmode AND FLOWCONTROL_XONXOFF_IN \<noteq> 0
               then t\<lparr>c_iflag := c_iflag t OR IXOFF\<rparr>
               else t\<lparr>c_iflag := c_iflag t AND NOT IXOFF\<rparr>)
      in (if flowmode AND FLOWCONTROL_XONXOFF_OUT \<noteq> 0
          then t\<lparr>c_iflag := c_iflag t OR IXON\<rparr>
          else t\<lparr>c_iflag := c_iflag t AND NOT IXON\<rparr>))"

definition flow_mode :: "termios \<Rightarrow> u32" where
  "flow_mode t =
     (let ret = (if c_cflag t AND HARDWARE_FLOW_CONTROL \<noteq> 0
                 then 0 OR (FLOWCONTROL_RTSCTS_IN OR FLOWCONTROL_RTSCTS_OUT) else 0);
          ret = (if c_iflag t AND IXOFF \<noteq> 0 then ret OR FLOWCONTROL_XONXOFF_IN else ret)
      in (if c_iflag t AND IXON \<noteq> 0 then ret OR FLOWCONTROL_XONXOFF_OUT else ret))"

section \<open>Lemmas\<close>

lemmas line_defs =
  translate_data_bits_def translate_stop_bits_def translate_parity_def
  java_databits_def java_parity_def java_stopbits_def static_stopbits_def native_parity_def

subsection \<open>Accepted arguments\<close>

lemma data_bits_ok: "fst (translate_data_bits c d) = 0 \<longleftrightarrow> d \<in> {5, 6, 7, 8}"
  by (auto simp: line_defs Let_def)

lemma stop_bits_ok: "fst (translate_stop_bits c s) = 0 \<longleftrightarrow> s \<in> {1, 2, 3}"
  by (auto simp: line_defs Let_def)

lemma parity_ok: "fst (translate_parity c q) = 0 \<longleftrightarrow> q \<in> {0, 1, 2, 3, 4}"
  by (auto simp: line_defs Let_def)

subsection \<open>What each edit leaves in the flag word\<close>

lemma data_bits_get:
  "d \<in> {5, 6, 7, 8} \<Longrightarrow> java_databits (snd (translate_data_bits c d)) = d"
  by (auto simp: line_defs Let_def bitfield)

lemma stop_bits_size:
  "snd (translate_stop_bits c s) AND CSIZE = (if s = STOPBITS_1_5 then CS5 else c AND CSIZE)"
  by (auto simp: line_defs Let_def bitfield)

lemma parity_size: "snd (translate_parity c q) AND CSIZE = c AND CSIZE"
  by (auto simp: line_defs Let_def bitfield)

lemma parity_stop: "snd (translate_parity c q) AND CSTOPB = c AND CSTOPB"
  by (auto simp: line_defs Let_def bitfield)

lemma stop_bits_stop:
  "s \<in> {1, 2, 3} \<Longrightarrow>
   snd (translate_stop_bits c s) AND CSTOPB = (if s = STOPBITS_1 then 0 else CSTOPB)"
  by (auto simp: line_defs Let_def bitfield)

lemma parity_get: "q \<in> {0, 1, 2, 3, 4} \<Longrightarrow> java_parity (snd (translate_parity c q)) = q"
  by (auto simp: line_defs Let_def bitfield)

lemma data_bits_frame:
  "snd (translate_data_bits c d) AND NOT CSIZE = c AND NOT CSIZE"
  by (auto simp: line_defs Let_def bitfield)

lemma stop_bits_frame:
  "snd (translate_stop_bits c s) AND NOT (CSIZE OR CSTOPB) = c AND NOT (CSIZE OR CSTOPB)"
  by (auto simp: line_defs Let_def bitfield)

lemma parity_frame:
  "snd (translate_parity c q) AND NOT (PARENB OR PARODD OR CMSPAR)
     = c AND NOT (PARENB OR PARODD OR CMSPAR)"
  by (auto simp: line_defs Let_def bitfield)

subsection \<open>The three edits in the order \<open>set_port_params\<close> makes them\<close>

definition line_edit :: "u32 \<Rightarrow> int \<Rightarrow> int \<Rightarrow> int \<Rightarrow> u32" where
  "line_edit c d s q =
     snd (translate_parity (snd (translate_stop_bits (snd (translate_data_bits c d)) s)) q)"

lemma line_edit_size:
  "d \<in> {5, 6, 7, 8} \<Longrightarrow> java_databits (line_edit c d s q) = (if s = STOPBITS_1_5 then 5 else d)"
  using data_bits_get [of d c]
  by (simp add: line_edit_def java_databits_def parity_size stop_bits_size)

lemma line_edit_parity: "q \<in> {0, 1, 2, 3, 4} \<Longrightarrow> java_parity (line_edit c d s q) = q"
  by (simp add: line_edit_def parity_get)

lemma data_bits_CS5: "d \<in> {5, 6, 7, 8} \<Longrightarrow> (snd (translate_data_bits c d) AND CSIZE = CS5) = (d = 5)"
  by (auto simp: line_defs Let_def bitfield)

lemma line_edit_stop:
  assumes "d \<in> {5, 6, 7, 8}" "s \<in> {1, 2, 3}"
  shows "java_stopbits (line_edit c d s q) = (if s = STOPBITS_2 \<and> d = 5 then STOPBITS_1_5 else s)"
  using assms data_bits_CS5 [OF assms(1), of c] stop_bits_stop [OF assms(2)]
  by (auto simp: line_edit_def java_stopbits_def parity_size parity_stop stop_bits_size)

abbreviation line_mask :: u32 where
  "line_mask \<equiv> CSIZE OR CSTOPB OR PARENB OR PARODD OR CMSPAR"

lemma mask_weaken:
  fixes x y m k :: u32
  assumes "x AND NOT m = y AND NOT m" and "m AND NOT k = 0"
  shows "x AND NOT k = y AND NOT k"
proof (rule bit_word_eqI)
  fix n assume n: "n < LENGTH(32)"
  have "bit (x AND NOT m) n = bit (y AND NOT m) n" using assms(1) by simp
  moreover have "\<not> bit (m AND NOT k) n" using assms(2) by simp
  ultimately show "bit (x AND NOT k) n = bit (y AND NOT k) n"
    using n by (auto simp: bit_and_iff bit_not_iff)
qed

lemma line_edit_frame: "line_edit c d s q AND NOT line_mask = c AND NOT line_mask"
proof -
  have "line_edit c d s q AND NOT line_mask
      = snd (translate_stop_bits (snd (translate_data_bits c d)) s) AND NOT line_mask"
    unfolding line_edit_def by (rule mask_weaken [OF parity_frame]) simp
  also have "\<dots> = snd (translate_data_bits c d) AND NOT line_mask"
    by (rule mask_weaken [OF stop_bits_frame]) simp
  also have "\<dots> = c AND NOT line_mask"
    by (rule mask_weaken [OF data_bits_frame]) simp
  finally show ?thesis .
qed

section \<open>Properties\<close>

text \<open>C3. Line parameters survive the round trip through the flag word. After data bits, stop
  bits and parity have been written in the order of \<open>set_port_params\<close>, the readers of
  \<open>set_java_vars\<close> return what was asked for, with two exceptions that the code makes on purpose:
  one and a half stop bits force five data bits, and two stop bits with five data bits read back as
  one and a half. Every other bit of the flag word is untouched.\<close>

theorem line_params_roundtrip:
  assumes "d \<in> {JDATABITS_5, JDATABITS_6, JDATABITS_7, JDATABITS_8}"
    and "s \<in> {STOPBITS_1, STOPBITS_2, STOPBITS_1_5}"
    and "q \<in> {JPARITY_NONE, JPARITY_ODD, JPARITY_EVEN, JPARITY_MARK, JPARITY_SPACE}"
  shows "java_databits (line_edit c d s q) = (if s = STOPBITS_1_5 then JDATABITS_5 else d)
    \<and> java_stopbits (line_edit c d s q) = (if s = STOPBITS_2 \<and> d = JDATABITS_5 then STOPBITS_1_5 else s)
    \<and> java_parity (line_edit c d s q) = q
    \<and> line_edit c d s q AND NOT line_mask = c AND NOT line_mask"
  using assms line_edit_size line_edit_stop line_edit_parity line_edit_frame by simp

theorem line_params_roundtrip_witness:
  "java_databits (line_edit 0xFFFFFFFF 7 2 3) = 7 \<and> java_stopbits (line_edit 0xFFFFFFFF 7 2 3) = 2
   \<and> java_parity (line_edit 0xFFFFFFFF 7 2 3) = 3"
  using line_params_roundtrip [of 7 2 3 "0xFFFFFFFF"] by simp

lemma baud_cases_inverse: "map (\<lambda>(s, b). (b, s)) (speed_cases p) = baud_cases p"
  by (cases p) (simp_all add: speed_cases_def baud_cases_def)

lemma distinct_baud_consts: "distinct (map fst (baud_cases p))"
  by (cases p) (simp_all add: baud_cases_def)

lemma distinct_speeds: "distinct (map fst (speed_cases p))"
  by (cases p) (simp_all add: speed_cases_def)

lemma speed_in_baud: "(s, b) \<in> set (speed_cases p) \<longleftrightarrow> (b, s) \<in> set (baud_cases p)"
  unfolding baud_cases_inverse [symmetric] by force

lemma translate_listed: "(s, b) \<in> set (speed_cases p) \<Longrightarrow> translate_speed p s = uint b"
  by (simp add: translate_speed_def map_of_eq_Some_iff [OF distinct_speeds] distinct_speeds)

lemma baudrate_listed: "(b, s) \<in> set (baud_cases p) \<Longrightarrow> get_java_baudrate p b = s"
  by (simp add: get_java_baudrate_def distinct_baud_consts)

lemma baudrate_nonneg_listed:
  "get_java_baudrate p b = s \<Longrightarrow> 0 \<le> s \<Longrightarrow> (b, s) \<in> set (baud_cases p)"
  by (auto simp: get_java_baudrate_def dest: map_of_SomeD split: option.splits)

text \<open>The speed tables agree: a rate listed in \<open>translate_speed\<close> is translated to a
  constant that \<open>get_java_baudrate\<close> reads back as the same rate, and no other non-negative rate
  survives the round trip, for either build.\<close>

theorem speed_roundtrip:
  assumes "0 \<le> s"
  shows "get_java_baudrate p (word_of_int (translate_speed p s)) = s
     \<longleftrightarrow> s \<in> fst ` set (speed_cases p)"
proof
  assume "get_java_baudrate p (word_of_int (translate_speed p s)) = s"
  then show "s \<in> fst ` set (speed_cases p)"
    using baudrate_nonneg_listed assms speed_in_baud by (metis fst_conv imageI)
next
  assume "s \<in> fst ` set (speed_cases p)"
  then obtain b where b: "(s, b) \<in> set (speed_cases p)" by auto
  then show "get_java_baudrate p (word_of_int (translate_speed p s)) = s"
    by (simp add: translate_listed baudrate_listed speed_in_baud)
qed

theorem speed_roundtrip_witness:
  "get_java_baudrate Linux (word_of_int (translate_speed Linux 115200)) = 115200
   \<and> get_java_baudrate Linux (word_of_int (translate_speed Linux 14400)) \<noteq> 14400"
  using speed_roundtrip [of 115200 Linux] speed_roundtrip [of 14400 Linux]
  by (simp add: speed_cases_def)

text \<open>A custom rate is passed on as it is, so it selects the line rate of a constant exactly
  when its number is the value of that constant: asking for 13 baud selects 9600. Two listed rates
  never collide.\<close>

theorem custom_speed_aliases:
  assumes "0 \<le> s" and "(r, b) \<in> set (speed_cases p)"
  shows "translate_speed p s = uint b \<longleftrightarrow>
    s = r \<or> (s \<notin> fst ` set (speed_cases p) \<and> s = uint b)"
proof (cases "s \<in> fst ` set (speed_cases p)")
  case True
  then obtain b' where b': "(s, b') \<in> set (speed_cases p)" by auto
  have "b' = b \<Longrightarrow> s = r"
    using b' assms(2) speed_in_baud baudrate_listed by metis
  moreover have "s = r \<Longrightarrow> b' = b"
    using b' assms(2) distinct_speeds eq_key_imp_eq_value by metis
  ultimately show ?thesis
    using b' True by (auto simp: translate_listed word_uint_eq_iff)
next
  case False
  then have "translate_speed p s = s"
    using assms(1) by (simp add: translate_speed_def map_of_eq_None_iff [THEN iffD2])
  with False assms(2) show ?thesis by force
qed

theorem custom_speed_aliases_witness:
  "translate_speed Linux 13 = uint B9600 \<and> translate_speed Linux 9600 = uint B9600"
  using custom_speed_aliases [of 13 9600 B9600 Linux] custom_speed_aliases [of 9600 9600 B9600 Linux]
  by (simp add: speed_cases_def)

text \<open>\<open>nativeGetParity\<close> reads every parity that \<open>translate_parity\<close> writes except space
  parity: because its test masks with a truth value, space parity is read as even parity whenever the
  lowest bit of the flag word is clear, and as space when it is set.\<close>

theorem native_parity_reads:
  assumes "q \<in> {JPARITY_NONE, JPARITY_ODD, JPARITY_EVEN, JPARITY_MARK, JPARITY_SPACE}"
  shows "native_parity (snd (translate_parity c q)) =
    (if q = JPARITY_SPACE \<and> c AND 1 = 0 then JPARITY_EVEN else q)"
  using assms by (auto simp: line_defs Let_def bitfield)

theorem native_parity_reads_witness:
  "native_parity (snd (translate_parity B115200 JPARITY_SPACE)) = JPARITY_EVEN
   \<and> native_parity (snd (translate_parity B9600 JPARITY_SPACE)) = JPARITY_SPACE"
  using native_parity_reads [of JPARITY_SPACE B115200] native_parity_reads [of JPARITY_SPACE B9600]
  by simp

lemma stop_bit_cases: "c AND CSTOPB = 0 \<or> c AND CSTOPB = CSTOPB"
  using single_bit_cases [of c 6] by simp

text \<open>\<open>nativeStaticGetStopBits\<close> never reports one and a half stop bits, and differs from
  what \<open>set_java_vars\<close> reads in exactly that case.\<close>

theorem static_stopbits_never_1_5:
  "static_stopbits c = (if java_stopbits c = STOPBITS_1_5 then STOPBITS_2 else java_stopbits c)"
  using stop_bit_cases [of c] by (auto simp: static_stopbits_def java_stopbits_def)

text \<open>Reading the flow control mode back after an edit.\<close>

lemma flow_edit_mode:
  "flow_mode (flow_edit m t) =
     (if m AND 3 \<noteq> 0 then 3 else 0) OR (m AND FLOWCONTROL_XONXOFF_IN) OR (m AND FLOWCONTROL_XONXOFF_OUT)"
  "c_cflag (flow_edit m t) AND NOT CRTSCTS = c_cflag t AND NOT CRTSCTS"
  "c_iflag (flow_edit m t) AND NOT (IXON OR IXOFF OR IXANY) = c_iflag t AND NOT (IXON OR IXOFF OR IXANY)"
  using single_bit_cases [of m 2] single_bit_cases [of m 3]
  by (auto simp: flow_mode_def flow_edit_def Let_def bitfield)

end
