(* ===== verification/Posix_Env.thy ===== *)
theory Posix_Env
  imports Serial_Consts Line_Params
begin

text \<open>
  The boundary of the native library. \<open>SerialImp.c\<close> calls the terminal and file interface of
  the C library (on Windows, \<open>termios.c\<close> provides it under the same names) and the Java virtual
  machine. None of that is code of the library, so it is a parameter: a record of functions over an
  arbitrary state type \<open>'w\<close>. A buffer passed by address is an argument (its old contents) and a
  result (its new contents).
\<close>

section \<open>System calls\<close>

datatype open_mode = RDWR_NOCTTY_NONBLOCK | RDONLY_NONBLOCK

record 'w posix =
  errno_of :: "'w \<Rightarrow> errno"
  strerror_of :: "errno \<Rightarrow> string"
  getpid_of :: "'w \<Rightarrow> int"
  tick_of :: "'w \<Rightarrow> int \<times> 'w"
  usleep_op :: "int \<Rightarrow> 'w \<Rightarrow> 'w"
  open_op :: "string \<Rightarrow> open_mode \<Rightarrow> 'w \<Rightarrow> int \<times> 'w"
  close_op :: "fd \<Rightarrow> 'w \<Rightarrow> int \<times> 'w"
  read_op :: "fd \<Rightarrow> int \<Rightarrow> 'w \<Rightarrow> (int \<times> u8 list) \<times> 'w"
  write_op :: "fd \<Rightarrow> u8 list \<Rightarrow> 'w \<Rightarrow> int \<times> 'w"
  select_op :: "fd \<Rightarrow> (int \<times> int) option \<Rightarrow> 'w \<Rightarrow> int \<times> 'w"
  stat_chr :: "string \<Rightarrow> 'w \<Rightarrow> bool option"
  tcgetattr_op :: "fd \<Rightarrow> termios \<Rightarrow> 'w \<Rightarrow> (int \<times> termios) \<times> 'w"
  tcsetattr_op :: "fd \<Rightarrow> termios \<Rightarrow> 'w \<Rightarrow> int \<times> 'w"
  cfsetispeed_op :: "termios \<Rightarrow> int \<Rightarrow> int \<times> termios"
  cfsetospeed_op :: "termios \<Rightarrow> int \<Rightarrow> int \<times> termios"
  cfmakeraw_op :: "termios \<Rightarrow> termios"
  tcdrain_op :: "fd \<Rightarrow> 'w \<Rightarrow> int \<times> 'w"
  tcflush_op :: "fd \<Rightarrow> nat \<Rightarrow> 'w \<Rightarrow> int \<times> 'w"
  tcsendbreak_op :: "fd \<Rightarrow> int \<Rightarrow> 'w \<Rightarrow> int \<times> 'w"
  fcntl_setown :: "fd \<Rightarrow> int \<Rightarrow> 'w \<Rightarrow> int \<times> 'w"
  fcntl_setfl :: "fd \<Rightarrow> int \<Rightarrow> 'w \<Rightarrow> int \<times> 'w"
  fcntl_getfl :: "fd \<Rightarrow> 'w \<Rightarrow> int \<times> 'w"
  fstat_op :: "fd \<Rightarrow> 'w \<Rightarrow> int \<times> 'w"
  tiocmget_op :: "fd \<Rightarrow> u32 \<Rightarrow> 'w \<Rightarrow> (int \<times> u32) \<times> 'w"
  tiocmset_op :: "fd \<Rightarrow> u32 \<Rightarrow> 'w \<Rightarrow> int \<times> 'w"
  tiocgserial_op :: "fd \<Rightarrow> serial_struct \<Rightarrow> 'w \<Rightarrow> (int \<times> serial_struct) \<times> 'w"
  tiocsserial_op :: "fd \<Rightarrow> serial_struct \<Rightarrow> 'w \<Rightarrow> int \<times> 'w"
  tiocgicount_op :: "fd \<Rightarrow> serial_icounter \<Rightarrow> 'w \<Rightarrow> (int \<times> serial_icounter) \<times> 'w"
  tiocsergetlsr_op :: "fd \<Rightarrow> int \<Rightarrow> 'w \<Rightarrow> (int \<times> int) \<times> 'w"
  fionread_op :: "fd \<Rightarrow> int \<Rightarrow> 'w \<Rightarrow> (int \<times> int) \<times> 'w"
  O_NONBLOCK_of :: int
  FASYNC_of :: int

section \<open>The Java virtual machine\<close>

text \<open>
  The fields of the \<open>RXTXPort\<close> object that native code reads and writes, and what it can throw.
  \<open>FindClass\<close> is a predicate on class names. \<open>throw_java_exception\<close> throws nothing when the
  class is not found: it prints and clears the lookup's own exception.
\<close>

record jport =
  j_fd :: int
  j_pid :: int
  j_timeout :: int
  j_speed :: int
  j_dataBits :: int
  j_stopBits :: int
  j_parity :: int

datatype jexc = JExc (exc_class: string) (exc_msg: string)

abbreviation IO_EXCEPTION :: string where "IO_EXCEPTION \<equiv> ''java/io/IOException''"
abbreviation PORT_IN_USE_EXCEPTION :: string where
  "PORT_IN_USE_EXCEPTION \<equiv> ''gnu/io/PortInUseException''"
abbreviation ARRAY_INDEX_OUT_OF_BOUNDS :: string where
  "ARRAY_INDEX_OUT_OF_BOUNDS \<equiv> ''java/lang/ArrayIndexOutOfBoundsException''"
abbreviation UNSUPPORTED_COMM_OPERATION :: string where
  "UNSUPPORTED_COMM_OPERATION \<equiv> ''UnsupportedCommOperationException''"

definition throw_java_exception ::
  "(string \<Rightarrow> bool) \<Rightarrow> string \<Rightarrow> string \<Rightarrow> string \<Rightarrow> jexc option" where
  "throw_java_exception find_class exc foo msg =
     (if \<not> find_class exc then None
      else Some (JExc exc (take 59 (msg @ '' in '' @ foo))))"

section \<open>What a terminal driver promises\<close>

text \<open>
  The contract the port parameters rest on, as POSIX documents it. \<open>live\<close> says that a descriptor
  is open and \<open>attr\<close> is what the driver reports for it. The driver takes raw-mode settings with a
  listed speed (\<open>representable\<close>), and they come back as far as the library looks at them
  (\<open>line_same\<close>): the control flags, the software flow control bits and the two read thresholds.
\<close>

definition line_same :: "termios \<Rightarrow> termios \<Rightarrow> bool" where
  "line_same t u \<longleftrightarrow> c_cflag t = c_cflag u
     \<and> c_iflag t AND (IXON OR IXOFF OR IXANY) = c_iflag u AND (IXON OR IXOFF OR IXANY)
     \<and> c_cc t VTIME = c_cc u VTIME \<and> c_cc t VMIN = c_cc u VMIN"

definition raw_mode :: "termios \<Rightarrow> bool" where
  "raw_mode t \<longleftrightarrow> c_lflag t AND ICANON = 0 \<and> c_cflag t AND CIGNORE = 0"

definition listed_speed :: "platform \<Rightarrow> u32 \<Rightarrow> bool" where
  "listed_speed p b \<longleftrightarrow> b \<noteq> B0 \<and> b \<in> snd ` set (speed_cases p)"

definition legal_chars :: "platform \<Rightarrow> termios \<Rightarrow> bool" where
  \<comment> \<open>Windows refuses settings whose start and stop characters are the same, and, since the emulation gives up binary
    mode for it, those with an end of input character\<close>
  "legal_chars p t \<longleftrightarrow> (p = Win32 \<longrightarrow> c_cc t VSTART \<noteq> c_cc t VSTOP \<and> c_cc t VEOF = 0)"

definition representable :: "platform \<Rightarrow> termios \<Rightarrow> bool" where
  "representable p t \<longleftrightarrow> raw_mode t \<and> java_parity (c_cflag t) \<noteq> -1
     \<and> listed_speed p (c_cflag t AND CBAUD p) \<and> c_ispeed t = c_cflag t AND CBAUD p \<and> legal_chars p t"

definition speed_set :: "platform \<Rightarrow> u32 \<Rightarrow> termios \<Rightarrow> termios \<Rightarrow> bool" where
  "speed_set p b t t' \<longleftrightarrow> c_cflag t' = (c_cflag t AND NOT (CBAUD p)) OR b \<and> c_ispeed t' = b
     \<and> c_cc t' = c_cc t \<and> c_lflag t' = c_lflag t
     \<and> c_iflag t' AND (IXON OR IXOFF OR IXANY) = c_iflag t AND (IXON OR IXOFF OR IXANY)"

lemma line_same_refl [simp]: "line_same t t"
  by (simp add: line_same_def)

locale tty_driver =
  fixes E :: "'w posix" and p :: platform
    and live :: "fd \<Rightarrow> 'w \<Rightarrow> bool" and attr :: "fd \<Rightarrow> 'w \<Rightarrow> termios"
  assumes live_pos: "live fd w \<Longrightarrow> 0 < fd"
    and attr_chars: "live fd w \<Longrightarrow> legal_chars p (attr fd w)"
    and get_attr: "live fd w \<Longrightarrow> tcgetattr_op E fd t0 w = ((0, attr fd w), w)"
    and set_attr: "live fd w \<Longrightarrow> representable p t \<Longrightarrow>
      \<exists>w'. tcsetattr_op E fd t w = (0, w') \<and> live fd w' \<and> line_same (attr fd w') t"
    and ispeed: "listed_speed p b \<Longrightarrow>
      \<exists>r t'. cfsetispeed_op E t (uint b) = (r, t') \<and> 0 \<le> r \<and> speed_set p b t t'"
    and ospeed: "listed_speed p b \<Longrightarrow> c_ispeed t = b \<Longrightarrow>
      \<exists>r t'. cfsetospeed_op E t (uint b) = (r, t') \<and> 0 \<le> r \<and> speed_set p b t t'"

text \<open>The modem control lines: \<open>lines\<close> is the status word; DTR and RTS are the lines a program
  drives.\<close>

abbreviation modem_lines :: u32 where
  "modem_lines \<equiv> TIOCM_DTR OR TIOCM_RTS OR TIOCM_CTS OR TIOCM_CAR OR TIOCM_RNG OR TIOCM_DSR"

abbreviation out_lines :: u32 where "out_lines \<equiv> TIOCM_DTR OR TIOCM_RTS"

locale modem_driver = tty_driver E p live attr
  for E :: "'w posix" and p :: platform
    and live :: "fd \<Rightarrow> 'w \<Rightarrow> bool" and attr :: "fd \<Rightarrow> 'w \<Rightarrow> termios" +
  fixes lines :: "fd \<Rightarrow> 'w \<Rightarrow> u32"
  assumes get_lines: "live fd w \<Longrightarrow>
      \<exists>u w'. tiocmget_op E fd v w = ((0, u), w') \<and> u AND modem_lines = lines fd w AND modem_lines
        \<and> live fd w' \<and> lines fd w' AND out_lines = lines fd w AND out_lines \<and> attr fd w' = attr fd w"
    and set_lines: "live fd w \<Longrightarrow> \<exists>w'. tiocmset_op E fd v w = (0, w') \<and> live fd w'
      \<and> lines fd w' AND out_lines = v AND out_lines \<and> attr fd w' = attr fd w"

end
