(* ===== verification/Port_Params.thy ===== *)
theory Port_Params
  imports Posix_Env
begin

text \<open>
  The functions of \<open>SerialImp.c\<close> that configure an open port: \<open>configure_port\<close>,
  \<open>set_port_params\<close>, the native methods that read and write line parameters, flow control, read
  thresholds, modem lines and the custom divisor. Each takes the environment, the port object or the
  descriptor, and the state. An uninitialised local structure is an argument (\<open>ttyset0\<close>,
  \<open>sstruct0\<close>): the code must not depend on it.
\<close>

section \<open>Configuring a port\<close>

definition configure_port :: "'w posix \<Rightarrow> platform \<Rightarrow> termios \<Rightarrow> fd \<Rightarrow> 'w \<Rightarrow> int \<times> 'w" where
  "configure_port E p ttyset0 fd w =
     (if fd < 0 then (1, w)
      else let ((r, t), w) = tcgetattr_op E fd ttyset0 w in
      if r < 0 then (1, w)
      else let t = t\<lparr>c_iflag := INPCK, c_lflag := 0, c_oflag := 0,
                     c_cflag := CREAD OR CS8 OR CLOCAL,
                     c_cc := (c_cc t)(VMIN := 0, VTIME := 0)\<rparr>;
               (r, t) = cfsetispeed_op E t (uint B9600) in
      if r < 0 then (1, w)
      else let (r, t) = cfsetospeed_op E t (uint B9600) in
      if r < 0 then (1, w)
      else let (r, w) = tcsetattr_op E fd t w in
      if r < 0 then (1, w)
      else if p = Win32 then (0, w)
      else let (_, w) = fcntl_setown E fd (getpid_of E w) w;
               (_, w) = fcntl_setfl E fd (FASYNC_of E) w
      in (0, w))"

text \<open>
  \<open>set_port_params\<close>. \<open>None\<close> is the division by zero that a driver refusing every speed would
  lead to: the divisor is computed before anything checks the speed. The parts under
  \<open>TIOCGSERIAL\<close> belong to the Linux build.
\<close>

definition drop_dtr :: "'w posix \<Rightarrow> fd \<Rightarrow> 'w \<Rightarrow> 'w" where
  "drop_dtr E fd w =
     (let ((_, result), w) = tiocmget_op E fd 0 w
      in snd (tiocmset_op E fd (result AND NOT TIOCM_DTR) w))"

definition set_speeds :: "'w posix \<Rightarrow> termios \<Rightarrow> int \<Rightarrow> bool \<times> termios" where
  \<comment> \<open>\<open>cfsetispeed(..) < 0 || cfsetospeed(..) < 0\<close>, negated, with the structure it leaves\<close>
  "set_speeds E t cspeed =
     (let (r, t) = cfsetispeed_op E t cspeed in
      if r < 0 then (False, t)
      else let (r, t) = cfsetospeed_op E t cspeed in (\<not> r < 0, t))"

definition custom_speed ::
  "'w posix \<Rightarrow> platform \<Rightarrow> serial_struct \<Rightarrow> fd \<Rightarrow> int \<Rightarrow> termios \<Rightarrow> 'w \<Rightarrow> ((int \<times> termios) \<times> 'w) option" where
  "custom_speed E p sstruct0 fd cspeed t w =
     (if p = Win32 then
        (let (ok, t) = set_speeds E t (uint B38400) in Some ((if ok then 0 else 1, t), w))
      else let ((r, ss), w) = tiocgserial_op E fd sstruct0 w in
      if r < 0 then Some ((1, t), w)
      else if cspeed = 0 then None
      else let ss = ss\<lparr>custom_divisor := baud_base ss sdiv cspeed\<rparr>;
               (ok, t) = set_speeds E t (uint B38400) in
      if \<not> ok then Some ((1, t), w)
      else if baud_base ss < 1 then Some ((1, t), w)
      else let (r, w) = tiocsserial_op E fd ss w in
      if r < 0 \<and> cspeed \<noteq> 38400 then Some ((1, t), w) else Some ((0, t), w))"

definition set_port_params ::
  "'w posix \<Rightarrow> platform \<Rightarrow> termios \<Rightarrow> serial_struct \<Rightarrow> fd \<Rightarrow> int \<Rightarrow> int \<Rightarrow> int \<Rightarrow> int \<Rightarrow> 'w
    \<Rightarrow> (int \<times> 'w) option" where
  "set_port_params E p ttyset0 sstruct0 fd cspeed dataBits stopBits parity w =
     (let ((r, t), w) = tcgetattr_op E fd ttyset0 w in
      if r < 0 then Some (1, w)
      else let (r, c) = translate_data_bits (c_cflag t) dataBits in
      if r \<noteq> 0 then Some (1, w)
      else let (r, c) = translate_stop_bits c stopBits in
      if r \<noteq> 0 then Some (1, w)
      else let (r, c) = translate_parity c parity in
      if r \<noteq> 0 then Some (1, w)
      else let t = t\<lparr>c_cflag := c\<rparr>;
               w = (if cspeed = 0 then drop_dtr E fd w else w);
               (cspeed, ss, w) =
                 (if p = Linux \<and> cspeed = uint B38400
                  then (let ((r, ss), w) = tiocgserial_op E fd sstruct0 w
                        in (if r = 0 then 38400 else cspeed, ss, w))
                  else (cspeed, sstruct0, w));
               (ok, t) = set_speeds E t cspeed in
      (case (if ok then Some ((0, t), w) else custom_speed E p ss fd cspeed t w) of
         None \<Rightarrow> None
       | Some ((r, t), w) \<Rightarrow>
           if r \<noteq> 0 then Some (1, w)
           else let (r, w) = tcsetattr_op E fd t w in
           if r < 0 then Some (1, w) else Some (0, w)))"

definition nativeSetSerialPortParams ::
  "'w posix \<Rightarrow> platform \<Rightarrow> termios \<Rightarrow> serial_struct \<Rightarrow> jport \<Rightarrow> int \<Rightarrow> int \<Rightarrow> int \<Rightarrow> int \<Rightarrow> 'w
    \<Rightarrow> (bool \<times> 'w) option" where
  "nativeSetSerialPortParams E p ttyset0 sstruct0 jp speed dataBits stopBits parity w =
     (let fd = j_fd jp; cspeed = translate_speed p speed in
      if cspeed < 0 then Some (True, w)
      else case set_port_params E p ttyset0 sstruct0 fd cspeed dataBits stopBits parity w of
        None \<Rightarrow> None
      | Some (r, w) \<Rightarrow> Some (r \<noteq> 0, w))"

section \<open>Reporting parameters to Java\<close>

definition set_java_vars :: "'w posix \<Rightarrow> platform \<Rightarrow> termios \<Rightarrow> fd \<Rightarrow> jport \<Rightarrow> 'w \<Rightarrow> jport \<times> 'w" where
  "set_java_vars E p ttyset0 fd jp w =
     (let ((r, t), w) = tcgetattr_op E fd ttyset0 w in
      if r < 0 then (jp, w)
      else (jp\<lparr>j_speed := get_java_baudrate p (c_cflag t AND CBAUD p),
               j_dataBits := java_databits (c_cflag t),
               j_stopBits := java_stopbits (c_cflag t),
               j_parity := java_parity (c_cflag t)\<rparr>, w))"

definition nativeGetFlowControlMode :: "'w posix \<Rightarrow> termios \<Rightarrow> fd \<Rightarrow> 'w \<Rightarrow> u32 \<times> 'w" where
  "nativeGetFlowControlMode E ttyset0 fd w =
     (let ((_, t), w) = tcgetattr_op E fd ttyset0 w in (flow_mode t, w))"

definition nativeGetParity :: "'w posix \<Rightarrow> termios \<Rightarrow> fd \<Rightarrow> 'w \<Rightarrow> int \<times> 'w" where
  "nativeGetParity E ttyset0 fd w =
     (let ((r, t), w) = tcgetattr_op E fd ttyset0 w in
      if r < 0 then (-1, w) else (native_parity (c_cflag t), w))"

section \<open>Flow control and read thresholds\<close>

definition setflowcontrol ::
  "'w posix \<Rightarrow> (string \<Rightarrow> bool) \<Rightarrow> termios \<Rightarrow> jport \<Rightarrow> u32 \<Rightarrow> 'w \<Rightarrow> jexc option \<times> 'w" where
  "setflowcontrol E fc ttyset0 jp flowmode w =
     (let fail = throw_java_exception fc UNSUPPORTED_COMM_OPERATION [] ''flow control type not supported'';
          ((r, t), w) = tcgetattr_op E (j_fd jp) ttyset0 w in
      if r \<noteq> 0 then (fail, w)
      else let (r, w) = tcsetattr_op E (j_fd jp) (flow_edit flowmode t) w in
      if r \<noteq> 0 then (fail, w) else (None, w))"

definition io_error :: "'w posix \<Rightarrow> (string \<Rightarrow> bool) \<Rightarrow> string \<Rightarrow> 'w \<Rightarrow> jexc option" where
  \<comment> \<open>\<open>throw_java_exception(env, IO_EXCEPTION, foo, strerror(errno))\<close>\<close>
  "io_error E fc foo w = throw_java_exception fc IO_EXCEPTION foo (strerror_of E (errno_of E w))"

definition NativeEnableReceiveTimeoutThreshold ::
  "'w posix \<Rightarrow> (string \<Rightarrow> bool) \<Rightarrow> termios \<Rightarrow> jport \<Rightarrow> int \<Rightarrow> int \<Rightarrow> 'w \<Rightarrow> jexc option \<times> 'w" where
  "NativeEnableReceiveTimeoutThreshold E fc ttyset0 jp vtime threshold w =
     (let timeout = (if vtime < 0 then 0 else if vtime = 0 then 1 else vtime);
          ((r, t), w) = tcgetattr_op E (j_fd jp) ttyset0 w in
      if r < 0 then (io_error E fc ''TimeoutThreshold'' w, w)
      else let t = t\<lparr>c_cc := (c_cc t)(VMIN := cc_of_int threshold,
                                         VTIME := cc_of_int (timeout sdiv 100))\<rparr>;
               (r, w) = tcsetattr_op E (j_fd jp) t w in
      if r < 0 then (io_error E fc ''TimeoutThreshold'' w, w) else (None, w))"

definition NativegetReceiveTimeout ::
  "'w posix \<Rightarrow> (string \<Rightarrow> bool) \<Rightarrow> termios \<Rightarrow> jport \<Rightarrow> 'w \<Rightarrow> (int \<times> jexc option) \<times> 'w" where
  "NativegetReceiveTimeout E fc ttyset0 jp w =
     (let ((r, t), w) = tcgetattr_op E (j_fd jp) ttyset0 w in
      if r < 0 then ((-1, io_error E fc ''getReceiveTimeout'' w), w)
      else ((uint (c_cc t VTIME) * 100, None), w))"

definition NativeisReceiveTimeoutEnabled ::
  "'w posix \<Rightarrow> (string \<Rightarrow> bool) \<Rightarrow> termios \<Rightarrow> jport \<Rightarrow> 'w \<Rightarrow> (bool \<times> jexc option) \<times> 'w" where
  "NativeisReceiveTimeoutEnabled E fc ttyset0 jp w =
     (let ((r, t), w) = tcgetattr_op E (j_fd jp) ttyset0 w in
      if r < 0 then ((False, io_error E fc ''isReceiveTimeoutEnabled'' w), w)
      else ((uint (c_cc t VTIME) > 0, None), w))"

section \<open>Facts about speed fields\<close>

lemma listed_in_CBAUD: "listed_speed p b \<Longrightarrow> b AND NOT (CBAUD p) = 0"
  by (cases p) (auto simp: listed_speed_def speed_cases_def CBAUD_def)

lemma listed_and_CBAUD: "listed_speed p b \<Longrightarrow> b AND CBAUD p = b"
  by (cases p) (auto simp: listed_speed_def speed_cases_def CBAUD_def)

lemma listed_disjoint: "listed_speed p b \<Longrightarrow> CBAUD p AND k = 0 \<Longrightarrow> b AND k = 0"
  using listed_and_CBAUD [of p b] by (metis and.assoc and_zero_eq)

lemma speed_field_get: "listed_speed p b \<Longrightarrow> ((c AND NOT (CBAUD p)) OR b) AND CBAUD p = b"
  using field_set_get [of c "CBAUD p" b] listed_and_CBAUD [of p b] by simp

lemma speed_field_frame:
  "listed_speed p b \<Longrightarrow> CBAUD p AND k = 0 \<Longrightarrow> ((c AND NOT (CBAUD p)) OR b) AND k = c AND k"
  using field_set_frame [of "CBAUD p" k b c] listed_disjoint [of p b k] by simp

lemma CBAUD_disjoint [simp]:
  "CBAUD p AND CSIZE = 0" "CBAUD p AND CSTOPB = 0" "CBAUD p AND CIGNORE = 0"
  "CBAUD p AND (PARENB OR PARODD OR CMSPAR) = 0" "CBAUD p AND CRTSCTS = 0"
  by (cases p; simp add: CBAUD_def)+

lemma speed_field_line:
  assumes "listed_speed p b"
  shows "java_databits ((c AND NOT (CBAUD p)) OR b) = java_databits c"
    and "java_stopbits ((c AND NOT (CBAUD p)) OR b) = java_stopbits c"
    and "java_parity ((c AND NOT (CBAUD p)) OR b) = java_parity c"
    and "((c AND NOT (CBAUD p)) OR b) AND CIGNORE = c AND CIGNORE"
  using assms CBAUD_disjoint [of p] speed_field_frame [OF assms]
  by (simp_all only: java_databits_def java_stopbits_def java_parity_def)

lemma speed_set_twice:
  "speed_set p b t u \<Longrightarrow> speed_set p b u v \<Longrightarrow> speed_set p b t v"
  by (simp add: speed_set_def field_set_twice)

lemma line_edit_CIGNORE: "line_edit c d s q AND CIGNORE = c AND CIGNORE"
  using mask_weaken [OF line_edit_frame, of "NOT CIGNORE" c d s q] by simp

lemma flow_edit_cflag:
  "m AND NOT CRTSCTS = m \<Longrightarrow> c_cflag (flow_edit f t) AND m = c_cflag t AND m"
  by (rule masked_bit [OF flow_edit_mode(2)])

lemma flow_edit_other [simp]:
  "c_lflag (flow_edit f t) = c_lflag t" "c_ispeed (flow_edit f t) = c_ispeed t" "c_cc (flow_edit f t) = c_cc t"
  by (simp_all add: flow_edit_def Let_def)

lemma flow_edit_representable: "representable p t \<Longrightarrow> representable p (flow_edit m t)"
  by (cases p) (simp_all add: representable_def raw_mode_def flow_edit_cflag CBAUD_def java_parity_def legal_chars_def)

lemma line_same_flow: "line_same t u \<Longrightarrow> flow_mode t = flow_mode u"
  using masked_bit [of "c_iflag t" "IXON OR IXOFF OR IXANY" "c_iflag u" IXON]
    masked_bit [of "c_iflag t" "IXON OR IXOFF OR IXANY" "c_iflag u" IXOFF]
  by (simp add: line_same_def flow_mode_def)

section \<open>Setting parameters on a driver that keeps its contract\<close>

context tty_driver
begin

lemma set_speeds_listed:
  assumes "listed_speed p b"
  obtains u where "set_speeds E t (uint b) = (True, u)" and "speed_set p b t u"
proof -
  obtain r t1 where 1: "cfsetispeed_op E t (uint b) = (r, t1)" "0 \<le> r" "speed_set p b t t1"
    using ispeed [OF assms] by blast
  then have "c_ispeed t1 = b" by (simp add: speed_set_def)
  then obtain r' t2 where 2: "cfsetospeed_op E t1 (uint b) = (r', t2)" "0 \<le> r'" "speed_set p b t1 t2"
    using ospeed [OF assms] by blast
  have "set_speeds E t (uint b) = (True, t2)"
    using 1 2 by (simp add: set_speeds_def)
  moreover have "speed_set p b t t2"
    using 1(3) 2(3) by (rule speed_set_twice)
  ultimately show thesis by (rule that)
qed

lemma set_speed_attr:
  assumes "live fd w" and "listed_speed p b" and "raw_mode t" and "java_parity (c_cflag t) \<noteq> -1"
    and "set_speeds E t (uint b) = (True, u)" and "speed_set p b t u" and "legal_chars p t"
  obtains w' where "tcsetattr_op E fd u w = (0, w')" and "live fd w'"
    and "c_cflag (attr fd w') = (c_cflag t AND NOT (CBAUD p)) OR b"
proof -
  have "representable p u"
    using assms
    by (simp add: representable_def raw_mode_def speed_set_def speed_field_get speed_field_line legal_chars_def)
  then obtain w' where "tcsetattr_op E fd u w = (0, w')" "live fd w'" "line_same (attr fd w') u"
    using set_attr [OF assms(1)] by blast
  then show thesis
    using assms(6) by (intro that) (auto simp: line_same_def speed_set_def)
qed

lemma set_port_params_listed:
  assumes "live fd w" and "raw_mode (attr fd w)" and "d \<in> {5, 6, 7, 8}" and "s \<in> {1, 2, 3}"
    and "q \<in> {0, 1, 2, 3, 4}" and b: "listed_speed p b" and "\<not> (p = Linux \<and> b = B38400)"
  obtains w' where "set_port_params E p t0 ss0 fd (uint b) d s q w = Some (0, w')" and "live fd w'"
    and "c_cflag (attr fd w') = (line_edit (c_cflag (attr fd w)) d s q AND NOT (CBAUD p)) OR b"
proof -
  define c where "c = line_edit (c_cflag (attr fd w)) d s q"
  define t where "t = (attr fd w)\<lparr>c_cflag := c\<rparr>"
  obtain u where u: "set_speeds E t (uint b) = (True, u)" "speed_set p b t u"
    using set_speeds_listed [OF b] .
  have raw: "raw_mode t"
    using assms(2) by (simp add: raw_mode_def t_def c_def line_edit_CIGNORE)
  have par: "java_parity (c_cflag t) \<noteq> -1"
    using line_edit_parity [OF assms(5)] assms(5) by (auto simp: t_def c_def)
  obtain w' where w': "tcsetattr_op E fd u w = (0, w')" "live fd w'"
      "c_cflag (attr fd w') = (c_cflag t AND NOT (CBAUD p)) OR b"
    using set_speed_attr [OF assms(1) b raw par u] attr_chars [OF assms(1)] by (auto simp: legal_chars_def t_def)
  have nz: "uint b \<noteq> 0" using b by (simp add: listed_speed_def uint_0_iff)
  have not38: "\<not> (p = Linux \<and> uint b = uint B38400)"
    using assms(7) by (metis word_uint_eqI)
  have "set_port_params E p t0 ss0 fd (uint b) d s q w = Some (0, w')"
    using get_attr [OF assms(1)] data_bits_ok [THEN iffD2, OF assms(3)]
      stop_bits_ok [THEN iffD2, OF assms(4)] parity_ok [THEN iffD2, OF assms(5)] u(1) w'(1) nz not38
    by (cases p) (simp_all add: set_port_params_def Let_def case_prod_beta t_def c_def line_edit_def)
  then show thesis
    using w' by (intro that) (simp_all add: t_def c_def)
qed

text \<open>Setting a listed speed and valid line parameters, and reading them back.\<close>

lemma set_params_reported:
  assumes "live (j_fd jp) w" and "raw_mode (attr (j_fd jp) w)" and "(speed, b) \<in> set (speed_cases p)"
    and "b \<noteq> B0" and "\<not> (p = Linux \<and> b = B38400)"
    and "d \<in> {5, 6, 7, 8}" and "s \<in> {1, 2, 3}" and "q \<in> {0, 1, 2, 3, 4}"
  obtains w' where
    "nativeSetSerialPortParams E p t0 ss0 jp speed d s q w = Some (False, w')"
    and "live (j_fd jp) w'"
    and "set_java_vars E p t1 (j_fd jp) jp w' =
      (jp\<lparr>j_speed := speed, j_dataBits := if s = 3 then 5 else d,
          j_stopBits := if s = 3 then 3 else if s = 2 \<and> d = 5 then 3 else s, j_parity := q\<rparr>, w')"
proof -
  have b: "listed_speed p b"
    using assms(3,4) by (force simp: listed_speed_def)
  define c where "c = line_edit (c_cflag (attr (j_fd jp) w)) d s q"
  obtain w' where w': "set_port_params E p t0 ss0 (j_fd jp) (uint b) d s q w = Some (0, w')"
      "live (j_fd jp) w'" "c_cflag (attr (j_fd jp) w') = (c AND NOT (CBAUD p)) OR b"
    using set_port_params_listed [OF assms(1,2,6,7,8) b assms(5)] unfolding c_def by metis
  have "nativeSetSerialPortParams E p t0 ss0 jp speed d s q w = Some (False, w')"
    using w'(1) translate_listed [OF assms(3)] by (simp add: nativeSetSerialPortParams_def Let_def)
  moreover have "get_java_baudrate p b = speed"
    using assms(3) by (simp add: speed_in_baud baudrate_listed)
  moreover have "set_java_vars E p t1 (j_fd jp) jp w' =
      (jp\<lparr>j_speed := get_java_baudrate p (c_cflag (attr (j_fd jp) w') AND CBAUD p),
          j_dataBits := java_databits (c_cflag (attr (j_fd jp) w')),
          j_stopBits := java_stopbits (c_cflag (attr (j_fd jp) w')),
          j_parity := java_parity (c_cflag (attr (j_fd jp) w'))\<rparr>, w')"
    using get_attr [OF w'(2)] by (simp add: set_java_vars_def)
  ultimately show thesis
    using w' assms(6,7,8)
    by (intro that) (auto simp: speed_field_get [OF b] speed_field_line [OF b]
      line_edit_size line_edit_parity line_edit_stop c_def)
qed

text \<open>The read thresholds: the timeout keeps tenths of a second in eight bits.\<close>

lemma attr_update:
  assumes "live fd w" and "representable p t"
  obtains w' where "tcsetattr_op E fd t w = (0, w')" and "live fd w'" and "line_same (attr fd w') t"
  using set_attr [OF assms] by blast

lemma receive_timeout_stored:
  assumes "live (j_fd jp) w" and "representable p (attr (j_fd jp) w)"
  obtains w' where
    "NativeEnableReceiveTimeoutThreshold E fc t0 jp vtime threshold w = (None, w')"
    and "live (j_fd jp) w'" and "c_cc (attr (j_fd jp) w') VMIN = cc_of_int threshold"
    and "c_cc (attr (j_fd jp) w') VTIME =
      cc_of_int ((if vtime < 0 then 0 else if vtime = 0 then 1 else vtime) sdiv 100)"
    and "c_cflag (attr (j_fd jp) w') = c_cflag (attr (j_fd jp) w)"
proof -
  define x where "x = (if vtime < 0 then 0 else if vtime = 0 then 1 else vtime) sdiv 100"
  define t where "t = (attr (j_fd jp) w)\<lparr>c_cc := (c_cc (attr (j_fd jp) w))
    (VMIN := cc_of_int threshold, VTIME := cc_of_int x)\<rparr>"
  have "representable p t"
    using assms(2) by (simp add: t_def representable_def raw_mode_def legal_chars_def)
  then obtain w' where "tcsetattr_op E (j_fd jp) t w = (0, w')" "live (j_fd jp) w'"
      "line_same (attr (j_fd jp) w') t"
    using attr_update [OF assms(1)] by blast
  then show thesis
    using get_attr [OF assms(1)]
    by (intro that [of w']) (auto simp: NativeEnableReceiveTimeoutThreshold_def t_def x_def line_same_def Let_def)
qed

lemma receive_timeout_read:
  "live (j_fd jp) w \<Longrightarrow> NativegetReceiveTimeout E fc t0 jp w
     = ((uint (c_cc (attr (j_fd jp) w) VTIME) * 100, None), w)"
  "live (j_fd jp) w \<Longrightarrow> NativeisReceiveTimeoutEnabled E fc t0 jp w
     = ((uint (c_cc (attr (j_fd jp) w) VTIME) > 0, None), w)"
  by (simp_all add: NativegetReceiveTimeout_def NativeisReceiveTimeoutEnabled_def get_attr)

lemma setflowcontrol_reported:
  assumes "live (j_fd jp) w" and "representable p (attr (j_fd jp) w)"
  obtains w' where "setflowcontrol E fc t0 jp m w = (None, w')"
    and "nativeGetFlowControlMode E t1 (j_fd jp) w' = (flow_mode (flow_edit m (attr (j_fd jp) w)), w')"
proof -
  obtain w' where w': "tcsetattr_op E (j_fd jp) (flow_edit m (attr (j_fd jp) w)) w = (0, w')"
      "live (j_fd jp) w'" "line_same (attr (j_fd jp) w') (flow_edit m (attr (j_fd jp) w))"
    using attr_update [OF assms(1) flow_edit_representable [OF assms(2)]] by blast
  then show thesis
    using get_attr [OF assms(1)] get_attr [OF w'(2)] line_same_flow [OF w'(3)]
    by (intro that [of w']) (simp_all add: setflowcontrol_def nativeGetFlowControlMode_def)
qed

end

text \<open>Arguments out of range are refused before anything is written.\<close>

lemma set_port_params_invalid:
  assumes "tcgetattr_op E fd t0 w = ((r, t), w')"
    and "r < 0 \<or> d \<notin> {5, 6, 7, 8} \<or> s \<notin> {1, 2, 3} \<or> q \<notin> {0, 1, 2, 3, 4}"
  shows "set_port_params E p t0 ss0 fd cs d s q w = Some (1, w')"
proof -
  obtain r1 c1 r2 c2 r3 c3 where
    1: "translate_data_bits (c_cflag t) d = (r1, c1)" and 2: "translate_stop_bits c1 s = (r2, c2)"
    and 3: "translate_parity c2 q = (r3, c3)"
    by (metis surj_pair)
  have "r < 0 \<or> r1 \<noteq> 0 \<or> r2 \<noteq> 0 \<or> r3 \<noteq> 0"
    using assms(2) data_bits_ok [of "c_cflag t" d] stop_bits_ok [of c1 s] parity_ok [of c2 q]
    unfolding 1 2 3 fst_conv by blast
  then show ?thesis
    by (elim disjE) (simp_all add: set_port_params_def assms(1) 1 2 3)
qed

end
