(* ===== verification/Modem_Lines.thy ===== *)
theory Modem_Lines
  imports Port_Params
begin

text \<open>
  The single-call native methods of \<open>SerialImp.c\<close>: modem lines, breaks, the custom divisor, the
  special characters, flushing and counting input. \<open>ioctl(fd, TIOCMGET, &result)\<close> gets the address
  of a variable the code sets to 0 first and whose contents it uses without looking at the return code.
\<close>

section \<open>Modem lines\<close>

definition isDSR :: "'w posix \<Rightarrow> jport \<Rightarrow> 'w \<Rightarrow> bool \<times> 'w" where
  "isDSR E jp w =
     (let ((_, result), w) = tiocmget_op E (j_fd jp) 0 w in (result AND TIOCM_DSR \<noteq> 0, w))"

definition isCD :: "'w posix \<Rightarrow> jport \<Rightarrow> 'w \<Rightarrow> bool \<times> 'w" where
  "isCD E jp w =
     (let ((_, result), w) = tiocmget_op E (j_fd jp) 0 w in (result AND TIOCM_CD \<noteq> 0, w))"

definition isCTS :: "'w posix \<Rightarrow> jport \<Rightarrow> 'w \<Rightarrow> bool \<times> 'w" where
  "isCTS E jp w =
     (let ((_, result), w) = tiocmget_op E (j_fd jp) 0 w in (result AND TIOCM_CTS \<noteq> 0, w))"

definition isRI :: "'w posix \<Rightarrow> jport \<Rightarrow> 'w \<Rightarrow> bool \<times> 'w" where
  "isRI E jp w =
     (let ((_, result), w) = tiocmget_op E (j_fd jp) 0 w in (result AND TIOCM_RI \<noteq> 0, w))"

definition isRTS :: "'w posix \<Rightarrow> jport \<Rightarrow> 'w \<Rightarrow> bool \<times> 'w" where
  "isRTS E jp w =
     (let ((_, result), w) = tiocmget_op E (j_fd jp) 0 w in (result AND TIOCM_RTS \<noteq> 0, w))"

definition isDTR :: "'w posix \<Rightarrow> jport \<Rightarrow> 'w \<Rightarrow> bool \<times> 'w" where
  "isDTR E jp w =
     (let ((_, result), w) = tiocmget_op E (j_fd jp) 0 w in (result AND TIOCM_DTR \<noteq> 0, w))"

definition setRTS :: "'w posix \<Rightarrow> jport \<Rightarrow> bool \<Rightarrow> 'w \<Rightarrow> 'w" where
  "setRTS E jp state w =
     (let ((_, result), w) = tiocmget_op E (j_fd jp) 0 w;
          result = (if state then result OR TIOCM_RTS else result AND NOT TIOCM_RTS)
      in snd (tiocmset_op E (j_fd jp) result w))"

definition setDSR :: "'w posix \<Rightarrow> jport \<Rightarrow> bool \<Rightarrow> 'w \<Rightarrow> 'w" where
  "setDSR E jp state w =
     (let ((_, result), w) = tiocmget_op E (j_fd jp) 0 w;
          result = (if state then result OR TIOCM_DSR else result AND NOT TIOCM_DSR)
      in snd (tiocmset_op E (j_fd jp) result w))"

definition setDTR :: "'w posix \<Rightarrow> jport \<Rightarrow> bool \<Rightarrow> 'w \<Rightarrow> 'w" where
  "setDTR E jp state w =
     (let ((_, result), w) = tiocmget_op E (j_fd jp) 0 w;
          result = (if state then result OR TIOCM_DTR else result AND NOT TIOCM_DTR)
      in snd (tiocmset_op E (j_fd jp) result w))"

section \<open>Breaks, input queue, special characters\<close>

definition sendBreak :: "'w posix \<Rightarrow> jport \<Rightarrow> int \<Rightarrow> 'w \<Rightarrow> 'w" where
  "sendBreak E jp duration w = snd (tcsendbreak_op E (j_fd jp) (duration sdiv 250) w)"

definition nativeClearCommInput :: "'w posix \<Rightarrow> jport \<Rightarrow> 'w \<Rightarrow> bool \<times> 'w" where
  "nativeClearCommInput E jp w =
     (let (r, w) = tcflush_op E (j_fd jp) TCIFLUSH w in (r = 0, w))"

definition nativeavailable ::
  "'w posix \<Rightarrow> (string \<Rightarrow> bool) \<Rightarrow> int \<Rightarrow> jport \<Rightarrow> 'w \<Rightarrow> (int \<times> jexc option) \<times> 'w" where
  \<comment> \<open>\<open>result0\<close> is the uninitialised variable \<open>result\<close>, which a failing call may leave as it was\<close>
  "nativeavailable E fc result0 jp w =
     (let ((r, result), w) = fionread_op E (j_fd jp) result0 w in
      if r < 0 then ((result, io_error E fc ''nativeavailable'' w), w)
      else if result = -1 then ((result, io_error E fc ''nativeavailable'' w), w)
      else ((result, None), w))"

definition nativeGetParityErrorChar :: "(fd \<Rightarrow> 'w \<Rightarrow> u8) \<Rightarrow> platform \<Rightarrow> jport \<Rightarrow> 'w \<Rightarrow> int" where
  \<comment> \<open>the first argument is \<open>termiosGetParityErrorChar\<close> of the Windows build\<close>
  "nativeGetParityErrorChar get p jp w =
     (if p = Win32 then jbyte_of_cc (get (j_fd jp) w) else 0)"

definition nativeSetParityErrorChar ::
  "'w posix \<Rightarrow> (fd \<Rightarrow> u8 \<Rightarrow> 'w \<Rightarrow> 'w) \<Rightarrow> (string \<Rightarrow> bool) \<Rightarrow> platform \<Rightarrow> jport \<Rightarrow> int \<Rightarrow> 'w
    \<Rightarrow> (bool \<times> jexc option) \<times> 'w" where
  "nativeSetParityErrorChar E put fc p jp v w =
     (if p = Win32 then ((True, None), put (j_fd jp) (cc_of_int v) w)
      else ((False, throw_java_exception fc UNSUPPORTED_COMM_OPERATION ''Not implemented... yet''
                      (strerror_of E (errno_of E w))), w))"

definition nativeGetEndOfInputChar :: "'w posix \<Rightarrow> termios \<Rightarrow> jport \<Rightarrow> 'w \<Rightarrow> int \<times> 'w" where
  "nativeGetEndOfInputChar E ttyset0 jp w =
     (let ((r, t), w) = tcgetattr_op E (j_fd jp) ttyset0 w in
      if r < 0 then (-1, w) else (jbyte_of_cc (c_cc t VEOF), w))"

definition nativeSetEndOfInputChar ::
  "'w posix \<Rightarrow> (string \<Rightarrow> bool) \<Rightarrow> termios \<Rightarrow> jport \<Rightarrow> int \<Rightarrow> 'w \<Rightarrow> (bool \<times> jexc option) \<times> 'w" where
  "nativeSetEndOfInputChar E fc ttyset0 jp v w =
     (let ((r, t), w) = tcgetattr_op E (j_fd jp) ttyset0 w in
      if r < 0 then ((False, io_error E fc ''nativeSetEndOfInputChar'' w), w)
      else let (r, w) = tcsetattr_op E (j_fd jp) (t\<lparr>c_cc := (c_cc t)(VEOF := cc_of_int v)\<rparr>) w in
      if r < 0 then ((False, io_error E fc ''nativeSetEndOfInputChar'' w), w)
      else ((True, None), w))"

section \<open>Baud base and divisor\<close>

definition no_tiocgserial :: "'w posix \<Rightarrow> (string \<Rightarrow> bool) \<Rightarrow> string \<Rightarrow> 'w \<Rightarrow> jexc option" where
  \<comment> \<open>the branch of a build without \<open>TIOCGSERIAL\<close>\<close>
  "no_tiocgserial E fc foo w =
     throw_java_exception fc UNSUPPORTED_COMM_OPERATION foo (strerror_of E (errno_of E w))"

definition nativeSetBaudBase ::
  "'w posix \<Rightarrow> (string \<Rightarrow> bool) \<Rightarrow> platform \<Rightarrow> serial_struct \<Rightarrow> jport \<Rightarrow> int \<Rightarrow> 'w
    \<Rightarrow> (bool \<times> jexc option) \<times> 'w" where
  "nativeSetBaudBase E fc p sstruct0 jp BaudBase w =
     (if p = Win32 then ((True, no_tiocgserial E fc ''nativeSetBaudBase'' w), w)
      else let ((r, ss), w) = tiocgserial_op E (j_fd jp) sstruct0 w in
      if r < 0 then ((True, io_error E fc ''nativeSetBaudBase'' w), w)
      else let ss = ss\<lparr>baud_base := BaudBase\<rparr> in
      if baud_base ss < 1 then ((True, io_error E fc ''nativeSetBaudBase'' w), w)
      else let (r, w) = tiocsserial_op E (j_fd jp) ss w in
      if r < 0 then ((True, io_error E fc ''nativeSetBaudBase'' w), w)
      else ((False, None), w))"

definition nativeGetBaudBase ::
  "'w posix \<Rightarrow> (string \<Rightarrow> bool) \<Rightarrow> platform \<Rightarrow> serial_struct \<Rightarrow> jport \<Rightarrow> 'w
    \<Rightarrow> (int \<times> jexc option) \<times> 'w" where
  "nativeGetBaudBase E fc p sstruct0 jp w =
     (if p = Win32 then ((-1, no_tiocgserial E fc ''nativeGetBaudBase'' w), w)
      else let ((r, ss), w) = tiocgserial_op E (j_fd jp) sstruct0 w in
      if r < 0 then ((-1, io_error E fc ''nativeGetBaudBase'' w), w)
      else ((baud_base ss, None), w))"

definition nativeSetDivisor ::
  "'w posix \<Rightarrow> (string \<Rightarrow> bool) \<Rightarrow> platform \<Rightarrow> serial_struct \<Rightarrow> jport \<Rightarrow> int \<Rightarrow> 'w
    \<Rightarrow> (bool \<times> jexc option) \<times> 'w" where
  \<comment> \<open>the argument \<open>Divisor\<close> is never stored in the structure\<close>
  "nativeSetDivisor E fc p sstruct0 jp Divisor w =
     (if p = Win32 then ((True, no_tiocgserial E fc ''nativeSetDivisor'' w), w)
      else let ((r, ss), w) = tiocgserial_op E (j_fd jp) sstruct0 w in
      if r < 0 then ((True, io_error E fc ''nativeSetDivisor'' w), w)
      else if custom_divisor ss < 1 then ((True, io_error E fc ''nativeSetDivisor'' w), w)
      else let (r, w) = tiocsserial_op E (j_fd jp) ss w in
      if r < 0 then ((True, io_error E fc ''nativeSetDivisor'' w), w)
      else ((False, None), w))"

definition nativeGetDivisor ::
  "'w posix \<Rightarrow> (string \<Rightarrow> bool) \<Rightarrow> platform \<Rightarrow> serial_struct \<Rightarrow> jport \<Rightarrow> 'w
    \<Rightarrow> (int \<times> jexc option) \<times> 'w" where
  "nativeGetDivisor E fc p sstruct0 jp w =
     (if p = Win32 then ((-1, no_tiocgserial E fc ''nativeGetDivisor'' w), w)
      else let ((r, ss), w) = tiocgserial_op E (j_fd jp) sstruct0 w in
      if r < 0 then ((-1, io_error E fc ''nativeGetDivisor'' w), w)
      else ((custom_divisor ss, None), w))"

section \<open>Modem lines on a driver that keeps its contract\<close>

lemma out_bits:
  "(x OR TIOCM_RTS) AND TIOCM_RTS \<noteq> (0::u32)" "(x AND NOT TIOCM_RTS) AND TIOCM_RTS = (0::u32)"
  "(x OR TIOCM_DTR) AND TIOCM_DTR \<noteq> (0::u32)" "(x AND NOT TIOCM_DTR) AND TIOCM_DTR = (0::u32)"
  "(x OR TIOCM_RTS) AND TIOCM_DTR = x AND (TIOCM_DTR::u32)"
  "(x AND NOT TIOCM_RTS) AND TIOCM_DTR = x AND (TIOCM_DTR::u32)"
  "(x OR TIOCM_DTR) AND TIOCM_RTS = x AND (TIOCM_RTS::u32)"
  "(x AND NOT TIOCM_DTR) AND TIOCM_RTS = x AND (TIOCM_RTS::u32)"
  by (simp_all add: bitfield)

context modem_driver
begin

text \<open>What a query of a line sees, and what driving an output line leaves.\<close>

lemma read_line:
  assumes "live fd w" and "m AND modem_lines = m"
  shows "fst (let ((_, result), w) = tiocmget_op E fd 0 w in (result AND m \<noteq> 0, w)) \<longleftrightarrow> lines fd w AND m \<noteq> 0"
proof -
  obtain u w' where "tiocmget_op E fd 0 w = ((0, u), w')" "u AND modem_lines = lines fd w AND modem_lines"
    using get_lines [OF assms(1)] by blast
  with masked_bit [OF _ assms(2), of u "lines fd w"] show ?thesis by simp
qed

lemma line_queries:
  assumes "live (j_fd jp) w"
  shows "fst (isRTS E jp w) \<longleftrightarrow> lines (j_fd jp) w AND TIOCM_RTS \<noteq> 0"
    and "fst (isDTR E jp w) \<longleftrightarrow> lines (j_fd jp) w AND TIOCM_DTR \<noteq> 0"
    and "fst (isCTS E jp w) \<longleftrightarrow> lines (j_fd jp) w AND TIOCM_CTS \<noteq> 0"
    and "fst (isDSR E jp w) \<longleftrightarrow> lines (j_fd jp) w AND TIOCM_DSR \<noteq> 0"
    and "fst (isCD E jp w) \<longleftrightarrow> lines (j_fd jp) w AND TIOCM_CD \<noteq> 0"
    and "fst (isRI E jp w) \<longleftrightarrow> lines (j_fd jp) w AND TIOCM_RI \<noteq> 0"
  unfolding isRTS_def isDTR_def isCTS_def isDSR_def isCD_def isRI_def
  by (rule read_line [OF assms], simp)+

text \<open>Reading the lines, changing some and writing them back.\<close>

lemma drive_line:
  assumes "live fd w"
  obtains u w0 where "tiocmget_op E fd 0 w = ((0, u), w0)"
    and "u AND TIOCM_RTS = lines fd w AND TIOCM_RTS" and "u AND TIOCM_DTR = lines fd w AND TIOCM_DTR"
    and "\<forall>x. \<exists>w'. tiocmset_op E fd x w0 = (0, w') \<and> live fd w' \<and> attr fd w' = attr fd w
      \<and> lines fd w' AND TIOCM_RTS = x AND TIOCM_RTS \<and> lines fd w' AND TIOCM_DTR = x AND TIOCM_DTR"
proof -
  obtain u w0 where u: "tiocmget_op E fd 0 w = ((0, u), w0)" "u AND modem_lines = lines fd w AND modem_lines"
      "live fd w0" "attr fd w0 = attr fd w"
    using get_lines [OF assms] by blast
  have m: "TIOCM_RTS AND out_lines = TIOCM_RTS" "TIOCM_DTR AND out_lines = TIOCM_DTR"
    "TIOCM_RTS AND modem_lines = TIOCM_RTS" "TIOCM_DTR AND modem_lines = TIOCM_DTR" by simp_all
  show thesis
  proof (rule that [OF u(1) masked_bit [OF u(2) m(3)] masked_bit [OF u(2) m(4)]], intro allI)
    fix x
    obtain w' where w': "tiocmset_op E fd x w0 = (0, w')" "live fd w'"
        "lines fd w' AND out_lines = x AND out_lines" "attr fd w' = attr fd w0"
      using set_lines [OF u(3)] by blast
    then show "\<exists>w'. tiocmset_op E fd x w0 = (0, w') \<and> live fd w' \<and> attr fd w' = attr fd w
        \<and> lines fd w' AND TIOCM_RTS = x AND TIOCM_RTS \<and> lines fd w' AND TIOCM_DTR = x AND TIOCM_DTR"
      using u(4) masked_bit [OF w'(3) m(1)] masked_bit [OF w'(3) m(2)] by (intro exI [of _ w']) simp
  qed
qed

lemma setRTS_spec:
  fixes state :: bool
  assumes "live (j_fd jp) w"
  defines "w' \<equiv> setRTS E jp state w"
  shows "live (j_fd jp) w'" and "attr (j_fd jp) w' = attr (j_fd jp) w"
    and "fst (isRTS E jp w') = state" and "fst (isDTR E jp w') = fst (isDTR E jp w)"
proof -
  obtain u w0 where u: "tiocmget_op E (j_fd jp) 0 w = ((0, u), w0)"
      "u AND TIOCM_RTS = lines (j_fd jp) w AND TIOCM_RTS"
      "u AND TIOCM_DTR = lines (j_fd jp) w AND TIOCM_DTR"
      "\<forall>x. \<exists>w'. tiocmset_op E (j_fd jp) x w0 = (0, w') \<and> live (j_fd jp) w' \<and> attr (j_fd jp) w' = attr (j_fd jp) w
        \<and> lines (j_fd jp) w' AND TIOCM_RTS = x AND TIOCM_RTS \<and> lines (j_fd jp) w' AND TIOCM_DTR = x AND TIOCM_DTR"
    using drive_line [OF assms(1)] .
  define x where "x = (if state then u OR TIOCM_RTS else u AND NOT TIOCM_RTS)"
  obtain w1 where w1: "tiocmset_op E (j_fd jp) x w0 = (0, w1)" "live (j_fd jp) w1"
      "attr (j_fd jp) w1 = attr (j_fd jp) w" "lines (j_fd jp) w1 AND TIOCM_RTS = x AND TIOCM_RTS"
      "lines (j_fd jp) w1 AND TIOCM_DTR = x AND TIOCM_DTR"
    using u(4) by blast
  have w'1: "w' = w1"
    using u(1) w1(1) by (simp add: w'_def setRTS_def x_def)
  show "live (j_fd jp) w'" and "attr (j_fd jp) w' = attr (j_fd jp) w"
    using w1 by (simp_all add: w'1)
  show "fst (isRTS E jp w') = state"
    using line_queries(1) [OF w1(2)] w1(4) by (simp add: w'1 x_def out_bits and.assoc)
  show "fst (isDTR E jp w') = fst (isDTR E jp w)"
    using line_queries(2) [OF w1(2)] line_queries(2) [OF assms(1)] w1(5) u(3)
    by (auto simp add: w'1 x_def out_bits and.assoc)
qed

lemma setDTR_spec:
  fixes state :: bool
  assumes "live (j_fd jp) w"
  defines "w' \<equiv> setDTR E jp state w"
  shows "live (j_fd jp) w'" and "attr (j_fd jp) w' = attr (j_fd jp) w"
    and "fst (isDTR E jp w') = state" and "fst (isRTS E jp w') = fst (isRTS E jp w)"
proof -
  obtain u w0 where u: "tiocmget_op E (j_fd jp) 0 w = ((0, u), w0)"
      "u AND TIOCM_RTS = lines (j_fd jp) w AND TIOCM_RTS"
      "u AND TIOCM_DTR = lines (j_fd jp) w AND TIOCM_DTR"
      "\<forall>x. \<exists>w'. tiocmset_op E (j_fd jp) x w0 = (0, w') \<and> live (j_fd jp) w' \<and> attr (j_fd jp) w' = attr (j_fd jp) w
        \<and> lines (j_fd jp) w' AND TIOCM_RTS = x AND TIOCM_RTS \<and> lines (j_fd jp) w' AND TIOCM_DTR = x AND TIOCM_DTR"
    using drive_line [OF assms(1)] .
  define x where "x = (if state then u OR TIOCM_DTR else u AND NOT TIOCM_DTR)"
  obtain w1 where w1: "tiocmset_op E (j_fd jp) x w0 = (0, w1)" "live (j_fd jp) w1"
      "attr (j_fd jp) w1 = attr (j_fd jp) w" "lines (j_fd jp) w1 AND TIOCM_RTS = x AND TIOCM_RTS"
      "lines (j_fd jp) w1 AND TIOCM_DTR = x AND TIOCM_DTR"
    using u(4) by blast
  have w'1: "w' = w1"
    using u(1) w1(1) by (simp add: w'_def setDTR_def x_def)
  show "live (j_fd jp) w'" and "attr (j_fd jp) w' = attr (j_fd jp) w"
    using w1 by (simp_all add: w'1)
  show "fst (isDTR E jp w') = state"
    using line_queries(2) [OF w1(2)] w1(5) by (simp add: w'1 x_def out_bits and.assoc)
  show "fst (isRTS E jp w') = fst (isRTS E jp w)"
    using line_queries(1) [OF w1(2)] line_queries(1) [OF assms(1)] w1(4) u(2)
    by (auto simp add: w'1 x_def out_bits and.assoc)
qed

end

end
