(* ===== verification/Ref_Tty.thy ===== *)
theory Ref_Tty
  imports Modem_Lines
begin

text \<open>
  A terminal layer of a POSIX kernel that keeps the contracts of \<open>Posix_Env\<close>, small enough to
  evaluate: open lines with their settings, modem lines, the bytes waiting, read and written, an \<open>errno\<close> and a
  clock. It shows that the contracts can be met together and is the environment of the concrete runs;
  the Windows implementation of the same interface is modelled in the theories on \<open>termios.c\<close>.
\<close>

record refline =
  rl_attr :: termios
  rl_lines :: u32
  rl_serial :: serial_struct
  rl_in :: "u8 list"
  rl_got :: "u8 list"
  rl_out :: "u8 list"

record refdev =
  rd_lines :: "fd \<Rightarrow> refline option"
  rd_errno :: errno
  rd_time :: int

definition ref_err :: "errno \<Rightarrow> refdev \<Rightarrow> refdev" where
  "ref_err e w = w\<lparr>rd_errno := e\<rparr>"

definition ref_put :: "fd \<Rightarrow> refline \<Rightarrow> refdev \<Rightarrow> refdev" where
  "ref_put fd l w = w\<lparr>rd_lines := (rd_lines w)(fd \<mapsto> l)\<rparr>"

definition ref_with :: "fd \<Rightarrow> (refline \<Rightarrow> int \<times> refline) \<Rightarrow> refdev \<Rightarrow> int \<times> refdev" where
  \<comment> \<open>a call on an open line; on any other descriptor it fails with \<open>EBADF\<close>\<close>
  "ref_with fd f w =
     (case rd_lines w fd of None \<Rightarrow> (-1, ref_err EBADF w)
      | Some l \<Rightarrow> let (r, l) = f l in (r, ref_put fd l w))"

definition ref_query :: "fd \<Rightarrow> 'a \<Rightarrow> (refline \<Rightarrow> 'a) \<Rightarrow> refdev \<Rightarrow> (int \<times> 'a) \<times> refdev" where
  "ref_query fd old f w =
     (case rd_lines w fd of None \<Rightarrow> ((-1, old), ref_err EBADF w) | Some l \<Rightarrow> ((0, f l), w))"

definition ref_cfset :: "termios \<Rightarrow> int \<Rightarrow> int \<times> termios" where
  "ref_cfset t s =
     (if \<exists>b \<in> set (speed_cases Linux). uint (snd b) = s
      then (0, t\<lparr>c_cflag := (c_cflag t AND NOT (CBAUD Linux)) OR word_of_int s, c_ispeed := word_of_int s,
                 c_ospeed := word_of_int s\<rparr>)
      else (-1, t))"

definition ref_read :: "fd \<Rightarrow> int \<Rightarrow> refdev \<Rightarrow> (int \<times> u8 list) \<times> refdev" where
  "ref_read fd n w =
     (case rd_lines w fd of None \<Rightarrow> ((-1, []), ref_err EBADF w)
      | Some l \<Rightarrow> if rl_in l = [] then ((-1, []), ref_err EAGAIN w)
                  else let got = take (nat n) (rl_in l)
                       in ((int (length got), got), ref_put fd (l\<lparr>rl_in := drop (nat n) (rl_in l), rl_got := rl_got l @ got\<rparr>) w))"

definition refposix :: "refdev posix" where
  "refposix = \<lparr>
     errno_of = rd_errno,
     strerror_of = (\<lambda>e. if e = EBADF then ''Bad file descriptor'' else ''error''),
     getpid_of = (\<lambda>w. 4711),
     tick_of = (\<lambda>w. (rd_time w, w\<lparr>rd_time := rd_time w + 1\<rparr>)),
     usleep_op = (\<lambda>us w. w\<lparr>rd_time := rd_time w + us div 1000\<rparr>),
     open_op = (\<lambda>name mode w. (-1, ref_err ENOENT w)),
     close_op = (\<lambda>fd w. case rd_lines w fd of None \<Rightarrow> (-1, ref_err EBADF w)
        | Some _ \<Rightarrow> (0, w\<lparr>rd_lines := (rd_lines w)(fd := None)\<rparr>)),
     read_op = ref_read,
     write_op = (\<lambda>fd bs. ref_with fd (\<lambda>l. (int (length bs), l\<lparr>rl_out := rl_out l @ bs\<rparr>))),
     select_op = (\<lambda>fd tv w. case rd_lines w fd of None \<Rightarrow> (-1, ref_err EBADF w)
        | Some l \<Rightarrow> (if rl_in l = [] then 0 else 1, w)),
     stat_chr = (\<lambda>name w. None),
     tcgetattr_op = (\<lambda>fd t. ref_query fd t rl_attr),
     tcsetattr_op = (\<lambda>fd t. ref_with fd (\<lambda>l. (0, l\<lparr>rl_attr := t\<rparr>))),
     cfsetispeed_op = ref_cfset,
     cfsetospeed_op = ref_cfset,
     cfmakeraw_op = (\<lambda>t. t\<lparr>c_lflag := 0, c_oflag := 0\<rparr>),
     tcdrain_op = (\<lambda>fd. ref_with fd (\<lambda>l. (0, l))),
     tcflush_op = (\<lambda>fd q. ref_with fd (\<lambda>l. (0, if q = TCIFLUSH then l\<lparr>rl_in := []\<rparr> else l))),
     tcsendbreak_op = (\<lambda>fd d. ref_with fd (\<lambda>l. (0, l))),
     fcntl_setown = (\<lambda>fd own. ref_with fd (\<lambda>l. (0, l))),
     fcntl_setfl = (\<lambda>fd fl. ref_with fd (\<lambda>l. (0, l))),
     fcntl_getfl = (\<lambda>fd. ref_with fd (\<lambda>l. (0, l))),
     fstat_op = (\<lambda>fd. ref_with fd (\<lambda>l. (0, l))),
     tiocmget_op = (\<lambda>fd v. ref_query fd v rl_lines),
     tiocmset_op = (\<lambda>fd v. ref_with fd (\<lambda>l. (0, l\<lparr>rl_lines := (rl_lines l AND NOT out_lines) OR (v AND out_lines)\<rparr>))),
     tiocgserial_op = (\<lambda>fd s. ref_query fd s rl_serial),
     tiocsserial_op = (\<lambda>fd s. ref_with fd (\<lambda>l. (0, l\<lparr>rl_serial := s\<rparr>))),
     tiocgicount_op = (\<lambda>fd c w. ((-1, c), ref_err EINVAL w)),
     tiocsergetlsr_op = (\<lambda>fd c. ref_query fd c (\<lambda>l. 1)),
     fionread_op = (\<lambda>fd c. ref_query fd c (\<lambda>l. int (length (rl_in l)))),
     O_NONBLOCK_of = 0x800,
     FASYNC_of = 0x2000\<rparr>"

definition ref_live :: "fd \<Rightarrow> refdev \<Rightarrow> bool" where
  "ref_live fd w \<longleftrightarrow> 0 < fd \<and> rd_lines w fd \<noteq> None"

definition ref_attr :: "fd \<Rightarrow> refdev \<Rightarrow> termios" where
  "ref_attr fd w = (case rd_lines w fd of None \<Rightarrow> zero_termios | Some l \<Rightarrow> rl_attr l)"

definition ref_modem :: "fd \<Rightarrow> refdev \<Rightarrow> u32" where
  "ref_modem fd w = (case rd_lines w fd of None \<Rightarrow> 0 | Some l \<Rightarrow> rl_lines l)"

lemmas ref_defs = ref_err_def ref_put_def ref_with_def ref_query_def ref_live_def ref_attr_def ref_modem_def

lemma listed_word: "listed_speed p b \<Longrightarrow> \<exists>x \<in> set (speed_cases p). uint (snd x) = uint b"
  by (force simp: listed_speed_def)

lemma ref_tty_driver: "tty_driver refposix Linux ref_live ref_attr"
proof unfold_locales
  fix b t
  assume "listed_speed Linux b"
  from listed_word [OF this]
  show "\<exists>r t'. cfsetispeed_op refposix t (uint b) = (r, t') \<and> 0 \<le> r \<and> speed_set Linux b t t'"
    and "\<exists>r t'. cfsetospeed_op refposix t (uint b) = (r, t') \<and> 0 \<le> r \<and> speed_set Linux b t t'"
    by (simp_all add: refposix_def ref_cfset_def speed_set_def)
qed (auto simp: refposix_def ref_defs legal_chars_def split: option.splits)

interpretation ref: modem_driver refposix Linux ref_live ref_attr ref_modem
proof (intro modem_driver.intro ref_tty_driver modem_driver_axioms.intro)
  fix fd w v
  assume "ref_live fd w"
  then show "\<exists>u w'. tiocmget_op refposix fd v w = ((0, u), w') \<and> u AND modem_lines = ref_modem fd w AND modem_lines
      \<and> ref_live fd w' \<and> ref_modem fd w' AND out_lines = ref_modem fd w AND out_lines \<and> ref_attr fd w' = ref_attr fd w"
    and "\<exists>w'. tiocmset_op refposix fd v w = (0, w') \<and> ref_live fd w'
      \<and> ref_modem fd w' AND out_lines = v AND out_lines \<and> ref_attr fd w' = ref_attr fd w"
    by (auto simp: refposix_def ref_defs bitfield)
qed

section \<open>A line to run on\<close>

definition ref_line0 :: refline where
  "ref_line0 = \<lparr>rl_attr = zero_termios\<lparr>c_cflag := CREAD OR CLOCAL OR CS8 OR B9600, c_ispeed := B9600\<rparr>,
     rl_lines = TIOCM_CTS, rl_serial = \<lparr>custom_divisor = 0, baud_base = 115200\<rparr>,
     rl_in = [], rl_got = [], rl_out = []\<rparr>"

definition ref_dev0 :: refdev where
  "ref_dev0 = \<lparr>rd_lines = [5 \<mapsto> ref_line0], rd_errno = EIO, rd_time = 0\<rparr>"

definition jport0 :: jport where
  "jport0 = \<lparr>j_fd = 5, j_pid = 4711, j_timeout = 0, j_speed = 0, j_dataBits = 0, j_stopBits = 0, j_parity = 0\<rparr>"

lemma ref_dev0_live: "ref_live (j_fd jport0) ref_dev0"
  by (simp add: jport0_def ref_dev0_def ref_live_def)

lemma ref_dev0_raw: "raw_mode (ref_attr (j_fd jport0) ref_dev0)"
  by (simp add: jport0_def ref_dev0_def ref_attr_def ref_line0_def raw_mode_def zero_termios_def)

section \<open>Properties of the port parameters\<close>

text \<open>C1. On every terminal driver that keeps the POSIX contract, setting a listed speed with valid
  data bits, stop bits and parity succeeds, and the report to the Java object afterwards is what was
  set (with the 1.5 stop bit conventions of the line parameters). Excluded are the hang-up speed B0
  and, on Linux, 38400, which goes through the custom divisor.\<close>

theorem set_params_roundtrip:
  assumes "tty_driver E p live attr" and "live (j_fd jp) w" and "raw_mode (attr (j_fd jp) w)"
    and "(speed, b) \<in> set (speed_cases p)" and "b \<noteq> B0" and "\<not> (p = Linux \<and> b = B38400)"
    and "d \<in> {5, 6, 7, 8}" and "s \<in> {1, 2, 3}" and "q \<in> {0, 1, 2, 3, 4}"
  shows "\<exists>w'. nativeSetSerialPortParams E p t0 ss0 jp speed d s q w = Some (False, w')
    \<and> live (j_fd jp) w'
    \<and> set_java_vars E p t1 (j_fd jp) jp w' =
      (jp\<lparr>j_speed := speed, j_dataBits := if s = 3 then 5 else d,
          j_stopBits := if s = 3 then 3 else if s = 2 \<and> d = 5 then 3 else s, j_parity := q\<rparr>, w')"
  using tty_driver.set_params_reported [OF assms, of t0 ss0 t1] by metis

theorem set_params_roundtrip_witness:
  "\<exists>w'. nativeSetSerialPortParams refposix Linux zero_termios (rl_serial ref_line0) jport0 115200 7 2 2 ref_dev0
      = Some (False, w')
    \<and> set_java_vars refposix Linux zero_termios (j_fd jport0) jport0 w'
      = (jport0\<lparr>j_speed := 115200, j_dataBits := 7, j_stopBits := 2, j_parity := 2\<rparr>, w')"
  using set_params_roundtrip [OF ref_tty_driver ref_dev0_live ref_dev0_raw, of 115200 "0x1002" 7 2 2
      zero_termios "rl_serial ref_line0" zero_termios]
  by (auto simp: speed_cases_def)

text \<open>Arguments out of range, or a descriptor the driver does not answer for, are refused with the
  value 1 before the driver's settings, speed or divisor are touched: the state is the one the initial
  read left.\<close>

theorem set_port_params_refuses:
  assumes "tcgetattr_op E fd t0 w = ((r, t), w')"
    and "r < 0 \<or> d \<notin> {5, 6, 7, 8} \<or> s \<notin> {1, 2, 3} \<or> q \<notin> {0, 1, 2, 3, 4}"
  shows "set_port_params E p t0 ss0 fd cspeed d s q w = Some (1, w')"
  using assms by (rule set_port_params_invalid)

theorem set_port_params_refuses_witness:
  "set_port_params refposix Linux zero_termios (rl_serial ref_line0) 5 9600 9 1 0 ref_dev0 = Some (1, ref_dev0)"
proof -
  have "tcgetattr_op refposix 5 zero_termios ref_dev0 = ((0, rl_attr ref_line0), ref_dev0)"
    by (simp add: refposix_def ref_dev0_def ref_query_def)
  from set_port_params_refuses [OF this, of 9 1 0] show ?thesis by simp
qed

text \<open>C26. Driving RTS or DTR is seen by the next query of that line, leaves the other output line as
  it was, and does not touch the line settings.\<close>

theorem modem_lines_driven:
  assumes "modem_driver E p live attr lines" and "live (j_fd jp) w"
  shows "fst (isRTS E jp (setRTS E jp state w)) = state
    \<and> fst (isDTR E jp (setRTS E jp state w)) = fst (isDTR E jp w)
    \<and> fst (isDTR E jp (setDTR E jp state w)) = state
    \<and> fst (isRTS E jp (setDTR E jp state w)) = fst (isRTS E jp w)
    \<and> attr (j_fd jp) (setRTS E jp state w) = attr (j_fd jp) w
    \<and> attr (j_fd jp) (setDTR E jp state w) = attr (j_fd jp) w"
  using modem_driver.setRTS_spec [OF assms] modem_driver.setDTR_spec [OF assms] by simp

theorem modem_lines_driven_witness:
  "fst (isRTS refposix jport0 (setRTS refposix jport0 True ref_dev0))
   \<and> \<not> fst (isDTR refposix jport0 (setRTS refposix jport0 True ref_dev0))"
proof -
  have "\<not> fst (isDTR refposix jport0 ref_dev0)"
    by (simp add: isDTR_def refposix_def ref_query_def ref_dev0_def jport0_def ref_line0_def)
  with modem_lines_driven [OF ref.modem_driver_axioms ref_dev0_live, of True] show ?thesis by simp
qed

lemma ref_dev0_representable: "representable Linux (ref_attr (j_fd jport0) ref_dev0)"
  by (simp add: jport0_def ref_dev0_def ref_attr_def ref_line0_def representable_def raw_mode_def legal_chars_def
    zero_termios_def CBAUD_def listed_speed_def speed_cases_def java_parity_def)

text \<open>C27. Flow control round trip: \<open>setflowcontrol\<close> succeeds on a driver that keeps its
  contract, and \<open>nativeGetFlowControlMode\<close> then returns the requested bits, with the two hardware
  bits reported together.\<close>

theorem flow_roundtrip:
  assumes "tty_driver E p live attr" and "live (j_fd jp) w" and "representable p (attr (j_fd jp) w)"
  shows "\<exists>w'. setflowcontrol E fc t0 jp m w = (None, w')
    \<and> nativeGetFlowControlMode E t1 (j_fd jp) w' =
      ((if m AND 3 \<noteq> 0 then 3 else 0) OR (m AND FLOWCONTROL_XONXOFF_IN) OR (m AND FLOWCONTROL_XONXOFF_OUT), w')"
  using tty_driver.setflowcontrol_reported [OF assms, of fc t0 m t1] flow_edit_mode by metis

theorem flow_roundtrip_witness:
  "\<exists>w'. setflowcontrol refposix (\<lambda>c. True) zero_termios jport0 5 ref_dev0 = (None, w')
    \<and> nativeGetFlowControlMode refposix zero_termios (j_fd jport0) w' = (7, w')"
  using flow_roundtrip [OF ref_tty_driver ref_dev0_live ref_dev0_representable, of "\<lambda>c. True" zero_termios 5 zero_termios]
  by simp

text \<open>C28. The receive timeout is kept in tenths of a second in eight bits: after it has been enabled
  with a non-negative number of milliseconds, the reported timeout is that number rounded down to a
  tenth of a second and reduced modulo 25.6 seconds, and the timeout counts as enabled exactly when
  this is not zero. The threshold is kept modulo 256.\<close>

theorem receive_timeout_roundtrip:
  assumes "tty_driver E p live attr" and "live (j_fd jp) w" and "representable p (attr (j_fd jp) w)"
    and "0 \<le> vtime"
  shows "\<exists>w'. NativeEnableReceiveTimeoutThreshold E fc t0 jp vtime threshold w = (None, w')
    \<and> NativegetReceiveTimeout E fc t1 jp w' = ((vtime div 100 mod 256 * 100, None), w')
    \<and> NativeisReceiveTimeoutEnabled E fc t1 jp w' = ((vtime div 100 mod 256 \<noteq> 0, None), w')
    \<and> uint (c_cc (attr (j_fd jp) w') VMIN) = threshold mod 256"
proof -
  obtain w' where w': "NativeEnableReceiveTimeoutThreshold E fc t0 jp vtime threshold w = (None, w')"
      "live (j_fd jp) w'" "c_cc (attr (j_fd jp) w') VMIN = cc_of_int threshold"
      "c_cc (attr (j_fd jp) w') VTIME =
        cc_of_int ((if vtime < 0 then 0 else if vtime = 0 then 1 else vtime) sdiv 100)"
    using tty_driver.receive_timeout_stored [OF assms(1-3), of fc t0 vtime threshold] by metis
  have "uint (c_cc (attr (j_fd jp) w') VTIME) = vtime div 100 mod 256"
    using assms(4) by (auto simp: w'(4) uint_cc_of_int signed_divide_int_def)
  then show ?thesis
    using w' tty_driver.receive_timeout_read [OF assms(1) w'(2), of fc t1]
    by (auto simp: uint_cc_of_int zero_less_iff_neq_zero order_le_less)
qed

theorem receive_timeout_roundtrip_witness:
  "\<exists>w'. NativeEnableReceiveTimeoutThreshold refposix (\<lambda>c. True) zero_termios jport0 25750 3 ref_dev0 = (None, w')
    \<and> NativegetReceiveTimeout refposix (\<lambda>c. True) zero_termios jport0 w' = ((100, None), w')"
  using receive_timeout_roundtrip [OF ref_tty_driver ref_dev0_live ref_dev0_representable,
      of 25750 "\<lambda>c. True" zero_termios 3 zero_termios]
  by auto

end
