(* ===== verification/Dll.thy ===== *)
theory Dll
  imports Prelude
begin

text \<open>
  Doubly linked lists in an explicit heap. Three components keep one: the ports opened before
  \<open>open()\<close> (\<open>preopened_port\<close>), the event structures (\<open>master_index\<close>) and the ports of the
  Windows emulation (\<open>first_tl\<close>). A cell is a structure with \<open>next\<close> and \<open>prev\<close>; an address
  without a cell is freed or was never allocated, and dereferencing it, like dereferencing NULL, is
  \<open>Fault\<close>. A loop that has not ended within its fuel is \<open>Hang\<close>.
\<close>

type_synonym addr = nat

datatype 'a run = Done 'a | Fault | Hang

fun run_bind :: "'a run \<Rightarrow> ('a \<Rightarrow> 'b run) \<Rightarrow> 'b run" where
  "run_bind (Done a) f = f a"
| "run_bind Fault f = Fault"
| "run_bind Hang f = Hang"

lemma bind_Done: "run_bind x f = Done y \<longleftrightarrow> (\<exists>z. x = Done z \<and> f z = Done y)"
  by (cases x) auto

record 'a cell =
  val :: 'a
  nxt :: "addr option"
  prv :: "addr option"

type_synonym 'a heap = "addr \<Rightarrow> 'a cell option"

section \<open>Pointer operations\<close>

definition deref :: "'a heap \<Rightarrow> addr \<Rightarrow> 'a cell run" where
  "deref h a = (case h a of None \<Rightarrow> Fault | Some c \<Rightarrow> Done c)"

definition set_nxt :: "addr \<Rightarrow> addr option \<Rightarrow> 'a heap \<Rightarrow> 'a heap run" where
  "set_nxt a x h = run_bind (deref h a) (\<lambda>c. Done (h(a \<mapsto> c\<lparr>nxt := x\<rparr>)))"

definition set_prv :: "addr \<Rightarrow> addr option \<Rightarrow> 'a heap \<Rightarrow> 'a heap run" where
  "set_prv a x h = run_bind (deref h a) (\<lambda>c. Done (h(a \<mapsto> c\<lparr>prv := x\<rparr>)))"

definition set_val :: "addr \<Rightarrow> 'a \<Rightarrow> 'a heap \<Rightarrow> 'a heap run" where
  "set_val a v h = run_bind (deref h a) (\<lambda>c. Done (h(a \<mapsto> c\<lparr>val := v\<rparr>)))"

text \<open>\<open>while (!P(p) && p->next) p = p->next;\<close> and the relinking of a node's neighbours.\<close>

fun seek :: "nat \<Rightarrow> ('a \<Rightarrow> bool) \<Rightarrow> 'a heap \<Rightarrow> addr \<Rightarrow> addr run" where
  "seek 0 P h a = Hang"
| "seek (Suc n) P h a =
     run_bind (deref h a) (\<lambda>c. if P (val c) then Done a
       else case nxt c of None \<Rightarrow> Done a | Some b \<Rightarrow> seek n P h b)"

definition unlink :: "addr \<Rightarrow> 'a heap \<Rightarrow> 'a heap run" where
  "unlink a h = run_bind (deref h a) (\<lambda>c.
     case (prv c, nxt c) of
       (Some p, Some n) \<Rightarrow> run_bind (set_nxt p (Some n) h) (set_prv n (Some p))
     | (Some p, None) \<Rightarrow> set_nxt p None h
     | (None, Some n) \<Rightarrow> set_prv n None h
     | (None, None) \<Rightarrow> Done h)"

section \<open>List segments\<close>

fun dseg :: "'a heap \<Rightarrow> addr option \<Rightarrow> addr option \<Rightarrow> addr list \<Rightarrow> addr option \<Rightarrow> bool" where
  "dseg h pr p [] nx \<longleftrightarrow> p = nx"
| "dseg h pr p (a # as) nx \<longleftrightarrow> p = Some a
     \<and> (case h a of None \<Rightarrow> False | Some c \<Rightarrow> prv c = pr \<and> dseg h (Some a) (nxt c) as nx)"

definition hdp :: "addr list \<Rightarrow> addr option" where
  "hdp as = (if as = [] then None else Some (hd as))"

definition lastp :: "addr option \<Rightarrow> addr list \<Rightarrow> addr option" where
  "lastp pr as = (if as = [] then pr else Some (last as))"

definition dlist :: "'a heap \<Rightarrow> addr list \<Rightarrow> bool" where
  "dlist h as \<longleftrightarrow> distinct as \<and> dseg h None (hdp as) as None"

definition contents :: "'a heap \<Rightarrow> addr list \<Rightarrow> 'a list" where
  "contents h as = map (\<lambda>a. val (the (h a))) as"

definition same_vals :: "'a heap \<Rightarrow> 'a heap \<Rightarrow> bool" where
  "same_vals h h' \<longleftrightarrow> (\<forall>a. map_option val (h a) = map_option val (h' a))"

lemma hdp_simps [simp]: "hdp [] = None" "hdp (a # as) = Some a" "hdp (xs @ a # ys) = (if xs = [] then Some a else hdp xs)"
  by (auto simp: hdp_def)

lemma lastp_simps [simp]: "lastp pr [] = pr" "lastp pr (as @ [a]) = Some a" "lastp pr (a # as) = lastp (Some a) as"
  by (auto simp: lastp_def)

lemma deref_Some [simp]: "h a = Some c \<Longrightarrow> deref h a = Done c"
  by (simp add: deref_def)

lemma dseg_append:
  "dseg h pr p (xs @ ys) nx \<longleftrightarrow> (\<exists>m. dseg h pr p xs m \<and> dseg h (lastp pr xs) m ys nx)"
  by (induction xs arbitrary: pr p) (auto split: option.splits)

lemma dseg_join: "dseg h pr p xs m \<Longrightarrow> dseg h (lastp pr xs) m ys nx \<Longrightarrow> dseg h pr p (xs @ ys) nx"
  unfolding dseg_append by blast

lemma dseg_frame [simp]: "a \<notin> set as \<Longrightarrow> dseg (h(a := x)) pr p as nx = dseg h pr p as nx"
  by (induction as arbitrary: pr p) (auto split: option.splits)

lemma dseg_hdp: "dseg h pr p as None \<Longrightarrow> p = hdp as"
  by (cases as) auto

lemma dseg_mem: "dseg h pr p as nx \<Longrightarrow> a \<in> set as \<Longrightarrow> \<exists>c. h a = Some c"
  by (induction as arbitrary: pr p) (auto split: option.splits)

lemma dlist_mem: "dlist h as \<Longrightarrow> a \<in> set as \<Longrightarrow> \<exists>c. h a = Some c"
  unfolding dlist_def by (blast dest: dseg_mem)

lemma dseg_set_nxt_last:
  assumes "dseg h pr p (xs @ [a]) nx" and "h a = Some c" and "a \<notin> set xs"
  shows "dseg (h(a \<mapsto> c\<lparr>nxt := nx'\<rparr>)) pr p (xs @ [a]) nx'"
  using assms by (auto simp: dseg_append)

lemma dseg_set_prv_first:
  assumes "dseg h pr p (a # as) nx" and "h a = Some c" and "a \<notin> set as"
  shows "dseg (h(a \<mapsto> c\<lparr>prv := pr'\<rparr>)) pr' p (a # as) nx"
  using assms by auto

lemma dlist_frame [simp]: "a \<notin> set as \<Longrightarrow> dlist (h(a := x)) as = dlist h as"
  by (simp add: dlist_def)

lemma dseg_val [simp]: "dseg (\<lambda>b. if b = a then map_option (val_update f) (h b) else h b) pr p as nx = dseg h pr p as nx"
  by (induction as arbitrary: pr p) (auto split: option.splits)

lemma dlist_set_val: "h a = Some c \<Longrightarrow> dlist (h(a \<mapsto> c\<lparr>val := v\<rparr>)) as = dlist h as"
proof -
  assume "h a = Some c"
  then have "h(a \<mapsto> c\<lparr>val := v\<rparr>) = (\<lambda>b. if b = a then map_option (val_update (\<lambda>_. v)) (h b) else h b)"
    by auto
  then show ?thesis by (simp add: dlist_def)
qed

lemma dlist_prv_nxt:
  assumes "dlist h (xs @ a # ys)"
  obtains c where "h a = Some c" and "prv c = lastp None xs" and "nxt c = hdp ys"
  using assms dseg_hdp by (auto simp: dlist_def dseg_append split: option.splits)

lemma same_vals_refl [simp]: "same_vals h h"
  by (simp add: same_vals_def)

lemma same_vals_dom: "same_vals h h' \<Longrightarrow> dom h' = dom h"
  unfolding same_vals_def dom_def by (metis option.map_disc_iff)

lemma same_vals_upd:
  "same_vals h h' \<Longrightarrow> h' a = Some c \<Longrightarrow> same_vals h (h'(a \<mapsto> c\<lparr>nxt := x\<rparr>))"
  "same_vals h h' \<Longrightarrow> h' a = Some c \<Longrightarrow> same_vals h (h'(a \<mapsto> c\<lparr>prv := x\<rparr>))"
  by (auto simp: same_vals_def)

lemma same_vals_contents:
  assumes "same_vals h h'" and "\<forall>a \<in> set as. \<exists>c. h a = Some c"
  shows "contents h' as = contents h as"
proof -
  have "val (the (h' a)) = val (the (h a))" if a: "a \<in> set as" for a
  proof -
    obtain c where "h a = Some c" using assms(2) a by blast
    moreover have "map_option val (h a) = map_option val (h' a)"
      using assms(1) unfolding same_vals_def by (rule spec)
    ultimately show ?thesis by (cases "h' a") simp_all
  qed
  then show ?thesis by (simp add: contents_def)
qed

lemma contents_append [simp]: "contents h (xs @ ys) = contents h xs @ contents h ys"
  by (simp add: contents_def)

lemma contents_frame [simp]: "a \<notin> set as \<Longrightarrow> contents (h(a := x)) as = contents h as"
  by (auto simp: contents_def)

section \<open>Unlinking, appending, inserting\<close>

text \<open>Unlinking a node of a well-formed list never faults, keeps every value and leaves the list
  without the node.\<close>

lemma unlink_ok:
  assumes d: "dlist h (xs @ a # ys)"
  obtains h' where "unlink a h = Done h'" and "dlist h' (xs @ ys)" and "same_vals h h'" and "h' a = h a"
proof -
  obtain c where c: "h a = Some c" "prv c = lastp None xs" "nxt c = hdp ys"
    using dlist_prv_nxt [OF d] .
  have dist: "distinct (xs @ a # ys)" and sx: "dseg h None (hdp (xs @ a # ys)) xs (Some a)"
    and sy: "dseg h (Some a) (hdp ys) ys None"
    using d c by (auto simp: dlist_def dseg_append split: option.splits)
  show thesis
  proof (cases xs rule: rev_cases)
    case Nil
    show thesis
    proof (cases ys)
      case Nil
      show thesis
        by (rule that [of h]) (use c \<open>xs = []\<close> Nil in \<open>auto simp: unlink_def dlist_def\<close>)
    next
      case (Cons n ns)
      obtain cn where cn: "h n = Some cn" using sy Cons by (auto split: option.splits)
      show thesis
        by (rule that [of "h(n \<mapsto> cn\<lparr>prv := None\<rparr>)"])
          (use c cn sy dist \<open>xs = []\<close> Cons in
            \<open>auto simp: unlink_def set_prv_def dlist_def intro: same_vals_upd\<close>)
    qed
  next
    case (snoc zs p)
    obtain cp where cp: "h p = Some cp" using sx snoc by (auto simp: dseg_append split: option.splits)
    have hp: "hdp (xs @ a # ys) = hdp xs" using snoc by simp
    show thesis
    proof (cases ys)
      case Nil
      have "dseg (h(p \<mapsto> cp\<lparr>nxt := None\<rparr>)) None (hdp xs) xs None"
        using dseg_set_nxt_last [of h None "hdp xs" zs p "Some a" cp None] sx cp dist hp snoc by simp
      then show thesis
        by (intro that [of "h(p \<mapsto> cp\<lparr>nxt := None\<rparr>)"])
          (use c cp dist snoc Nil in \<open>auto simp: unlink_def set_nxt_def dlist_def intro: same_vals_upd\<close>)
    next
      case (Cons n ns)
      obtain cn where cn: "h n = Some cn" using sy Cons by (auto split: option.splits)
      define h1 where "h1 = h(p \<mapsto> cp\<lparr>nxt := Some n\<rparr>)"
      define h2 where "h2 = h1(n \<mapsto> cn\<lparr>prv := Some p\<rparr>)"
      have pn: "p \<noteq> n" "p \<noteq> a" "n \<noteq> a" using dist snoc Cons by auto
      have "dseg h1 None (hdp xs) xs (Some n)"
        using dseg_set_nxt_last [of h None "hdp xs" zs p "Some a" cp "Some n"] sx cp dist hp snoc
        by (simp add: h1_def)
      then have x2: "dseg h2 None (hdp xs) xs (Some n)"
        using dist snoc Cons by (simp add: h2_def)
      have "dseg h1 (Some a) (Some n) ys None"
        using sy Cons dist snoc by (auto simp: h1_def split: option.splits)
      then have y2: "dseg h2 (Some p) (Some n) ys None"
        using dseg_set_prv_first [of h1 "Some a" "Some n" n ns None cn "Some p"] cn pn dist Cons
        by (simp add: h2_def h1_def)
      have "dlist h2 (xs @ ys)"
        unfolding dlist_def dseg_append
        using x2 y2 dist snoc Cons by (intro conjI exI [of _ "Some n"]) simp_all
      moreover have "unlink a h = Done h2"
        using c cp cn pn snoc Cons
        by (simp add: unlink_def set_nxt_def set_prv_def h1_def h2_def)
      moreover have "same_vals h h2"
        using cp cn pn by (auto simp: h1_def h2_def intro!: same_vals_upd)
      moreover have "h2 a = h a" using pn by (simp add: h1_def h2_def)
      ultimately show thesis by (intro that)
    qed
  qed
qed

lemma append_ok:
  assumes d: "dlist h (xs @ [p])" and "h p = Some cp" and "a \<notin> set (xs @ [p])"
  shows "dlist (h(a \<mapsto> \<lparr>val = v, nxt = None, prv = Some p\<rparr>, p \<mapsto> cp\<lparr>nxt := Some a\<rparr>)) (xs @ [p, a])"
proof -
  have "dseg h None (hdp (xs @ [p])) (xs @ [p]) None" and dist: "distinct (xs @ [p])"
    using d by (auto simp: dlist_def)
  then have "dseg (h(p \<mapsto> cp\<lparr>nxt := Some a\<rparr>)) None (hdp (xs @ [p])) (xs @ [p]) (Some a)"
    using dseg_set_nxt_last assms(2) dist by (metis distinct_append not_distinct_conv_prefix)
  then have "dseg (h(a \<mapsto> \<lparr>val = v, nxt = None, prv = Some p\<rparr>, p \<mapsto> cp\<lparr>nxt := Some a\<rparr>))
      None (hdp (xs @ [p])) (xs @ [p]) (Some a)"
    using assms(3) by (subst fun_upd_twist) auto
  then show ?thesis
    using dist assms(3) by (auto simp: dlist_def dseg_append)
qed

lemma insert_ok:
  assumes d: "dlist h ((xs @ [q]) @ i # ys)" and q: "h q = Some cq" and i: "h i = Some ci"
    and a: "a \<notin> set ((xs @ [q]) @ i # ys)"
  shows "dlist (h(a \<mapsto> \<lparr>val = v, nxt = Some i, prv = Some q\<rparr>, q \<mapsto> cq\<lparr>nxt := Some a\<rparr>, i \<mapsto> ci\<lparr>prv := Some a\<rparr>))
    ((xs @ [q]) @ a # i # ys)"
proof -
  let ?h = "h(a \<mapsto> \<lparr>val = v, nxt = Some i, prv = Some q\<rparr>, q \<mapsto> cq\<lparr>nxt := Some a\<rparr>, i \<mapsto> ci\<lparr>prv := Some a\<rparr>)"
  have dist: "distinct ((xs @ [q]) @ i # ys)" and pre: "dseg h None (hdp (xs @ [q])) (xs @ [q]) (Some i)"
    and suf: "dseg h (Some q) (Some i) (i # ys) None"
    using d by (auto simp: dlist_def dseg_append split: option.splits)
  have "dseg (h(q \<mapsto> cq\<lparr>nxt := Some a\<rparr>)) None (hdp (xs @ [q])) (xs @ [q]) (Some a)"
    using dseg_set_nxt_last [OF pre q, of "Some a"] dist by simp
  moreover have "?h = (h(q \<mapsto> cq\<lparr>nxt := Some a\<rparr>))(a \<mapsto> \<lparr>val = v, nxt = Some i, prv = Some q\<rparr>, i \<mapsto> ci\<lparr>prv := Some a\<rparr>)"
    using a by (auto simp: fun_upd_twist)
  ultimately have P: "dseg ?h None (hdp (xs @ [q])) (xs @ [q]) (Some a)"
    using a dist by (simp del: fun_upd_apply)
  have "dseg (h(i \<mapsto> ci\<lparr>prv := Some a\<rparr>)) (Some a) (Some i) (i # ys) None"
    using dseg_set_prv_first [OF suf i, of "Some a"] dist by simp
  moreover have "?h = (h(i \<mapsto> ci\<lparr>prv := Some a\<rparr>))(a \<mapsto> \<lparr>val = v, nxt = Some i, prv = Some q\<rparr>, q \<mapsto> cq\<lparr>nxt := Some a\<rparr>)"
    using a dist by (auto simp: fun_upd_twist)
  ultimately have S: "dseg ?h (Some a) (Some i) (i # ys) None"
    using a dist by (simp del: fun_upd_apply dseg.simps)
  have "?h a = Some \<lparr>val = v, nxt = Some i, prv = Some q\<rparr>" using a by auto
  then have "dseg ?h (Some q) (Some a) (a # i # ys) None"
    using S by (subst dseg.simps) (simp del: dseg.simps fun_upd_apply)
  then have "dseg ?h None (hdp (xs @ [q])) ((xs @ [q]) @ a # i # ys) None"
    by (intro dseg_join [OF P]) (simp del: dseg.simps fun_upd_apply)
  moreover have "hdp ((xs @ [q]) @ a # i # ys) = hdp (xs @ [q])" by simp
  moreover have "distinct ((xs @ [q]) @ a # i # ys)" using a dist by auto
  ultimately show ?thesis unfolding dlist_def by presburger
qed

section \<open>Searching\<close>

text \<open>Where the search stops: at the first node whose value satisfies the predicate, or at the last.\<close>

fun stop_at :: "('a \<Rightarrow> bool) \<Rightarrow> 'a heap \<Rightarrow> addr list \<Rightarrow> addr" where
  "stop_at P h [a] = a"
| "stop_at P h (a # b # as) = (if P (val (the (h a))) then a else stop_at P h (b # as))"
| "stop_at P h [] = 0"

lemma seek_dseg:
  "dseg h pr (Some a) (a # as) None \<Longrightarrow> length as < fuel \<Longrightarrow>
   seek fuel P h a = Done (stop_at P h (a # as))"
proof (induction as arbitrary: pr a fuel)
  case Nil
  then show ?case by (cases fuel) (auto split: option.splits)
next
  case (Cons b bs)
  then obtain n where n: "fuel = Suc n" by (cases fuel) auto
  from Cons.prems obtain c where c: "h a = Some c" "nxt c = Some b" "dseg h (Some a) (Some b) (b # bs) None"
    by (auto split: option.splits)
  with Cons.IH [OF c(3), of n] Cons.prems n show ?case by simp
qed

lemma seek_ok:
  assumes "dlist h (a # as)" and "length as < fuel"
  shows "seek fuel P h a = Done (stop_at P h (a # as))"
  using assms seek_dseg [of h None a as fuel P] by (simp add: dlist_def)

lemma stop_at_mem: "as \<noteq> [] \<Longrightarrow> stop_at P h as \<in> set as"
  by (induction P h as rule: stop_at.induct) auto

lemma stop_at_hit:
  "as \<noteq> [] \<Longrightarrow> P (val (the (h (stop_at P h as)))) \<longleftrightarrow> (\<exists>v \<in> set (contents h as). P v)"
  by (induction P h as rule: stop_at.induct) (auto simp: contents_def)

lemma stop_at_first:
  "\<exists>xs ys. as = xs @ stop_at P h as # ys \<and> (\<forall>v \<in> set (contents h xs). \<not> P v)" if "as \<noteq> []"
  using that
proof (induction P h as rule: stop_at.induct)
  case (2 P h a b as)
  show ?case
  proof (cases "P (val (the (h a)))")
    case True
    then show ?thesis by (intro exI [of _ "[]"] exI [of _ "b # as"]) (simp add: contents_def)
  next
    case False
    with 2 obtain xs ys where "b # as = xs @ stop_at P h (b # as) # ys" "\<forall>v \<in> set (contents h xs). \<not> P v"
      by auto
    with False show ?thesis by (intro exI [of _ "a # xs"] exI [of _ ys]) (auto simp: contents_def)
  qed
next
  case (1 P h a)
  show ?case by (intro exI [of _ "[]"]) (simp add: contents_def)
qed simp

lemma stop_at_last:
  "as \<noteq> [] \<Longrightarrow> \<forall>v \<in> set (contents h as). \<not> P v \<Longrightarrow> stop_at P h as = last as"
  by (induction P h as rule: stop_at.induct) (auto simp: contents_def)

end
