(* ===== verification/Preopened.thy ===== *)
theory Preopened
  imports Dll
begin

text \<open>
  Ports opened by a static method before \<open>open()\<close> (so that DTR, say, can be lowered first) are kept in a
  list: \<open>static_add_filename\<close> adds one, \<open>find_preopened_ports\<close> takes one out and returns its
  descriptor. \<open>new\<close> is the address \<open>malloc\<close> returns; the code does not check it for NULL. A name
  of 40 characters or more overruns \<open>filename[40]\<close>.
\<close>

record preopened =
  pre_filename :: string
  pre_fd :: int

record preopened_state =
  po_heap :: "preopened heap"
  preopened_port :: "addr option"

definition find_preopened_ports :: "nat \<Rightarrow> string \<Rightarrow> preopened_state \<Rightarrow> (int \<times> preopened_state) run" where
  "find_preopened_ports fuel filename s =
     (case preopened_port s of
        None \<Rightarrow> Done (0, s)
      | Some p \<Rightarrow>
          run_bind (seek fuel (\<lambda>e. pre_filename e = filename) (po_heap s) p) (\<lambda>q.
          run_bind (deref (po_heap s) q) (\<lambda>c.
            if pre_filename (val c) \<noteq> filename then Done (0, s)
            else run_bind (unlink q (po_heap s)) (\<lambda>h.
              Done (pre_fd (val c),
                \<lparr>po_heap = h(q := None),
                 preopened_port = (if prv c = None \<and> nxt c = None then None else preopened_port s)\<rparr>)))))"

definition static_add_filename ::
  "nat \<Rightarrow> addr \<Rightarrow> string \<Rightarrow> int \<Rightarrow> preopened_state \<Rightarrow> preopened_state run" where
  "static_add_filename fuel new filename fd s =
     (if 40 \<le> length filename then Fault
      else
        let newp = \<lparr>val = \<lparr>pre_filename = filename, pre_fd = fd\<rparr>, nxt = None, prv = None\<rparr>;
            h = (po_heap s)(new \<mapsto> newp)
        in case preopened_port s of
             None \<Rightarrow> Done \<lparr>po_heap = h, preopened_port = Some new\<rparr>
           | Some p0 \<Rightarrow>
               run_bind (seek fuel (\<lambda>e. pre_filename e = filename) h p0) (\<lambda>p.
               run_bind (deref h p) (\<lambda>c.
                 if pre_filename (val c) = filename then Done \<lparr>po_heap = h, preopened_port = Some p0\<rparr>
                 else run_bind (set_nxt p (Some new) (h(new \<mapsto> newp\<lparr>prv := Some p\<rparr>))) (\<lambda>h.
                   Done \<lparr>po_heap = h, preopened_port = Some p\<rparr>))))"

text \<open>
  The list the program sees starts at \<open>preopened_port\<close>; \<open>hidden\<close> are nodes before it, which the
  head pointer has moved past.
\<close>

definition pre_inv :: "preopened_state \<Rightarrow> addr list \<Rightarrow> addr list \<Rightarrow> bool" where
  "pre_inv s hidden as \<longleftrightarrow> dlist (po_heap s) (hidden @ as) \<and> preopened_port s = hdp as \<and> (as = [] \<longrightarrow> hidden = [])"

definition pre_visible :: "preopened_state \<Rightarrow> addr list \<Rightarrow> (string \<times> int) list" where
  "pre_visible s as = map (\<lambda>e. (pre_filename e, pre_fd e)) (contents (po_heap s) as)"

section \<open>Looking up\<close>

lemma pre_seek:
  assumes "pre_inv s hidden (a # as)" and "length as < fuel"
  shows "seek fuel P (po_heap s) a = Done (stop_at P (po_heap s) (a # as))"
proof -
  have "dseg (po_heap s) (lastp None hidden) (Some a) (a # as) None"
    using assms(1) by (auto simp: pre_inv_def dlist_def dseg_append split: option.splits)
  then show ?thesis using assms(2) by (rule seek_dseg)
qed

lemma map_of_None_contents:
  "map_of (pre_visible s as) n = None \<longleftrightarrow> \<not> (\<exists>v \<in> set (contents (po_heap s) as). pre_filename v = n)"
  by (auto simp: pre_visible_def map_of_eq_None_iff image_iff)

text \<open>What the lookup finds, split at the node where the search stops.\<close>

lemma pre_lookup:
  assumes "pre_inv s hidden (a # as)" and "length as < fuel"
    and "map_of (pre_visible s (a # as)) filename = Some fd"
  obtains xs q ys c where "a # as = xs @ q # ys"
    and "seek fuel (\<lambda>e. pre_filename e = filename) (po_heap s) a = Done q"
    and "po_heap s q = Some c" and "pre_filename (val c) = filename" and "pre_fd (val c) = fd"
    and "map_of (pre_visible s xs) filename = None"
proof -
  define P where "P = (\<lambda>e :: preopened. pre_filename e = filename)"
  define q where "q = stop_at P (po_heap s) (a # as)"
  have hit: "P (val (the (po_heap s q)))"
    using assms(3) stop_at_hit [of "a # as" P "po_heap s"] map_of_None_contents [of s "a # as" filename]
    by (auto simp: P_def q_def)
  obtain xs ys where split: "a # as = xs @ q # ys" and no: "\<forall>v \<in> set (contents (po_heap s) xs). \<not> P v"
    using stop_at_first [of "a # as" P "po_heap s"] unfolding q_def by blast
  have "q \<in> set (hidden @ a # as)" using split by simp
  then obtain c where c: "po_heap s q = Some c"
    using assms(1) dlist_mem unfolding pre_inv_def by blast
  have none: "map_of (pre_visible s xs) filename = None"
    using no by (simp add: map_of_None_contents P_def)
  have "map_of (pre_visible s (a # as)) filename = Some (pre_fd (val c))"
    using none hit c unfolding split by (simp add: pre_visible_def contents_def P_def map_add_Some_iff)
  with assms(3) have fd: "pre_fd (val c) = fd" by simp
  have name: "pre_filename (val c) = filename" using hit c by (simp add: P_def)
  have "seek fuel P (po_heap s) a = Done q"
    unfolding q_def by (rule pre_seek [OF assms(1,2)])
  then show thesis
    by (intro that [OF split _ c name fd none]) (simp only: P_def)
qed

lemma find_preopened_found:
  assumes "pre_inv s hidden (a # as)" and "length as < fuel"
    and "map_of (pre_visible s (a # as)) filename = Some fd"
  obtains xs q ys h where "a # as = xs @ q # ys"
    and "find_preopened_ports fuel filename s = Done (fd, \<lparr>po_heap = h(q := None),
        preopened_port = (if hidden = [] \<and> xs = [] \<and> ys = [] then None else Some a)\<rparr>)"
    and "dlist (h(q := None)) (hidden @ xs @ ys)" and "same_vals (po_heap s) h"
    and "map_of (pre_visible s xs) filename = None"
proof -
  obtain xs q ys c where q: "a # as = xs @ q # ys"
    "seek fuel (\<lambda>e. pre_filename e = filename) (po_heap s) a = Done q" "po_heap s q = Some c"
    "pre_filename (val c) = filename" "pre_fd (val c) = fd" "map_of (pre_visible s xs) filename = None"
    using pre_lookup [OF assms] .
  have d: "dlist (po_heap s) ((hidden @ xs) @ q # ys)"
    using assms(1) q(1) by (simp add: pre_inv_def)
  obtain h where h: "unlink q (po_heap s) = Done h" "dlist h ((hidden @ xs) @ ys)" "same_vals (po_heap s) h"
    using unlink_ok [OF d] by blast
  have "prv c = lastp None (hidden @ xs)" "nxt c = hdp ys"
    using dlist_prv_nxt [OF d] q(3) by auto
  then have both: "(prv c = None \<and> nxt c = None) = (hidden = [] \<and> xs = [] \<and> ys = [])"
    by (auto simp: lastp_def hdp_def split: if_splits)
  have nq: "q \<notin> set (hidden @ xs @ ys)" using d by (auto simp: dlist_def)
  show thesis
  proof (rule that [of xs q ys h])
    have "preopened_port s = Some a" using assms(1) by (simp add: pre_inv_def)
    then show "find_preopened_ports fuel filename s = Done (fd, \<lparr>po_heap = h(q := None),
        preopened_port = (if hidden = [] \<and> xs = [] \<and> ys = [] then None else Some a)\<rparr>)"
      using q(2-5) h(1) both by (simp add: find_preopened_ports_def)
  qed (use q h nq in simp_all)
qed

lemma find_preopened_absent:
  assumes inv: "pre_inv s hidden (a # bs)" and len: "length bs < fuel"
    and none: "map_of (pre_visible s (a # bs)) filename = None"
  shows "find_preopened_ports fuel filename s = Done (0, s)"
proof -
  define P where "P = (\<lambda>e :: preopened. pre_filename e = filename)"
  have "stop_at P (po_heap s) (a # bs) \<in> set (hidden @ a # bs)"
    using stop_at_mem [of "a # bs" P "po_heap s"] by auto
  then obtain c where c: "po_heap s (stop_at P (po_heap s) (a # bs)) = Some c"
    using inv dlist_mem unfolding pre_inv_def by blast
  then have "pre_filename (val c) \<noteq> filename"
    using none stop_at_hit [of "a # bs" P "po_heap s"] by (auto simp: map_of_None_contents P_def)
  then show ?thesis
    using c inv pre_seek [OF inv len, of P]
    by (simp add: find_preopened_ports_def pre_inv_def P_def)
qed

text \<open>C13. Looking a port up that was opened before: the search ends, the descriptor of the first
  entry with that name is returned, and, unless the entry is the first of several, exactly that entry
  leaves the list and the list stays well formed. A name that is not in the list gives 0 and changes
  nothing.\<close>

theorem find_preopened_correct:
  assumes "pre_inv s hidden as" and "length as \<le> fuel"
  shows "(case map_of (pre_visible s as) filename of
      None \<Rightarrow> find_preopened_ports fuel filename s = Done (0, s)
    | Some fd \<Rightarrow> \<exists>s' xs q ys. find_preopened_ports fuel filename s = Done (fd, s') \<and> as = xs @ q # ys
        \<and> map_of (pre_visible s xs) filename = None \<and> po_heap s' q = None
        \<and> (xs \<noteq> [] \<or> hidden = [] \<and> ys = [] \<longrightarrow>
            pre_inv s' hidden (xs @ ys) \<and> pre_visible s' (xs @ ys) = pre_visible s (xs @ ys)))"
proof (cases as)
  case Nil
  then show ?thesis
    using assms(1) by (simp add: find_preopened_ports_def pre_inv_def pre_visible_def contents_def)
next
  case (Cons a bs)
  with assms have inv: "pre_inv s hidden (a # bs)" and len: "length bs < fuel" by auto
  show ?thesis
  proof (cases "map_of (pre_visible s as) filename")
    case None
    then show ?thesis using find_preopened_absent [OF inv len] Cons by simp
  next
    case (Some fd)
    obtain xs q ys h where q: "a # bs = xs @ q # ys"
      "find_preopened_ports fuel filename s = Done (fd, \<lparr>po_heap = h(q := None),
        preopened_port = (if hidden = [] \<and> xs = [] \<and> ys = [] then None else Some a)\<rparr>)"
      "dlist (h(q := None)) (hidden @ xs @ ys)" "same_vals (po_heap s) h"
      "map_of (pre_visible s xs) filename = None"
      using find_preopened_found [OF inv len Some [unfolded Cons]] .
    let ?s' = "\<lparr>po_heap = h(q := None),
        preopened_port = (if hidden = [] \<and> xs = [] \<and> ys = [] then None else Some a)\<rparr>"
    have "q \<notin> set (xs @ ys)" and "\<forall>b \<in> set (xs @ ys). \<exists>c. po_heap s b = Some c"
      using inv q(1) dlist_mem [of "po_heap s" "hidden @ a # bs"] unfolding pre_inv_def dlist_def by auto
    then have "contents (h(q := None)) (xs @ ys) = contents (po_heap s) (xs @ ys)"
      using same_vals_contents [OF q(4)] by simp
    then have vis: "pre_visible ?s' (xs @ ys) = pre_visible s (xs @ ys)"
      by (simp add: pre_visible_def)
    have keep: "xs \<noteq> [] \<or> hidden = [] \<and> ys = [] \<longrightarrow>
        pre_inv ?s' hidden (xs @ ys) \<and> pre_visible ?s' (xs @ ys) = pre_visible s (xs @ ys)"
      using q(1,3) vis by (cases xs) (auto simp: pre_inv_def)
    have freed: "po_heap ?s' q = None" by simp
    have "as = xs @ q # ys" by (simp only: Cons q(1))
    then show ?thesis
      unfolding Some option.case
      by (intro exI [of _ ?s'] exI [of _ xs] exI [of _ q] exI [of _ ys] conjI q(2) q(5) freed keep)
  qed
qed

definition pre_two :: preopened_state where
  \<comment> \<open>two ports, \<open>COM1\<close> at address 1 and \<open>COM2\<close> at address 2\<close>
  "pre_two = \<lparr>po_heap =
     [1 \<mapsto> \<lparr>val = \<lparr>pre_filename = ''COM1'', pre_fd = 3\<rparr>, nxt = Some 2, prv = None\<rparr>,
      2 \<mapsto> \<lparr>val = \<lparr>pre_filename = ''COM2'', pre_fd = 4\<rparr>, nxt = None, prv = Some 1\<rparr>],
     preopened_port = Some 1\<rparr>"

lemma pre_two_inv: "pre_inv pre_two [] [1, 2]"
  by (simp add: pre_inv_def dlist_def pre_two_def)

theorem find_preopened_correct_witness:
  "\<exists>s'. find_preopened_ports 2 ''COM2'' pre_two = Done (4, s')"
  using find_preopened_correct [OF pre_two_inv, of 2 "''COM2''"]
  by (auto simp: pre_visible_def contents_def pre_two_def)

text \<open>Taking out the first of several preopened ports returns the right descriptor but leaves the
  head pointer at the freed node: every later lookup and every later registration, whatever the name,
  dereferences freed memory.\<close>

theorem find_preopened_head_dangles:
  assumes "pre_inv s [] (a # b # as)" and "Suc (length as) < fuel"
    and "map_of (pre_visible s [a]) filename = Some fd" and "length name < 40"
    and "new \<noteq> a"
  shows "\<exists>s'. find_preopened_ports fuel filename s = Done (fd, s')
    \<and> find_preopened_ports fuel name s' = Fault
    \<and> static_add_filename fuel new name fd' s' = Fault"
proof -
  have m: "map_of (pre_visible s (a # b # as)) filename = Some fd"
    using assms(3) by (simp add: pre_visible_def contents_def split: if_splits)
  have len: "length (b # as) < fuel" using assms(2) by simp
  obtain xs q ys h where q: "a # b # as = xs @ q # ys"
      "find_preopened_ports fuel filename s = Done (fd, \<lparr>po_heap = h(q := None),
        preopened_port = (if ([]::addr list) = [] \<and> xs = [] \<and> ys = [] then None else Some a)\<rparr>)"
      "map_of (pre_visible s xs) filename = None"
    using find_preopened_found [OF assms(1) len m] by metis
  have xs: "xs = []"
    using q(1,3) assms(3) by (cases xs) (auto simp: pre_visible_def contents_def split: if_splits)
  with q(1) have qa: "q = a" and ys: "ys = b # as" by simp_all
  obtain n where n: "fuel = Suc n" using assms(2) by (cases fuel) auto
  define s' where "s' = \<lparr>po_heap = h(a := None), preopened_port = Some a\<rparr>"
  have "find_preopened_ports fuel filename s = Done (fd, s')"
    using q(2) unfolding xs qa ys s'_def by simp
  moreover have "find_preopened_ports fuel name s' = Fault"
    by (simp add: find_preopened_ports_def s'_def deref_def n)
  moreover have "static_add_filename fuel new name fd' s' = Fault"
    using assms(4,5) by (simp add: static_add_filename_def s'_def deref_def n Let_def)
  ultimately show ?thesis by blast
qed

theorem find_preopened_head_dangles_witness:
  "\<exists>s'. find_preopened_ports 2 ''COM1'' pre_two = Done (3, s') \<and> find_preopened_ports 2 ''COM2'' s' = Fault"
  using find_preopened_head_dangles [OF pre_two_inv, of 2 "''COM1''" 3 "''COM2''" 3 5]
  by (auto simp: pre_visible_def contents_def pre_two_def)

section \<open>Registering\<close>

text \<open>Registering a port whose name is not in the list appends it, and then moves the head
  pointer to the node before it: of the ports visible before only the last one stays visible, so a
  third registration hides the first port for good. With no port registered the list becomes the new
  port alone, and a name already visible is left as it is.\<close>

theorem static_add_filename_visible:
  assumes "pre_inv s hidden as" and "length as \<le> fuel" and "new \<notin> set (hidden @ as)"
    and "po_heap s new = None" and "length filename < 40"
    and "map_of (pre_visible s as) filename = None"
  shows "\<exists>s' vis. static_add_filename fuel new filename fd s = Done s'
    \<and> pre_inv s' (hidden @ butlast as) vis
    \<and> pre_visible s' vis = (if as = [] then [] else [last (pre_visible s as)]) @ [(filename, fd)]"
proof (cases as rule: rev_cases)
  case Nil
  then have "hidden = []" "preopened_port s = None" using assms(1) by (auto simp: pre_inv_def)
  then show ?thesis
    using assms(5) Nil
    by (auto simp: static_add_filename_def pre_inv_def dlist_def pre_visible_def contents_def Let_def
      intro!: exI [of _ "[new]"])
next
  case (snoc xs p)
  define P where "P = (\<lambda>e :: preopened. pre_filename e = filename)"
  define newp where "newp = \<lparr>val = \<lparr>pre_filename = filename, pre_fd = fd\<rparr>, nxt = None, prv = (None :: addr option)\<rparr>"
  define h where "h = (po_heap s)(new \<mapsto> newp)"
  obtain a bs where ab: "as = a # bs" using snoc by (metis append_is_Nil_conv neq_Nil_conv)
  have head: "preopened_port s = Some a" using assms(1) ab by (simp add: pre_inv_def)
  have d: "dlist (po_heap s) ((hidden @ xs) @ [p])" using assms(1) snoc by (simp add: pre_inv_def)
  then obtain cp where cp: "po_heap s p = Some cp" using dlist_mem by fastforce
  have np: "new \<noteq> p" using assms(4) cp by auto
  have none: "\<forall>v \<in> set (contents h as). \<not> P v"
    using assms(3,6) by (simp add: h_def map_of_None_contents P_def)
  have stop: "stop_at P h as = p" using stop_at_last [OF _ none] snoc by simp
  have "pre_inv \<lparr>po_heap = h, preopened_port = preopened_port s\<rparr> hidden as"
    using assms(1,3) by (simp add: pre_inv_def h_def)
  from pre_seek [OF this [unfolded ab], of fuel P] have sk: "seek fuel P h a = Done p"
    using assms(2) ab stop by simp
  have nh: "pre_filename (val cp) \<noteq> filename"
    using none snoc cp np by (auto simp: contents_def h_def P_def)
  define h' where "h' = (po_heap s)(new \<mapsto> newp\<lparr>prv := Some p\<rparr>, p \<mapsto> cp\<lparr>nxt := Some new\<rparr>)"
  have run: "static_add_filename fuel new filename fd s = Done \<lparr>po_heap = h', preopened_port = Some p\<rparr>"
    using assms(5) head sk nh cp np
    by (simp add: static_add_filename_def Let_def h_def [symmetric] newp_def [symmetric] P_def)
      (simp add: h_def h'_def newp_def set_nxt_def)
  have "dlist h' ((hidden @ xs) @ [p, new])"
    using append_ok [OF d cp, of new "\<lparr>pre_filename = filename, pre_fd = fd\<rparr>"] assms(3) snoc
    by (simp add: h'_def newp_def)
  then have inv: "pre_inv \<lparr>po_heap = h', preopened_port = Some p\<rparr> (hidden @ butlast as) [p, new]"
    using snoc by (simp add: pre_inv_def)
  have vis: "pre_visible \<lparr>po_heap = h', preopened_port = Some p\<rparr> [p, new]
      = [last (pre_visible s as), (filename, fd)]"
    using snoc cp np by (simp add: pre_visible_def contents_def h'_def newp_def)
  show ?thesis
    by (rule exI, rule exI [of _ "[p, new]"], intro conjI, rule run, rule inv) (use vis snoc in simp)
qed

theorem static_add_filename_visible_witness:
  "\<exists>s' vis. static_add_filename 2 7 ''COM3'' 9 pre_two = Done s'
    \<and> pre_visible s' vis = [(''COM2'', 4), (''COM3'', 9)]"
proof -
  have v: "pre_visible pre_two [1, 2] = [(''COM1'', 3), (''COM2'', 4)]"
    by (simp add: pre_visible_def contents_def pre_two_def)
  have "po_heap pre_two 7 = None" by (simp add: pre_two_def)
  from static_add_filename_visible [OF pre_two_inv _ _ this, of 2 "''COM3''" 9]
  show ?thesis unfolding v by auto
qed

end
