(* ===== verification/Lock_Files.thy ===== *)
theory Lock_Files
  imports Dll
begin

text \<open>
  Lock files: \<open>fhs_lock\<close>, \<open>uucp_lock\<close>, \<open>check_lock_status\<close>, \<open>fhs_unlock\<close>,
  \<open>uucp_unlock\<close>, \<open>check_lock_pid\<close>, \<open>check_group_uucp\<close> and \<open>is_device_locked\<close> of
  \<open>SerialImp.c\<close>, over a file system that is a record: regular files with their text, directories with
  their inode numbers, device nodes with their numbers, permissions, and which processes are gone
  (\<open>kill(pid, 0)\<close> fails with \<open>ESRCH\<close>). Overrunning a fixed buffer is \<open>Fault\<close>. Locals the
  code reads before anything was stored in them are in \<open>uninit\<close>.
\<close>

section \<open>The file system\<close>

type_synonym devnums = "nat \<times> nat \<times> nat"

record fsys =
  fs_file :: "string \<Rightarrow> string option"
  fs_ino :: "string \<Rightarrow> nat option"
  fs_dev :: "string \<Rightarrow> devnums option"
  fs_can_create :: "string \<Rightarrow> bool"
  fs_can_read :: "string \<Rightarrow> bool"
  fs_can_unlink :: "string \<Rightarrow> bool"
  fs_gone :: "int \<Rightarrow> bool"
  fs_pid :: int
  fs_ppid :: int

definition fs_stat :: "string \<Rightarrow> fsys \<Rightarrow> devnums option" where
  \<comment> \<open>\<open>stat\<close>: major of \<open>st_dev\<close>, major and minor of \<open>st_rdev\<close>\<close>
  "fs_stat path s =
     (case fs_dev s path of Some n \<Rightarrow> Some n
      | None \<Rightarrow> if fs_file s path \<noteq> None \<or> fs_ino s path \<noteq> None then Some (0, 0, 0) else None)"

definition fs_exists :: "string \<Rightarrow> fsys \<Rightarrow> bool" where
  "fs_exists path s \<longleftrightarrow> fs_stat path s \<noteq> None"

definition fs_creat_excl :: "string \<Rightarrow> string \<Rightarrow> fsys \<Rightarrow> fsys option" where
  \<comment> \<open>\<open>open(path, O_CREAT | O_WRONLY | O_EXCL)\<close>, \<open>write\<close> and \<open>close\<close>\<close>
  "fs_creat_excl path text s =
     (if fs_exists path s \<or> \<not> fs_can_create s path then None
      else Some (s\<lparr>fs_file := (fs_file s)(path \<mapsto> text)\<rparr>))"

definition fs_unlink :: "string \<Rightarrow> fsys \<Rightarrow> int \<times> fsys" where
  "fs_unlink path s =
     (if fs_file s path \<noteq> None \<and> fs_can_unlink s path
      then (0, s\<lparr>fs_file := (fs_file s)(path := None)\<rparr>) else (-1, s))"

section \<open>Configuration and names\<close>

record lock_conf =
  LOCKDIR :: string
  LOCKFILEPREFIX :: string
  FHS :: bool

definition linux_conf :: lock_conf where
  "linux_conf = \<lparr>LOCKDIR = ''/var/lock'', LOCKFILEPREFIX = ''LCK..'', FHS = True\<rparr>"

definition freebsd_conf :: lock_conf where
  "freebsd_conf = \<lparr>LOCKDIR = ''/var/spool/lock'', LOCKFILEPREFIX = ''LK..'', FHS = False\<rparr>"

record uninit =
  u_buf :: devnums
  u_pidbuf :: string
  u_pid :: int
  u_ino :: nat

definition dec3 :: "nat \<Rightarrow> string" where
  "dec3 n = pad_left 3 (CHR ''0'') (digits_of n)"

definition dev_name :: "devnums \<Rightarrow> string" where
  \<comment> \<open>\<open>%03d.%03d.%03d\<close>\<close>
  "dev_name n = (case n of (a, b, c) \<Rightarrow> dec3 a @ ''.'' @ dec3 b @ ''.'' @ dec3 c)"

definition dec_int :: "int \<Rightarrow> string" where
  "dec_int i = (if i < 0 then CHR ''-'' # digits_of (nat (- i)) else digits_of (nat i))"

definition lockinfo :: "int \<Rightarrow> string" where
  \<comment> \<open>\<open>sprintf(lockinfo, "%10d\n", pid)\<close>\<close>
  "lockinfo pid = pad_left 10 (CHR '' '') (dec_int pid) @ [char_of (10::nat)]"

definition fhs_file :: "lock_conf \<Rightarrow> string \<Rightarrow> string" where
  "fhs_file C filename = LOCKDIR C @ ''/LCK..'' @ base_of filename"

definition uucp_file :: "lock_conf \<Rightarrow> devnums \<Rightarrow> string" where
  "uucp_file C n = LOCKDIR C @ ''/LK.'' @ dev_name n"

section \<open>Checks before locking\<close>

definition check_group_uucp :: "lock_conf \<Rightarrow> string option \<Rightarrow> fsys \<Rightarrow> int \<times> fsys" where
  \<comment> \<open>\<open>tmp\<close> is the file name \<open>mktemp\<close> makes of the template, if any\<close>
  "check_group_uucp C tmp s =
     (case tmp of
        None \<Rightarrow> (1, s)
      | Some name \<Rightarrow>
          let path = LOCKDIR C @ ''/'' @ name in
          if \<not> fs_can_create s path then (1, s)
          else (0, snd (fs_unlink path (s\<lparr>fs_file := (fs_file s)(path \<mapsto> [])\<rparr>))))"

definition lockdirs :: "lock_conf \<Rightarrow> string list" where
  "lockdirs C = [''/etc/locks'', ''/usr/spool/kermit'', ''/usr/spool/locks'', ''/usr/spool/uucp'',
     ''/usr/spool/uucp/'', ''/usr/spool/uucp/LCK'', ''/var/lock'', ''/var/lock/modem'',
     ''/var/spool/lock'', ''/var/spool/locks'', ''/var/spool/uucp'', LOCKDIR C]"

definition lockprefixes :: "string list" where
  "lockprefixes = [''LCK..'', ''lk..'', ''LK.'']"

definition suspect_dir :: "lock_conf \<Rightarrow> uninit \<Rightarrow> fsys \<Rightarrow> string \<Rightarrow> bool" where
  \<comment> \<open>the directory is there, is not the lock directory, and its name is no prefix of it\<close>
  "suspect_dir C u s d \<longleftrightarrow>
     (case fs_ino s d of None \<Rightarrow> False
      | Some i \<Rightarrow> i \<noteq> (case fs_ino s (LOCKDIR C) of None \<Rightarrow> u_ino u | Some l \<Rightarrow> l)
         \<and> take (length d) (LOCKDIR C) \<noteq> d)"

definition unexpected_lock :: "lock_conf \<Rightarrow> uninit \<Rightarrow> string \<Rightarrow> fsys \<Rightarrow> bool" where
  "unexpected_lock C u port_filename s \<longleftrightarrow>
     list_ex (\<lambda>d. suspect_dir C u s d \<and>
       list_ex (\<lambda>k. fs_exists (d @ ''/'' @ k @ base_of port_filename) s
         \<or> fs_exists (d @ ''/'' @ k @ dev_name (case fs_stat port_filename s of
               None \<Rightarrow> u_buf u | Some n \<Rightarrow> n)) s) lockprefixes) (lockdirs C)"

definition pid_text :: "string \<Rightarrow> uninit \<Rightarrow> fsys \<Rightarrow> string" where
  \<comment> \<open>\<open>pid_buffer\<close> after \<open>read(fd, pid_buffer, 11)\<close>: the bytes read, then what was there\<close>
  "pid_text file u s =
     (case fs_file s file of
        None \<Rightarrow> u_pidbuf u
      | Some c \<Rightarrow> if fs_can_read s file then take 11 c @ drop (length (take 11 c)) (u_pidbuf u)
                  else u_pidbuf u)"

definition remove_stale :: "string \<Rightarrow> uninit \<Rightarrow> fsys \<Rightarrow> int \<times> fsys" where
  "remove_stale file u s =
     (if \<not> fs_exists file s then (0, s)
      else if fs_gone s (sscanf_d (pid_text file u s) (u_pid u))
      then (let (r, s) = fs_unlink file s in if r \<noteq> 0 then (1, s) else (0, s))
      else (0, s))"

definition is_device_locked :: "lock_conf \<Rightarrow> uninit \<Rightarrow> string \<Rightarrow> fsys \<Rightarrow> int \<times> fsys" where
  "is_device_locked C u port_filename s =
     (if unexpected_lock C u port_filename s then (1, s)
      else if FHS C
      then remove_stale (LOCKDIR C @ ''/'' @ LOCKFILEPREFIX C @ base_of port_filename) u s
      else case fs_stat port_filename s of
             None \<Rightarrow> (1, s)
           | Some n \<Rightarrow> remove_stale (uucp_file C n) u s)"

definition check_lock_status ::
  "lock_conf \<Rightarrow> string option \<Rightarrow> uninit \<Rightarrow> string \<Rightarrow> fsys \<Rightarrow> int \<times> fsys" where
  "check_lock_status C tmp u filename s =
     (if \<not> fs_exists (LOCKDIR C) s then (1, s)
      else let (r, s) = check_group_uucp C tmp s in
      if r \<noteq> 0 then (1, s)
      else let (r, s) = is_device_locked C u filename s in
      if r \<noteq> 0 then (1, s) else (0, s))"

section \<open>Locking and unlocking\<close>

definition fhs_lock ::
  "lock_conf \<Rightarrow> string option \<Rightarrow> uninit \<Rightarrow> string \<Rightarrow> int \<Rightarrow> fsys \<Rightarrow> (int \<times> fsys) run" where
  \<comment> \<open>\<open>file[80]\<close>; the argument \<open>pid\<close> is not used\<close>
  "fhs_lock C tmp u filename pid s =
     (let file = fhs_file C filename in
      if 80 \<le> length file then Fault
      else let (r, s) = check_lock_status C tmp u filename s in
      if r \<noteq> 0 then Done (1, s)
      else case fs_creat_excl file (lockinfo (fs_pid s)) s of
             None \<Rightarrow> Done (1, s)
           | Some s' \<Rightarrow> Done (0, s'))"

definition uucp_lock ::
  "lock_conf \<Rightarrow> string option \<Rightarrow> uninit \<Rightarrow> string \<Rightarrow> int \<Rightarrow> fsys \<Rightarrow> (int \<times> fsys) run" where
  \<comment> \<open>\<open>message[80]\<close> and \<open>lockfilename[80]\<close>; when the device is not found the uninitialised
    \<open>name\<close> is printed\<close>
  "uucp_lock C tmp u filename pid s =
     (if 80 \<le> length (''uucp_lock( '' @ filename @ '' );'') + 1 then Fault
      else let (r, s) = check_lock_status C tmp u filename s in
      if r \<noteq> 0 then Done (1, s)
      else if \<not> fs_exists (LOCKDIR C) s then Done (1, s)
      else case fs_stat filename s of
        None \<Rightarrow> Fault
      | Some n \<Rightarrow>
          let file = uucp_file C n in
          if 80 \<le> length file then Fault
          else if fs_exists file s
          then (if 80 \<le> length (''RXTX uucp_lock() '' @ file @ '' is there'') + 1 then Fault else Done (1, s))
          else case fs_creat_excl file (lockinfo (fs_pid s)) s of
                 None \<Rightarrow> (if 80 \<le> length (''RXTX uucp_lock() Error: creating lock file: '' @ file) + 1
                          then Fault else Done (1, s))
               | Some s' \<Rightarrow> Done (0, s'))"

definition check_lock_pid :: "uninit \<Rightarrow> string \<Rightarrow> int \<Rightarrow> fsys \<Rightarrow> int" where
  "check_lock_pid u file openpid s =
     (if fs_file s file = None \<or> \<not> fs_can_read s file then 1
      else let lockpid = atoi (take 11 (pid_text file u s)) in
      if lockpid \<noteq> fs_pid s \<and> lockpid \<noteq> fs_ppid s \<and> lockpid \<noteq> openpid then 1 else 0)"

definition fhs_unlock :: "lock_conf \<Rightarrow> uninit \<Rightarrow> string \<Rightarrow> int \<Rightarrow> fsys \<Rightarrow> fsys run" where
  "fhs_unlock C u filename openpid s =
     (let file = fhs_file C filename in
      if 80 \<le> length file then Fault
      else if check_lock_pid u file openpid s = 0 then Done (snd (fs_unlink file s))
      else Done s)"

definition uucp_unlock :: "lock_conf \<Rightarrow> uninit \<Rightarrow> string \<Rightarrow> int \<Rightarrow> fsys \<Rightarrow> fsys run" where
  "uucp_unlock C u filename openpid s =
     (if 80 \<le> length (''uucp_unlock( '' @ filename @ '' );'') + 1 then Fault
      else case fs_stat filename s of
        None \<Rightarrow> Done s
      | Some n \<Rightarrow>
          let file = uucp_file C n in
          if 80 \<le> length file then Fault
          else if \<not> fs_exists file s then Done s
          else if check_lock_pid u file openpid s = 0
          then (if 80 \<le> length (''uucp_unlock: unlinking '' @ file) + 1 then Fault
                else Done (snd (fs_unlink file s)))
          else (if 80 \<le> length (''uucp_unlock: unlinking failed '' @ file) + 1 then Fault else Done s))"

definition system_does_not_lock :: "string \<Rightarrow> int \<Rightarrow> 's \<Rightarrow> (int \<times> 's) run" where
  "system_does_not_lock filename pid s = Done (0, s)"

definition system_does_not_unlock :: "string \<Rightarrow> int \<Rightarrow> 's \<Rightarrow> 's run" where
  "system_does_not_unlock filename openpid s = Done s"

section \<open>What a lock service promises\<close>

text \<open>
  The contract of the macros \<open>LOCK\<close> and \<open>UNLOCK\<close> as \<open>open()\<close> and \<open>nativeClose()\<close> rely
  on it. \<open>ok\<close> says that the service can work for a device at all, \<open>held\<close> that somebody holds its
  lock, \<open>mine\<close> that the calling process does.
\<close>

locale lock_service =
  fixes lock :: "string \<Rightarrow> int \<Rightarrow> 's \<Rightarrow> (int \<times> 's) run"
    and unlock :: "string \<Rightarrow> int \<Rightarrow> 's \<Rightarrow> 's run"
    and ok :: "string \<Rightarrow> 's \<Rightarrow> bool" and valid :: "int \<Rightarrow> 's \<Rightarrow> bool"
    and held :: "string \<Rightarrow> 's \<Rightarrow> bool" and mine :: "string \<Rightarrow> int \<Rightarrow> 's \<Rightarrow> bool"
  assumes lock_free: "ok n s \<Longrightarrow> valid pid s \<Longrightarrow> \<not> held n s \<Longrightarrow>
      \<exists>s'. lock n pid s = Done (0, s') \<and> ok n s' \<and> mine n pid s' \<and> (\<forall>q. valid q s' = valid q s)"
    and lock_held: "ok n s \<Longrightarrow> valid pid s \<Longrightarrow> held n s \<Longrightarrow> \<exists>r. r \<noteq> 0 \<and> lock n pid s = Done (r, s)"
    and unlock_mine: "ok n s \<Longrightarrow> valid pid s \<Longrightarrow> mine n pid s \<Longrightarrow>
      \<exists>s'. unlock n pid s = Done s' \<and> ok n s' \<and> \<not> held n s' \<and> (\<forall>q. valid q s' = valid q s)"
    and mine_held: "ok n s \<Longrightarrow> valid pid s \<Longrightarrow> mine n pid s \<Longrightarrow> held n s"
begin

text \<open>A lock can be taken, is then refused to everybody, and after the release can be taken again.\<close>

lemma lock_cycle:
  assumes "ok n s" and "valid pid s" and "valid pid' s" and "\<not> held n s"
  obtains s1 s2 s3 where "lock n pid s = Done (0, s1)"
    and "\<And>q. valid q s \<Longrightarrow> \<exists>r. r \<noteq> 0 \<and> lock n q s1 = Done (r, s1)"
    and "unlock n pid s1 = Done s2" and "\<not> held n s2" and "lock n pid' s2 = Done (0, s3)" and "mine n pid' s3"
proof -
  obtain s1 where 1: "lock n pid s = Done (0, s1)" "ok n s1" "mine n pid s1" "\<forall>q. valid q s1 = valid q s"
    using lock_free [OF assms(1,2,4)] by blast
  then have v1: "valid pid s1" using assms(2) by simp
  obtain s2 where 2: "unlock n pid s1 = Done s2" "ok n s2" "\<not> held n s2" "\<forall>q. valid q s2 = valid q s1"
    using unlock_mine [OF 1(2) v1 1(3)] by blast
  then have v2: "valid pid' s2" using assms(3) 1(4) by simp
  obtain s3 where 3: "lock n pid' s2 = Done (0, s3)" "mine n pid' s3"
    using lock_free [OF 2(2) v2 2(3)] by blast
  have h: "held n s1" by (rule mine_held [OF 1(2) v1 1(3)])
  show thesis
    by (rule that [OF 1(1) _ 2(1) 2(3) 3], rule lock_held [OF 1(2) _ h]) (simp add: 1(4))
qed

end

section \<open>The text of a lock file\<close>

definition good_pid :: "int \<Rightarrow> bool" where
  "good_pid q \<longleftrightarrow> 0 \<le> q \<and> q < 2^31"

lemma lockinfo_good:
  assumes "good_pid q"
  shows "length (lockinfo q) = 11" and "atoi (lockinfo q) = q" and "sscanf_d (lockinfo q @ t) old = q"
proof -
  have q: "int (nat q) = q" "int (nat q) < 2^31" using assms by (auto simp: good_pid_def)
  have li: "lockinfo q = pad_left 10 (CHR '' '') (digits_of (nat q)) @ [char_of (10::nat)]"
    using assms by (simp add: lockinfo_def dec_int_def good_pid_def)
  have "nat q < 10 ^ 10" using assms by (auto simp: good_pid_def)
  then show "length (lockinfo q) = 11"
    using length_digits_of [of "nat q" 10] by (simp add: li)
  show "atoi (lockinfo q) = q" "sscanf_d (lockinfo q @ t) old = q"
    using atoi_padded [OF q(2), of 10 "[]"] sscanf_padded [OF q(2), of 10 t old]
    unfolding q(1) by (simp_all add: li)
qed

section \<open>Lock files in a usable file system\<close>

definition held_file :: "string \<Rightarrow> fsys \<Rightarrow> bool" where
  "held_file f s \<longleftrightarrow> (case fs_file s f of None \<Rightarrow> False | Some c \<Rightarrow> \<not> fs_gone s (atoi c))"

definition lock_env :: "lock_conf \<Rightarrow> string option \<Rightarrow> uninit \<Rightarrow> string \<Rightarrow> string \<Rightarrow> fsys \<Rightarrow> bool" where
  \<comment> \<open>the lock directory can be used, nobody else keeps locks for the device elsewhere, and a lock file
    that is there was written by this library\<close>
  "lock_env C tmp u n f s \<longleftrightarrow>
     fs_ino s (LOCKDIR C) \<noteq> None \<and> fs_dev s n \<noteq> None
   \<and> (case tmp of None \<Rightarrow> False | Some t \<Rightarrow> take 3 t = ''tmp''
        \<and> fs_can_create s (LOCKDIR C @ ''/'' @ t) \<and> fs_can_unlink s (LOCKDIR C @ ''/'' @ t)
        \<and> fs_file s (LOCKDIR C @ ''/'' @ t) = None)
   \<and> \<not> unexpected_lock C u n s
   \<and> fs_can_create s f \<and> fs_can_read s f \<and> fs_can_unlink s f \<and> fs_dev s f = None \<and> fs_ino s f = None
   \<and> 0 < fs_pid s \<and> good_pid (fs_pid s) \<and> \<not> fs_gone s (fs_pid s)
   \<and> (case fs_file s f of None \<Rightarrow> True | Some c \<Rightarrow> good_pid (atoi c) \<and> c = lockinfo (atoi c))"

lemma suspect_path:
  assumes "C \<in> {linux_conf, freebsd_conf}" and "d \<in> set (lockdirs C)" and "suspect_dir C u s d"
  shows "d @ ''/'' @ x \<noteq> LOCKDIR C @ ''/L'' @ y"
  using assms
  by (auto simp: lockdirs_def linux_conf_def freebsd_conf_def suspect_dir_def split: option.splits)

lemma fs_exists_upd [simp]:
  "p \<noteq> f \<Longrightarrow> fs_exists p (s\<lparr>fs_file := (fs_file s)(f := v)\<rparr>) = fs_exists p s"
  by (simp add: fs_exists_def fs_stat_def split: option.splits)

lemma unexpected_frame:
  assumes "C \<in> {linux_conf, freebsd_conf}" and "fs_dev s n \<noteq> None" and "f = LOCKDIR C @ ''/L'' @ y"
  shows "unexpected_lock C u n (s\<lparr>fs_file := (fs_file s)(f := v)\<rparr>) = unexpected_lock C u n s"
proof -
  let ?s' = "s\<lparr>fs_file := (fs_file s)(f := v)\<rparr>"
  have st: "fs_stat n ?s' = fs_stat n s" using assms(2) by (auto simp: fs_stat_def)
  have sus: "suspect_dir C u ?s' d = suspect_dir C u s d" for d
    by (simp add: suspect_dir_def split: option.splits)
  have ex: "fs_exists (d @ ''/'' @ x) ?s' = fs_exists (d @ ''/'' @ x) s"
    if "d \<in> set (lockdirs C)" "suspect_dir C u s d" for d x
    using suspect_path [OF assms(1) that, of x y] assms(3) by simp
  show ?thesis
    unfolding unexpected_lock_def st sus list_ex_iff using ex by blast
qed

lemma lock_env_upd:
  assumes "lock_env C tmp u n f s" and "C \<in> {linux_conf, freebsd_conf}" and "f = LOCKDIR C @ ''/L'' @ y"
    and "v = None \<or> (\<exists>q. v = Some (lockinfo q) \<and> good_pid q)"
  shows "lock_env C tmp u n f (s\<lparr>fs_file := (fs_file s)(f := v)\<rparr>)"
proof -
  obtain t where t: "tmp = Some t" "take 3 t = ''tmp''"
    using assms(1) by (auto simp: lock_env_def split: option.splits)
  have ne: "LOCKDIR C @ ''/'' @ t \<noteq> f" using t(2) assms(3) by (cases t) auto
  have "fs_dev s n \<noteq> None" using assms(1) by (simp add: lock_env_def)
  then show ?thesis
    using assms(1,4) unexpected_frame [OF assms(2) _ assms(3)] ne t
    by (auto simp: lock_env_def lockinfo_good split: option.splits)
qed

lemma check_group_ok:
  assumes "lock_env C tmp u n f s" and "check_group_uucp C tmp s = r"
  shows "r = (0, s)"
proof -
  have "s\<lparr>fs_file := (fs_file s)(p := None)\<rparr> = s" if "fs_file s p = None" for p
    using that by (simp add: fun_upd_idem)
  then show ?thesis
    using assms by (auto simp: lock_env_def check_group_uucp_def fs_unlink_def split: option.splits)
qed

lemma remove_stale_env:
  assumes "lock_env C tmp u n f s"
  shows "remove_stale f u s =
    (0, if held_file f s then s else s\<lparr>fs_file := (fs_file s)(f := None)\<rparr>)"
proof (cases "fs_file s f")
  case None
  then have "s\<lparr>fs_file := (fs_file s)(f := None)\<rparr> = s" by (simp add: fun_upd_idem)
  then show ?thesis
    using None assms
    by (simp add: remove_stale_def held_file_def fs_exists_def fs_stat_def lock_env_def)
next
  case (Some c)
  define q where "q = atoi c"
  have c: "c = lockinfo q" "good_pid q" using assms Some by (auto simp: lock_env_def q_def)
  have "pid_text f u s = lockinfo q @ drop 11 (u_pidbuf u)"
    using assms Some c lockinfo_good(1) [OF c(2)] by (simp add: pid_text_def lock_env_def)
  then have "sscanf_d (pid_text f u s) (u_pid u) = q"
    using lockinfo_good(3) [OF c(2)] by simp
  then show ?thesis
    using assms Some c lockinfo_good(2) [OF c(2)]
    by (simp add: remove_stale_def held_file_def fs_exists_def fs_stat_def lock_env_def fs_unlink_def)
qed

lemma check_lock_status_env:
  assumes "lock_env C tmp u n f s" and "is_device_locked C u n s = remove_stale f u s"
  shows "check_lock_status C tmp u n s =
    (0, if held_file f s then s else s\<lparr>fs_file := (fs_file s)(f := None)\<rparr>)"
proof -
  have "fs_exists (LOCKDIR C) s"
    using assms(1) by (auto simp: lock_env_def fs_exists_def fs_stat_def split: option.splits)
  then show ?thesis
    using check_group_ok [OF assms(1) refl] assms(2) remove_stale_env [OF assms(1)]
    by (simp add: check_lock_status_def)
qed

lemma check_lock_pid_mine:
  assumes "lock_env C tmp u n f s" and "fs_file s f = Some (lockinfo (fs_pid s))"
  shows "check_lock_pid u f openpid s = 0"
  using assms lockinfo_good [of "fs_pid s"]
  by (simp add: check_lock_pid_def lock_env_def pid_text_def)

section \<open>The two lock file services\<close>

definition fhs_ok :: "string option \<Rightarrow> uninit \<Rightarrow> string \<Rightarrow> fsys \<Rightarrow> bool" where
  "fhs_ok tmp u n s \<longleftrightarrow> length (fhs_file linux_conf n) < 80
     \<and> lock_env linux_conf tmp u n (fhs_file linux_conf n) s"

definition fhs_held :: "string \<Rightarrow> fsys \<Rightarrow> bool" where
  "fhs_held n s \<longleftrightarrow> held_file (fhs_file linux_conf n) s"

definition fhs_mine :: "string \<Rightarrow> int \<Rightarrow> fsys \<Rightarrow> bool" where
  "fhs_mine n pid s \<longleftrightarrow> fs_file s (fhs_file linux_conf n) = Some (lockinfo (fs_pid s))"

lemma fhs_file_L: "fhs_file linux_conf n = LOCKDIR linux_conf @ ''/L'' @ ''CK..'' @ base_of n"
  by (simp add: fhs_file_def)

lemma fhs_status:
  assumes "fhs_ok tmp u n s"
  shows "check_lock_status linux_conf tmp u n s = (0, if fhs_held n s then s
    else s\<lparr>fs_file := (fs_file s)(fhs_file linux_conf n := None)\<rparr>)"
proof -
  have env: "lock_env linux_conf tmp u n (fhs_file linux_conf n) s"
    using assms by (simp add: fhs_ok_def)
  then have "is_device_locked linux_conf u n s = remove_stale (fhs_file linux_conf n) u s"
    by (simp add: is_device_locked_def lock_env_def linux_conf_def fhs_file_def)
  from check_lock_status_env [OF env this] show ?thesis by (simp only: fhs_held_def)
qed

lemma mine_held_file:
  "lock_env C tmp u n f s \<Longrightarrow> fs_file s f = Some (lockinfo (fs_pid s)) \<Longrightarrow> held_file f s"
  by (simp add: lock_env_def held_file_def lockinfo_good)

interpretation fhs: lock_service "fhs_lock linux_conf tmp u" "fhs_unlock linux_conf u"
  "fhs_ok tmp u" "\<lambda>_ _. True" fhs_held fhs_mine
proof
  fix n s pid
  assume ok: "fhs_ok tmp u n s"
  define f where "f = fhs_file linux_conf n"
  have env: "lock_env linux_conf tmp u n f s" and len: "length f < 80"
    using ok by (simp_all add: fhs_ok_def f_def)
  note upd = lock_env_upd [OF env, of "''CK..'' @ base_of n"]
  { assume free: "\<not> fhs_held n s"
    let ?s' = "s\<lparr>fs_file := (fs_file s)(f \<mapsto> lockinfo (fs_pid s))\<rparr>"
    have "fs_creat_excl f (lockinfo (fs_pid s)) (s\<lparr>fs_file := (fs_file s)(f := None)\<rparr>) = Some ?s'"
      using env by (simp add: fs_creat_excl_def fs_exists_def fs_stat_def lock_env_def)
    then have "fhs_lock linux_conf tmp u n pid s = Done (0, ?s')"
      using fhs_status [OF ok] free len by (simp add: fhs_lock_def f_def)
    moreover have "lock_env linux_conf tmp u n f ?s'"
      using upd [of "Some (lockinfo (fs_pid s))"] env by (auto simp: f_def fhs_file_L lock_env_def)
    ultimately show "\<exists>s'. fhs_lock linux_conf tmp u n pid s = Done (0, s') \<and> fhs_ok tmp u n s' \<and> fhs_mine n pid s'
        \<and> (\<forall>q::int. True = True)"
      using len by (intro exI [of _ ?s']) (simp add: fhs_ok_def fhs_mine_def f_def [symmetric]) }
  { assume held: "fhs_held n s"
    then have "fs_exists f s"
      by (auto simp: fhs_held_def held_file_def f_def fs_exists_def fs_stat_def split: option.splits)
    then show "\<exists>r. r \<noteq> 0 \<and> fhs_lock linux_conf tmp u n pid s = Done (r, s)"
      using fhs_status [OF ok] held len
      by (intro exI [of _ 1]) (simp add: fhs_lock_def f_def fs_creat_excl_def) }
  { assume mine: "fhs_mine n pid s"
    let ?s' = "s\<lparr>fs_file := (fs_file s)(f := None)\<rparr>"
    have "check_lock_pid u f pid s = 0"
      using check_lock_pid_mine [OF env] mine by (simp add: fhs_mine_def f_def)
    then have "fhs_unlock linux_conf u n pid s = Done ?s'"
      using len mine env by (simp add: fhs_unlock_def f_def fhs_mine_def fs_unlink_def lock_env_def)
    moreover have "lock_env linux_conf tmp u n f ?s'"
      using upd [of None] by (simp add: f_def fhs_file_L)
    ultimately show "\<exists>s'. fhs_unlock linux_conf u n pid s = Done s' \<and> fhs_ok tmp u n s' \<and> \<not> fhs_held n s'
        \<and> (\<forall>q::int. True = True)"
      using len by (intro exI [of _ ?s']) (simp add: fhs_ok_def fhs_held_def held_file_def f_def [symmetric])
    show "fhs_held n s"
      using mine_held_file [OF env] mine by (simp add: fhs_held_def fhs_mine_def f_def) }
qed

definition uucp_path :: "string \<Rightarrow> fsys \<Rightarrow> string" where
  "uucp_path n s = (case fs_dev s n of None \<Rightarrow> [] | Some d \<Rightarrow> uucp_file freebsd_conf d)"

definition uucp_ok :: "string option \<Rightarrow> uninit \<Rightarrow> string \<Rightarrow> fsys \<Rightarrow> bool" where
  "uucp_ok tmp u n s \<longleftrightarrow> length n < 60 \<and> length (uucp_path n s) < 34
     \<and> lock_env freebsd_conf tmp u n (uucp_path n s) s"

definition uucp_held :: "string \<Rightarrow> fsys \<Rightarrow> bool" where
  "uucp_held n s \<longleftrightarrow> held_file (uucp_path n s) s"

definition uucp_mine :: "string \<Rightarrow> int \<Rightarrow> fsys \<Rightarrow> bool" where
  "uucp_mine n pid s \<longleftrightarrow> fs_file s (uucp_path n s) = Some (lockinfo (fs_pid s))"

lemma uucp_env:
  assumes "uucp_ok tmp u n s"
  obtains d where "fs_dev s n = Some d" and "fs_stat n s = Some d" and "uucp_path n s = uucp_file freebsd_conf d"
    and "length (uucp_file freebsd_conf d) < 34"
    and "lock_env freebsd_conf tmp u n (uucp_file freebsd_conf d) s"
  using assms by (auto simp: uucp_ok_def uucp_path_def lock_env_def fs_stat_def split: option.splits)

lemma uucp_path_upd [simp]: "uucp_path n (s\<lparr>fs_file := x\<rparr>) = uucp_path n s"
  by (simp add: uucp_path_def)

lemma uucp_ok_upd:
  assumes "uucp_ok tmp u n s" and "v = None \<or> (\<exists>q. v = Some (lockinfo q) \<and> good_pid q)"
  shows "uucp_ok tmp u n (s\<lparr>fs_file := (fs_file s)(uucp_path n s := v)\<rparr>)"
proof -
  obtain d where d: "uucp_path n s = uucp_file freebsd_conf d"
      "lock_env freebsd_conf tmp u n (uucp_file freebsd_conf d) s"
    using uucp_env [OF assms(1)] by blast
  have "uucp_file freebsd_conf d = LOCKDIR freebsd_conf @ ''/L'' @ ''K.'' @ dev_name d"
    by (simp add: uucp_file_def)
  from lock_env_upd [OF d(2) _ this assms(2)] show ?thesis
    using assms(1) d(1) by (simp add: uucp_ok_def)
qed

lemma uucp_status:
  assumes "uucp_ok tmp u n s"
  shows "check_lock_status freebsd_conf tmp u n s = (0, if uucp_held n s then s
    else s\<lparr>fs_file := (fs_file s)(uucp_path n s := None)\<rparr>)"
proof -
  obtain d where d: "fs_stat n s = Some d" "uucp_path n s = uucp_file freebsd_conf d"
      "lock_env freebsd_conf tmp u n (uucp_file freebsd_conf d) s"
    using uucp_env [OF assms] by blast
  then have "is_device_locked freebsd_conf u n s = remove_stale (uucp_file freebsd_conf d) u s"
    by (simp add: is_device_locked_def lock_env_def freebsd_conf_def)
  from check_lock_status_env [OF d(3) this] show ?thesis by (simp only: uucp_held_def d(2))
qed

interpretation uucp: lock_service "uucp_lock freebsd_conf tmp u" "uucp_unlock freebsd_conf u"
  "uucp_ok tmp u" "\<lambda>_ _. True" uucp_held uucp_mine
proof
  fix n s pid
  assume ok: "uucp_ok tmp u n s"
  obtain d where d: "fs_dev s n = Some d" "fs_stat n s = Some d" "uucp_path n s = uucp_file freebsd_conf d"
      "length (uucp_file freebsd_conf d) < 34"
      "lock_env freebsd_conf tmp u n (uucp_file freebsd_conf d) s"
    using uucp_env [OF ok] .
  define f where "f = uucp_file freebsd_conf d"
  have env: "lock_env freebsd_conf tmp u n f s" and len: "length f < 34" "length n < 60"
    and st: "fs_stat n (s\<lparr>fs_file := x\<rparr>) = Some d" and path: "uucp_path n s = f"
    and dir: "fs_exists (LOCKDIR freebsd_conf) (s\<lparr>fs_file := x\<rparr>)" for x
    using ok d by (auto simp: uucp_ok_def f_def fs_stat_def fs_exists_def lock_env_def split: option.splits)
  have dir0: "fs_exists (LOCKDIR freebsd_conf) s" using dir [of "fs_file s"] by simp
  note upd = uucp_ok_upd [OF ok]
  { assume free: "\<not> uucp_held n s"
    let ?s0 = "s\<lparr>fs_file := (fs_file s)(f := None)\<rparr>"
    let ?s' = "s\<lparr>fs_file := (fs_file s)(f \<mapsto> lockinfo (fs_pid s))\<rparr>"
    have gone: "\<not> fs_exists f ?s0" and "fs_creat_excl f (lockinfo (fs_pid s)) ?s0 = Some ?s'"
      using env by (simp_all add: fs_creat_excl_def fs_exists_def fs_stat_def lock_env_def)
    then have "uucp_lock freebsd_conf tmp u n pid s = Done (0, ?s')"
      using uucp_status [OF ok] free len st dir path
      by (simp add: uucp_lock_def f_def [symmetric] Let_def)
    moreover have "uucp_ok tmp u n ?s'"
      using upd [of "Some (lockinfo (fs_pid s))"] env by (auto simp: path lock_env_def)
    ultimately show "\<exists>s'. uucp_lock freebsd_conf tmp u n pid s = Done (0, s') \<and> uucp_ok tmp u n s' \<and> uucp_mine n pid s'
        \<and> (\<forall>q::int. True = True)"
      by (intro exI [of _ ?s']) (simp add: uucp_mine_def path) }
  { assume held: "uucp_held n s"
    then have "fs_exists f s"
      by (auto simp: uucp_held_def held_file_def path fs_exists_def fs_stat_def split: option.splits)
    then show "\<exists>r. r \<noteq> 0 \<and> uucp_lock freebsd_conf tmp u n pid s = Done (r, s)"
      using uucp_status [OF ok] held len d(2) dir0
      by (intro exI [of _ 1]) (simp add: uucp_lock_def f_def [symmetric] Let_def) }
  { assume mine: "uucp_mine n pid s"
    let ?s' = "s\<lparr>fs_file := (fs_file s)(f := None)\<rparr>"
    have c: "check_lock_pid u f pid s = 0" and ex: "fs_exists f s"
      using check_lock_pid_mine [OF env] mine
      by (auto simp: uucp_mine_def path fs_exists_def fs_stat_def split: option.splits)
    then have "uucp_unlock freebsd_conf u n pid s = Done ?s'"
      using len d(2) mine env
      by (simp add: uucp_unlock_def f_def [symmetric] uucp_mine_def path fs_unlink_def lock_env_def Let_def)
    moreover have "uucp_ok tmp u n ?s'"
      using upd [of None] by (simp add: path)
    ultimately show "\<exists>s'. uucp_unlock freebsd_conf u n pid s = Done s' \<and> uucp_ok tmp u n s' \<and> \<not> uucp_held n s'
        \<and> (\<forall>q::int. True = True)"
      by (intro exI [of _ ?s']) (simp add: uucp_held_def held_file_def path)
    show "uucp_held n s"
      using mine_held_file [OF env] mine by (simp add: uucp_held_def uucp_mine_def path) }
qed

section \<open>Properties\<close>

definition ttyS0_fs :: fsys where
  \<comment> \<open>a machine with one serial device and a stale lock left by process 77\<close>
  "ttyS0_fs = \<lparr>fs_file = [''/var/lock/LCK..ttyS0'' \<mapsto> lockinfo 77, ''/var/spool/lock/LK.000.004.064'' \<mapsto> lockinfo 77],
     fs_ino = [''/var/lock'' \<mapsto> 10, ''/var/spool/lock'' \<mapsto> 10, ''/var/lock/modem'' \<mapsto> 11],
     fs_dev = [''/dev/ttyS0'' \<mapsto> (0, 4, 64)],
     fs_can_create = (\<lambda>_. True), fs_can_read = (\<lambda>_. True), fs_can_unlink = (\<lambda>_. True),
     fs_gone = (\<lambda>p. p \<noteq> 4711 \<and> p \<noteq> 1), fs_pid = 4711, fs_ppid = 1\<rparr>"

definition uninit0 :: uninit where
  "uninit0 = \<lparr>u_buf = (0, 0, 0), u_pidbuf = ''garbage'', u_pid = 5, u_ino = 3\<rparr>"

lemma fhs_lock_exact:
  assumes "fhs_ok tmp u n s"
  shows "fhs_lock linux_conf tmp u n pid s = Done (if fhs_held n s then (1, s)
    else (0, s\<lparr>fs_file := (fs_file s)(fhs_file linux_conf n \<mapsto> lockinfo (fs_pid s))\<rparr>))"
proof -
  define f where "f = fhs_file linux_conf n"
  have env: "lock_env linux_conf tmp u n f s" and len: "length f < 80"
    using assms by (simp_all add: fhs_ok_def f_def)
  have "fs_exists f s" if "fhs_held n s"
    using that by (auto simp: fhs_held_def held_file_def f_def fs_exists_def fs_stat_def split: option.splits)
  moreover have "fs_creat_excl f (lockinfo (fs_pid s)) (s\<lparr>fs_file := (fs_file s)(f := None)\<rparr>)
      = Some (s\<lparr>fs_file := (fs_file s)(f \<mapsto> lockinfo (fs_pid s))\<rparr>)"
    using env by (simp add: fs_creat_excl_def fs_exists_def fs_stat_def lock_env_def)
  ultimately show ?thesis
    using fhs_status [OF assms] len
    by (simp add: fhs_lock_def f_def [symmetric]) (simp add: fs_creat_excl_def)
qed

lemma ttyS0_base: "base_of ''/dev/ttyS0'' = ''ttyS0''"
  by (simp add: base_of_def)

lemma ttyS0_dev_name: "dev_name (0, 4, 64) = ''000.004.064''"
  by code_simp

lemma lockinfo_77: "atoi (lockinfo 77) = 77" "good_pid 77" "good_pid 4711"
  by (simp_all add: lockinfo_good good_pid_def)

lemma ttyS0_fhs_ok: "fhs_ok (Some ''tmpAb1xYz'') uninit0 ''/dev/ttyS0'' ttyS0_fs"
  by (simp add: fhs_ok_def lock_env_def ttyS0_fs_def linux_conf_def fhs_file_def ttyS0_base lockinfo_77
    unexpected_lock_def lockdirs_def lockprefixes_def suspect_dir_def fs_exists_def fs_stat_def uninit0_def
    ttyS0_dev_name)

lemma ttyS0_fhs_free: "\<not> fhs_held ''/dev/ttyS0'' ttyS0_fs"
  by (simp add: fhs_held_def held_file_def ttyS0_fs_def linux_conf_def fhs_file_def ttyS0_base lockinfo_77)

text \<open>C10. \<open>fhs_lock\<close> where locks can be kept, exactly: the path fits its 80 bytes; the lock directory is there and the
  process may create and remove files in it (the probe of \<open>check_group_uucp\<close> included), and create, read and remove the
  lock file; the device exists; no other directory or prefix of the list of known ones has a lock for it; and a lock file
  that is there has the format of this library. Then, when the lock file names a living process, the lock is refused and
  nothing changes; otherwise the file (a stale one is removed first) is created with the caller's process number, and no
  other file changes. (Where one of these conditions fails nothing is claimed.)\<close>

theorem fhs_lock_correct:
  assumes "fhs_ok tmp u n s"
  shows "fhs_lock linux_conf tmp u n pid s = Done (if fhs_held n s then (1, s)
    else (0, s\<lparr>fs_file := (fs_file s)(fhs_file linux_conf n \<mapsto> lockinfo (fs_pid s))\<rparr>))"
  using assms by (rule fhs_lock_exact)

theorem fhs_lock_correct_witness:
  "\<exists>s'. fhs_lock linux_conf (Some ''tmpAb1xYz'') uninit0 ''/dev/ttyS0'' 4711 ttyS0_fs = Done (0, s')
    \<and> fs_file s' ''/var/lock/LCK..ttyS0'' = Some (lockinfo 4711)"
  using fhs_lock_correct [OF ttyS0_fhs_ok] ttyS0_fhs_free
  by (simp add: linux_conf_def fhs_file_def ttyS0_base) (simp add: ttyS0_fs_def)

text \<open>The UUCP lock, whose file is named after the device numbers, is a mutual exclusion in the same
  sense.\<close>

theorem uucp_lock_exclusive:
  assumes "uucp_ok tmp u n s" and "\<not> uucp_held n s"
  shows "\<exists>s1 s2 s3. uucp_lock freebsd_conf tmp u n pid s = Done (0, s1)
    \<and> (\<forall>q. \<exists>r. r \<noteq> 0 \<and> uucp_lock freebsd_conf tmp u n q s1 = Done (r, s1))
    \<and> uucp_unlock freebsd_conf u n pid s1 = Done s2
    \<and> uucp_lock freebsd_conf tmp u n pid' s2 = Done (0, s3)"
  by (rule uucp.lock_cycle [OF assms(1) TrueI TrueI assms(2), of pid pid']) blast

lemma ttyS0_uucp_ok: "uucp_ok (Some ''tmpAb1xYz'') uninit0 ''/dev/ttyS0'' ttyS0_fs"
  by (simp add: uucp_ok_def uucp_path_def uucp_file_def lock_env_def ttyS0_fs_def freebsd_conf_def lockinfo_77
    ttyS0_dev_name ttyS0_base unexpected_lock_def lockdirs_def lockprefixes_def suspect_dir_def fs_exists_def
    fs_stat_def uninit0_def)

theorem uucp_lock_exclusive_witness:
  "\<exists>s1. uucp_lock freebsd_conf (Some ''tmpAb1xYz'') uninit0 ''/dev/ttyS0'' 4711 ttyS0_fs = Done (0, s1)
    \<and> (\<exists>r. r \<noteq> 0 \<and> uucp_lock freebsd_conf (Some ''tmpAb1xYz'') uninit0 ''/dev/ttyS0'' 1 s1 = Done (r, s1))"
proof -
  have "\<not> uucp_held ''/dev/ttyS0'' ttyS0_fs"
    by (simp add: uucp_held_def held_file_def uucp_path_def uucp_file_def ttyS0_fs_def freebsd_conf_def
      ttyS0_dev_name lockinfo_77)
  from uucp_lock_exclusive [OF ttyS0_uucp_ok this, of 4711 1] show ?thesis by blast
qed

text \<open>Unlocking removes only the caller's own lock: when the lock file names another process than the
  caller, its parent and the process that opened the port, \<open>fhs_unlock\<close> changes nothing.\<close>

theorem fhs_unlock_foreign:
  assumes "length (fhs_file C n) < 80" and "fs_file s (fhs_file C n) = Some (lockinfo q)" and "good_pid q"
    and "q \<notin> {fs_pid s, fs_ppid s, openpid}"
  shows "fhs_unlock C u n openpid s = Done s"
  using assms lockinfo_good [OF assms(3)]
  by (simp add: fhs_unlock_def check_lock_pid_def pid_text_def Let_def)

theorem fhs_unlock_foreign_witness:
  "fhs_unlock linux_conf uninit0 ''/dev/ttyS0'' 4711 ttyS0_fs = Done ttyS0_fs"
  by (rule fhs_unlock_foreign [where q = 77])
    (simp_all add: linux_conf_def fhs_file_def ttyS0_base ttyS0_fs_def lockinfo_77)

text \<open>The same file system, used by another process. What was on the stack of that process is its own.\<close>

definition acting :: "int \<Rightarrow> int \<Rightarrow> fsys \<Rightarrow> fsys" where
  "acting P parent s = s\<lparr>fs_pid := P, fs_ppid := parent\<rparr>"

definition alive :: "int \<Rightarrow> fsys \<Rightarrow> bool" where
  "alive P s \<longleftrightarrow> 0 < P \<and> good_pid P \<and> \<not> fs_gone s P"

lemma unexpected_stack:
  assumes "fs_ino s (LOCKDIR C) \<noteq> None" and "fs_dev s n \<noteq> None"
  shows "unexpected_lock C u' n s = unexpected_lock C u n s"
proof -
  have "suspect_dir C u' s d = suspect_dir C u s d" for d
    using assms(1) by (auto simp: suspect_dir_def split: option.splits)
  moreover have "fs_stat n s \<noteq> None" using assms(2) by (auto simp: fs_stat_def)
  ultimately show ?thesis by (auto simp: unexpected_lock_def)
qed

lemma acting_sel [simp]: "fs_file (acting P parent s) = fs_file s" "fs_ino (acting P parent s) = fs_ino s"
  "fs_dev (acting P parent s) = fs_dev s" "fs_can_create (acting P parent s) = fs_can_create s"
  "fs_can_read (acting P parent s) = fs_can_read s" "fs_can_unlink (acting P parent s) = fs_can_unlink s"
  "fs_gone (acting P parent s) = fs_gone s" "fs_pid (acting P parent s) = P" "fs_ppid (acting P parent s) = parent"
  by (simp_all add: acting_def)

lemma fs_acting [simp]: "fs_stat x (acting P parent s) = fs_stat x s" "fs_exists x (acting P parent s) = fs_exists x s"
  "fhs_held n (acting P parent s) = fhs_held n s"
  by (simp_all add: fs_stat_def fs_exists_def fhs_held_def held_file_def cong: option.case_cong if_cong)

lemma unexpected_acting [simp]: "unexpected_lock C u n (acting P parent s) = unexpected_lock C u n s"
proof -
  have "suspect_dir C u (acting P parent s) d = suspect_dir C u s d" for d by (simp add: suspect_dir_def cong: option.case_cong)
  then show ?thesis by (simp add: unexpected_lock_def)
qed

lemma fhs_ok_acting:
  assumes "fhs_ok tmp u n s" and "alive P s"
  shows "fhs_ok tmp u' n (acting P parent s)"
proof -
  have "\<not> unexpected_lock linux_conf u' n s"
    using assms(1) unexpected_stack [of s linux_conf n u' u] by (simp add: fhs_ok_def lock_env_def)
  then show ?thesis
    using assms unexpected_acting [of linux_conf u' n P parent s]
    by (simp add: fhs_ok_def lock_env_def alive_def cong: option.case_cong)
qed

text \<open>C11. The FHS lock is a mutual exclusion between processes. Where locks can be kept (the conditions of
  \<open>fhs_lock_correct\<close>) and no living process holds the lock, it can be taken. Then every process that is alive, with the same
  rights in the file system and whatever process number it passes, is refused and changes nothing; a process that is
  neither the holder nor a child of it, and does not claim to have opened the port as the holder, cannot remove the lock;
  and once the holder has released it, every living process can take it.\<close>

theorem fhs_lock_exclusive:
  assumes "fhs_ok tmp u n s" and "\<not> fhs_held n s"
  shows "\<exists>s1. fhs_lock linux_conf tmp u n pid s = Done (0, s1)
    \<and> (\<forall>P parent q u'. alive P s \<longrightarrow> (\<exists>r. r \<noteq> 0
        \<and> fhs_lock linux_conf tmp u' n q (acting P parent s1) = Done (r, acting P parent s1)))
    \<and> (\<forall>P parent q u'. fs_pid s \<notin> {P, parent, q} \<longrightarrow>
        fhs_unlock linux_conf u' n q (acting P parent s1) = Done (acting P parent s1))
    \<and> (\<exists>s2. fhs_unlock linux_conf u n pid s1 = Done s2 \<and> \<not> fhs_held n s2
        \<and> (\<forall>P parent q u'. alive P s \<longrightarrow> (\<exists>s3. fhs_lock linux_conf tmp u' n q (acting P parent s2) = Done (0, s3))))"
proof -
  obtain s1 where s1: "fhs_lock linux_conf tmp u n pid s = Done (0, s1)" "fhs_ok tmp u n s1" "fhs_mine n pid s1"
    using fhs.lock_free [OF assms(1) TrueI assms(2)] by blast
  then have f: "s1 = s\<lparr>fs_file := (fs_file s)(fhs_file linux_conf n \<mapsto> lockinfo (fs_pid s))\<rparr>"
    using fhs_lock_exact [OF assms(1), of pid] assms(2) by simp
  have held: "fhs_held n s1" using fhs.mine_held [OF s1(2) TrueI s1(3)] .
  obtain s2 where s2: "fhs_unlock linux_conf u n pid s1 = Done s2" "fhs_ok tmp u n s2" "\<not> fhs_held n s2"
    using fhs.unlock_mine [OF s1(2) TrueI s1(3)] by blast
  have "s2 = s1\<lparr>fs_file := (fs_file s1)(fhs_file linux_conf n := None)\<rparr> \<or> s2 = s1"
    using s2(1) by (auto simp: fhs_unlock_def fs_unlink_def Let_def split: if_splits)
  then have al: "alive P s1 = alive P s" "alive P s2 = alive P s" for P using f by (auto simp: alive_def)
  have pid: "good_pid (fs_pid s)" "length (fhs_file linux_conf n) < 80"
    using assms(1) by (simp_all add: fhs_ok_def lock_env_def)
  have "fhs_lock linux_conf tmp u' n q (acting P parent s1) = Done (1, acting P parent s1)" if "alive P s" for P parent q u'
    using fhs_lock_exact [OF fhs_ok_acting [OF s1(2)], of P u' q parent] that held al by simp
  moreover have "fhs_unlock linux_conf u' n q (acting P parent s1) = Done (acting P parent s1)"
    if "fs_pid s \<notin> {P, parent, q}" for P parent q u'
    by (rule fhs_unlock_foreign [OF pid(2) _ pid(1)]) (use that f in auto)
  moreover have "\<exists>s3. fhs_lock linux_conf tmp u' n q (acting P parent s2) = Done (0, s3)" if "alive P s" for P parent q u'
    using fhs_lock_exact [OF fhs_ok_acting [OF s2(2)], of P u' q parent] that s2(3) al by simp
  ultimately show ?thesis using s1(1) s2(1,3) by (metis zero_neq_one)
qed

theorem fhs_lock_exclusive_witness:
  "\<exists>s1. fhs_lock linux_conf (Some ''tmpAb1xYz'') uninit0 ''/dev/ttyS0'' 4711 ttyS0_fs = Done (0, s1)
    \<and> (\<exists>r. r \<noteq> 0 \<and> fhs_lock linux_conf (Some ''tmpAb1xYz'') uninit0 ''/dev/ttyS0'' 1 (acting 1 0 s1) = Done (r, acting 1 0 s1))
    \<and> fhs_unlock linux_conf uninit0 ''/dev/ttyS0'' 1 (acting 1 0 s1) = Done (acting 1 0 s1)"
proof -
  have "alive 1 ttyS0_fs" "fs_pid ttyS0_fs \<notin> {1, 0, 1}" by (simp_all add: alive_def good_pid_def ttyS0_fs_def)
  then show ?thesis using fhs_lock_exclusive [OF ttyS0_fhs_ok ttyS0_fhs_free, of 4711] by meson
qed

text \<open>\<open>is_device_locked\<close> does not report a device that is locked by a living process: it returns 0,
  although its comment says 1. Only the exclusive creation in \<open>fhs_lock\<close> keeps the lock.\<close>

theorem is_device_locked_ignores_live:
  assumes "lock_env C tmp u n (fhs_file C n) s" and "FHS C" and "LOCKFILEPREFIX C = ''LCK..''"
    and "held_file (fhs_file C n) s"
  shows "is_device_locked C u n s = (0, s)"
  using assms remove_stale_env [OF assms(1)]
  by (simp add: is_device_locked_def lock_env_def fhs_file_def)

theorem is_device_locked_ignores_live_witness:
  "is_device_locked linux_conf uninit0 ''/dev/ttyS0'' (ttyS0_fs\<lparr>fs_gone := \<lambda>_. False\<rparr>)
     = (0, ttyS0_fs\<lparr>fs_gone := \<lambda>_. False\<rparr>)"
proof (rule is_device_locked_ignores_live [where tmp = "Some ''tmpAb1xYz''"])
  show "lock_env linux_conf (Some ''tmpAb1xYz'') uninit0 ''/dev/ttyS0'' (fhs_file linux_conf ''/dev/ttyS0'')
      (ttyS0_fs\<lparr>fs_gone := \<lambda>_. False\<rparr>)"
    by (simp add: lock_env_def ttyS0_fs_def linux_conf_def fhs_file_def ttyS0_base lockinfo_77
      unexpected_lock_def lockdirs_def lockprefixes_def suspect_dir_def fs_exists_def fs_stat_def uninit0_def
      ttyS0_dev_name)
qed (simp_all add: linux_conf_def fhs_file_def ttyS0_base held_file_def ttyS0_fs_def)

end
