(* ===== verification/Port_Open.thy ===== *)
theory Port_Open
  imports Modem_Lines Ref_Tty Preopened Lock_Files
begin

text \<open>
  Opening and closing a port, the static methods that work on a port before it is opened, and the probing
  of devices. A port system is the driver's state, the state of the lock service and the list of
  preopened ports. \<open>LOCK\<close> and \<open>UNLOCK\<close>, macros that the build binds to one of the services of
  \<open>Lock_Files\<close> and \<open>Lock_Daemon\<close>, are arguments \<open>lck\<close> and \<open>unl\<close>. \<open>new\<close> is the address
  \<open>malloc\<close> returns for an entry of the list, \<open>ef\<close> bounds interrupted calls and \<open>pf\<close> the walk
  along the list.
\<close>

section \<open>Opening and closing\<close>

record ('w, 'l) psys =
  ps_w :: 'w
  ps_lock :: 'l
  ps_pre :: preopened_state

type_synonym 'l locker = "string \<Rightarrow> int \<Rightarrow> 'l \<Rightarrow> (int \<times> 'l) run"
type_synonym 'l unlocker = "string \<Rightarrow> int \<Rightarrow> 'l \<Rightarrow> 'l run"

definition my_pid :: "'w posix \<Rightarrow> platform \<Rightarrow> 'w \<Rightarrow> int" where
  "my_pid E p w = (if p = Win32 then -1 else getpid_of E w)"

definition sys_open :: "'w posix \<Rightarrow> nat \<Rightarrow> string \<Rightarrow> open_mode \<Rightarrow> 'w \<Rightarrow> (int \<times> 'w) run" where
  \<comment> \<open>\<open>do { fd = OPEN(..); } while (fd < 0 && errno == EINTR)\<close>\<close>
  "sys_open E ef filename mode w =
     (case retry_eintr ef (errno_of E) (open_op E filename mode) w of None \<Rightarrow> Hang | Some r \<Rightarrow> Done r)"

definition port_in_use :: "'w posix \<Rightarrow> (string \<Rightarrow> bool) \<Rightarrow> 'w \<Rightarrow> jexc option" where
  "port_in_use E fc w = throw_java_exception fc PORT_IN_USE_EXCEPTION ''open'' (strerror_of E (errno_of E w))"

definition open_port :: "'w posix \<Rightarrow> platform \<Rightarrow> 'l locker \<Rightarrow> nat \<Rightarrow> nat \<Rightarrow> (string \<Rightarrow> bool) \<Rightarrow> termios \<Rightarrow> string
    \<Rightarrow> jport \<Rightarrow> ('w, 'l) psys \<Rightarrow> (((int \<times> jexc option) \<times> jport) \<times> ('w, 'l) psys) run" where
  \<comment> \<open>\<open>RXTXPort.open\<close>; \<open>message[80]\<close> gets the name\<close>
  "open_port E p lck pf ef fc t0 filename jp s =
     (let pid = my_pid E p (ps_w s); jp = jp\<lparr>j_pid := pid\<rparr> in
      run_bind (lck filename pid (ps_lock s)) (\<lambda>(r, l).
      let s = s\<lparr>ps_lock := l\<rparr> in
      if r \<noteq> 0 then
        (if 80 \<le> length (''open: locking has failed for '' @ filename) + 1 then Fault
         else Done (((-1, port_in_use E fc (ps_w s)), jp), s))
      else if 80 \<le> length (''open: locking worked for '' @ filename) + 1 then Fault
      else run_bind (find_preopened_ports pf filename (ps_pre s)) (\<lambda>(fd, pre).
      let s = s\<lparr>ps_pre := pre\<rparr> in
      if fd \<noteq> 0 then
        (let (jp, w) = set_java_vars E p t0 fd jp (ps_w s) in Done (((fd, None), jp), s\<lparr>ps_w := w\<rparr>))
      else run_bind (sys_open E ef filename RDWR_NOCTTY_NONBLOCK (ps_w s)) (\<lambda>(fd, w).
      let (r, w) = configure_port E p t0 fd w; s = s\<lparr>ps_w := w\<rparr> in
      if r \<noteq> 0 then Done (((-1, port_in_use E fc (ps_w s)), jp), s)
      else Done (((fd, None), jp), s)))))"

definition nativeClose :: "'w posix \<Rightarrow> 'l unlocker \<Rightarrow> nat \<Rightarrow> string \<Rightarrow> jport \<Rightarrow> ('w, 'l) psys \<Rightarrow> ('w, 'l) psys run" where
  "nativeClose E unl ef filename jp s =
     (if j_pid jp = 0 then Done s
      else if 0 < j_fd jp then
        (let (_, w) = tcflush_op E (j_fd jp) TCIOFLUSH (ps_w s) in
         case retry_eintr ef (errno_of E) (close_op E (j_fd jp)) w of
           None \<Rightarrow> Hang
         | Some (_, w) \<Rightarrow> run_bind (unl filename (j_pid jp) (ps_lock s)) (\<lambda>l. Done (s\<lparr>ps_w := w, ps_lock := l\<rparr>)))
      else Done s)"

section \<open>Methods on ports that are not open\<close>

text \<open>The part all static setters share: lock, take the port from the list or open and configure it.
  \<open>None\<close> is a jump to \<open>fail\<close>.\<close>

definition static_acquire :: "'w posix \<Rightarrow> platform \<Rightarrow> 'l locker \<Rightarrow> nat \<Rightarrow> nat \<Rightarrow> termios \<Rightarrow> string \<Rightarrow> ('w, 'l) psys
    \<Rightarrow> (fd option \<times> ('w, 'l) psys) run" where
  "static_acquire E p lck pf ef t0 filename s =
     run_bind (lck filename (my_pid E p (ps_w s)) (ps_lock s)) (\<lambda>(r, l).
     let s = s\<lparr>ps_lock := l\<rparr> in
     if r \<noteq> 0 then Done (None, s)
     else run_bind (find_preopened_ports pf filename (ps_pre s)) (\<lambda>(fd, pre).
     let s = s\<lparr>ps_pre := pre\<rparr> in
     if fd \<noteq> 0 then Done (Some fd, s)
     else run_bind (sys_open E ef filename RDWR_NOCTTY_NONBLOCK (ps_w s)) (\<lambda>(fd, w).
     let (r, w) = configure_port E p t0 fd w; s = s\<lparr>ps_w := w\<rparr> in
     if r \<noteq> 0 then Done (None, s) else Done (Some fd, s))))"

definition static_release :: "'w posix \<Rightarrow> platform \<Rightarrow> 'l unlocker \<Rightarrow> nat \<Rightarrow> addr \<Rightarrow> string \<Rightarrow> fd \<Rightarrow> ('w, 'l) psys
    \<Rightarrow> ('w, 'l) psys run" where
  "static_release E p unl pf new filename fd s =
     run_bind (unl filename (my_pid E p (ps_w s)) (ps_lock s)) (\<lambda>l.
     run_bind (static_add_filename pf new filename fd (ps_pre s)) (\<lambda>pre.
     Done (s\<lparr>ps_lock := l, ps_pre := pre\<rparr>)))"

definition nativeStaticSetDSR :: "'w posix \<Rightarrow> platform \<Rightarrow> 'l locker \<Rightarrow> 'l unlocker \<Rightarrow> nat \<Rightarrow> nat \<Rightarrow> termios
    \<Rightarrow> addr \<Rightarrow> u32 \<Rightarrow> string \<Rightarrow> bool \<Rightarrow> ('w, 'l) psys \<Rightarrow> (bool \<times> ('w, 'l) psys) run" where
  \<comment> \<open>\<open>result0\<close> is the uninitialised local\<close>
  "nativeStaticSetDSR E p lck unl pf ef t0 new result0 filename flag s =
     run_bind (static_acquire E p lck pf ef t0 filename s) (\<lambda>(r, s). case r of
       None \<Rightarrow> Done (False, s)
     | Some fd \<Rightarrow>
         if fd < 0 then Done (False, s)
         else let ((_, result), w) = tiocmget_op E fd result0 (ps_w s);
                  result = (if flag then result OR TIOCM_DSR else result AND NOT TIOCM_DSR);
                  (_, w) = tiocmset_op E fd result w
              in run_bind (static_release E p unl pf new filename fd (s\<lparr>ps_w := w\<rparr>)) (\<lambda>s. Done (True, s)))"

definition nativeStaticSetRTS :: "'w posix \<Rightarrow> platform \<Rightarrow> 'l locker \<Rightarrow> 'l unlocker \<Rightarrow> nat \<Rightarrow> nat \<Rightarrow> termios
    \<Rightarrow> addr \<Rightarrow> u32 \<Rightarrow> string \<Rightarrow> bool \<Rightarrow> ('w, 'l) psys \<Rightarrow> (bool \<times> ('w, 'l) psys) run" where
  \<comment> \<open>\<open>result0\<close> is the uninitialised local\<close>
  "nativeStaticSetRTS E p lck unl pf ef t0 new result0 filename flag s =
     run_bind (static_acquire E p lck pf ef t0 filename s) (\<lambda>(r, s). case r of
       None \<Rightarrow> Done (False, s)
     | Some fd \<Rightarrow>
         if fd < 0 then Done (False, s)
         else let ((_, result), w) = tiocmget_op E fd result0 (ps_w s);
                  result = (if flag then result OR TIOCM_RTS else result AND NOT TIOCM_RTS);
                  (_, w) = tiocmset_op E fd result w
              in run_bind (static_release E p unl pf new filename fd (s\<lparr>ps_w := w\<rparr>)) (\<lambda>s. Done (True, s)))"

definition nativeStaticSetDTR :: "'w posix \<Rightarrow> platform \<Rightarrow> 'l locker \<Rightarrow> 'l unlocker \<Rightarrow> nat \<Rightarrow> nat \<Rightarrow> termios
    \<Rightarrow> addr \<Rightarrow> u32 \<Rightarrow> string \<Rightarrow> bool \<Rightarrow> ('w, 'l) psys \<Rightarrow> (bool \<times> ('w, 'l) psys) run" where
  \<comment> \<open>\<open>result0\<close> is the uninitialised local\<close>
  "nativeStaticSetDTR E p lck unl pf ef t0 new result0 filename flag s =
     run_bind (static_acquire E p lck pf ef t0 filename s) (\<lambda>(r, s). case r of
       None \<Rightarrow> Done (False, s)
     | Some fd \<Rightarrow>
         if fd < 0 then Done (False, s)
         else let ((_, result), w) = tiocmget_op E fd result0 (ps_w s);
                  result = (if flag then result OR TIOCM_DTR else result AND NOT TIOCM_DTR);
                  (_, w) = tiocmset_op E fd result w
              in run_bind (static_release E p unl pf new filename fd (s\<lparr>ps_w := w\<rparr>)) (\<lambda>s. Done (True, s)))"

definition nativeStaticSetSerialPortParams :: "'w posix \<Rightarrow> platform \<Rightarrow> 'l locker \<Rightarrow> 'l unlocker \<Rightarrow> nat \<Rightarrow> nat
    \<Rightarrow> (string \<Rightarrow> bool) \<Rightarrow> termios \<Rightarrow> serial_struct \<Rightarrow> addr \<Rightarrow> string \<Rightarrow> int \<Rightarrow> int \<Rightarrow> int \<Rightarrow> int \<Rightarrow> ('w, 'l) psys
    \<Rightarrow> (jexc option \<times> ('w, 'l) psys) run" where
  \<comment> \<open>the three error returns after the port was acquired leave it locked; \<open>Fault\<close> of
    \<open>set_port_params\<close> is its division by zero\<close>
  "nativeStaticSetSerialPortParams E p lck unl pf ef fc t0 ss0 new filename baudrate dataBits stopBits parity s =
     (let cspeed = translate_speed p baudrate;
          unsupported = (\<lambda>w. throw_java_exception fc UNSUPPORTED_COMM_OPERATION
            ''nativeStaticSetSerialPortParams'' (strerror_of E (errno_of E w))) in
      run_bind (static_acquire E p lck pf ef t0 filename s) (\<lambda>(r, s). case r of
        None \<Rightarrow> Done (None, s)
      | Some fd \<Rightarrow>
          if fd < 0 then Done (unsupported (ps_w s), s)
          else if cspeed = -1
          then Done (throw_java_exception fc UNSUPPORTED_COMM_OPERATION []
                 ''BaudRate could not be set to the specified value'', s)
          else case set_port_params E p t0 ss0 fd cspeed dataBits stopBits parity (ps_w s) of
            None \<Rightarrow> Fault
          | Some (r, w) \<Rightarrow>
              if r \<noteq> 0 then Done (unsupported w, s\<lparr>ps_w := w\<rparr>)
              else run_bind (static_release E p unl pf new filename fd (s\<lparr>ps_w := w\<rparr>)) (\<lambda>s. Done (None, s))))"

text \<open>The static queries look the port up, which takes it out of the list.\<close>

definition nativeStaticIsRTS :: "'w posix \<Rightarrow> nat \<Rightarrow> string \<Rightarrow> ('w, 'l) psys \<Rightarrow> (bool \<times> ('w, 'l) psys) run" where
  "nativeStaticIsRTS E pf filename s =
     run_bind (find_preopened_ports pf filename (ps_pre s)) (\<lambda>(fd, pre).
     let s = s\<lparr>ps_pre := pre\<rparr> in
     if fd = 0 then Done (False, s)
     else let ((_, result), w) = tiocmget_op E fd 0 (ps_w s) in Done (result AND TIOCM_RTS \<noteq> 0, s\<lparr>ps_w := w\<rparr>))"

definition nativeStaticIsDSR :: "'w posix \<Rightarrow> nat \<Rightarrow> string \<Rightarrow> ('w, 'l) psys \<Rightarrow> (bool \<times> ('w, 'l) psys) run" where
  "nativeStaticIsDSR E pf filename s =
     run_bind (find_preopened_ports pf filename (ps_pre s)) (\<lambda>(fd, pre).
     let s = s\<lparr>ps_pre := pre\<rparr> in
     if fd = 0 then Done (False, s)
     else let ((_, result), w) = tiocmget_op E fd 0 (ps_w s) in Done (result AND TIOCM_DSR \<noteq> 0, s\<lparr>ps_w := w\<rparr>))"

definition nativeStaticIsDTR :: "'w posix \<Rightarrow> nat \<Rightarrow> string \<Rightarrow> ('w, 'l) psys \<Rightarrow> (bool \<times> ('w, 'l) psys) run" where
  "nativeStaticIsDTR E pf filename s =
     run_bind (find_preopened_ports pf filename (ps_pre s)) (\<lambda>(fd, pre).
     let s = s\<lparr>ps_pre := pre\<rparr> in
     if fd = 0 then Done (False, s)
     else let ((_, result), w) = tiocmget_op E fd 0 (ps_w s) in Done (result AND TIOCM_DTR \<noteq> 0, s\<lparr>ps_w := w\<rparr>))"

definition nativeStaticIsCD :: "'w posix \<Rightarrow> nat \<Rightarrow> string \<Rightarrow> ('w, 'l) psys \<Rightarrow> (bool \<times> ('w, 'l) psys) run" where
  "nativeStaticIsCD E pf filename s =
     run_bind (find_preopened_ports pf filename (ps_pre s)) (\<lambda>(fd, pre).
     let s = s\<lparr>ps_pre := pre\<rparr> in
     if fd = 0 then Done (False, s)
     else let ((_, result), w) = tiocmget_op E fd 0 (ps_w s) in Done (result AND TIOCM_CD \<noteq> 0, s\<lparr>ps_w := w\<rparr>))"

definition nativeStaticIsCTS :: "'w posix \<Rightarrow> nat \<Rightarrow> string \<Rightarrow> ('w, 'l) psys \<Rightarrow> (bool \<times> ('w, 'l) psys) run" where
  "nativeStaticIsCTS E pf filename s =
     run_bind (find_preopened_ports pf filename (ps_pre s)) (\<lambda>(fd, pre).
     let s = s\<lparr>ps_pre := pre\<rparr> in
     if fd = 0 then Done (False, s)
     else let ((_, result), w) = tiocmget_op E fd 0 (ps_w s) in Done (result AND TIOCM_CTS \<noteq> 0, s\<lparr>ps_w := w\<rparr>))"

definition nativeStaticIsRI :: "'w posix \<Rightarrow> nat \<Rightarrow> string \<Rightarrow> ('w, 'l) psys \<Rightarrow> (bool \<times> ('w, 'l) psys) run" where
  "nativeStaticIsRI E pf filename s =
     run_bind (find_preopened_ports pf filename (ps_pre s)) (\<lambda>(fd, pre).
     let s = s\<lparr>ps_pre := pre\<rparr> in
     if fd = 0 then Done (False, s)
     else let ((_, result), w) = tiocmget_op E fd 0 (ps_w s) in Done (result AND TIOCM_RI \<noteq> 0, s\<lparr>ps_w := w\<rparr>))"

definition nativeStaticGetBaudRate :: "'w posix \<Rightarrow> platform \<Rightarrow> nat \<Rightarrow> termios \<Rightarrow> string \<Rightarrow> ('w, 'l) psys \<Rightarrow> (int \<times> ('w, 'l) psys) run" where
  "nativeStaticGetBaudRate E p pf t0 filename s =
     run_bind (find_preopened_ports pf filename (ps_pre s)) (\<lambda>(fd, pre).
     let s = s\<lparr>ps_pre := pre\<rparr> in
     if fd = 0 then Done (-1, s)
     else let ((r, t), w) = tcgetattr_op E fd t0 (ps_w s); s = s\<lparr>ps_w := w\<rparr> in
     if r < 0 then Done (-1, s) else Done (get_java_baudrate p (c_cflag t AND CBAUD p), s))"

definition nativeStaticGetDataBits :: "'w posix \<Rightarrow> nat \<Rightarrow> termios \<Rightarrow> string \<Rightarrow> ('w, 'l) psys \<Rightarrow> (int \<times> ('w, 'l) psys) run" where
  "nativeStaticGetDataBits E pf t0 filename s =
     run_bind (find_preopened_ports pf filename (ps_pre s)) (\<lambda>(fd, pre).
     let s = s\<lparr>ps_pre := pre\<rparr> in
     if fd = 0 then Done (-1, s)
     else let ((r, t), w) = tcgetattr_op E fd t0 (ps_w s); s = s\<lparr>ps_w := w\<rparr> in
     if r < 0 then Done (-1, s) else Done (java_databits (c_cflag t), s))"

definition nativeStaticGetParity :: "'w posix \<Rightarrow> nat \<Rightarrow> termios \<Rightarrow> string \<Rightarrow> ('w, 'l) psys \<Rightarrow> (int \<times> ('w, 'l) psys) run" where
  "nativeStaticGetParity E pf t0 filename s =
     run_bind (find_preopened_ports pf filename (ps_pre s)) (\<lambda>(fd, pre).
     let s = s\<lparr>ps_pre := pre\<rparr> in
     if fd = 0 then Done (-1, s)
     else let ((r, t), w) = tcgetattr_op E fd t0 (ps_w s); s = s\<lparr>ps_w := w\<rparr> in
     if r < 0 then Done (-1, s) else Done (java_parity (c_cflag t), s))"

definition nativeStaticGetStopBits :: "'w posix \<Rightarrow> nat \<Rightarrow> termios \<Rightarrow> string \<Rightarrow> ('w, 'l) psys \<Rightarrow> (int \<times> ('w, 'l) psys) run" where
  "nativeStaticGetStopBits E pf t0 filename s =
     run_bind (find_preopened_ports pf filename (ps_pre s)) (\<lambda>(fd, pre).
     let s = s\<lparr>ps_pre := pre\<rparr> in
     if fd = 0 then Done (-1, s)
     else let ((r, t), w) = tcgetattr_op E fd t0 (ps_w s); s = s\<lparr>ps_w := w\<rparr> in
     if r < 0 then Done (-1, s) else Done (static_stopbits (c_cflag t), s))"

section \<open>Probing\<close>

definition test_settings :: "'w posix \<Rightarrow> nat \<Rightarrow> fd \<Rightarrow> termios \<Rightarrow> int \<Rightarrow> 'w \<Rightarrow> bool \<times> 'w" where
  \<comment> \<open>the part of \<open>testRead\<close> for a serial port: try a raw read, put everything back\<close>
  "test_settings E ef fd t0 port_type w =
     (if port_type \<noteq> PORT_SERIAL then (True, w)
      else let ((r, t), w) = tcgetattr_op E fd t0 w in
      if r < 0 then (False, w)
      else let (saved_flags, w) = fcntl_getfl E fd w in
      if saved_flags < 0 then (False, w)
      else let saved = t; (r, w) = fcntl_setfl E fd (O_NONBLOCK_of E) w in
      if r < 0 then (False, w)
      else let t = cfmakeraw_op E t; t = t\<lparr>c_cc := (c_cc t)(VTIME := 0, VMIN := 0)\<rparr>;
               (r, w) = tcsetattr_op E fd t w in
      if r < 0 then (let (_, w) = tcsetattr_op E fd saved w in (False, w))
      else let ((n, _), w) = read_op E fd 1 w;
               ok = (\<not> (n < 0 \<and> errno_of E w \<noteq> EAGAIN));
               (_, w) = tcsetattr_op E fd saved w;
               (_, w) = fcntl_setfl E fd saved_flags w
           in (ok, w))"

definition testRead :: "'w posix \<Rightarrow> 'l locker \<Rightarrow> 'l unlocker \<Rightarrow> nat \<Rightarrow> termios \<Rightarrow> string \<Rightarrow> int \<Rightarrow> ('w, 'l) psys
    \<Rightarrow> (bool \<times> ('w, 'l) psys) run" where
  \<comment> \<open>the Unix build\<close>
  "testRead E lck unl ef t0 name port_type s =
     (let pid = getpid_of E (ps_w s) in
      run_bind (lck name pid (ps_lock s)) (\<lambda>(r, l).
      let s = s\<lparr>ps_lock := l\<rparr> in
      if r \<noteq> 0 then Done (False, s)
      else run_bind (sys_open E ef name RDWR_NOCTTY_NONBLOCK (ps_w s)) (\<lambda>(fd, w).
      let (ret, w) = (if fd < 0 then (False, w) else test_settings E ef fd t0 port_type w) in
      run_bind (unl name pid (ps_lock s)) (\<lambda>l.
      Done (ret, s\<lparr>ps_lock := l, ps_w := snd (close_op E fd w)\<rparr>)))))"

abbreviation (input) DEVICEDIR :: string where "DEVICEDIR \<equiv> ''/dev/''"

definition probe :: "'w posix \<Rightarrow> string \<Rightarrow> bool \<Rightarrow> 'w \<Rightarrow> (bool \<times> bool) \<times> 'w" where
  \<comment> \<open>\<open>mystat\<close> is static: a failing \<open>stat\<close> leaves the answer for the name before; its file type is passed and
    returned, with whether the device could be opened\<close>
  "probe E name chr w =
     (let chr = (case stat_chr E name w of None \<Rightarrow> chr | Some c \<Rightarrow> c) in
      if chr then (let (fd, w) = open_op E name RDONLY_NONBLOCK w in
        if 0 < fd then ((chr, True), snd (close_op E fd w)) else ((chr, False), w))
      else ((chr, False), w))"

fun probe_numbered :: "'w posix \<Rightarrow> string \<Rightarrow> nat \<Rightarrow> nat \<Rightarrow> bool \<Rightarrow> 'w \<Rightarrow> (bool \<times> bool) \<times> 'w" where
  "probe_numbered E name i 0 chr w = ((chr, False), w)"
| "probe_numbered E name i (Suc n) chr w =
     (let ((chr, ok), w) = probe E (take 255 (DEVICEDIR @ name @ digits_of i)) chr w in
      if ok then ((chr, True), w) else probe_numbered E name (Suc i) n chr w)"

definition isPortPrefixValid :: "'w posix \<Rightarrow> string \<Rightarrow> bool \<Rightarrow> 'w \<Rightarrow> (bool \<times> bool) \<times> 'w" where
  "isPortPrefixValid E name chr w =
     (let ((chr, ok), w) = probe_numbered E name 0 64 chr w;
          ((chr, ok'), w) = probe E (take 255 (DEVICEDIR @ name)) chr w
      in ((chr, ok \<or> ok'), w))"

definition unknown_port_type :: "int \<Rightarrow> string" where
  \<comment> \<open>the tabs of the continued source lines are part of the text\<close>
  "unknown_port_type portType = ''unknown portType '' @ dec_int portType @ '' handed to '' @ replicate 4 (CHR 0x09)
     @ ''native RXTXCommDriver.registerKnownPorts() '' @ replicate 4 (CHR 0x09) @ '' method.'' @ [CHR 0x0A]"

definition registerKnownPorts :: "int \<Rightarrow> bool run" where
  \<comment> \<open>on systems other than macOS; \<open>message[80]\<close>\<close>
  "registerKnownPorts portType =
     (if portType \<in> {1..5} then Done False
      else if 80 \<le> length (unknown_port_type portType) then Fault else Done False)"

definition getDeviceDirectory :: string where
  "getDeviceDirectory = DEVICEDIR"

text \<open>The message for an unknown type of port never fits.\<close>

lemma registerKnownPorts_overflow: "registerKnownPorts portType = (if portType \<in> {1..5} then Done False else Fault)"
  by (simp add: registerKnownPorts_def unknown_port_type_def)

section \<open>Opening over a lock service that keeps its contract\<close>

context lock_service
begin

lemma open_takes_lock:
  assumes "ok n (ps_lock s)" and "valid (my_pid E p (ps_w s)) (ps_lock s)" and "\<not> held n (ps_lock s)"
    and "open_port E p lock pf ef fc t0 n jp s = Done (((fd, e), jp1), s1)"
  shows "ok n (ps_lock s1)" and "mine n (my_pid E p (ps_w s)) (ps_lock s1)"
    and "valid q (ps_lock s1) = valid q (ps_lock s)"
proof -
  obtain l where l: "lock n (my_pid E p (ps_w s)) (ps_lock s) = Done (0, l)" "ok n l"
      "mine n (my_pid E p (ps_w s)) l" "\<forall>q. valid q l = valid q (ps_lock s)"
    using lock_free [OF assms(1-3)] by blast
  have "ps_lock s1 = l"
    using assms(4) l(1)
    by (cases "find_preopened_ports pf n (ps_pre s)")
      (auto simp: open_port_def Let_def sys_open_def split: prod.splits if_splits option.splits)
  then show "ok n (ps_lock s1)" "mine n (my_pid E p (ps_w s)) (ps_lock s1)"
    "valid q (ps_lock s1) = valid q (ps_lock s)"
    using l by simp_all
qed

lemma open_refused:
  assumes "ok n (ps_lock s)" and "valid (my_pid E p (ps_w s)) (ps_lock s)" and "held n (ps_lock s)"
    and "length n < 45"
  shows "open_port E p lock pf ef fc t0 n jp s =
    Done (((-1, port_in_use E fc (ps_w s)), jp\<lparr>j_pid := my_pid E p (ps_w s)\<rparr>), s)"
proof -
  obtain r where "r \<noteq> 0" "lock n (my_pid E p (ps_w s)) (ps_lock s) = Done (r, ps_lock s)"
    using lock_held [OF assms(1-3)] by blast
  then show ?thesis using assms(4) by (simp add: open_port_def Let_def)
qed

lemma close_unlocks:
  assumes "ok n (ps_lock s)" and "valid (j_pid jp) (ps_lock s)" and "mine n (j_pid jp) (ps_lock s)"
    and "0 < j_fd jp" and "j_pid jp \<noteq> 0"
    and "retry_eintr ef (errno_of E) (close_op E (j_fd jp)) (snd (tcflush_op E (j_fd jp) TCIOFLUSH (ps_w s))) = Some (r, w)"
  obtains s' where "nativeClose E unlock ef n jp s = Done s'" and "\<not> held n (ps_lock s')" and "ok n (ps_lock s')"
    and "ps_w s' = w"
proof -
  obtain l where l: "unlock n (j_pid jp) (ps_lock s) = Done l" "ok n l" "\<not> held n l"
    using unlock_mine [OF assms(1-3)] by blast
  show thesis
    by (rule that [of "s\<lparr>ps_w := w, ps_lock := l\<rparr>"])
      (use l assms(4-6) in \<open>simp_all add: nativeClose_def case_prod_beta\<close>)
qed

end

section \<open>Properties\<close>

definition ref_openable :: "refdev posix" where
  \<comment> \<open>the reference driver with one device, whose line is 5\<close>
  "ref_openable = refposix\<lparr>open_op := \<lambda>name mode w. (5, w)\<rparr>"

definition psys0 :: "(refdev, fsys) psys" where
  "psys0 = \<lparr>ps_w = ref_dev0, ps_lock = ttyS0_fs, ps_pre = \<lparr>po_heap = (\<lambda>_. None), preopened_port = None\<rparr>\<rparr>"

abbreviation ttyS0_lock :: "fsys locker" where
  "ttyS0_lock \<equiv> fhs_lock linux_conf (Some ''tmpAb1xYz'') uninit0"

abbreviation ttyS0_unlock :: "fsys unlocker" where
  "ttyS0_unlock \<equiv> fhs_unlock linux_conf uninit0"

text \<open>C12. A port is opened at most once: over any lock service, once \<open>open\<close> has been through, with whatever
  result, for a device nobody held, the opener holds its lock, and every further \<open>open\<close> of the device, by
  any process and any driver state, returns -1 with a port-in-use exception and changes nothing. In
  particular an \<open>open\<close> that fails after locking keeps the device locked.\<close>

theorem open_excludes:
  assumes "lock_service lck unl ok valid held mine"
    and "ok n (ps_lock s)" and "valid (my_pid E p (ps_w s)) (ps_lock s)" and "\<not> held n (ps_lock s)"
    and "open_port E p lck pf ef fc t0 n jp s = Done (((fd, e), jp1), s1)"
    and "ps_lock s2 = ps_lock s1" and "valid (my_pid E2 p2 (ps_w s2)) (ps_lock s)" and "length n < 45"
  shows "mine n (my_pid E p (ps_w s)) (ps_lock s1)
    \<and> open_port E2 p2 lck pf2 ef2 fc t2 n jp2 s2 =
      Done (((-1, port_in_use E2 fc (ps_w s2)), jp2\<lparr>j_pid := my_pid E2 p2 (ps_w s2)\<rparr>), s2)"
proof -
  note L = lock_service.open_takes_lock [OF assms(1-5)]
  have v: "valid (my_pid E p (ps_w s)) (ps_lock s1)" using assms(3) L(3) by simp
  have "held n (ps_lock s2)"
    using lock_service.mine_held [OF assms(1) L(1) v L(2)] assms(6) by simp
  moreover have "ok n (ps_lock s2)" "valid (my_pid E2 p2 (ps_w s2)) (ps_lock s2)"
    using L(1,3) assms(6,7) by simp_all
  ultimately show ?thesis
    using lock_service.open_refused [OF assms(1) _ _ _ assms(8)] L(2) by blast
qed

lemma psys0_open:
  "\<exists>e jp1 s1. open_port ref_openable Linux ttyS0_lock 0 1 (\<lambda>_. True) zero_termios ''/dev/ttyS0'' jport0 psys0
    = Done (((5, e), jp1), s1)"
proof -
  have l: "ttyS0_lock ''/dev/ttyS0'' pid ttyS0_fs = Done (0, ttyS0_fs\<lparr>fs_file := (fs_file ttyS0_fs)
      (fhs_file linux_conf ''/dev/ttyS0'' \<mapsto> lockinfo (fs_pid ttyS0_fs))\<rparr>)" for pid
    using fhs_lock_exact [OF ttyS0_fhs_ok, of pid] ttyS0_fhs_free by simp
  have "\<exists>w. configure_port ref_openable Linux zero_termios 5 ref_dev0 = (0, w)"
    by (simp add: configure_port_def ref_openable_def refposix_def ref_query_def ref_dev0_def ref_cfset_def
      speed_cases_def ref_with_def ref_put_def)
  then obtain w where "configure_port ref_openable Linux zero_termios 5 ref_dev0 = (0, w)" ..
  moreover have "sys_open ref_openable 1 name mode ref_dev0 = Done (5, ref_dev0)" for name mode
    by (simp add: sys_open_def ref_openable_def)
  ultimately show ?thesis
    by (simp add: open_port_def psys0_def l find_preopened_ports_def Let_def)
qed

theorem open_excludes_witness:
  "\<exists>e jp1 s1. open_port ref_openable Linux ttyS0_lock 0 1 (\<lambda>_. True) zero_termios ''/dev/ttyS0'' jport0 psys0
      = Done (((5, e), jp1), s1)
    \<and> fhs_mine ''/dev/ttyS0'' 4711 (ps_lock s1)
    \<and> (\<exists>e2. open_port ref_openable Linux ttyS0_lock 0 1 (\<lambda>_. True) zero_termios ''/dev/ttyS0'' jport0 s1
        = Done (((-1, e2), jport0\<lparr>j_pid := 4711\<rparr>), s1))"
proof -
  obtain e jp1 s1 where o: "open_port ref_openable Linux ttyS0_lock 0 1 (\<lambda>_. True) zero_termios ''/dev/ttyS0'' jport0 psys0
    = Done (((5, e), jp1), s1)" using psys0_open by blast
  have pid: "my_pid ref_openable Linux w = 4711" for w
    by (simp add: my_pid_def ref_openable_def refposix_def)
  have "fhs_ok (Some ''tmpAb1xYz'') uninit0 ''/dev/ttyS0'' (ps_lock psys0)" "\<not> fhs_held ''/dev/ttyS0'' (ps_lock psys0)"
    using ttyS0_fhs_ok ttyS0_fhs_free by (simp_all add: psys0_def)
  from open_excludes [OF fhs.lock_service_axioms this(1) TrueI this(2) o refl TrueI,
      of ref_openable Linux 0 1 zero_termios jport0] o
  show ?thesis by (simp add: pid)
qed

text \<open>Closing releases: when the port's process holds the device's lock and closing the descriptor is not
  interrupted for ever, \<open>nativeClose\<close> returns and nobody holds the lock, also when closing fails.\<close>

theorem close_releases:
  assumes "lock_service lck unl ok valid held mine"
    and "ok n (ps_lock s)" and "valid (j_pid jp) (ps_lock s)" and "mine n (j_pid jp) (ps_lock s)"
    and "0 < j_fd jp" and "j_pid jp \<noteq> 0"
    and "retry_eintr ef (errno_of E) (close_op E (j_fd jp)) (snd (tcflush_op E (j_fd jp) TCIOFLUSH (ps_w s))) = Some (r, w)"
  shows "\<exists>s'. nativeClose E unl ef n jp s = Done s' \<and> \<not> held n (ps_lock s') \<and> ok n (ps_lock s') \<and> ps_w s' = w"
  using lock_service.close_unlocks [OF assms] by metis

definition psys_held :: "(refdev, fsys) psys" where
  "psys_held = psys0\<lparr>ps_lock := ttyS0_fs\<lparr>fs_file := (fs_file ttyS0_fs)
     (fhs_file linux_conf ''/dev/ttyS0'' \<mapsto> lockinfo (fs_pid ttyS0_fs))\<rparr>\<rparr>"

theorem close_releases_witness:
  "\<exists>s'. nativeClose refposix ttyS0_unlock 1 ''/dev/ttyS0'' jport0 psys_held = Done s'
    \<and> \<not> fhs_held ''/dev/ttyS0'' (ps_lock s')"
proof -
  have lk: "ps_lock psys_held = ttyS0_fs\<lparr>fs_file := (fs_file ttyS0_fs)
     (fhs_file linux_conf ''/dev/ttyS0'' \<mapsto> lockinfo (fs_pid ttyS0_fs))\<rparr>" by (simp add: psys_held_def)
  have ok: "fhs_ok (Some ''tmpAb1xYz'') uninit0 ''/dev/ttyS0'' (ps_lock psys_held)"
    "fhs_mine ''/dev/ttyS0'' (j_pid jport0) (ps_lock psys_held)"
    using fhs.lock_free [OF ttyS0_fhs_ok TrueI ttyS0_fhs_free, of 4711] fhs_lock_exact [OF ttyS0_fhs_ok, of 4711]
      ttyS0_fhs_free by (simp_all add: lk fhs_mine_def)
  have "\<exists>r w. retry_eintr 1 (errno_of refposix) (close_op refposix (j_fd jport0))
      (snd (tcflush_op refposix (j_fd jport0) TCIOFLUSH (ps_w psys_held))) = Some (r, w)"
    by (simp add: refposix_def psys_held_def psys0_def jport0_def ref_with_def ref_dev0_def ref_put_def)
  then show ?thesis
    using close_releases [OF fhs.lock_service_axioms ok(1) TrueI ok(2)] by (force simp: jport0_def)
qed

text \<open>Asking a preopened port for a line's state forgets the port: after \<open>nativeStaticIsDTR\<close> (and equally
  the other static queries) the only registered port is no longer found, its descriptor is never closed, and
  the following \<open>open\<close> opens and configures the device anew.\<close>

theorem static_query_forgets:
  assumes "pre_inv (ps_pre s) [] [a]" and "pre_visible (ps_pre s) [a] = [(n, fd)]" and "fd \<noteq> 0"
    and "tiocmget_op E fd 0 (ps_w s) = ((r, lines), w)"
  shows "\<exists>s'. nativeStaticIsDTR E 1 n s = Done (lines AND TIOCM_DTR \<noteq> 0, s') \<and> ps_lock s' = ps_lock s
    \<and> preopened_port (ps_pre s') = None \<and> find_preopened_ports pf n (ps_pre s') = Done (0, ps_pre s')"
proof -
  have "map_of (pre_visible (ps_pre s) [a]) n = Some fd" using assms(2) by simp
  from find_preopened_found [OF assms(1) _ this, of 1] obtain h where
    "find_preopened_ports 1 n (ps_pre s) = Done (fd, \<lparr>po_heap = h, preopened_port = None\<rparr>)"
    by (auto simp: Cons_eq_append_conv)
  then show ?thesis
    using assms(3,4) by (simp add: nativeStaticIsDTR_def find_preopened_ports_def)
qed

definition psys_pre :: "(refdev, fsys) psys" where
  "psys_pre = psys0\<lparr>ps_pre := \<lparr>po_heap = [1 \<mapsto> \<lparr>val = \<lparr>pre_filename = ''/dev/ttyS0'', pre_fd = 5\<rparr>, nxt = None, prv = None\<rparr>],
     preopened_port = Some 1\<rparr>\<rparr>"

theorem static_query_forgets_witness:
  "\<exists>s'. nativeStaticIsDTR refposix 1 ''/dev/ttyS0'' psys_pre = Done (False, s') \<and> preopened_port (ps_pre s') = None"
proof -
  have "pre_inv (ps_pre psys_pre) [] [1]" "pre_visible (ps_pre psys_pre) [1] = [(''/dev/ttyS0'', 5)]"
    "tiocmget_op refposix 5 0 (ps_w psys_pre) = ((0, TIOCM_CTS), ref_dev0)"
    by (simp_all add: psys_pre_def psys0_def pre_inv_def dlist_def pre_visible_def contents_def refposix_def
      ref_query_def ref_dev0_def ref_line0_def)
  from static_query_forgets [OF this(1,2) _ this(3)] show ?thesis by auto
qed

end
