(* ===== verification/Lock_Lib.thy ===== *)
theory Lock_Lib
  imports Port_Open
begin

text \<open>
  Locking through \<open>liblockdev\<close> (\<open>lib_lock_dev_lock\<close>, \<open>lib_lock_dev_unlock\<close> of \<open>SerialImp.c\<close>). The library is a record of
  its three functions; the locale \<open>lockdev\<close> is what its manual says of them, and from it the wrappers are shown to
  be a lock service.
\<close>

record 'l lockdev_lib =
  dev_testlock_op :: "string \<Rightarrow> 'l \<Rightarrow> int \<times> 'l"
  dev_lock_op :: "string \<Rightarrow> 'l \<Rightarrow> int \<times> 'l"
  dev_unlock_op :: "string \<Rightarrow> int \<Rightarrow> 'l \<Rightarrow> int \<times> 'l"

definition lib_lock_dev_lock :: "'l lockdev_lib \<Rightarrow> string \<Rightarrow> int \<Rightarrow> 'l \<Rightarrow> (int \<times> 'l) run" where
  \<comment> \<open>\<open>pid\<close> is not used; the message is cut by \<open>snprintf\<close>\<close>
  "lib_lock_dev_lock D filename pid l =
     (let (r, l) = dev_testlock_op D filename l in
      if r \<noteq> 0 then Done (1, l)
      else let (r, l) = dev_lock_op D filename l in Done (if r \<noteq> 0 then 1 else 0, l))"

definition lib_lock_dev_unlock :: "'l lockdev_lib \<Rightarrow> string \<Rightarrow> int \<Rightarrow> 'l \<Rightarrow> (int \<times> 'l) run" where
  "lib_lock_dev_unlock D filename pid l =
     (let (r, l) = dev_unlock_op D filename pid l in Done (if r \<noteq> 0 then 1 else 0, l))"

text \<open>The macro \<open>UNLOCK\<close> is a statement: the result is dropped.\<close>

definition lib_UNLOCK :: "'l lockdev_lib \<Rightarrow> string \<Rightarrow> int \<Rightarrow> 'l \<Rightarrow> 'l run" where
  "lib_UNLOCK D filename pid l = run_bind (lib_lock_dev_unlock D filename pid l) (\<lambda>(_, l). Done l)"

locale lockdev =
  fixes D :: "'l lockdev_lib" and owner :: "string \<Rightarrow> 'l \<Rightarrow> int option" and me :: "'l \<Rightarrow> int"
  assumes owner_pos: "owner n l = Some p \<Longrightarrow> 0 < p"
    and testlock: "dev_testlock_op D n l = (case owner n l of None \<Rightarrow> 0 | Some p \<Rightarrow> p, l)"
    and lock: "owner n l = None \<Longrightarrow> \<exists>l'. dev_lock_op D n l = (0, l') \<and> owner n l' = Some (me l) \<and> me l' = me l"
    and unlock: "owner n l = Some p \<Longrightarrow> \<exists>l'. dev_unlock_op D n p l = (0, l') \<and> owner n l' = None \<and> me l' = me l"

sublocale lockdev \<subseteq> lib: lock_service "lib_lock_dev_lock D" "lib_UNLOCK D" "\<lambda>n l. True" "\<lambda>pid l. pid = me l"
  "\<lambda>n l. owner n l \<noteq> None" "\<lambda>n pid l. owner n l = Some pid"
proof
  fix n pid l
  assume "pid = me l" "\<not> owner n l \<noteq> None"
  with lock [of n l] show "\<exists>s'. lib_lock_dev_lock D n pid l = Done (0, s') \<and> True \<and> owner n s' = Some pid \<and> (\<forall>q. (q = me s') = (q = me l))"
    by (auto simp: lib_lock_dev_lock_def testlock)
next
  fix n pid l
  assume "owner n l \<noteq> None"
  then obtain p where "owner n l = Some p" by auto
  with owner_pos show "\<exists>r. r \<noteq> 0 \<and> lib_lock_dev_lock D n pid l = Done (r, l)"
    by (fastforce simp: lib_lock_dev_lock_def testlock)
next
  fix n pid l
  assume "owner n l = Some pid"
  with unlock [of n l pid] show "\<exists>s'. lib_UNLOCK D n pid l = Done s' \<and> True \<and> \<not> owner n s' \<noteq> None \<and> (\<forall>q. (q = me s') = (q = me l))"
    by (auto simp: lib_UNLOCK_def lib_lock_dev_unlock_def)
qed auto

context lockdev
begin

text \<open>A lock through the library is exclusive, and can be taken again after its release.\<close>

lemma lib_lock_cycle:
  assumes "owner n l = None"
  shows "\<exists>l1 l2 l3. lib_lock_dev_lock D n (me l) l = Done (0, l1)
    \<and> (\<exists>r. r \<noteq> 0 \<and> lib_lock_dev_lock D n (me l) l1 = Done (r, l1))
    \<and> lib_UNLOCK D n (me l) l1 = Done l2 \<and> lib_lock_dev_lock D n (me l) l2 = Done (0, l3)"
proof (rule lib.lock_cycle [OF TrueI refl refl, of n l])
  show "\<not> owner n l \<noteq> None" using assms by simp
qed blast

end

text \<open>A table of owners, in which process numbers are positive.\<close>

record owners =
  ow_table :: "string \<Rightarrow> nat option"
  ow_me :: nat

definition owner_of :: "string \<Rightarrow> owners \<Rightarrow> int option" where
  "owner_of n l = map_option (\<lambda>k. int (Suc k)) (ow_table l n)"

definition owners_lib :: "owners lockdev_lib" where
  "owners_lib = \<lparr>
     dev_testlock_op = (\<lambda>n l. (case owner_of n l of None \<Rightarrow> 0 | Some p \<Rightarrow> p, l)),
     dev_lock_op = (\<lambda>n l. case owner_of n l of None \<Rightarrow> (0, l\<lparr>ow_table := (ow_table l)(n \<mapsto> ow_me l)\<rparr>) | Some p \<Rightarrow> (p, l)),
     dev_unlock_op = (\<lambda>n pid l. case owner_of n l of None \<Rightarrow> (0, l)
       | Some p \<Rightarrow> if p = pid then (0, l\<lparr>ow_table := (ow_table l)(n := None)\<rparr>) else (p, l))\<rparr>"

interpretation owners: lockdev owners_lib owner_of "\<lambda>l. int (Suc (ow_me l))"
  by unfold_locales (auto simp: owners_lib_def owner_of_def)

end
