(* ===== verification/Events.thy ===== *)
theory Events
  imports Ref_Tty Dll
begin

text \<open>
  Event monitoring: what the monitor thread of a port looks at and reports. \<open>event_info\<close> is the part of
  \<open>struct event_info_struct\<close> the code keeps state in; \<open>mon\<close> is the world a monitor works on, with the
  exception pending in the virtual machine and the events sent so far. \<open>cb\<close> is the Java method
  \<open>sendEvent\<close>: what it returns.
\<close>

section \<open>State\<close>

record event_info =
  ei_fd :: int
  eventflags :: "nat \<Rightarrow> int"
  ei_initialised :: bool
  ei_ret :: int
  ei_change :: int
  omflags :: u32
  has_tiocsergetlsr :: bool
  has_tiocgicount :: bool
  eventloop_interrupted :: int
  ei_jclazz :: bool
  ei_closing :: bool
  osis :: serial_icounter

record 'w mon =
  mon_w :: 'w
  mon_pending :: "jexc option"
  mon_sent :: "(nat \<times> bool) list"

type_synonym callback = "nat \<Rightarrow> bool \<Rightarrow> bool"

section \<open>Sending an event\<close>

definition send_event :: "callback \<Rightarrow> event_info \<Rightarrow> nat \<Rightarrow> int \<Rightarrow> 'w mon \<Rightarrow> bool \<times> 'w mon" where
  \<comment> \<open>a call with a NULL structure returns -1 at once; every call in the library passes one\<close>
  "send_event cb eis type flag m =
     (if 1 < eventloop_interrupted eis then (True, m)
      else if \<not> ei_jclazz eis then (True, m)
      else (cb type (0 < flag), m\<lparr>mon_pending := None, mon_sent := mon_sent m @ [(type, 0 < flag)]\<rparr>))"

section \<open>What the monitor checks\<close>

definition check_line_status_register ::
  "'w posix \<Rightarrow> callback \<Rightarrow> event_info \<Rightarrow> 'w mon \<Rightarrow> (int \<times> event_info) \<times> 'w mon" where
  "check_line_status_register E cb eis m =
     (if eventflags eis SPE_OUTPUT_BUFFER_EMPTY = 0 then ((0, eis), m)
      else let (r, w) = fstat_op E (ei_fd eis) (mon_w m); m = m\<lparr>mon_w := w\<rparr> in
      if r \<noteq> 0 then ((1, eis), m)
      else let ((r, c), w) = tiocsergetlsr_op E (ei_fd eis) (ei_change eis) (mon_w m);
               m = m\<lparr>mon_w := w\<rparr>; eis = eis\<lparr>ei_change := c\<rparr> in
      if r \<noteq> 0 then ((1, eis), m)
      else if ei_change eis \<noteq> 0
      then ((0, eis), snd (send_event cb eis SPE_OUTPUT_BUFFER_EMPTY 1 m))
      else ((0, eis), m))"

definition has_line_status_register_access :: "'w posix \<Rightarrow> fd \<Rightarrow> int \<Rightarrow> 'w \<Rightarrow> bool \<times> 'w" where
  "has_line_status_register_access E fd change0 w =
     (let ((r, _), w) = tiocsergetlsr_op E fd change0 w in (r = 0, w))"

text \<open>\<open>while (sis.x != osis.x) { send_event(eis, type, 1); osis.x++; }\<close> on 32 bit counters.\<close>

fun count_up :: "callback \<Rightarrow> event_info \<Rightarrow> nat \<Rightarrow> nat \<Rightarrow> 'w mon \<Rightarrow> 'w mon" where
  "count_up cb eis type 0 m = m"
| "count_up cb eis type (Suc n) m = count_up cb eis type n (snd (send_event cb eis type 1 m))"

lemma unat_step: "target \<noteq> cur \<Longrightarrow> unat (target - cur) = Suc (unat (target - (cur + 1)))" for target cur :: u32
proof -
  assume "target \<noteq> cur"
  then have "target - cur \<noteq> 0" by simp
  then have "unat (target - cur) = Suc (unat (target - cur - 1))"
    by (metis Suc_pred' unat_gt_0 unat_minus_one)
  then show ?thesis by (simp add: diff_diff_eq)
qed

function count_loop :: "callback \<Rightarrow> event_info \<Rightarrow> nat \<Rightarrow> u32 \<Rightarrow> u32 \<Rightarrow> 'w mon \<Rightarrow> 'w mon" where
  "count_loop cb eis type target cur m =
     (if target = cur then m
      else count_loop cb eis type target (cur + 1) (snd (send_event cb eis type 1 m)))"
  by pat_completeness auto

termination
  by (relation "measure (\<lambda>(cb, eis, type, target, cur, m). unat (target - cur))") (auto simp: unat_step)

declare count_loop.simps [simp del]

definition check_cgi_count :: "'w posix \<Rightarrow> callback \<Rightarrow> event_info \<Rightarrow> 'w mon \<Rightarrow> event_info \<times> 'w mon" where
  "check_cgi_count E cb eis m =
     (let ((r, sis), w) = tiocgicount_op E (ei_fd eis) (osis eis) (mon_w m); m = m\<lparr>mon_w := w\<rparr> in
      if r \<noteq> 0 then (eis, m)
      else let m = count_loop cb eis SPE_FE (ic_frame sis) (ic_frame (osis eis)) m;
               m = count_loop cb eis SPE_OE (ic_overrun sis) (ic_overrun (osis eis)) m;
               m = count_loop cb eis SPE_PE (ic_parity sis) (ic_parity (osis eis)) m;
               m = count_loop cb eis SPE_BI (ic_brk sis) (ic_brk (osis eis)) m
           in (eis\<lparr>osis := sis\<rparr>, m))"

definition port_has_changed_fionread :: "'w posix \<Rightarrow> int \<Rightarrow> event_info \<Rightarrow> 'w mon \<Rightarrow> bool \<times> 'w mon" where
  \<comment> \<open>\<open>change0\<close> is the uninitialised local: the return code of the call is not looked at\<close>
  "port_has_changed_fionread E change0 eis m =
     (let ((_, change), w) = fionread_op E (ei_fd eis) change0 (mon_w m) in (change \<noteq> 0, m\<lparr>mon_w := w\<rparr>))"

definition line_event :: "callback \<Rightarrow> event_info \<Rightarrow> u32 \<Rightarrow> nat \<Rightarrow> u32 \<Rightarrow> 'w mon \<Rightarrow> 'w mon" where
  \<comment> \<open>\<open>change = (mflags & b) - (eis->omflags & b); if (change) send_event(eis, type, change);\<close>\<close>
  "line_event cb eis mflags type b m =
     (let change = sint ((mflags AND b) - (omflags eis AND b)) in
      if change \<noteq> 0 then snd (send_event cb eis type change m) else m)"

definition check_tiocmget_changes :: "'w posix \<Rightarrow> callback \<Rightarrow> event_info \<Rightarrow> 'w mon \<Rightarrow> event_info \<times> 'w mon" where
  "check_tiocmget_changes E cb eis m =
     (let ((r, mflags), w) = tiocmget_op E (ei_fd eis) 0 (mon_w m); m = m\<lparr>mon_w := w\<rparr> in
      if r \<noteq> 0 then (eis, m)
      else let m = line_event cb eis mflags SPE_CTS TIOCM_CTS m;
               m = line_event cb eis mflags SPE_DSR TIOCM_DSR m;
               m = line_event cb eis mflags SPE_RI TIOCM_RNG m;
               m = line_event cb eis mflags SPE_CD TIOCM_CD m
           in (eis\<lparr>omflags := mflags\<rparr>, m))"

definition driver_has_tiocgicount :: "'w posix \<Rightarrow> event_info \<Rightarrow> 'w \<Rightarrow> (bool \<times> serial_icounter) \<times> 'w" where
  "driver_has_tiocgicount E eis w =
     (let ((r, c), w) = tiocgicount_op E (ei_fd eis) (osis eis) w in ((\<not> r < 0, c), w))"

definition report_serial_events ::
  "'w posix \<Rightarrow> callback \<Rightarrow> int \<Rightarrow> event_info \<Rightarrow> 'w mon \<Rightarrow> event_info \<times> 'w mon" where
  "report_serial_events E cb change0 eis m =
     (let ((r, eis), m) = check_line_status_register E cb eis m in
      if r \<noteq> 0 then (eis, m)
      else let (eis, m) = (if has_tiocgicount eis then check_cgi_count E cb eis m else (eis, m));
               (eis, m) = check_tiocmget_changes E cb eis m;
               (data, m) = port_has_changed_fionread E change0 eis m in
      if \<not> data then (eis, m)
      else if eventflags eis SPE_DATA_AVAILABLE = 0
      then (eis, m\<lparr>mon_w := usleep_op E 20000 (usleep_op E 20000 (mon_w m))\<rparr>)
      else let m = snd (send_event cb eis SPE_DATA_AVAILABLE 1 m)
           in (eis, m\<lparr>mon_w := usleep_op E 20000 (mon_w m)\<rparr>))"

section \<open>Facts\<close>

definition can_send :: "event_info \<Rightarrow> bool" where
  "can_send eis \<longleftrightarrow> \<not> 1 < eventloop_interrupted eis \<and> ei_jclazz eis"

lemma send_event_sent:
  "mon_sent (snd (send_event cb eis type flag m)) =
     mon_sent m @ (if can_send eis then [(type, 0 < flag)] else [])"
  by (simp add: send_event_def can_send_def)

lemma send_event_w [simp]: "mon_w (snd (send_event cb eis type flag m)) = mon_w m"
  by (simp add: send_event_def)

lemma count_loop_is: "count_loop cb eis type target cur m = count_up cb eis type (unat (target - cur)) m"
proof (induction cb eis type target cur m rule: count_loop.induct)
  case (1 cb eis type target cur m)
  then show ?case
    by (subst count_loop.simps) (simp add: unat_step)
qed

lemma count_up_sent:
  "mon_sent (count_up cb eis type n m) = mon_sent m @ (if can_send eis then replicate n (type, True) else [])"
  by (induction n arbitrary: m) (auto simp: send_event_sent replicate_app_Cons_same)

lemma count_up_w [simp]: "mon_w (count_up cb eis type n m) = mon_w m"
  by (induction n arbitrary: m) auto

definition level_change :: "u32 \<Rightarrow> u32 \<Rightarrow> nat \<Rightarrow> u32 \<Rightarrow> (nat \<times> bool) list" where
  "level_change old new type b =
     (if (old AND b = 0) = (new AND b = 0) then [] else [(type, new AND b \<noteq> 0)])"

lemma line_event_sent:
  assumes "b \<in> {TIOCM_CTS, TIOCM_DSR, TIOCM_RNG, TIOCM_CD}"
  shows "mon_sent (line_event cb eis mflags type b m) =
    mon_sent m @ (if can_send eis then level_change (omflags eis) mflags type b else [])"
proof -
  obtain n where "b = 2 ^ n" "n \<le> 8"
    using assms that [of 5] that [of 6] that [of 7] that [of 8] by force
  then have "x AND b = 0 \<or> x AND b = b" for x using single_bit_cases [of x n] by simp
  then have "mflags AND b = 0 \<or> mflags AND b = b" "omflags eis AND b = 0 \<or> omflags eis AND b = b" by blast+
  then show ?thesis
    using assms by (auto simp: line_event_def level_change_def send_event_sent)
qed

lemma line_event_w [simp]: "mon_w (line_event cb eis mflags type b m) = mon_w m"
  by (simp add: line_event_def Let_def)

section \<open>Properties\<close>

text \<open>C16. Modem line events are exact: when the lines can be read, \<open>check_tiocmget_changes\<close> sends one
  event for each of CTS, DSR, RI and CD that changed since the last look, in this order, each carrying
  the line's new level, and nothing else; the lines just read become the reference for the next look.\<close>

theorem modem_events_exact:
  assumes "tiocmget_op E (ei_fd eis) 0 (mon_w m) = ((0, lines), w')" and "can_send eis"
  shows "fst (check_tiocmget_changes E cb eis m) = eis\<lparr>omflags := lines\<rparr>
    \<and> mon_sent (snd (check_tiocmget_changes E cb eis m)) = mon_sent m
        @ level_change (omflags eis) lines SPE_CTS TIOCM_CTS @ level_change (omflags eis) lines SPE_DSR TIOCM_DSR
        @ level_change (omflags eis) lines SPE_RI TIOCM_RNG @ level_change (omflags eis) lines SPE_CD TIOCM_CD
    \<and> mon_w (snd (check_tiocmget_changes E cb eis m)) = w'"
  using assms by (simp add: check_tiocmget_changes_def line_event_sent Let_def)

definition eis0 :: event_info where
  "eis0 = \<lparr>ei_fd = 5, eventflags = (\<lambda>_. 0)(SPE_DATA_AVAILABLE := 1), ei_initialised = True, ei_ret = 0, ei_change = 0,
     omflags = TIOCM_DSR, has_tiocsergetlsr = True, has_tiocgicount = False, eventloop_interrupted = 0,
     ei_jclazz = True, ei_closing = False, osis = \<lparr>ic_frame = 0xFFFFFFFF, ic_overrun = 0, ic_parity = 4, ic_brk = 0\<rparr>\<rparr>"

definition mon0 :: "refdev mon" where
  "mon0 = \<lparr>mon_w = ref_dev0, mon_pending = None, mon_sent = []\<rparr>"

theorem modem_events_exact_witness:
  "mon_sent (snd (check_tiocmget_changes refposix (\<lambda>_ _. False) eis0 mon0)) = [(SPE_CTS, True), (SPE_DSR, False)]"
proof -
  have "tiocmget_op refposix (ei_fd eis0) 0 (mon_w mon0) = ((0, TIOCM_CTS), ref_dev0)"
    by (simp add: refposix_def ref_query_def mon0_def ref_dev0_def eis0_def ref_line0_def)
  from modem_events_exact [OF this, of "\<lambda>_ _. False"] show ?thesis
    by (simp add: can_send_def eis0_def mon0_def level_change_def)
qed

text \<open>C18. Error events are counted exactly: when the driver's counters can be read,
  \<open>check_cgi_count\<close> sends as many framing, overrun, parity and break events as the respective counter
  advanced since the last look, modulo 2^32, and remembers the new counters. The loops end whatever the
  counters are.\<close>

theorem error_events_exact:
  assumes "tiocgicount_op E (ei_fd eis) (osis eis) (mon_w m) = ((0, sis), w')" and "can_send eis"
  shows "fst (check_cgi_count E cb eis m) = eis\<lparr>osis := sis\<rparr>
    \<and> mon_sent (snd (check_cgi_count E cb eis m)) = mon_sent m
        @ replicate (unat (ic_frame sis - ic_frame (osis eis))) (SPE_FE, True)
        @ replicate (unat (ic_overrun sis - ic_overrun (osis eis))) (SPE_OE, True)
        @ replicate (unat (ic_parity sis - ic_parity (osis eis))) (SPE_PE, True)
        @ replicate (unat (ic_brk sis - ic_brk (osis eis))) (SPE_BI, True)"
  using assms by (simp add: check_cgi_count_def count_loop_is count_up_sent Let_def)

definition ref_counting :: "refdev posix" where
  \<comment> \<open>a driver whose error counters stand at 1, 0, 6 and 0\<close>
  "ref_counting = refposix\<lparr>tiocgicount_op :=
     (\<lambda>fd c w. ((0, \<lparr>ic_frame = 1, ic_overrun = 0, ic_parity = 6, ic_brk = 0\<rparr>), w))\<rparr>"

theorem error_events_exact_witness:
  "mon_sent (snd (check_cgi_count ref_counting (\<lambda>_ _. False) eis0 mon0)) =
     replicate 2 (SPE_FE, True) @ replicate 2 (SPE_PE, True)"
proof -
  have "tiocgicount_op ref_counting (ei_fd eis0) (osis eis0) (mon_w mon0)
      = ((0, \<lparr>ic_frame = 1, ic_overrun = 0, ic_parity = 6, ic_brk = 0\<rparr>), mon_w mon0)"
    by (simp add: ref_counting_def)
  from error_events_exact [OF this, of "\<lambda>_ _. False"] show ?thesis
    by (simp add: can_send_def eis0_def mon0_def)
qed

text \<open>Data that can be read is reported when and only when its event is enabled: on a driver that
  answers every query, with output-empty events disabled, one look sends a data event exactly when the
  input count is not zero and the flag is set, after the line events.\<close>

theorem data_event_exact:
  assumes "eventflags eis SPE_OUTPUT_BUFFER_EMPTY = 0" and "\<not> has_tiocgicount eis" and "can_send eis"
    and "tiocmget_op E (ei_fd eis) 0 (mon_w m) = ((0, omflags eis), w')"
    and "fionread_op E (ei_fd eis) change0 w' = ((0, n), w'')"
  shows "mon_sent (snd (report_serial_events E cb change0 eis m)) =
      mon_sent m @ (if n \<noteq> 0 \<and> eventflags eis SPE_DATA_AVAILABLE \<noteq> 0 then [(SPE_DATA_AVAILABLE, True)] else [])
    \<and> fst (report_serial_events E cb change0 eis m) = eis"
proof -
  have c: "check_tiocmget_changes E cb eis m = (eis, m\<lparr>mon_w := w'\<rparr>)"
    using assms(4) by (simp add: check_tiocmget_changes_def line_event_def)
  have "can_send (eis\<lparr>omflags := x\<rparr>) = can_send eis" for x by (simp add: can_send_def)
  with c show ?thesis
    using assms by (auto simp: report_serial_events_def check_line_status_register_def
      port_has_changed_fionread_def send_event_sent Let_def)
qed

definition ref_dev_data :: refdev where
  "ref_dev_data = ref_dev0\<lparr>rd_lines := [5 \<mapsto> ref_line0\<lparr>rl_in := [65, 66]\<rparr>]\<rparr>"

theorem data_event_exact_witness:
  "mon_sent (snd (report_serial_events refposix (\<lambda>_ _. False) 0 (eis0\<lparr>omflags := TIOCM_CTS\<rparr>)
      (mon0\<lparr>mon_w := ref_dev_data\<rparr>))) = [(SPE_DATA_AVAILABLE, True)]"
proof -
  let ?e = "eis0\<lparr>omflags := TIOCM_CTS\<rparr>" and ?m = "mon0\<lparr>mon_w := ref_dev_data\<rparr>"
  have "tiocmget_op refposix (ei_fd ?e) 0 (mon_w ?m) = ((0, omflags ?e), ref_dev_data)"
    and "fionread_op refposix (ei_fd ?e) 0 ref_dev_data = ((0, 2), ref_dev_data)"
    by (simp_all add: refposix_def ref_query_def ref_dev_data_def eis0_def ref_line0_def)
  from data_event_exact [OF _ _ _ this, of "\<lambda>_ _. False"] show ?thesis
    by (simp add: can_send_def eis0_def mon0_def)
qed

text \<open>On a driver without the line status register, enabling the output-empty event silences the port:
  the check of the register comes first and its failure ends the look, so no event of any kind is sent.
  The field \<open>has_tiocsergetlsr\<close>, computed for such drivers, is not consulted.\<close>

theorem missing_lsr_silences:
  assumes "eventflags eis SPE_OUTPUT_BUFFER_EMPTY \<noteq> 0"
    and "fstat_op E (ei_fd eis) (mon_w m) = (0, w1)"
    and "tiocsergetlsr_op E (ei_fd eis) (ei_change eis) w1 = ((r, c), w2)" and "r \<noteq> 0"
  shows "mon_sent (snd (report_serial_events E cb change0 eis m)) = mon_sent m"
  using assms by (simp add: report_serial_events_def check_line_status_register_def)

theorem missing_lsr_silences_witness:
  "mon_sent (snd (report_serial_events (refposix\<lparr>tiocsergetlsr_op := \<lambda>fd c w. ((-1, c), w)\<rparr>) (\<lambda>_ _. False) 0
     (eis0\<lparr>eventflags := \<lambda>_. 1\<rparr>) (mon0\<lparr>mon_w := ref_dev_data\<rparr>))) = []"
proof -
  let ?E = "refposix\<lparr>tiocsergetlsr_op := \<lambda>fd c w. ((-1, c), w)\<rparr>"
  let ?e = "eis0\<lparr>eventflags := \<lambda>_. 1\<rparr>" and ?m = "mon0\<lparr>mon_w := ref_dev_data\<rparr>"
  have "fstat_op ?E (ei_fd ?e) (mon_w ?m) = (0, ref_put 5 (ref_line0\<lparr>rl_in := [65, 66]\<rparr>) ref_dev_data)"
    by (simp add: refposix_def ref_with_def ref_dev_data_def eis0_def)
  from missing_lsr_silences [OF _ this, of "-1"] show ?thesis
    by (simp add: mon0_def)
qed

end
