(* ===== verification/Event_Registry.thy ===== *)
theory Event_Registry
  imports Events
begin

text \<open>
  The registry of monitor threads. Each event loop keeps its \<open>struct event_info_struct\<close> on its stack
  and links it into the list at \<open>master_index\<close>; other threads find it there by descriptor to set an
  event flag (\<open>nativeSetEventFlag\<close>) or to stop the loop (\<open>interruptEventLoop\<close>). Each definition here is
  what its C function does when no other thread is in the registry meanwhile. The code has no lock that
  would see to that: what happens when the functions overlap, one memory access at a time, is in
  \<open>Registry_Race\<close>.
\<close>

section \<open>Operations\<close>

record 'w evsys =
  ev_heap :: "event_info heap"
  master_index :: "addr option"
  ev_mon :: "'w mon"

definition ev_inv :: "'w evsys \<Rightarrow> addr list \<Rightarrow> bool" where
  "ev_inv st as \<longleftrightarrow> dlist (ev_heap st) as \<and> master_index st = hdp as"

definition finalize_event_info_struct :: "addr \<Rightarrow> 'w evsys \<Rightarrow> 'w evsys run" where
  "finalize_event_info_struct a st =
     run_bind (deref (ev_heap st) a) (\<lambda>c.
     run_bind (unlink a (ev_heap st)) (\<lambda>h.
     Done (st\<lparr>ev_heap := h, master_index :=
       (case (nxt c, prv c) of
          (Some n, Some p) \<Rightarrow> master_index st
        | (Some n, None) \<Rightarrow> Some n
        | (None, Some p) \<Rightarrow> master_index st
        | (None, None) \<Rightarrow> None)\<rparr>)))"

definition link_eis :: "nat \<Rightarrow> addr \<Rightarrow> 'w evsys \<Rightarrow> 'w evsys run" where
  "link_eis fuel a st =
     (case master_index st of
        None \<Rightarrow> run_bind (set_nxt a None (ev_heap st)) (\<lambda>h. run_bind (set_prv a None h) (\<lambda>h.
          Done (st\<lparr>ev_heap := h, master_index := Some a\<rparr>)))
      | Some i \<Rightarrow> run_bind (seek fuel (\<lambda>_. False) (ev_heap st) i) (\<lambda>i.
          run_bind (set_nxt i (Some a) (ev_heap st)) (\<lambda>h. run_bind (set_prv a (Some i) h) (\<lambda>h.
          run_bind (set_nxt a None h) (\<lambda>h. Done (st\<lparr>ev_heap := h\<rparr>))))))"

definition fresh_eis :: "'w posix \<Rightarrow> jport \<Rightarrow> event_info \<Rightarrow> 'w \<Rightarrow> event_info \<times> 'w" where
  \<comment> \<open>the fields \<open>initialise_event_info_struct\<close> sets once the structure is linked\<close>
  "fresh_eis E jp eis w =
     (let eis = eis\<lparr>eventflags := (\<lambda>i. if i < 11 then 0 else eventflags eis i), eventloop_interrupted := 0,
                    ei_closing := False, ei_fd := j_fd jp\<rparr>;
          (lsr, w) = has_line_status_register_access E (ei_fd eis) (ei_change eis) w;
          eis = eis\<lparr>has_tiocsergetlsr := lsr\<rparr>;
          ((ic, c), w) = driver_has_tiocgicount E eis w;
          eis = eis\<lparr>has_tiocgicount := ic, osis := c\<rparr>;
          ((_, fl), w) = tiocmget_op E (ei_fd eis) (omflags eis) w
      in (eis\<lparr>omflags := fl\<rparr>, w))"

definition zero_icounter :: serial_icounter where
  "zero_icounter = \<lparr>ic_frame = 0, ic_overrun = 0, ic_parity = 0, ic_brk = 0\<rparr>"

definition initialise_event_info_struct ::
  "'w posix \<Rightarrow> nat \<Rightarrow> bool \<Rightarrow> jport \<Rightarrow> addr \<Rightarrow> 'w evsys \<Rightarrow> (int \<times> 'w evsys) run" where
  \<comment> \<open>\<open>method\<close>: \<open>GetMethodID\<close> finds \<open>sendEvent\<close>\<close>
  "initialise_event_info_struct E fuel method jp a st =
     run_bind (deref (ev_heap st) a) (\<lambda>c.
     if ei_initialised (val c) then Done (1, st)
     else run_bind (set_val a ((val c)\<lparr>osis := zero_icounter\<rparr>) (ev_heap st)) (\<lambda>h.
          run_bind (link_eis fuel a (st\<lparr>ev_heap := h\<rparr>)) (\<lambda>st.
          run_bind (deref (ev_heap st) a) (\<lambda>c.
          let (eis, w) = fresh_eis E jp (val c) (mon_w (ev_mon st));
              st = st\<lparr>ev_mon := (ev_mon st)\<lparr>mon_w := w\<rparr>\<rparr> in
          if \<not> method then
            run_bind (set_val a eis (ev_heap st)) (\<lambda>h.
            run_bind (finalize_event_info_struct a (st\<lparr>ev_heap := h\<rparr>)) (\<lambda>st. Done (0, st)))
          else run_bind (set_val a (eis\<lparr>ei_initialised := True\<rparr>) (ev_heap st)) (\<lambda>h.
            Done (1, st\<lparr>ev_heap := h\<rparr>))))))"

definition nativeSetEventFlag :: "nat \<Rightarrow> fd \<Rightarrow> nat \<Rightarrow> bool \<Rightarrow> 'w evsys \<Rightarrow> 'w evsys run" where
  \<comment> \<open>an event number beyond the array of 11 flags writes behind it\<close>
  "nativeSetEventFlag fuel fd event flag st =
     (case master_index st of
        None \<Rightarrow> Done st
      | Some i \<Rightarrow> run_bind (seek fuel (\<lambda>e. ei_fd e = fd) (ev_heap st) i) (\<lambda>i.
          run_bind (deref (ev_heap st) i) (\<lambda>c.
          if ei_fd (val c) \<noteq> fd then Done st
          else if 11 \<le> event then Fault
          else run_bind (set_val i ((val c)\<lparr>eventflags := (eventflags (val c))(event := of_bool flag)\<rparr>) (ev_heap st))
            (\<lambda>h. Done (st\<lparr>ev_heap := h\<rparr>)))))"

definition interruptEventLoop :: "nat \<Rightarrow> jport \<Rightarrow> 'w evsys \<Rightarrow> 'w evsys run" where
  \<comment> \<open>the search is repeated until some thread has registered the descriptor: until then it waits\<close>
  "interruptEventLoop fuel jp st =
     (case master_index st of
        None \<Rightarrow> Hang
      | Some i \<Rightarrow> run_bind (seek fuel (\<lambda>e. ei_fd e = j_fd jp) (ev_heap st) i) (\<lambda>i.
          run_bind (deref (ev_heap st) i) (\<lambda>c.
          if ei_fd (val c) \<noteq> j_fd jp then Hang
          else run_bind (set_val i ((val c)\<lparr>eventloop_interrupted := 1, ei_closing := True\<rparr>) (ev_heap st))
            (\<lambda>h. Done (st\<lparr>ev_heap := h\<rparr>)))))"

text \<open>One iteration of the loop in \<open>eventLoop\<close>. The Windows build polls instead of calling
  \<open>select\<close>.\<close>

fun poll_win32 :: "'w posix \<Rightarrow> callback \<Rightarrow> int \<Rightarrow> nat \<Rightarrow> event_info \<Rightarrow> 'w mon \<Rightarrow> 'w mon" where
  "poll_win32 E cb change0 0 eis m = m"
| "poll_win32 E cb change0 (Suc n) eis m =
     (let m = (if eventflags eis SPE_DATA_AVAILABLE \<noteq> 0
               then (let (data, m) = port_has_changed_fionread E change0 eis m
                     in if data then snd (send_event cb eis SPE_DATA_AVAILABLE 1 m) else m)
               else m)
      in poll_win32 E cb change0 n eis (m\<lparr>mon_w := usleep_op E 1000 (mon_w m)\<rparr>))"

definition wait_for_input ::
  "'w posix \<Rightarrow> platform \<Rightarrow> callback \<Rightarrow> int \<Rightarrow> nat \<Rightarrow> event_info \<Rightarrow> 'w mon \<Rightarrow> (int \<times> 'w mon) run" where
  "wait_for_input E p cb change0 ef eis m =
     (if p = Win32 then Done (1, poll_win32 E cb change0 5 eis m)
      else case retry_eintr ef (errno_of E) (select_op E (ei_fd eis) (Some (0, 100 * 1000))) (mon_w m) of
             None \<Rightarrow> Hang
           | Some (r, w) \<Rightarrow> Done (r, m\<lparr>mon_w := w\<rparr>))"

definition eventLoop_iter ::
  "'w posix \<Rightarrow> platform \<Rightarrow> callback \<Rightarrow> int \<Rightarrow> nat \<Rightarrow> addr \<Rightarrow> 'w evsys \<Rightarrow> (bool \<times> 'w evsys) run" where
  \<comment> \<open>\<open>False\<close>: the loop was left, by a return from \<open>eventLoop\<close>, and its stack frame, with the structure, is gone\<close>
  "eventLoop_iter E p cb change0 ef a st =
     run_bind (deref (ev_heap st) a) (\<lambda>c.
     if ei_closing (val c) then
       run_bind (finalize_event_info_struct a st) (\<lambda>st. Done (False, st\<lparr>ev_heap := (ev_heap st)(a := None)\<rparr>))
     else run_bind (wait_for_input E p cb change0 ef (val c) (ev_mon st)) (\<lambda>(ret, m).
       let eis = (val c)\<lparr>ei_ret := ret\<rparr>;
           (eis, m) = (if 0 \<le> ret then report_serial_events E cb change0 eis m else (eis, m))
       in run_bind (set_val a eis (ev_heap st)) (\<lambda>h. Done (True, st\<lparr>ev_heap := h, ev_mon := m\<rparr>))))"

section \<open>The registry is a list\<close>

lemma ev_finalize:
  assumes "ev_inv st (xs @ a # ys)"
  obtains st' where "finalize_event_info_struct a st = Done st'" and "ev_inv st' (xs @ ys)"
    and "same_vals (ev_heap st) (ev_heap st')" and "ev_mon st' = ev_mon st"
proof -
  have d: "dlist (ev_heap st) (xs @ a # ys)" and m: "master_index st = hdp (xs @ a # ys)"
    using assms by (simp_all add: ev_inv_def)
  obtain h where h: "unlink a (ev_heap st) = Done h" "dlist h (xs @ ys)" "same_vals (ev_heap st) h"
    using unlink_ok [OF d] by blast
  obtain c where c: "ev_heap st a = Some c" "prv c = lastp None xs" "nxt c = hdp ys"
    using dlist_prv_nxt [OF d] .
  define st' where "st' = st\<lparr>ev_heap := h, master_index := hdp (xs @ ys)\<rparr>"
  have "finalize_event_info_struct a st = Done st'"
    using c h(1) m
    by (auto simp: finalize_event_info_struct_def st'_def lastp_def hdp_def hd_append split: if_splits)
  then show thesis
    using h by (intro that [of st']) (simp_all add: st'_def ev_inv_def)
qed

lemma ev_set_val:
  assumes "ev_inv st as" and "a \<in> set as"
  obtains c where "ev_heap st a = Some c" and "set_val a v (ev_heap st) = Done ((ev_heap st)(a \<mapsto> c\<lparr>val := v\<rparr>))"
    and "ev_inv (st\<lparr>ev_heap := (ev_heap st)(a \<mapsto> c\<lparr>val := v\<rparr>)\<rparr>) as"
proof -
  obtain c where c: "ev_heap st a = Some c" using assms dlist_mem unfolding ev_inv_def by blast
  show thesis
    by (rule that [OF c]) (use assms c in \<open>simp_all add: set_val_def ev_inv_def dlist_set_val\<close>)
qed

lemma ev_link:
  assumes "ev_inv st as" and "a \<notin> set as" and "ev_heap st a = Some c" and "length as \<le> fuel"
  obtains h where "link_eis fuel a st = Done (st\<lparr>ev_heap := h, master_index := hdp (as @ [a])\<rparr>)"
    and "dlist h (as @ [a])" and "same_vals (ev_heap st) h"
proof (cases as rule: rev_cases)
  case Nil
  define h where "h = (ev_heap st)(a \<mapsto> c\<lparr>nxt := None, prv := None\<rparr>)"
  show thesis
    by (rule that [of h])
      (use assms Nil in \<open>auto simp: link_eis_def ev_inv_def set_nxt_def set_prv_def h_def dlist_def same_vals_def\<close>)
next
  case (snoc xs p)
  have d: "dlist (ev_heap st) (xs @ [p])" using assms(1) snoc by (simp add: ev_inv_def)
  obtain i rest where i: "as = i # rest" using snoc by (metis append_is_Nil_conv neq_Nil_conv)
  have "seek fuel (\<lambda>_. False) (ev_heap st) i = Done (stop_at (\<lambda>_. False) (ev_heap st) as)"
    using seek_ok [of "ev_heap st" i rest fuel] assms(1,4) i by (simp add: ev_inv_def)
  also have "stop_at (\<lambda>_. False) (ev_heap st) as = p"
    using stop_at_last [of as "ev_heap st" "\<lambda>_. False"] snoc by simp
  finally have sk: "seek fuel (\<lambda>_. False) (ev_heap st) i = Done p" .
  obtain cp where cp: "ev_heap st p = Some cp" using dlist_mem [OF d] by auto
  have ap: "a \<noteq> p" using assms(2) snoc by auto
  define h where "h = (ev_heap st)(a \<mapsto> c\<lparr>prv := Some p, nxt := None\<rparr>, p \<mapsto> cp\<lparr>nxt := Some a\<rparr>)"
  have eq: "c\<lparr>prv := Some p, nxt := None\<rparr> = \<lparr>val = val c, nxt = None, prv = Some p\<rparr>" by simp
  have "dlist h (xs @ [p, a])"
    unfolding h_def eq using append_ok [OF d cp, of a "val c"] assms(2) snoc by simp
  moreover have "link_eis fuel a st = Done (st\<lparr>ev_heap := h\<rparr>)"
    using assms(1,3) i sk cp ap
    by (simp add: link_eis_def ev_inv_def set_nxt_def set_prv_def h_def fun_upd_twist)
  moreover have "st\<lparr>ev_heap := h, master_index := hdp (as @ [a])\<rparr> = st\<lparr>ev_heap := h\<rparr>"
    using assms(1) i by (cases st) (simp add: ev_inv_def)
  moreover have "same_vals (ev_heap st) h"
    using cp assms(3) by (auto simp: h_def same_vals_def)
  ultimately show thesis using snoc by (intro that) simp_all
qed

text \<open>Finding a structure by descriptor.\<close>

lemma ev_seek:
  assumes "ev_inv st as" and "length as \<le> fuel" and "as \<noteq> []"
  obtains i q c where "master_index st = Some i" and "seek fuel P (ev_heap st) i = Done q" and "q \<in> set as"
    and "ev_heap st q = Some c" and "P (val c) \<longleftrightarrow> (\<exists>v \<in> set (contents (ev_heap st) as). P v)"
proof -
  obtain i rest where i: "as = i # rest" using assms(3) by (cases as) auto
  define q where "q = stop_at P (ev_heap st) as"
  have q: "q \<in> set as" unfolding q_def by (rule stop_at_mem [OF assms(3)])
  obtain c where c: "ev_heap st q = Some c" using assms(1) q dlist_mem unfolding ev_inv_def by blast
  have hit: "P (val c) \<longleftrightarrow> (\<exists>v \<in> set (contents (ev_heap st) as). P v)"
    using stop_at_hit [OF assms(3), of P "ev_heap st"] c by (simp add: q_def)
  show thesis
    by (rule that [OF _ _ q c hit])
      (use assms(1,2) i seek_ok [of "ev_heap st" i rest fuel P] in \<open>simp_all add: ev_inv_def q_def\<close>)
qed

definition registered :: "'w evsys \<Rightarrow> addr list \<Rightarrow> fd \<Rightarrow> bool" where
  "registered st as fd \<longleftrightarrow> (\<exists>e \<in> set (contents (ev_heap st) as). ei_fd e = fd)"

lemma ev_set_flag:
  assumes "ev_inv st as" and "length as \<le> fuel" and "event < 11"
  obtains st' where "nativeSetEventFlag fuel fd event flag st = Done st'" and "ev_inv st' as"
    and "dom (ev_heap st') = dom (ev_heap st)"
proof (cases "as = []")
  case True
  then show thesis using assms(1) that [of st] by (simp add: nativeSetEventFlag_def ev_inv_def)
next
  case False
  obtain i q c where q: "master_index st = Some i" "seek fuel (\<lambda>e. ei_fd e = fd) (ev_heap st) i = Done q"
      "q \<in> set as" "ev_heap st q = Some c"
    using ev_seek [OF assms(1,2) False, of "\<lambda>e. ei_fd e = fd"] by metis
  show thesis
  proof (cases "ei_fd (val c) = fd")
    case True
    define v where "v = (val c)\<lparr>eventflags := (eventflags (val c))(event := of_bool flag)\<rparr>"
    obtain c' where c': "ev_heap st q = Some c'" "set_val q v (ev_heap st) = Done ((ev_heap st)(q \<mapsto> c'\<lparr>val := v\<rparr>))"
        "ev_inv (st\<lparr>ev_heap := (ev_heap st)(q \<mapsto> c'\<lparr>val := v\<rparr>)\<rparr>) as"
      using ev_set_val [OF assms(1) q(3)] by blast
    show thesis
      by (rule that [OF _ c'(3)]) (use q True assms(3) c' in \<open>auto simp: nativeSetEventFlag_def v_def\<close>)
  next
    case False
    then show thesis using q assms(1) that [of st] by (simp add: nativeSetEventFlag_def)
  qed
qed

lemma ev_interrupt:
  assumes "ev_inv st as" and "length as \<le> fuel" and "registered st as (j_fd jp)"
  obtains st' q c where "interruptEventLoop fuel jp st = Done st'" and "ev_inv st' as" and "q \<in> set as"
    and "ev_heap st' q = Some c" and "ei_fd (val c) = j_fd jp" and "ei_closing (val c)"
    and "dom (ev_heap st') = dom (ev_heap st)"
proof -
  have "as \<noteq> []" using assms(3) by (auto simp: registered_def contents_def)
  then obtain i q c where q: "master_index st = Some i"
      "seek fuel (\<lambda>e. ei_fd e = j_fd jp) (ev_heap st) i = Done q" "q \<in> set as" "ev_heap st q = Some c"
      "ei_fd (val c) = j_fd jp"
    using ev_seek [OF assms(1,2), of "\<lambda>e. ei_fd e = j_fd jp"] assms(3) unfolding registered_def by metis
  define v where "v = (val c)\<lparr>eventloop_interrupted := 1, ei_closing := True\<rparr>"
  obtain c' where c': "ev_heap st q = Some c'" "set_val q v (ev_heap st) = Done ((ev_heap st)(q \<mapsto> c'\<lparr>val := v\<rparr>))"
      "ev_inv (st\<lparr>ev_heap := (ev_heap st)(q \<mapsto> c'\<lparr>val := v\<rparr>)\<rparr>) as"
    using ev_set_val [OF assms(1) q(3)] by blast
  show thesis
    by (rule that [OF _ c'(3) q(3), of "c'\<lparr>val := v\<rparr>"])
      (use q c' in \<open>auto simp: interruptEventLoop_def v_def\<close>)
qed

lemma ev_initialise:
  assumes "ev_inv st as" and "a \<notin> set as" and "ev_heap st a = Some c" and "\<not> ei_initialised (val c)"
    and "length as \<le> fuel"
  obtains st' c' where "initialise_event_info_struct E fuel True jp a st = Done (1, st')"
    and "ev_inv st' (as @ [a])" and "ev_heap st' a = Some c'" and "ei_initialised (val c')"
    and "ei_fd (val c') = j_fd jp" and "\<not> ei_closing (val c')" and "\<forall>i < 11. eventflags (val c') i = 0"
    and "dom (ev_heap st') = dom (ev_heap st)"
proof -
  define h1 where "h1 = (ev_heap st)(a \<mapsto> c\<lparr>val := (val c)\<lparr>osis := zero_icounter\<rparr>\<rparr>)"
  have inv1: "ev_inv (st\<lparr>ev_heap := h1\<rparr>) as"
    using assms(1-3) by (simp add: ev_inv_def h1_def)
  have "ev_heap (st\<lparr>ev_heap := h1\<rparr>) a = Some (c\<lparr>val := (val c)\<lparr>osis := zero_icounter\<rparr>\<rparr>)"
    by (simp add: h1_def)
  from ev_link [OF inv1 assms(2) this assms(5)] obtain h where
    h: "link_eis fuel a (st\<lparr>ev_heap := h1\<rparr>) = Done (st\<lparr>ev_heap := h, master_index := hdp (as @ [a])\<rparr>)"
      "dlist h (as @ [a])" "same_vals h1 h" by auto
  obtain c1 where c1: "h a = Some c1" using dlist_mem [OF h(2), of a] by auto
  obtain eis w where ew: "fresh_eis E jp (val c1) (mon_w (ev_mon st)) = (eis, w)" by (metis surj_pair)
  define v where "v = eis\<lparr>ei_initialised := True\<rparr>"
  define st' where "st' = st\<lparr>ev_heap := h(a \<mapsto> c1\<lparr>val := v\<rparr>), master_index := hdp (as @ [a]),
    ev_mon := (ev_mon st)\<lparr>mon_w := w\<rparr>\<rparr>"
  have "initialise_event_info_struct E fuel True jp a st = Done (1, st')"
    using assms(3,4) h(1) c1 ew
    by (simp add: initialise_event_info_struct_def set_val_def h1_def [symmetric] st'_def v_def)
  moreover have "ev_inv st' (as @ [a])"
    using h(2) c1 by (simp add: ev_inv_def st'_def dlist_set_val)
  moreover have "ei_fd eis = j_fd jp" "\<not> ei_closing eis" "\<forall>i < 11. eventflags eis i = 0"
    using ew by (auto simp: fresh_eis_def Let_def split: prod.splits)
  moreover have "dom (ev_heap st') = dom (ev_heap st)"
  proof -
    have "dom h = dom h1" by (rule same_vals_dom [OF h(3)])
    then show ?thesis using c1 assms(3) by (auto simp: st'_def h1_def)
  qed
  ultimately show thesis
    by (intro that [of st' "c1\<lparr>val := v\<rparr>"]) (simp_all add: st'_def v_def)
qed

lemma ev_iter:
  assumes "ev_inv st as" and "a \<in> set as"
  shows "eventLoop_iter E p cb ch ef a st = Hang
    \<or> (\<exists>st'. eventLoop_iter E p cb ch ef a st = Done (True, st') \<and> ev_inv st' as
        \<and> dom (ev_heap st') = dom (ev_heap st))
    \<or> (\<exists>st' xs ys. eventLoop_iter E p cb ch ef a st = Done (False, st') \<and> as = xs @ a # ys \<and> ev_inv st' (xs @ ys)
        \<and> dom (ev_heap st') = dom (ev_heap st) - {a})"
proof -
  obtain c where c: "ev_heap st a = Some c" using assms dlist_mem unfolding ev_inv_def by blast
  show ?thesis
  proof (cases "ei_closing (val c)")
    case True
    obtain xs ys where as: "as = xs @ a # ys" using assms(2) by (meson split_list)
    obtain st1 where st1: "finalize_event_info_struct a st = Done st1" "ev_inv st1 (xs @ ys)"
        "same_vals (ev_heap st) (ev_heap st1)"
      using ev_finalize assms(1) unfolding as by blast
    define st' where "st' = st1\<lparr>ev_heap := (ev_heap st1)(a := None)\<rparr>"
    have "a \<notin> set (xs @ ys)" using assms(1) as by (auto simp: ev_inv_def dlist_def)
    then have "ev_inv st' (xs @ ys)" using st1(2) by (simp add: ev_inv_def st'_def)
    moreover have "eventLoop_iter E p cb ch ef a st = Done (False, st')"
      using c True st1(1) by (simp add: eventLoop_iter_def st'_def)
    moreover have "dom (ev_heap st') = dom (ev_heap st) - {a}"
      using same_vals_dom [OF st1(3)] by (auto simp: st'_def)
    ultimately show ?thesis using as by blast
  next
    case False
    show ?thesis
    proof (cases "wait_for_input E p cb ch ef (val c) (ev_mon st)")
      case (Done rm)
      obtain ret m where rm: "rm = (ret, m)" by (cases rm)
      obtain e1 m1 where em: "(if 0 \<le> ret then report_serial_events E cb ch ((val c)\<lparr>ei_ret := ret\<rparr>) m
          else ((val c)\<lparr>ei_ret := ret\<rparr>, m)) = (e1, m1)"
        by (metis surj_pair)
      obtain c' where c': "ev_heap st a = Some c'"
          "set_val a e1 (ev_heap st) = Done ((ev_heap st)(a \<mapsto> c'\<lparr>val := e1\<rparr>))"
          "ev_inv (st\<lparr>ev_heap := (ev_heap st)(a \<mapsto> c'\<lparr>val := e1\<rparr>)\<rparr>) as"
        using ev_set_val [OF assms] by metis
      have "eventLoop_iter E p cb ch ef a st
          = Done (True, st\<lparr>ev_heap := (ev_heap st)(a \<mapsto> c'\<lparr>val := e1\<rparr>), ev_mon := m1\<rparr>)"
        unfolding eventLoop_iter_def using c False Done rm c'(2) em by (simp add: Let_def)
      moreover have "ev_inv (st\<lparr>ev_heap := (ev_heap st)(a \<mapsto> c'\<lparr>val := e1\<rparr>), ev_mon := m1\<rparr>) as"
        using c'(3) by (simp add: ev_inv_def)
      ultimately show ?thesis using c by (auto simp: insert_absorb domI)
    next
      case Fault
      then show ?thesis by (simp add: wait_for_input_def split: if_splits option.splits prod.splits)
    next
      case Hang
      then show ?thesis using c False by (simp add: eventLoop_iter_def)
    qed
  qed
qed

section \<open>Calls one after the other\<close>

text \<open>
  A cell exists exactly while its loop runs. Reachable are the states that starting a loop, an
  iteration of a running loop, setting a flag and interrupting lead to, in any order but one at a time,
  for any behaviour of the system calls and of the Java methods.
\<close>

inductive reach :: "'w evsys \<Rightarrow> bool" where
  init: "reach \<lparr>ev_heap = (\<lambda>_. None), master_index = None, ev_mon = m\<rparr>"
| start: "reach st \<Longrightarrow> ev_heap st a = None \<Longrightarrow> \<not> ei_initialised (val c) \<Longrightarrow>
    initialise_event_info_struct E fuel True jp a (st\<lparr>ev_heap := (ev_heap st)(a \<mapsto> c)\<rparr>) = Done (1, st') \<Longrightarrow>
    card (dom (ev_heap st)) \<le> fuel \<Longrightarrow> reach st'"
| iterate: "reach st \<Longrightarrow> a \<in> dom (ev_heap st) \<Longrightarrow> eventLoop_iter E p cb ch ef a st = Done (b, st') \<Longrightarrow> reach st'"
| flag: "reach st \<Longrightarrow> nativeSetEventFlag fuel fd event on st = Done st' \<Longrightarrow> event < 11 \<Longrightarrow>
    card (dom (ev_heap st)) \<le> fuel \<Longrightarrow> reach st'"
| interrupt: "reach st \<Longrightarrow> interruptEventLoop fuel jp st = Done st' \<Longrightarrow>
    card (dom (ev_heap st)) \<le> fuel \<Longrightarrow> reach st'"

inductive_cases reach_cases: "reach st"

definition ev_ok :: "'w evsys \<Rightarrow> addr list \<Rightarrow> bool" where
  "ev_ok st as \<longleftrightarrow> ev_inv st as \<and> dom (ev_heap st) = set as"

lemma ev_ok_card: "ev_ok st as \<Longrightarrow> card (dom (ev_heap st)) = length as"
  by (simp add: ev_ok_def ev_inv_def dlist_def distinct_card)

lemma interrupt_registered:
  assumes "ev_inv st as" and "length as \<le> fuel" and "interruptEventLoop fuel jp st = Done st'"
  shows "registered st as (j_fd jp)"
proof (cases "as = []")
  case True
  then show ?thesis using assms(1,3) by (simp add: interruptEventLoop_def ev_inv_def)
next
  case False
  obtain i q c where "master_index st = Some i"
      "seek fuel (\<lambda>e. ei_fd e = j_fd jp) (ev_heap st) i = Done q" "ev_heap st q = Some c"
      "ei_fd (val c) = j_fd jp \<longleftrightarrow> registered st as (j_fd jp)"
    using ev_seek [OF assms(1,2) False, of "\<lambda>e. ei_fd e = j_fd jp"] unfolding registered_def by metis
  then show ?thesis using assms(3) by (simp add: interruptEventLoop_def split: if_splits)
qed

lemma reach_ok: "reach st \<Longrightarrow> \<exists>as. ev_ok st as"
proof (induction rule: reach.induct)
  case (init m)
  show ?case by (intro exI [of _ "[]"]) (simp add: ev_ok_def ev_inv_def dlist_def dom_def)
next
  case (start st a c E fuel jp st')
  then obtain as where ok: "ev_ok st as" by blast
  let ?st = "st\<lparr>ev_heap := (ev_heap st)(a \<mapsto> c)\<rparr>"
  have a: "a \<notin> set as" using ok start(2) by (auto simp: ev_ok_def)
  have inv: "ev_inv ?st as" using ok a by (simp add: ev_ok_def ev_inv_def)
  have len: "length as \<le> fuel" using start(5) ev_ok_card [OF ok] by simp
  obtain st1 where st1: "initialise_event_info_struct E fuel True jp a ?st = Done (1, st1)"
      "ev_inv st1 (as @ [a])" "dom (ev_heap st1) = dom (ev_heap ?st)"
    by (rule ev_initialise [OF inv a _ start(3) len, of E jp]) auto
  then have "ev_ok st' (as @ [a])" using start(4) ok by (auto simp: ev_ok_def)
  then show ?case by blast
next
  case (iterate st a E p cb ch ef b st')
  then obtain as where ok: "ev_ok st as" by blast
  then have a: "a \<in> set as" using iterate(2) by (simp add: ev_ok_def)
  have inv: "ev_inv st as" using ok by (simp add: ev_ok_def)
  have ad: "a \<notin> set (xs @ ys)" if "as = xs @ a # ys" for xs ys
    using inv that by (auto simp: ev_inv_def dlist_def)
  from ev_iter [OF inv a, of E p cb ch ef] iterate(3)
  show ?case
  proof (elim disjE exE conjE)
    fix s1 assume "eventLoop_iter E p cb ch ef a st = Done (True, s1)" "ev_inv s1 as"
      "dom (ev_heap s1) = dom (ev_heap st)"
    then have "ev_ok st' as" using iterate(3) ok by (simp add: ev_ok_def)
    then show ?case by blast
  next
    fix s1 xs ys assume s1: "eventLoop_iter E p cb ch ef a st = Done (False, s1)" "as = xs @ a # ys"
      "ev_inv s1 (xs @ ys)" "dom (ev_heap s1) = dom (ev_heap st) - {a}"
    then have "ev_ok st' (xs @ ys)" using iterate(3) ok ad [OF s1(2)] by (auto simp: ev_ok_def)
    then show ?case by blast
  qed simp
next
  case (flag st fuel fd event on st')
  then obtain as where ok: "ev_ok st as" by blast
  then have "ev_inv st as" "length as \<le> fuel" using flag(4) ev_ok_card [OF ok] by (simp_all add: ev_ok_def)
  from ev_set_flag [OF this flag(3), of fd on] flag(2) ok show ?case by (auto simp: ev_ok_def)
next
  case (interrupt st fuel jp st')
  then obtain as where ok: "ev_ok st as" by blast
  then have inv: "ev_inv st as" "length as \<le> fuel"
    using interrupt(3) ev_ok_card [OF ok] by (simp_all add: ev_ok_def)
  from ev_interrupt [OF inv interrupt_registered [OF inv interrupt(2)]] interrupt(2) ok
  show ?case unfolding ev_ok_def by (metis run.inject)
qed

section \<open>Properties\<close>

text \<open>As long as the calls do not overlap, no iteration of a running loop follows a dangling pointer, setting
  any flag of any descriptor returns, and interrupting a descriptor returns exactly when some running loop
  monitors it (otherwise the caller waits).\<close>

theorem registry_safe:
  assumes "reach st" and "card (dom (ev_heap st)) \<le> fuel"
  shows "(\<forall>a \<in> dom (ev_heap st). eventLoop_iter E p cb ch ef a st \<noteq> Fault)
    \<and> (\<forall>fd event on. event < 11 \<longrightarrow> (\<exists>st'. nativeSetEventFlag fuel fd event on st = Done st'))
    \<and> ((\<exists>st'. interruptEventLoop fuel jp st = Done st') \<longleftrightarrow>
        (\<exists>c \<in> ran (ev_heap st). ei_fd (val c) = j_fd jp))"
proof -
  obtain as where ok: "ev_ok st as" using reach_ok [OF assms(1)] by blast
  then have inv: "ev_inv st as" and dom: "dom (ev_heap st) = set as" by (simp_all add: ev_ok_def)
  have len: "length as \<le> fuel" using assms(2) ev_ok_card [OF ok] by simp
  have "registered st as (j_fd jp) \<longleftrightarrow> (\<exists>c \<in> ran (ev_heap st). ei_fd (val c) = j_fd jp)"
    unfolding registered_def contents_def ran_def using dom by (force simp: dom_def)
  then have "(\<exists>st'. interruptEventLoop fuel jp st = Done st') \<longleftrightarrow> (\<exists>c \<in> ran (ev_heap st). ei_fd (val c) = j_fd jp)"
    using interrupt_registered [OF inv len, of jp] ev_interrupt [OF inv len, of jp] by metis
  moreover have "eventLoop_iter E p cb ch ef a st \<noteq> Fault" if "a \<in> dom (ev_heap st)" for a
    using ev_iter [OF inv, of a E p cb ch ef] that dom by auto
  moreover have "\<exists>st'. nativeSetEventFlag fuel fd event on st = Done st'" if "event < 11" for fd event on
    using ev_set_flag [OF inv len that] by metis
  ultimately show ?thesis by blast
qed

definition ev_start :: "refdev evsys" where
  "ev_start = \<lparr>ev_heap = (\<lambda>_. None), master_index = None, ev_mon = mon0\<rparr>"

definition eis_stack :: "event_info cell" where
  \<comment> \<open>the structure in a new stack frame: \<open>jclazz\<close> set, not initialised\<close>
  "eis_stack = \<lparr>val = eis0\<lparr>ei_initialised := False, ei_closing := True\<rparr>, nxt = Some 99, prv = Some 98\<rparr>"

definition ev_one :: "refdev evsys" where
  "ev_one = (case initialise_event_info_struct refposix 1 True jport0 7
      (ev_start\<lparr>ev_heap := (ev_heap ev_start)(7 \<mapsto> eis_stack)\<rparr>) of Done (r, st) \<Rightarrow> st | _ \<Rightarrow> ev_start)"

lemma ev_one_is:
  "initialise_event_info_struct refposix 1 True jport0 7 (ev_start\<lparr>ev_heap := (ev_heap ev_start)(7 \<mapsto> eis_stack)\<rparr>)
     = Done (1, ev_one)"
  "dom (ev_heap ev_one) = {7}" "\<exists>c. ev_heap ev_one 7 = Some c \<and> ei_fd (val c) = j_fd jport0"
proof -
  let ?st = "ev_start\<lparr>ev_heap := (ev_heap ev_start)(7 \<mapsto> eis_stack)\<rparr>"
  have "ev_inv ?st []" "ev_heap ?st 7 = Some eis_stack" "\<not> ei_initialised (val eis_stack)"
    by (simp_all add: ev_inv_def ev_start_def dlist_def eis_stack_def)
  from ev_initialise [OF this(1) _ this(2,3), of 1 refposix jport0] obtain st' c' where
    "initialise_event_info_struct refposix 1 True jport0 7 ?st = Done (1, st')" "ev_heap st' 7 = Some c'"
    "ei_fd (val c') = j_fd jport0" "dom (ev_heap st') = dom (ev_heap ?st)"
    by (metis all_not_in_conv empty_set le_numeral_extra(4) list.size(3) zero_le_one)
  then show "initialise_event_info_struct refposix 1 True jport0 7 ?st = Done (1, ev_one)"
    "dom (ev_heap ev_one) = {7}" "\<exists>c. ev_heap ev_one 7 = Some c \<and> ei_fd (val c) = j_fd jport0"
    by (simp_all add: ev_one_def ev_start_def dom_def)
qed

lemma ev_one_reach: "reach ev_one"
proof (rule reach.start [OF _ _ _ ev_one_is(1)])
  show "reach ev_start" unfolding ev_start_def by (rule reach.init)
qed (simp_all add: ev_start_def eis_stack_def dom_def)

lemma ev_one_interrupt: "\<exists>st'. interruptEventLoop 1 jport0 ev_one = Done st'"
proof -
  obtain as where ok: "ev_ok ev_one as" using reach_ok [OF ev_one_reach] by blast
  have as: "set as = {7}" using ok ev_one_is(2) by (simp add: ev_ok_def)
  have len: "length as = 1" using ev_ok_card [OF ok] by (simp only: ev_one_is(2)) simp
  then have "registered ev_one as (j_fd jport0)"
    using ev_one_is(3) as by (auto simp: registered_def contents_def)
  then show ?thesis using ev_interrupt [of ev_one as 1 jport0] ok len by (metis ev_ok_def le_refl)
qed

text \<open>C20. Stopping a monitor, for calls that do not overlap: once a descriptor's loop has been interrupted, there
  is a loop on that descriptor whose next iteration leaves, whatever the system calls do, and unlinks its
  structure: the list found from \<open>master_index\<close> is the one before without that structure, with every other
  loop still in it, in the same order, and no link to the frame that is gone.\<close>

theorem interrupt_stops_loop:
  assumes "reach st" and "card (dom (ev_heap st)) \<le> fuel" and "interruptEventLoop fuel jp st = Done st'"
  shows "\<exists>a c xs ys. ev_heap st' a = Some c \<and> ei_fd (val c) = j_fd jp \<and> ev_inv st' (xs @ a # ys)
    \<and> (\<forall>E p cb ch ef. \<exists>st''. eventLoop_iter E p cb ch ef a st' = Done (False, st'')
        \<and> ev_inv st'' (xs @ ys) \<and> set (xs @ ys) = dom (ev_heap st'') \<and> dom (ev_heap st'') = dom (ev_heap st) - {a})"
proof -
  obtain as where ok: "ev_ok st as" using reach_ok [OF assms(1)] by blast
  then have inv: "ev_inv st as" and dom: "dom (ev_heap st) = set as" by (simp_all add: ev_ok_def)
  have len: "length as \<le> fuel" using assms(2) ev_ok_card [OF ok] by simp
  obtain q c where q: "ev_inv st' as" "q \<in> set as" "ev_heap st' q = Some c" "ei_fd (val c) = j_fd jp"
      "ei_closing (val c)" "dom (ev_heap st') = dom (ev_heap st)"
    using ev_interrupt [OF inv len interrupt_registered [OF inv len assms(3)]] assms(3) by (metis run.inject)
  obtain xs ys where as: "as = xs @ q # ys" using q(2) by (meson split_list)
  have dist: "distinct as" using inv by (simp add: ev_inv_def dlist_def)
  have "\<exists>st''. eventLoop_iter E p cb ch ef q st' = Done (False, st'') \<and> ev_inv st'' (xs @ ys)
      \<and> set (xs @ ys) = dom (ev_heap st'') \<and> dom (ev_heap st'') = dom (ev_heap st) - {q}"
    for E :: "'a posix" and p cb ch ef
  proof -
    obtain st1 where "finalize_event_info_struct q st' = Done st1" "ev_inv st1 (xs @ ys)"
        "same_vals (ev_heap st') (ev_heap st1)"
      using ev_finalize q(1) unfolding as by blast
    then show ?thesis
      using q(3,5,6) same_vals_dom [of "ev_heap st'" "ev_heap st1"] dom dist as
      by (intro exI [of _ "st1\<lparr>ev_heap := (ev_heap st1)(q := None)\<rparr>"]) (auto simp: eventLoop_iter_def ev_inv_def)
  qed
  then show ?thesis using q(1,3,4) as by blast
qed

theorem interrupt_stops_loop_witness:
  "\<exists>st'. interruptEventLoop 1 jport0 ev_one = Done st'
    \<and> (\<exists>a st''. eventLoop_iter refposix Linux (\<lambda>_ _. False) 0 1 a st' = Done (False, st''))"
proof -
  obtain st' where st': "interruptEventLoop 1 jport0 ev_one = Done st'"
    using ev_one_interrupt by blast
  then show ?thesis
    using interrupt_stops_loop [OF ev_one_reach _ st'] ev_one_is(2) by fastforce
qed

end
