(* ===== verification/Registry_Race.thy ===== *)
theory Registry_Race
  imports Event_Registry
begin

text \<open>
  The functions of \<open>Event_Registry\<close> once more, one memory access at a time and for any number of threads. The list at
  \<open>master_index\<close> has no lock, and its members are in the frames of \<open>eventLoop\<close>. Between two accesses of a thread any
  other thread may run: a walk keeps a pointer to a structure whose loop may return meanwhile. A dereference of a structure
  whose frame is gone is \<open>Fault\<close>, and the thread that made it has crashed. The build is that of Linux: that of Windows reads the
  structure once more at the end of \<open>interruptEventLoop\<close> and \<open>nativeSetEventFlag\<close>.
\<close>

section \<open>The accesses of each function\<close>

datatype walk_pc = AtStart | AtFd addr | AtNext addr | AtCheck addr | AtStore addr | AtClose addr | Returned

datatype link_pc = KStart | KWalk addr | KLink addr | KPrev addr | KNext | KMaster | KMasterNext | KMasterPrev
  | KFlag nat | KInterrupted | KClosing | KFd | KReady | Linked

datatype unlink_pc = UCase | UBoth | UBothPrev | UFirst | UFirstMaster | ULast | UOnly | Unlinked

definition store :: "(addr \<Rightarrow> 'v \<Rightarrow> event_info heap \<Rightarrow> event_info heap run) \<Rightarrow> addr \<Rightarrow> 'v \<Rightarrow> 'w evsys \<Rightarrow> 'w evsys run" where
  "store upd a v m = run_bind (upd a v (ev_heap m)) (\<lambda>h. Done (m\<lparr>ev_heap := h\<rparr>))"

definition goto :: "'pc \<Rightarrow> 'w evsys run \<Rightarrow> ('pc \<times> 'w evsys) run" where
  "goto p r = run_bind r (\<lambda>m. Done (p, m))"

text \<open>A null pointer that is dereferenced.\<close>

definition target :: "addr option \<Rightarrow> addr run" where
  "target x = (case x of None \<Rightarrow> Fault | Some a \<Rightarrow> Done a)"

text \<open>\<open>nativeSetEventFlag\<close>: an event number beyond the array writes behind it.\<close>

fun set_flag_access :: "fd \<Rightarrow> nat \<Rightarrow> bool \<Rightarrow> walk_pc \<Rightarrow> 'w evsys \<Rightarrow> (walk_pc \<times> 'w evsys) run" where
  "set_flag_access fd event flag AtStart m = Done (case master_index m of None \<Rightarrow> Returned | Some i \<Rightarrow> AtFd i, m)"
| "set_flag_access fd event flag (AtFd i) m =
     run_bind (deref (ev_heap m) i) (\<lambda>c. Done (if ei_fd (val c) \<noteq> fd then AtNext i else AtCheck i, m))"
| "set_flag_access fd event flag (AtNext i) m =
     run_bind (deref (ev_heap m) i) (\<lambda>c. Done (case nxt c of None \<Rightarrow> AtCheck i | Some n \<Rightarrow> AtFd n, m))"
| "set_flag_access fd event flag (AtCheck i) m =
     run_bind (deref (ev_heap m) i) (\<lambda>c. Done (if ei_fd (val c) \<noteq> fd then Returned else AtStore i, m))"
| "set_flag_access fd event flag (AtStore i) m =
     run_bind (deref (ev_heap m) i) (\<lambda>c.
       if 11 \<le> event then Fault
       else goto Returned (store set_val i ((val c)\<lparr>eventflags := (eventflags (val c))(event := of_bool flag)\<rparr>) m))"
| "set_flag_access fd event flag _ m = Done (Returned, m)"

text \<open>\<open>interruptEventLoop\<close>: nothing found, the search starts over.\<close>

fun interrupt_access :: "fd \<Rightarrow> walk_pc \<Rightarrow> 'w evsys \<Rightarrow> (walk_pc \<times> 'w evsys) run" where
  "interrupt_access fd AtStart m = Done (case master_index m of None \<Rightarrow> AtStart | Some i \<Rightarrow> AtFd i, m)"
| "interrupt_access fd (AtFd i) m =
     run_bind (deref (ev_heap m) i) (\<lambda>c. Done (if ei_fd (val c) \<noteq> fd then AtNext i else AtCheck i, m))"
| "interrupt_access fd (AtNext i) m =
     run_bind (deref (ev_heap m) i) (\<lambda>c. Done (case nxt c of None \<Rightarrow> AtCheck i | Some n \<Rightarrow> AtFd n, m))"
| "interrupt_access fd (AtCheck i) m =
     run_bind (deref (ev_heap m) i) (\<lambda>c. Done (if ei_fd (val c) = fd then AtStore i else AtStart, m))"
| "interrupt_access fd (AtStore i) m =
     run_bind (deref (ev_heap m) i) (\<lambda>c. goto (AtClose i) (store set_val i ((val c)\<lparr>eventloop_interrupted := 1\<rparr>) m))"
| "interrupt_access fd (AtClose i) m =
     run_bind (deref (ev_heap m) i) (\<lambda>c. goto Returned (store set_val i ((val c)\<lparr>ei_closing := True\<rparr>) m))"
| "interrupt_access fd Returned m = Done (Returned, m)"

text \<open>\<open>initialise_event_info_struct\<close>: the links first, the descriptor afterwards. The fields that only the loop itself
  reads are left out.\<close>

fun link_access :: "fd \<Rightarrow> addr \<Rightarrow> link_pc \<Rightarrow> 'w evsys \<Rightarrow> (link_pc \<times> 'w evsys) run" where
  "link_access fd a KStart m = Done (case master_index m of None \<Rightarrow> KMaster | Some i \<Rightarrow> KWalk i, m)"
| "link_access fd a (KWalk i) m =
     run_bind (deref (ev_heap m) i) (\<lambda>c. Done (case nxt c of None \<Rightarrow> KLink i | Some n \<Rightarrow> KWalk n, m))"
| "link_access fd a (KLink i) m = goto (KPrev i) (store set_nxt i (Some a) m)"
| "link_access fd a (KPrev i) m = goto KNext (store set_prv a (Some i) m)"
| "link_access fd a KNext m = goto (KFlag 0) (store set_nxt a None m)"
| "link_access fd a KMaster m = Done (KMasterNext, m\<lparr>master_index := Some a\<rparr>)"
| "link_access fd a KMasterNext m = run_bind (target (master_index m)) (\<lambda>i. goto KMasterPrev (store set_nxt i None m))"
| "link_access fd a KMasterPrev m = run_bind (target (master_index m)) (\<lambda>i. goto (KFlag 0) (store set_prv i None m))"
| "link_access fd a (KFlag i) m = run_bind (deref (ev_heap m) a) (\<lambda>c. goto (if i < 10 then KFlag (Suc i) else KInterrupted)
     (store set_val a ((val c)\<lparr>eventflags := (eventflags (val c))(i := 0)\<rparr>) m))"
| "link_access fd a KInterrupted m =
     run_bind (deref (ev_heap m) a) (\<lambda>c. goto KClosing (store set_val a ((val c)\<lparr>eventloop_interrupted := 0\<rparr>) m))"
| "link_access fd a KClosing m =
     run_bind (deref (ev_heap m) a) (\<lambda>c. goto KFd (store set_val a ((val c)\<lparr>ei_closing := False\<rparr>) m))"
| "link_access fd a KFd m = run_bind (deref (ev_heap m) a) (\<lambda>c. goto KReady (store set_val a ((val c)\<lparr>ei_fd := fd\<rparr>) m))"
| "link_access fd a KReady m =
     run_bind (deref (ev_heap m) a) (\<lambda>c. goto Linked (store set_val a ((val c)\<lparr>ei_initialised := True\<rparr>) m))"
| "link_access fd a Linked m = Done (Linked, m)"

text \<open>\<open>finalize_event_info_struct\<close>: every statement reads the structure's own links again.\<close>

fun unlink_access :: "addr \<Rightarrow> unlink_pc \<Rightarrow> 'w evsys \<Rightarrow> (unlink_pc \<times> 'w evsys) run" where
  "unlink_access a UCase m = run_bind (deref (ev_heap m) a) (\<lambda>c. Done (case (nxt c, prv c) of
      (Some n, Some p) \<Rightarrow> UBoth | (Some n, None) \<Rightarrow> UFirst | (None, Some p) \<Rightarrow> ULast | (None, None) \<Rightarrow> UOnly, m))"
| "unlink_access a UBoth m = run_bind (deref (ev_heap m) a) (\<lambda>c. run_bind (target (prv c)) (\<lambda>p.
     goto UBothPrev (store set_nxt p (nxt c) m)))"
| "unlink_access a UBothPrev m = run_bind (deref (ev_heap m) a) (\<lambda>c. run_bind (target (nxt c)) (\<lambda>n.
     goto Unlinked (store set_prv n (prv c) m)))"
| "unlink_access a UFirst m = run_bind (deref (ev_heap m) a) (\<lambda>c. run_bind (target (nxt c)) (\<lambda>n.
     goto UFirstMaster (store set_prv n None m)))"
| "unlink_access a UFirstMaster m = run_bind (deref (ev_heap m) a) (\<lambda>c. Done (Unlinked, m\<lparr>master_index := nxt c\<rparr>))"
| "unlink_access a ULast m = run_bind (deref (ev_heap m) a) (\<lambda>c. run_bind (target (prv c)) (\<lambda>p.
     goto Unlinked (store set_nxt p None m)))"
| "unlink_access a UOnly m = Done (Unlinked, m\<lparr>master_index := None\<rparr>)"
| "unlink_access a Unlinked m = Done (Unlinked, m)"

section \<open>Threads\<close>

datatype pc = Outside | Crashed
  | Setting fd nat bool walk_pc
  | Interrupting fd walk_pc
  | Linking fd addr link_pc
  | Looping addr
  | Unlinking addr unlink_pc

record 'w registry =
  mem :: "'w evsys"
  pcs :: "nat \<Rightarrow> pc"

definition set_flag_pc :: "fd \<Rightarrow> nat \<Rightarrow> bool \<Rightarrow> walk_pc \<Rightarrow> pc" where
  "set_flag_pc fd event flag p = (if p = Returned then Outside else Setting fd event flag p)"

definition interrupt_pc :: "fd \<Rightarrow> walk_pc \<Rightarrow> pc" where
  "interrupt_pc fd p = (if p = Returned then Outside else Interrupting fd p)"

definition link_done :: "fd \<Rightarrow> addr \<Rightarrow> link_pc \<Rightarrow> pc" where
  "link_done fd a p = (if p = Linked then Looping a else Linking fd a p)"

text \<open>The next access of a thread. A loop that sees \<open>closing\<close> unlinks its structure and returns; its frame goes with the
  return, in a step after the last store. \<open>Hang\<close> stands for no access.\<close>

definition lift_pc :: "('p \<Rightarrow> pc) \<Rightarrow> ('p \<times> 'w evsys) run \<Rightarrow> (pc \<times> 'w evsys) run" where
  "lift_pc f r = run_bind r (\<lambda>(p, m). Done (f p, m))"

fun thread_access :: "pc \<Rightarrow> 'w evsys \<Rightarrow> (pc \<times> 'w evsys) run" where
  "thread_access Outside m = Hang"
| "thread_access Crashed m = Hang"
| "thread_access (Setting fd event flag p) m = lift_pc (set_flag_pc fd event flag) (set_flag_access fd event flag p m)"
| "thread_access (Interrupting fd p) m = lift_pc (interrupt_pc fd) (interrupt_access fd p m)"
| "thread_access (Linking fd a p) m = lift_pc (link_done fd a) (link_access fd a p m)"
| "thread_access (Looping a) m =
     run_bind (deref (ev_heap m) a) (\<lambda>c. Done (if ei_closing (val c) then Unlinking a UCase else Looping a, m))"
| "thread_access (Unlinking a p) m =
     (if p = Unlinked then Done (Outside, m\<lparr>ev_heap := (ev_heap m)(a := None)\<rparr>)
      else lift_pc (Unlinking a) (unlink_access a p m))"

text \<open>A thread outside may call any of the three functions; \<open>eventLoop\<close> gets a frame of its own with whatever was there
  before. The work of an iteration changes the loop's own structure, but not its links, its descriptor or \<open>closing\<close>.
  \<open>GetMethodID\<close> may fail when the structure is linked and filled.\<close>

inductive registry_step :: "'w registry \<Rightarrow> 'w registry \<Rightarrow> bool" where
  call_flag: "pcs s t = Outside \<Longrightarrow> event < 11 \<Longrightarrow> registry_step s (s\<lparr>pcs := (pcs s)(t := Setting fd event flag AtStart)\<rparr>)"
| call_interrupt: "pcs s t = Outside \<Longrightarrow> registry_step s (s\<lparr>pcs := (pcs s)(t := Interrupting fd AtStart)\<rparr>)"
| call_loop: "pcs s t = Outside \<Longrightarrow> ev_heap (mem s) a = None \<Longrightarrow>
    registry_step s (s\<lparr>mem := (mem s)\<lparr>ev_heap := (ev_heap (mem s))(a \<mapsto> c)\<rparr>, pcs := (pcs s)(t := Linking fd a KStart)\<rparr>)"
| no_method: "pcs s t = Linking fd a KReady \<Longrightarrow> registry_step s (s\<lparr>pcs := (pcs s)(t := Unlinking a UCase)\<rparr>)"
| work: "pcs s t = Looping a \<Longrightarrow> ev_heap (mem s) a = Some c \<Longrightarrow> ei_fd v = ei_fd (val c) \<Longrightarrow>
    ei_closing v = ei_closing (val c) \<Longrightarrow>
    registry_step s (s\<lparr>mem := (mem s)\<lparr>ev_heap := (ev_heap (mem s))(a \<mapsto> c\<lparr>val := v\<rparr>)\<rparr>\<rparr>)"
| access: "thread_access (pcs s t) (mem s) = Done (p, m) \<Longrightarrow> registry_step s (s\<lparr>mem := m, pcs := (pcs s)(t := p)\<rparr>)"
| crash: "thread_access (pcs s t) (mem s) = Fault \<Longrightarrow> registry_step s (s\<lparr>pcs := (pcs s)(t := Crashed)\<rparr>)"

inductive_cases registry_stepE: "registry_step s s'"

section \<open>Who is in the registry\<close>

text \<open>A thread reads the list while it keeps a pointer into it; it writes the list from the access that decides what to
  write to the last store.\<close>

fun walks_at :: "pc \<Rightarrow> addr option" where
  "walks_at (Setting fd event flag (AtFd i)) = Some i"
| "walks_at (Setting fd event flag (AtNext i)) = Some i"
| "walks_at (Setting fd event flag (AtCheck i)) = Some i"
| "walks_at (Setting fd event flag (AtStore i)) = Some i"
| "walks_at (Setting fd event flag (AtClose i)) = Some i"
| "walks_at (Interrupting fd (AtFd i)) = Some i"
| "walks_at (Interrupting fd (AtNext i)) = Some i"
| "walks_at (Interrupting fd (AtCheck i)) = Some i"
| "walks_at (Interrupting fd (AtStore i)) = Some i"
| "walks_at (Interrupting fd (AtClose i)) = Some i"
| "walks_at _ = None"

fun fills :: "link_pc \<Rightarrow> bool" where
  "fills (KFlag i) = True"
| "fills KInterrupted = True"
| "fills KClosing = True"
| "fills KFd = True"
| "fills KReady = True"
| "fills _ = False"

fun writes_list :: "pc \<Rightarrow> bool" where
  "writes_list (Linking fd a p) = (p \<noteq> KStart \<and> p \<noteq> Linked \<and> \<not> fills p)"
| "writes_list (Unlinking a p) = (p \<notin> {UCase, Unlinked})"
| "writes_list _ = False"

definition apart :: "'w registry \<Rightarrow> 'w registry \<Rightarrow> bool" where
  \<comment> \<open>a step that takes a thread into the registry is taken when no other thread writes the list, and to write when no
    other thread is in it\<close>
  "apart s s' = (\<forall>t.
     (writes_list (pcs s' t) \<and> \<not> writes_list (pcs s t) \<longrightarrow>
        (\<forall>u. u \<noteq> t \<longrightarrow> \<not> writes_list (pcs s u) \<and> walks_at (pcs s u) = None))
     \<and> (walks_at (pcs s' t) \<noteq> None \<and> walks_at (pcs s t) = None \<longrightarrow> (\<forall>u. u \<noteq> t \<longrightarrow> \<not> writes_list (pcs s u))))"

definition empty_registry :: "'w mon \<Rightarrow> 'w registry" where
  "empty_registry m = \<lparr>mem = \<lparr>ev_heap = (\<lambda>_. None), master_index = None, ev_mon = m\<rparr>, pcs = (\<lambda>_. Outside)\<rparr>"

text \<open>The states that any interleaving leads to, and those of the interleavings whose steps are apart.\<close>

inductive races :: "'w registry \<Rightarrow> bool" where
  races_start: "races (empty_registry m)"
| races_step: "races s \<Longrightarrow> registry_step s s' \<Longrightarrow> races s'"

inductive takes_turns :: "'w registry \<Rightarrow> bool" where
  turns_start: "takes_turns (empty_registry m)"
| turns_step: "takes_turns s \<Longrightarrow> registry_step s s' \<Longrightarrow> apart s s' \<Longrightarrow> takes_turns s'"

section \<open>Links\<close>

definition links :: "event_info heap \<Rightarrow> addr \<Rightarrow> (addr option \<times> addr option) option" where
  "links h a = map_option (\<lambda>c. (nxt c, prv c)) (h a)"

definition upd_nxt :: "addr \<Rightarrow> addr option \<Rightarrow> event_info heap \<Rightarrow> event_info heap" where
  "upd_nxt a x h = h(a := map_option (\<lambda>c. c\<lparr>nxt := x\<rparr>) (h a))"

definition upd_prv :: "addr \<Rightarrow> addr option \<Rightarrow> event_info heap \<Rightarrow> event_info heap" where
  "upd_prv a x h = h(a := map_option (\<lambda>c. c\<lparr>prv := x\<rparr>) (h a))"

lemma links_upd:
  "links (upd_nxt a x h) b = (if b = a then map_option (\<lambda>l. (x, snd l)) (links h b) else links h b)"
  "links (upd_prv a x h) b = (if b = a then map_option (\<lambda>l. (fst l, x)) (links h b) else links h b)"
  by (auto simp: links_def upd_nxt_def upd_prv_def option.map_comp o_def)

lemma links_None: "links h a = None \<longleftrightarrow> h a = None"
  by (simp add: links_def)

lemma set_link:
  "h a = Some c \<Longrightarrow> set_nxt a x h = Done (upd_nxt a x h)" "h a = Some c \<Longrightarrow> set_prv a x h = Done (upd_prv a x h)"
  "h a = None \<Longrightarrow> set_nxt a x h = Fault" "h a = None \<Longrightarrow> set_prv a x h = Fault"
  by (simp_all add: set_nxt_def set_prv_def upd_nxt_def upd_prv_def deref_def)

lemma dom_upd [simp]: "dom (upd_nxt a x h) = dom h" "dom (upd_prv a x h) = dom h"
  by (auto simp: upd_nxt_def upd_prv_def dom_def)

lemma dseg_links:
  "(\<forall>a \<in> set as. links h a = links h' a) \<Longrightarrow> dseg h pr p as nx = dseg h' pr p as nx"
proof (induction as arbitrary: pr p)
  case (Cons a as)
  then have "links h a = links h' a" by simp
  then show ?case
    using Cons by (auto simp: links_def split: option.splits)
qed simp

lemma dlist_links: "(\<forall>a \<in> set as. links h a = links h' a) \<Longrightarrow> dlist h as = dlist h' as"
  using dseg_links [of as h h'] by (simp add: dlist_def)

section \<open>What a writer has still to write\<close>

fun completed :: "pc \<Rightarrow> event_info heap \<times> addr option \<Rightarrow> event_info heap \<times> addr option" where
  "completed (Linking fd a (KPrev i)) (h, m) = (upd_nxt a None (upd_prv a (Some i) h), m)"
| "completed (Linking fd a KNext) (h, m) = (upd_nxt a None h, m)"
| "completed (Linking fd a KMasterNext) (h, m) = (upd_prv a None (upd_nxt a None h), m)"
| "completed (Linking fd a KMasterPrev) (h, m) = (upd_prv a None h, m)"
| "completed (Unlinking a UBoth) (h, m) = (case links h a of
     Some (Some n, Some p) \<Rightarrow> (upd_prv n (Some p) (upd_nxt p (Some n) h), m) | _ \<Rightarrow> (h, m))"
| "completed (Unlinking a UBothPrev) (h, m) = (case links h a of
     Some (Some n, p) \<Rightarrow> (upd_prv n p h, m) | _ \<Rightarrow> (h, m))"
| "completed (Unlinking a UFirst) (h, m) = (case links h a of Some (Some n, p) \<Rightarrow> (upd_prv n None h, Some n) | _ \<Rightarrow> (h, m))"
| "completed (Unlinking a UFirstMaster) (h, m) = (case links h a of Some (n, p) \<Rightarrow> (h, n) | None \<Rightarrow> (h, m))"
| "completed (Unlinking a ULast) (h, m) = (case links h a of Some (n, Some p) \<Rightarrow> (upd_nxt p None h, m) | _ \<Rightarrow> (h, m))"
| "completed (Unlinking a UOnly) (h, m) = (h, None)"
| "completed _ (h, m) = (h, m)"

fun writer_ok :: "pc \<Rightarrow> event_info heap \<Rightarrow> addr list \<Rightarrow> bool" where
  "writer_ok (Linking fd a (KWalk i)) h as = (i \<in> set as)"
| "writer_ok (Linking fd a (KLink i)) h as = (i \<in> set as \<and> map_option fst (links h i) = Some None)"
| "writer_ok (Linking fd a KMaster) h as = (as = [])"
| "writer_ok (Linking fd a KMasterNext) h as = (as = [a])"
| "writer_ok (Linking fd a KMasterPrev) h as = (as = [a])"
| "writer_ok (Unlinking a UBoth) h as = (\<exists>n p. links h a = Some (Some n, Some p) \<and> n \<in> set as \<and> p \<in> set as)"
| "writer_ok (Unlinking a UBothPrev) h as = (\<exists>n p. links h a = Some (Some n, p) \<and> n \<in> set as)"
| "writer_ok (Unlinking a UFirst) h as = (\<exists>n p. links h a = Some (Some n, p) \<and> n \<in> set as)"
| "writer_ok (Unlinking a ULast) h as = (\<exists>n p. links h a = Some (n, Some p) \<and> p \<in> set as)"
| "writer_ok _ h as = True"

fun frame_of :: "pc \<Rightarrow> addr option" where
  "frame_of (Linking fd a p) = Some a"
| "frame_of (Looping a) = Some a"
| "frame_of (Unlinking a p) = Some a"
| "frame_of _ = None"

fun linked :: "pc \<Rightarrow> bool" where
  \<comment> \<open>the thread's structure is in the list that is there once the writer is done\<close>
  "linked (Linking fd a p) = (p = KNext \<or> p = KMasterNext \<or> p = KMasterPrev \<or> fills p \<or> p = Linked \<or> (\<exists>i. p = KPrev i))"
| "linked (Looping a) = True"
| "linked (Unlinking a p) = (p = UCase)"
| "linked _ = False"

definition list_ok :: "event_info heap \<times> addr option \<Rightarrow> addr list \<Rightarrow> bool" where
  "list_ok hm as = (dlist (fst hm) as \<and> snd hm = hdp as)"

lemma completed_cong:
  assumes "\<forall>b \<in> S. links h b = links h' b" and "frame_of p = Some a" and "a \<in> S"
  shows "\<forall>b \<in> S. links (fst (completed p (h, m))) b = links (fst (completed p (h', m))) b"
    and "snd (completed p (h, m)) = snd (completed p (h', m))"
proof -
  have a: "links h a = links h' a" using assms by simp
  show "\<forall>b \<in> S. links (fst (completed p (h, m))) b = links (fst (completed p (h', m))) b"
    using assms a by (cases "(p, (h, m))" rule: completed.cases) (auto simp: links_upd split: option.splits prod.splits)
  show "snd (completed p (h, m)) = snd (completed p (h', m))"
    using assms a by (cases "(p, (h, m))" rule: completed.cases) (auto split: option.splits)
qed

lemma writer_ok_cong:
  assumes "\<forall>b \<in> set as \<union> {a}. links h b = links h' b" and "frame_of p = Some a" and "writer_ok p h as"
  shows "writer_ok p h' as"
  using assms by (cases "(p, h, as)" rule: writer_ok.cases) auto

lemma list_ok_cong:
  assumes "list_ok (completed p (h, m)) as" and "\<forall>b \<in> set as \<union> {a}. links h b = links h' b" and "frame_of p = Some a"
  shows "list_ok (completed p (h', m)) as"
  using assms completed_cong [OF assms(2,3), of m] dlist_links [of as "fst (completed p (h, m))" "fst (completed p (h', m))"]
  by (simp add: list_ok_def)

section \<open>One thread writing\<close>

definition access_ok :: "addr \<Rightarrow> addr list \<Rightarrow> pc \<Rightarrow> 'w evsys \<Rightarrow> bool" where
  "access_ok a as p M = (\<exists>p' M' as'. thread_access p M = Done (p', M') \<and> frame_of p' = Some a \<and> dom (ev_heap M') = dom (ev_heap M)
     \<and> walks_at p' = None \<and> set as' - {a} = set as - {a} \<and> (a \<in> set as' \<longleftrightarrow> linked p')
     \<and> (writes_list p' \<longrightarrow> writer_ok p' (ev_heap M') as')
     \<and> list_ok (if writes_list p' then completed p' (ev_heap M', master_index M') else (ev_heap M', master_index M')) as')"

lemmas access_simps = lift_pc_def link_done_def goto_def store_def target_def deref_def set_link

lemma unlink_upd:
  assumes "dlist h (xs @ a # ys)"
  shows "links h a = Some (hdp ys, lastp None xs)"
    and "hdp ys = Some n \<Longrightarrow> lastp None xs = Some p \<Longrightarrow> dlist (upd_prv n (Some p) (upd_nxt p (Some n) h)) (xs @ ys)"
    and "hdp ys = Some n \<Longrightarrow> lastp None xs = None \<Longrightarrow> dlist (upd_prv n None h) (xs @ ys)"
    and "hdp ys = None \<Longrightarrow> lastp None xs = Some p \<Longrightarrow> dlist (upd_nxt p None h) (xs @ ys)"
proof -
  obtain h' where h': "unlink a h = Done h'" "dlist h' (xs @ ys)" using unlink_ok [OF assms] by blast
  obtain c where c: "h a = Some c" "prv c = lastp None xs" "nxt c = hdp ys" using dlist_prv_nxt [OF assms] .
  have mem: "\<exists>c. h b = Some c" if "b \<in> set xs \<union> set ys" for b using dlist_mem [OF assms] that by auto
  have n: "n \<in> set ys" if "hdp ys = Some n" for n using that by (auto simp: hdp_def split: if_splits)
  have p: "p \<in> set xs" if "lastp None xs = Some p" for p using that by (auto simp: lastp_def split: if_splits)
  show "links h a = Some (hdp ys, lastp None xs)" using c by (simp add: links_def)
  show "dlist (upd_prv n (Some p) (upd_nxt p (Some n) h)) (xs @ ys)" if l: "hdp ys = Some n" "lastp None xs = Some p"
  proof -
    obtain cn cp where "h n = Some cn" "h p = Some cp" using mem n [OF l(1)] p [OF l(2)] by blast
    moreover then obtain cn' where "upd_nxt p (Some n) h n = Some cn'" by (cases "n = p") (auto simp: upd_nxt_def)
    ultimately show ?thesis using h' c l by (simp add: unlink_def set_link)
  qed
  show "dlist (upd_prv n None h) (xs @ ys)" if l: "hdp ys = Some n" "lastp None xs = None"
  proof -
    obtain cn where "h n = Some cn" using mem n [OF l(1)] by blast
    then show ?thesis using h' c l by (simp add: unlink_def set_link)
  qed
  show "dlist (upd_nxt p None h) (xs @ ys)" if l: "hdp ys = None" "lastp None xs = Some p"
  proof -
    obtain cp where "h p = Some cp" using mem p [OF l(2)] by blast
    then show ?thesis using h' c l by (simp add: unlink_def set_link)
  qed
qed

lemma list_ok_split: "list_ok (h, m) (xs @ a # ys) \<Longrightarrow> dlist h (xs @ a # ys) \<and> m = hdp (xs @ a # ys) \<and> a \<notin> set (xs @ ys)"
  by (auto simp: list_ok_def dlist_def)

lemma enter_unlink:
  assumes "list_ok (ev_heap M, master_index M) as" and "a \<in> set as"
  shows "access_ok a as (Unlinking a UCase) M"
proof -
  obtain xs ys where as: "as = xs @ a # ys" using assms(2) by (meson split_list)
  have d: "dlist (ev_heap M) (xs @ a # ys)" "master_index M = hdp (xs @ a # ys)" "a \<notin> set (xs @ ys)"
    using list_ok_split assms(1) unfolding as by blast+
  note l = unlink_upd [OF d(1)]
  obtain c where c: "ev_heap M a = Some c" "nxt c = hdp ys" "prv c = lastp None xs"
    using l(1) by (auto simp: links_def)
  define p' where "p' = (case (hdp ys, lastp None xs) of
      (Some n, Some p) \<Rightarrow> UBoth | (Some n, None) \<Rightarrow> UFirst | (None, Some p) \<Rightarrow> ULast | (None, None) \<Rightarrow> UOnly)"
  have n: "n \<in> set ys \<and> hdp (xs @ ys) = (if xs = [] then Some n else hdp xs)" if "hdp ys = Some n" for n
    using that by (cases ys) (auto simp: hdp_def split: if_splits)
  have p: "p \<in> set xs \<and> xs \<noteq> []" if "lastp None xs = Some p" for p using that by (auto simp: lastp_def split: if_splits)
  have none: "xs = []" if "lastp None xs = None" using that by (auto simp: lastp_def split: if_splits)
  have none': "ys = []" if "hdp ys = None" using that by (auto simp: hdp_def split: if_splits)
  have m: "master_index M = (if xs = [] then Some a else hdp xs)" using d(2) by simp
  have "writer_ok (Unlinking a p') (ev_heap M) (xs @ ys)"
    using l(1) n p none none' by (auto simp: p'_def split: option.splits)
  moreover have "list_ok (completed (Unlinking a p') (ev_heap M, master_index M)) (xs @ ys)"
    using l n p none none' m
    by (auto simp: p'_def list_ok_def split: option.splits) (auto simp: dlist_def hdp_def)
  moreover have "thread_access (Unlinking a UCase) M = Done (Unlinking a p', M)"
    using c by (simp add: access_simps p'_def split: option.splits)
  moreover have "writes_list (Unlinking a p')" "\<not> linked (Unlinking a p')"
    by (auto simp: p'_def split: option.splits)
  ultimately show ?thesis
    unfolding access_ok_def using d(3) as by (intro exI [of _ "Unlinking a p'"] exI [of _ M] exI [of _ "xs @ ys"]) auto
qed

lemma enter_link:
  assumes "list_ok (ev_heap M, master_index M) as" and "a \<notin> set as"
  shows "access_ok a as (Linking fd a KStart) M"
proof (cases as)
  case Nil
  then show ?thesis
    unfolding access_ok_def using assms
    by (intro exI [of _ "Linking fd a KMaster"] exI [of _ M] exI [of _ as]) (auto simp: access_simps list_ok_def)
next
  case (Cons i as')
  then show ?thesis
    unfolding access_ok_def using assms
    by (intro exI [of _ "Linking fd a (KWalk i)"] exI [of _ M] exI [of _ as]) (auto simp: access_simps list_ok_def)
qed

lemma append_upd:
  assumes "dlist h as" and "i \<in> set as" and "map_option fst (links h i) = Some None" and "a \<notin> set as" and "h a \<noteq> None"
  shows "dlist (upd_nxt a None (upd_prv a (Some i) (upd_nxt i (Some a) h))) (as @ [a])"
proof -
  obtain xs ys where as: "as = xs @ i # ys" using assms(2) by (meson split_list)
  obtain ci where ci: "h i = Some ci" "nxt ci = hdp ys" using dlist_prv_nxt assms(1) unfolding as by metis
  then have "ys = []" using assms(3) by (auto simp: links_def hdp_def split: if_splits)
  obtain ca where ca: "h a = Some ca" using assms(5) by blast
  have ai: "a \<noteq> i" using assms(2,4) by auto
  have "dlist (h(a \<mapsto> \<lparr>val = val ca, nxt = None, prv = Some i\<rparr>, i \<mapsto> ci\<lparr>nxt := Some a\<rparr>)) (xs @ [i, a])"
    using append_ok [of h xs i ci a "val ca"] assms(1,4) ci as \<open>ys = []\<close> by simp
  also have "h(a \<mapsto> \<lparr>val = val ca, nxt = None, prv = Some i\<rparr>, i \<mapsto> ci\<lparr>nxt := Some a\<rparr>)
      = upd_nxt a None (upd_prv a (Some i) (upd_nxt i (Some a) h))"
    using ca ci ai by (auto simp: upd_nxt_def upd_prv_def)
  finally show ?thesis using as \<open>ys = []\<close> by simp
qed

lemma list_ok_next:
  assumes "list_ok (h, m) as" and "i \<in> set as" and "h i = Some c" and "nxt c = Some n"
  shows "n \<in> set as"
proof -
  obtain xs ys where as: "as = xs @ i # ys" using assms(2) by (meson split_list)
  then have "nxt c = hdp ys" using dlist_prv_nxt assms(1,3) unfolding list_ok_def by (metis fst_conv option.inject)
  then show ?thesis using assms(4) as by (auto simp: hdp_def split: if_splits)
qed

lemma dlist_single: "dlist h [a] \<longleftrightarrow> links h a = Some (None, None)"
  by (auto simp: dlist_def links_def split: option.splits)

lemma link_access_ok:
  assumes ok: "list_ok (completed (Linking fd a p) (ev_heap M, master_index M)) as" "writer_ok (Linking fd a p) (ev_heap M) as"
    and w: "writes_list (Linking fd a p)" and a: "ev_heap M a = Some ca" "a \<in> set as \<longleftrightarrow> linked (Linking fd a p)"
  shows "access_ok a as (Linking fd a p) M"
proof (cases p)
  case (KWalk i)
  then have i: "i \<in> set as" "list_ok (ev_heap M, master_index M) as" using ok by auto
  obtain c where c: "ev_heap M i = Some c" using i dlist_mem by (fastforce simp: list_ok_def)
  show ?thesis
  proof (cases "nxt c")
    case None
    then show ?thesis
      unfolding access_ok_def using KWalk ok c a
      by (intro exI [of _ "Linking fd a (KLink i)"] exI [of _ M] exI [of _ as]) (auto simp: access_simps links_def)
  next
    case (Some n)
    then show ?thesis
      unfolding access_ok_def using KWalk ok c a list_ok_next [OF i(2,1) c Some]
      by (intro exI [of _ "Linking fd a (KWalk n)"] exI [of _ M] exI [of _ as]) (auto simp: access_simps)
  qed
next
  case (KLink i)
  then have i: "i \<in> set as" "list_ok (ev_heap M, master_index M) as" "map_option fst (links (ev_heap M) i) = Some None"
    using ok by auto
  obtain c where c: "ev_heap M i = Some c" using i dlist_mem by (fastforce simp: list_ok_def)
  have "dlist (upd_nxt a None (upd_prv a (Some i) (upd_nxt i (Some a) (ev_heap M)))) (as @ [a])"
    using append_upd [of "ev_heap M" as i a] i a KLink by (simp add: list_ok_def)
  moreover have "hdp (as @ [a]) = hdp as" using i(1) by (auto simp: hdp_def)
  ultimately show ?thesis
    unfolding access_ok_def using KLink i c a
    by (intro exI [of _ "Linking fd a (KPrev i)"] exI [of _ "M\<lparr>ev_heap := upd_nxt i (Some a) (ev_heap M)\<rparr>"]
          exI [of _ "as @ [a]"]) (auto simp: access_simps list_ok_def)
next
  case (KPrev i)
  then show ?thesis
    unfolding access_ok_def using ok a
    by (intro exI [of _ "Linking fd a KNext"] exI [of _ "M\<lparr>ev_heap := upd_prv a (Some i) (ev_heap M)\<rparr>"] exI [of _ as])
       (auto simp: access_simps)
next
  case KNext
  then show ?thesis
    unfolding access_ok_def using ok a
    by (intro exI [of _ "Linking fd a (KFlag 0)"] exI [of _ "M\<lparr>ev_heap := upd_nxt a None (ev_heap M)\<rparr>"] exI [of _ as])
       (auto simp: access_simps)
next
  case KMaster
  then have "list_ok (upd_prv a None (upd_nxt a None (ev_heap M)), Some a) [a]"
    using a by (auto simp: list_ok_def dlist_single links_def upd_nxt_def upd_prv_def)
  then show ?thesis
    unfolding access_ok_def using KMaster ok a
    by (intro exI [of _ "Linking fd a KMasterNext"] exI [of _ "M\<lparr>master_index := Some a\<rparr>"] exI [of _ "[a]"])
       (auto simp: access_simps)
next
  case KMasterNext
  then have "master_index M = Some a" using ok by (simp add: list_ok_def)
  then show ?thesis
    unfolding access_ok_def using KMasterNext ok a
    by (intro exI [of _ "Linking fd a KMasterPrev"] exI [of _ "M\<lparr>ev_heap := upd_nxt a None (ev_heap M)\<rparr>"] exI [of _ as])
       (auto simp: access_simps)
next
  case KMasterPrev
  then have "master_index M = Some a" using ok by (simp add: list_ok_def)
  then show ?thesis
    unfolding access_ok_def using KMasterPrev ok a
    by (intro exI [of _ "Linking fd a (KFlag 0)"] exI [of _ "M\<lparr>ev_heap := upd_prv a None (ev_heap M)\<rparr>"] exI [of _ as])
       (auto simp: access_simps)
qed (use w in simp_all)

lemma unlink_access_ok:
  assumes ok: "list_ok (completed (Unlinking a p) (ev_heap M, master_index M)) as" "writer_ok (Unlinking a p) (ev_heap M) as"
    and w: "writes_list (Unlinking a p)" and a: "ev_heap M a = Some ca" "a \<notin> set as"
  shows "access_ok a as (Unlinking a p) M"
proof -
  have mem: "\<exists>c. ev_heap M n = Some c" if "n \<in> set as" for n
  proof -
    have "dom (fst (completed (Unlinking a p) (ev_heap M, master_index M))) = dom (ev_heap M)"
      by (cases p) (auto split: option.splits prod.splits simp del: domIff)
    moreover have "n \<in> dom (fst (completed (Unlinking a p) (ev_heap M, master_index M)))"
      using ok(1) that dlist_mem by (fastforce simp: list_ok_def)
    ultimately show ?thesis by auto
  qed
  show ?thesis
  proof (cases p)
    case UBoth
    then obtain n q where l: "links (ev_heap M) a = Some (Some n, Some q)" "n \<in> set as" "q \<in> set as" using ok(2) by auto
    obtain cq where cq: "ev_heap M q = Some cq" using mem l by blast
    have "links (upd_nxt q (Some n) (ev_heap M)) a = Some (Some n, Some q)" using l a by (auto simp: links_upd)
    then show ?thesis
      unfolding access_ok_def using UBoth ok l cq a
      by (intro exI [of _ "Unlinking a UBothPrev"] exI [of _ "M\<lparr>ev_heap := upd_nxt q (Some n) (ev_heap M)\<rparr>"] exI [of _ as])
         (auto simp: access_simps links_def)
  next
    case UBothPrev
    then obtain n q where l: "links (ev_heap M) a = Some (Some n, q)" "n \<in> set as" using ok(2) by auto
    obtain cn where "ev_heap M n = Some cn" using mem l by blast
    then show ?thesis
      unfolding access_ok_def using UBothPrev ok l a
      by (intro exI [of _ "Unlinking a Unlinked"] exI [of _ "M\<lparr>ev_heap := upd_prv n q (ev_heap M)\<rparr>"] exI [of _ as])
         (auto simp: access_simps links_def)
  next
    case UFirst
    then obtain n q where l: "links (ev_heap M) a = Some (Some n, q)" "n \<in> set as" using ok(2) by auto
    obtain cn where cn: "ev_heap M n = Some cn" using mem l by blast
    have "links (upd_prv n None (ev_heap M)) a = Some (Some n, q)" using l a by (auto simp: links_upd)
    then show ?thesis
      unfolding access_ok_def using UFirst ok l cn a
      by (intro exI [of _ "Unlinking a UFirstMaster"] exI [of _ "M\<lparr>ev_heap := upd_prv n None (ev_heap M)\<rparr>"] exI [of _ as])
         (auto simp: access_simps links_def)
  next
    case UFirstMaster
    then show ?thesis
      unfolding access_ok_def using ok a
      by (intro exI [of _ "Unlinking a Unlinked"] exI [of _ "M\<lparr>master_index := nxt ca\<rparr>"] exI [of _ as])
         (auto simp: access_simps links_def)
  next
    case ULast
    then obtain n q where l: "links (ev_heap M) a = Some (n, Some q)" "q \<in> set as" using ok(2) by auto
    obtain cq where "ev_heap M q = Some cq" using mem l by blast
    then show ?thesis
      unfolding access_ok_def using ULast ok l a
      by (intro exI [of _ "Unlinking a Unlinked"] exI [of _ "M\<lparr>ev_heap := upd_nxt q None (ev_heap M)\<rparr>"] exI [of _ as])
         (auto simp: access_simps links_def)
  next
    case UOnly
    then show ?thesis
      unfolding access_ok_def using ok a
      by (intro exI [of _ "Unlinking a Unlinked"] exI [of _ "M\<lparr>master_index := None\<rparr>"] exI [of _ as])
         (auto simp: access_simps)
  qed (use w in simp_all)
qed

section \<open>All threads\<close>

definition registry_inv :: "'w registry \<Rightarrow> addr list \<Rightarrow> bool" where
  "registry_inv s as = (
     (\<forall>t a. frame_of (pcs s t) = Some a \<longrightarrow> ev_heap (mem s) a \<noteq> None)
   \<and> (\<forall>t u a. frame_of (pcs s t) = Some a \<longrightarrow> frame_of (pcs s u) = Some a \<longrightarrow> t = u)
   \<and> (\<forall>a. a \<in> set as \<longleftrightarrow> (\<exists>t. frame_of (pcs s t) = Some a \<and> linked (pcs s t)))
   \<and> (\<forall>t i. walks_at (pcs s t) = Some i \<longrightarrow> i \<in> set as)
   \<and> (\<forall>t u. u \<noteq> t \<longrightarrow> writes_list (pcs s t) \<longrightarrow> \<not> writes_list (pcs s u) \<and> walks_at (pcs s u) = None)
   \<and> (\<forall>t. writes_list (pcs s t) \<longrightarrow> writer_ok (pcs s t) (ev_heap (mem s)) as
        \<and> list_ok (completed (pcs s t) (ev_heap (mem s), master_index (mem s))) as)
   \<and> ((\<forall>t. \<not> writes_list (pcs s t)) \<longrightarrow> list_ok (ev_heap (mem s), master_index (mem s)) as)
   \<and> (\<forall>t. pcs s t \<noteq> Crashed) \<and> (\<forall>t fd event flag p. pcs s t = Setting fd event flag p \<longrightarrow> event < 11))"

lemma writes_list_frame: "writes_list p \<Longrightarrow> \<exists>a. frame_of p = Some a"
  by (cases p) auto

text \<open>A step that leaves the links of all structures in the list alone, by a thread that does not write the list.\<close>

lemma inv_quiet:
  assumes inv: "registry_inv s as" and s': "mem s' = M" "pcs s' = (pcs s)(t := p)"
    and links: "\<And>b. links (ev_heap M) b = links (ev_heap (mem s)) b" "master_index M = master_index (mem s)"
    and p: "frame_of p = frame_of (pcs s t)" "linked p = linked (pcs s t)" "\<not> writes_list p" "\<not> writes_list (pcs s t)" "p \<noteq> Crashed"
      "\<And>i. walks_at p = Some i \<Longrightarrow> i \<in> set as \<and> (\<forall>u. u \<noteq> t \<longrightarrow> \<not> writes_list (pcs s u))"
      "\<And>fd event flag q. p = Setting fd event flag q \<Longrightarrow> event < 11"
  shows "registry_inv s' as"
proof -
  have dom: "ev_heap M b = None \<longleftrightarrow> ev_heap (mem s) b = None" for b using links(1) [of b] by (metis links_None)
  have W: "writer_ok (pcs s u) (ev_heap M) as" "list_ok (completed (pcs s u) (ev_heap M, master_index M)) as"
    if wr: "writes_list (pcs s u)" for u
  proof -
    obtain a where a: "frame_of (pcs s u) = Some a" using writes_list_frame wr by blast
    have w: "writer_ok (pcs s u) (ev_heap (mem s)) as"
        "list_ok (completed (pcs s u) (ev_heap (mem s), master_index (mem s))) as"
      using inv wr by (simp_all add: registry_inv_def)
    have c: "\<forall>b \<in> set as \<union> {a}. links (ev_heap (mem s)) b = links (ev_heap M) b" using links(1) by simp
    show "writer_ok (pcs s u) (ev_heap M) as" by (rule writer_ok_cong [OF c a w(1)])
    show "list_ok (completed (pcs s u) (ev_heap M, master_index M)) as"
      using list_ok_cong [OF w(2) c a] links(2) by simp
  qed
  have L: "list_ok (ev_heap M, master_index M) as" if "\<forall>u. \<not> writes_list (pcs s u)"
    using inv that links dlist_links [of as "ev_heap M" "ev_heap (mem s)"] by (simp add: registry_inv_def list_ok_def)
  have F: "frame_of (pcs s' u) = frame_of (pcs s u)" "linked (pcs s' u) = linked (pcs s u)"
      "writes_list (pcs s' u) = writes_list (pcs s u)" "u \<noteq> t \<Longrightarrow> pcs s' u = pcs s u" "pcs s' t = p" "mem s' = M" for u
    using s' p by auto
  have walk: "i \<in> set as \<and> (\<forall>v. v \<noteq> u \<longrightarrow> \<not> writes_list (pcs s v))" if i: "walks_at (pcs s' u) = Some i" for u i
  proof (cases "u = t")
    case True
    then show ?thesis using p(6) i F(5) by simp
  next
    case False
    then have "walks_at (pcs s u) = Some i" using i F(4) by simp
    then show ?thesis using inv unfolding registry_inv_def by (metis option.discI)
  qed
  have U: "writer_ok (pcs s' u) (ev_heap M) as \<and> list_ok (completed (pcs s' u) (ev_heap M, master_index M)) as"
    if "writes_list (pcs s' u)" for u
    using W [of u] that F(3-5) p(3) by (cases "u = t") simp_all
  have alive: "pcs s' u \<noteq> Crashed \<and> (\<forall>fd event flag q. pcs s' u = Setting fd event flag q \<longrightarrow> event < 11)" for u
    using inv p(5,7) F(4,5) by (cases "u = t") (auto simp: registry_inv_def)
  have X: "\<not> writes_list (pcs s' u) \<and> walks_at (pcs s' u) = None" if x: "u \<noteq> v" "writes_list (pcs s' v)" for u v
  proof -
    have "writes_list (pcs s v)" using x F(3) by simp
    then have "\<not> writes_list (pcs s u)" using inv x(1) unfolding registry_inv_def by blast
    moreover have "walks_at (pcs s' u) = None" using walk x F(3) by (metis not_None_eq)
    ultimately show ?thesis using F(3) by simp
  qed
  have A: "\<forall>t a. frame_of (pcs s t) = Some a \<longrightarrow> ev_heap (mem s) a \<noteq> None"
      "\<forall>t u a. frame_of (pcs s t) = Some a \<longrightarrow> frame_of (pcs s u) = Some a \<longrightarrow> t = u"
      "\<forall>a. a \<in> set as \<longleftrightarrow> (\<exists>t. frame_of (pcs s t) = Some a \<and> linked (pcs s t))"
    using inv by (simp_all add: registry_inv_def)
  have w: "\<forall>t i. walks_at (pcs s' t) = Some i \<longrightarrow> i \<in> set as" using walk by blast
  have x: "\<forall>t u. u \<noteq> t \<longrightarrow> writes_list (pcs s' t) \<longrightarrow> \<not> writes_list (pcs s' u) \<and> walks_at (pcs s' u) = None"
    using X by blast
  have a1: "\<forall>t a. frame_of (pcs s t) = Some a \<longrightarrow> ev_heap M a \<noteq> None" using A(1) dom by simp
  have l: "(\<forall>t. \<not> writes_list (pcs s' t)) \<longrightarrow> list_ok (ev_heap M, master_index M) as" using L F(3) by simp
  have y: "\<forall>t. pcs s' t \<noteq> Crashed" "\<forall>t fd event flag q. pcs s' t = Setting fd event flag q \<longrightarrow> event < 11"
    using alive by blast+
  have u: "\<forall>t. writes_list (pcs s' t) \<longrightarrow> writer_ok (pcs s' t) (ev_heap M) as
      \<and> list_ok (completed (pcs s' t) (ev_heap M, master_index M)) as" using U by blast
  show ?thesis
    unfolding registry_inv_def F(6) F(1,2) by (intro conjI a1 A(2,3) w x u l y)
qed

text \<open>A step of a thread that writes the list, or begins to.\<close>

lemma inv_writer:
  assumes inv: "registry_inv s as" and acc: "access_ok a as (pcs s t) (mem s)" and a: "frame_of (pcs s t) = Some a"
    and alone: "\<forall>u. u \<noteq> t \<longrightarrow> \<not> writes_list (pcs s u) \<and> walks_at (pcs s u) = None"
  shows "\<exists>p M as'. thread_access (pcs s t) (mem s) = Done (p, M) \<and> registry_inv (s\<lparr>mem := M, pcs := (pcs s)(t := p)\<rparr>) as'"
proof -
  obtain p M as' where p: "thread_access (pcs s t) (mem s) = Done (p, M)" "frame_of p = Some a"
      "dom (ev_heap M) = dom (ev_heap (mem s))" "walks_at p = None" "set as' - {a} = set as - {a}"
      "a \<in> set as' \<longleftrightarrow> linked p" "writes_list p \<longrightarrow> writer_ok p (ev_heap M) as'"
      "list_ok (if writes_list p then completed p (ev_heap M, master_index M) else (ev_heap M, master_index M)) as'"
    using acc by (auto simp: access_ok_def)
  have dom: "ev_heap M b = None \<longleftrightarrow> ev_heap (mem s) b = None" for b using p(3) by (metis domIff)
  have mem: "b \<in> set as' \<longleftrightarrow> (\<exists>u. frame_of (((pcs s)(t := p)) u) = Some b \<and> linked (((pcs s)(t := p)) u))" for b
  proof (cases "b = a")
    case True
    have "u = t" if "frame_of (pcs s u) = Some a" for u using inv that a unfolding registry_inv_def by blast
    then show ?thesis using True p(2,6) by auto
  next
    case False
    then have "b \<in> set as' \<longleftrightarrow> b \<in> set as" using p(5) by blast
    also have "\<dots> \<longleftrightarrow> (\<exists>u. frame_of (pcs s u) = Some b \<and> linked (pcs s u))" using inv by (simp add: registry_inv_def)
    also have "\<dots> \<longleftrightarrow> (\<exists>u. u \<noteq> t \<and> frame_of (pcs s u) = Some b \<and> linked (pcs s u))" using False a by (metis option.inject)
    also have "\<dots> \<longleftrightarrow> (\<exists>u. frame_of (((pcs s)(t := p)) u) = Some b \<and> linked (((pcs s)(t := p)) u))"
      using False p(2) by (metis fun_upd_apply option.inject)
    finally show ?thesis .
  qed
  have distinct: "t' = u" if "frame_of (((pcs s)(t := p)) t') = Some b" "frame_of (((pcs s)(t := p)) u) = Some b" for t' u b
  proof -
    have "frame_of (((pcs s)(t := p)) v) = frame_of (pcs s v)" for v using a p(2) by simp
    then show ?thesis using inv that unfolding registry_inv_def by metis
  qed
  let ?pcs = "(pcs s)(t := p)"
  have nw: "\<not> writes_list (?pcs u) \<and> walks_at (?pcs u) = None" if "u \<noteq> t" for u using alone that by simp
  have w: "walks_at (?pcs u) = None" for u using nw p(4) by (cases "u = t") simp_all
  have x: "\<forall>v u. u \<noteq> v \<longrightarrow> writes_list (?pcs v) \<longrightarrow> \<not> writes_list (?pcs u) \<and> walks_at (?pcs u) = None"
    using nw w by metis
  have a1: "\<forall>u b. frame_of (?pcs u) = Some b \<longrightarrow> ev_heap M b \<noteq> None"
    using inv p(2) a dom unfolding registry_inv_def by (metis fun_upd_apply)
  have l: "(\<forall>u. \<not> writes_list (?pcs u)) \<longrightarrow> list_ok (ev_heap M, master_index M) as'"
    using p(8) by (auto dest: spec [of _ t])
  have u: "\<forall>u. writes_list (?pcs u) \<longrightarrow> writer_ok (?pcs u) (ev_heap M) as'
      \<and> list_ok (completed (?pcs u) (ev_heap M, master_index M)) as'"
  proof (intro allI impI)
    fix u assume wu: "writes_list (?pcs u)"
    then have "u = t" using nw by blast
    then show "writer_ok (?pcs u) (ev_heap M) as' \<and> list_ok (completed (?pcs u) (ev_heap M, master_index M)) as'"
      using p(7,8) wu by simp
  qed
  have pc: "p \<noteq> Crashed" "\<And>fd event flag q. p \<noteq> Setting fd event flag q" using p(2) by auto
  then have y: "\<forall>u. ?pcs u \<noteq> Crashed" "\<forall>u fd event flag q. ?pcs u = Setting fd event flag q \<longrightarrow> event < 11"
    using inv by (auto simp: registry_inv_def)
  have d: "\<forall>t' u b. frame_of (?pcs t') = Some b \<longrightarrow> frame_of (?pcs u) = Some b \<longrightarrow> t' = u" using distinct by blast
  have m: "\<forall>b. b \<in> set as' \<longleftrightarrow> (\<exists>u. frame_of (?pcs u) = Some b \<and> linked (?pcs u))" by (intro allI mem)
  have w': "\<forall>u i. walks_at (?pcs u) = Some i \<longrightarrow> i \<in> set as'" using w by simp
  have S: "mem (s\<lparr>mem := M, pcs := ?pcs\<rparr>) = M" "pcs (s\<lparr>mem := M, pcs := ?pcs\<rparr>) = ?pcs" by simp_all
  have "registry_inv (s\<lparr>mem := M, pcs := ?pcs\<rparr>) as'"
    unfolding registry_inv_def S by (intro conjI a1 d m w' x u l y)
  then show ?thesis using p(1) by blast
qed

text \<open>A frame that comes or goes while its structure is not in the list.\<close>

lemma inv_frame:
  assumes inv: "registry_inv s as" and S: "mem s' = (mem s)\<lparr>ev_heap := (ev_heap (mem s))(a := x)\<rparr>" "pcs s' = (pcs s)(t := p)"
    and a: "a \<notin> set as" "\<And>u. u \<noteq> t \<Longrightarrow> frame_of (pcs s u) \<noteq> Some a"
    and p: "frame_of p = None \<or> frame_of p = Some a \<and> x \<noteq> None" "\<not> linked p" "\<not> linked (pcs s t)" "\<not> writes_list p"
      "\<not> writes_list (pcs s t)" "walks_at p = None" "p \<noteq> Crashed" "\<And>fd event flag q. p \<noteq> Setting fd event flag q"
  shows "registry_inv s' as"
proof -
  let ?h = "(ev_heap (mem s))(a := x)" and ?pcs = "(pcs s)(t := p)"
  have a1: "\<forall>u b. frame_of (?pcs u) = Some b \<longrightarrow> ?h b \<noteq> None"
    using inv p(1) a(2) unfolding registry_inv_def by (metis fun_upd_apply option.distinct(1) option.inject)
  have d: "\<forall>u v b. frame_of (?pcs u) = Some b \<longrightarrow> frame_of (?pcs v) = Some b \<longrightarrow> u = v"
    using inv p(1) a(2) unfolding registry_inv_def by (metis fun_upd_apply option.distinct(1))
  have m: "\<forall>b. b \<in> set as \<longleftrightarrow> (\<exists>u. frame_of (?pcs u) = Some b \<and> linked (?pcs u))"
  proof -
    have "frame_of (?pcs u) = Some b \<and> linked (?pcs u) \<longleftrightarrow> frame_of (pcs s u) = Some b \<and> linked (pcs s u)" for u b
      using p(2,3) by (cases "u = t") simp_all
    then show ?thesis using inv unfolding registry_inv_def by simp
  qed
  have w: "\<forall>u i. walks_at (?pcs u) = Some i \<longrightarrow> i \<in> set as"
    using inv p(6) unfolding registry_inv_def by (metis fun_upd_apply option.distinct(1))
  have x: "\<forall>v u. u \<noteq> v \<longrightarrow> writes_list (?pcs v) \<longrightarrow> \<not> writes_list (?pcs u) \<and> walks_at (?pcs u) = None"
    using inv p(4,6) unfolding registry_inv_def by (metis fun_upd_apply)
  have agree: "\<forall>b \<in> set as \<union> {c}. links (ev_heap (mem s)) b = links ?h b" if "c \<noteq> a" for c
    using a(1) that by (auto simp: links_def)
  have u: "\<forall>u. writes_list (?pcs u) \<longrightarrow> writer_ok (?pcs u) ?h as \<and> list_ok (completed (?pcs u) (?h, master_index (mem s))) as"
  proof (intro allI impI)
    fix u assume wu: "writes_list (?pcs u)"
    then have ut: "u \<noteq> t" and wu: "writes_list (pcs s u)" using p(4) by (auto split: if_splits)
    obtain c where c: "frame_of (pcs s u) = Some c" using writes_list_frame wu by blast
    then have "c \<noteq> a" using a(2) ut by blast
    then show "writer_ok (?pcs u) ?h as \<and> list_ok (completed (?pcs u) (?h, master_index (mem s))) as"
      using writer_ok_cong [OF agree c] list_ok_cong [OF _ agree c] inv wu ut by (simp add: registry_inv_def)
  qed
  have l: "(\<forall>u. \<not> writes_list (?pcs u)) \<longrightarrow> list_ok (?h, master_index (mem s)) as"
  proof
    assume n: "\<forall>u. \<not> writes_list (?pcs u)"
    have "\<not> writes_list (pcs s u)" for u using n [rule_format, of u] p(5) by (cases "u = t") simp_all
    then show "list_ok (?h, master_index (mem s)) as" using inv a(1) by (simp add: registry_inv_def list_ok_def)
  qed
  have y: "\<forall>u. ?pcs u \<noteq> Crashed" "\<forall>u fd event flag q. ?pcs u = Setting fd event flag q \<longrightarrow> event < 11"
    using inv p(7,8) by (auto simp: registry_inv_def)
  have M: "ev_heap (mem s') = ?h" "master_index (mem s') = master_index (mem s)" using S by simp_all
  show ?thesis
    unfolding registry_inv_def M S(2) by (intro conjI a1 d m w x u l y)
qed

section \<open>One thread walking\<close>

lemma set_val_links: "set_val i v h = Done h' \<Longrightarrow> links h' b = links h b"
  by (auto simp: set_val_def deref_def links_def split: option.splits)

lemma flag_keeps_links:
  "set_flag_access fd event flag q M = Done (q', M') \<Longrightarrow>
     links (ev_heap M') b = links (ev_heap M) b \<and> master_index M' = master_index M"
  by (cases q) (auto simp: goto_def store_def bind_Done set_val_links split: if_splits option.splits)

lemma interrupt_keeps_links:
  "interrupt_access fd q M = Done (q', M') \<Longrightarrow>
     links (ev_heap M') b = links (ev_heap M) b \<and> master_index M' = master_index M"
  by (cases q) (auto simp: goto_def store_def bind_Done set_val_links split: if_splits option.splits)

lemma list_ok_mem: "list_ok (h, m) as \<Longrightarrow> i \<in> set as \<Longrightarrow> \<exists>c. h i = Some c"
  using dlist_mem by (fastforce simp: list_ok_def)

lemma list_ok_master: "list_ok (h, Some i) as \<Longrightarrow> i \<in> set as"
  by (auto simp: list_ok_def hdp_def split: if_splits)

lemma flag_walk:
  assumes "list_ok (ev_heap M, master_index M) as" and "\<And>i. walks_at (Setting fd event flag q) = Some i \<Longrightarrow> i \<in> set as"
  shows "set_flag_access fd event flag q M = Done (q', M') \<Longrightarrow> walks_at (set_flag_pc fd event flag q') = Some i \<Longrightarrow> i \<in> set as"
    and "event < 11 \<Longrightarrow> set_flag_access fd event flag q M \<noteq> Fault"
proof -
  show "i \<in> set as" if "set_flag_access fd event flag q M = Done (q', M')" "walks_at (set_flag_pc fd event flag q') = Some i"
    using that assms list_ok_next [OF assms(1)] list_ok_master [of "ev_heap M" i as]
    by (cases q) (auto simp: goto_def bind_Done set_flag_pc_def deref_def split: if_splits option.splits)
  show "set_flag_access fd event flag q M \<noteq> Fault" if "event < 11"
    using that assms(2) list_ok_mem [OF assms(1)]
    by (cases q) (fastforce simp: goto_def store_def set_val_def)+
qed

lemma interrupt_walk:
  assumes "list_ok (ev_heap M, master_index M) as" and "\<And>i. walks_at (Interrupting fd q) = Some i \<Longrightarrow> i \<in> set as"
  shows "interrupt_access fd q M = Done (q', M') \<Longrightarrow> walks_at (interrupt_pc fd q') = Some i \<Longrightarrow> i \<in> set as"
    and "interrupt_access fd q M \<noteq> Fault"
proof -
  show "i \<in> set as" if "interrupt_access fd q M = Done (q', M')" "walks_at (interrupt_pc fd q') = Some i"
    using that assms list_ok_next [OF assms(1)] list_ok_master [of "ev_heap M" i as]
    by (cases q) (auto simp: goto_def bind_Done interrupt_pc_def deref_def split: if_splits option.splits)
  show "interrupt_access fd q M \<noteq> Fault"
    using assms(2) list_ok_mem [OF assms(1)]
    by (cases q) (fastforce simp: goto_def store_def set_val_def)+
qed

section \<open>Steps that are apart keep the registry whole\<close>

lemma inv_walks: "registry_inv s as \<Longrightarrow> walks_at (pcs s t) = Some i \<Longrightarrow> i \<in> set as"
  unfolding registry_inv_def by blast

lemma inv_event: "registry_inv s as \<Longrightarrow> pcs s t = Setting fd event flag p \<Longrightarrow> event < 11"
  unfolding registry_inv_def by blast

lemma apart_walk:
  assumes "registry_inv s as" and "apart s s'" and "\<not> writes_list (pcs s t)" and "walks_at (pcs s' t) = Some i"
  shows "\<forall>u. \<not> writes_list (pcs s u)"
proof -
  have "\<not> writes_list (pcs s u)" if "u \<noteq> t" for u
  proof (cases "walks_at (pcs s t)")
    case None
    then show ?thesis using assms(2,4) that unfolding apart_def by (metis option.distinct(1))
  next
    case (Some j)
    then show ?thesis using assms(1) that unfolding registry_inv_def by (metis option.distinct(1))
  qed
  then show ?thesis using assms(3) by metis
qed

lemma walking_list:
  assumes "registry_inv s as" and "walks_at (pcs s t) = Some i"
  shows "list_ok (ev_heap (mem s), master_index (mem s)) as"
proof -
  have "\<not> writes_list (pcs s u)" for u
  proof (cases "u = t")
    case True
    then show ?thesis using assms(2) by (cases "pcs s t") auto
  next
    case False
    then show ?thesis using assms unfolding registry_inv_def by (metis option.distinct(1))
  qed
  then show ?thesis using assms(1) by (simp add: registry_inv_def)
qed

lemma alone_list:
  assumes "registry_inv s as" and "\<forall>u. u \<noteq> t \<longrightarrow> \<not> writes_list (pcs s u)" and "\<not> writes_list (pcs s t)"
  shows "list_ok (ev_heap (mem s), master_index (mem s)) as"
  using assms unfolding registry_inv_def by metis

lemma lift_Fault: "lift_pc f r = Fault \<longleftrightarrow> r = Fault"
  by (cases r) (auto simp: lift_pc_def)

lemma walker_never_faults:
  assumes inv: "registry_inv s as" and pc: "pcs s t = Setting fd event flag q \<or> pcs s t = Interrupting fd q"
  shows "thread_access (pcs s t) (mem s) \<noteq> Fault"
proof (cases "walks_at (pcs s t)")
  case None
  then show ?thesis using pc by (cases q) (auto simp: lift_pc_def)
next
  case (Some i)
  have e: "pcs s t = Setting fd event flag q \<Longrightarrow> event < 11" using inv_event [OF inv] by blast
  have "j \<in> set as" if "walks_at (pcs s t) = Some j" for j using inv_walks [OF inv that] .
  then show ?thesis
    using pc flag_walk(2) [OF walking_list [OF inv Some], of fd event flag q]
      interrupt_walk(2) [OF walking_list [OF inv Some], of fd q] e
    by (auto simp: lift_Fault)
qed

lemma walker_step:
  assumes inv: "registry_inv s as" and pc: "pcs s t = Setting fd event flag q \<or> pcs s t = Interrupting fd q"
    and acc: "thread_access (pcs s t) (mem s) = Done (p, M)" and ap: "apart s (s\<lparr>mem := M, pcs := (pcs s)(t := p)\<rparr>)"
  shows "registry_inv (s\<lparr>mem := M, pcs := (pcs s)(t := p)\<rparr>) as"
proof -
  have nw: "\<not> writes_list (pcs s t)" using pc by auto
  have at: "j \<in> set as" if "walks_at (pcs s t) = Some j" for j using inv_walks [OF inv that] .
  have q: "(\<exists>q'. pcs s t = Setting fd event flag q \<and> p = set_flag_pc fd event flag q'
        \<and> set_flag_access fd event flag q (mem s) = Done (q', M))
      \<or> (\<exists>q'. pcs s t = Interrupting fd q \<and> p = interrupt_pc fd q' \<and> interrupt_access fd q (mem s) = Done (q', M))"
    using pc acc by (auto simp: lift_pc_def bind_Done)
  have l: "links (ev_heap M) b = links (ev_heap (mem s)) b \<and> master_index M = master_index (mem s)" for b
    using q flag_keeps_links interrupt_keeps_links by metis
  have p: "frame_of p = None" "\<not> linked p" "\<not> writes_list p" "p \<noteq> Crashed" "frame_of (pcs s t) = None" "\<not> linked (pcs s t)"
    using q by (auto simp: set_flag_pc_def interrupt_pc_def split: if_splits)
  have ev: "e < 11" if "p = Setting f e g q'" for f e g q'
    using q that inv_event [OF inv] by (auto simp: set_flag_pc_def interrupt_pc_def split: if_splits)
  have w: "i \<in> set as \<and> (\<forall>u. u \<noteq> t \<longrightarrow> \<not> writes_list (pcs s u))" if i: "walks_at p = Some i" for i
  proof -
    have none: "\<forall>u. \<not> writes_list (pcs s u)" using apart_walk [OF inv ap nw, of i] i by simp
    then have ok: "list_ok (ev_heap (mem s), master_index (mem s)) as" using inv by (simp add: registry_inv_def)
    have "i \<in> set as" using q at i flag_walk(1) [OF ok, of fd event flag q] interrupt_walk(1) [OF ok, of fd q] by metis
    then show ?thesis using none by blast
  qed
  show ?thesis
    by (rule inv_quiet [OF inv, of _ M t p]) (use l p nw w ev in auto)
qed

lemma frame_not_walking: "frame_of p = Some a \<Longrightarrow> walks_at p = None"
  by (cases p) auto

lemma fill_access:
  assumes "fills q" and "ev_heap m a = Some c"
  shows "\<exists>p v. thread_access (Linking fd a q) m = Done (p, m\<lparr>ev_heap := (ev_heap m)(a \<mapsto> c\<lparr>val := v\<rparr>)\<rparr>)
    \<and> frame_of p = Some a \<and> linked p \<and> \<not> writes_list p"
  using assms by (cases q) (auto simp: access_simps set_val_def)

lemma loop_access:
  assumes inv: "registry_inv s as" and f: "frame_of (pcs s t) = Some a"
    and ap: "\<And>p M. thread_access (pcs s t) (mem s) = Done (p, M) \<Longrightarrow> apart s (s\<lparr>mem := M, pcs := (pcs s)(t := p)\<rparr>)"
  shows "\<exists>p M as'. thread_access (pcs s t) (mem s) = Done (p, M) \<and> registry_inv (s\<lparr>mem := M, pcs := (pcs s)(t := p)\<rparr>) as'"
proof -
  obtain c where c: "ev_heap (mem s) a = Some c" using inv f unfolding registry_inv_def by blast
  have mem: "a \<in> set as \<longleftrightarrow> linked (pcs s t)" using inv f unfolding registry_inv_def by metis
  have quiet: "\<exists>p M as'. thread_access (pcs s t) (mem s) = Done (p, M) \<and> registry_inv (s\<lparr>mem := M, pcs := (pcs s)(t := p)\<rparr>) as'"
    if "thread_access (pcs s t) (mem s) = Done (p, M)" "\<And>b. links (ev_heap M) b = links (ev_heap (mem s)) b"
      "master_index M = master_index (mem s)" "frame_of p = Some a" "linked p = linked (pcs s t)"
      "\<not> writes_list p" "\<not> writes_list (pcs s t)" for p M
  proof -
    have "p \<noteq> Crashed" "walks_at p = None" "\<And>fd event flag q. p \<noteq> Setting fd event flag q"
      using that(4) frame_not_walking by auto
    then have "registry_inv (s\<lparr>mem := M, pcs := (pcs s)(t := p)\<rparr>) as"
      by (intro inv_quiet [OF inv _ _ that(2,3), of _ t p]) (use that f in simp_all)
    then show ?thesis using that(1) by blast
  qed
  have writing: ?thesis if w: "writes_list (pcs s t)"
  proof -
    have alone: "\<forall>u. u \<noteq> t \<longrightarrow> \<not> writes_list (pcs s u) \<and> walks_at (pcs s u) = None"
      using inv w unfolding registry_inv_def by blast
    have "writer_ok (pcs s t) (ev_heap (mem s)) as"
        "list_ok (completed (pcs s t) (ev_heap (mem s), master_index (mem s))) as"
      using inv w by (simp_all add: registry_inv_def)
    then have "access_ok a as (pcs s t) (mem s)"
      using w f c mem link_access_ok [of _ a _ "mem s" as c] unlink_access_ok [of a _ "mem s" as c] by (cases "pcs s t") auto
    then show ?thesis using inv_writer [OF inv _ f alone] by blast
  qed
  have entering: ?thesis if p: "thread_access (pcs s t) (mem s) = Done (p, mem s)" "writes_list p" "\<not> writes_list (pcs s t)"
      and ok: "list_ok (ev_heap (mem s), master_index (mem s)) as \<Longrightarrow> access_ok a as (pcs s t) (mem s)" for p
  proof -
    have alone: "\<forall>u. u \<noteq> t \<longrightarrow> \<not> writes_list (pcs s u) \<and> walks_at (pcs s u) = None"
      using ap [OF p(1)] p(2,3) unfolding apart_def
      by (metis fun_upd_same registry.select_convs(2) registry.surjective registry.update_convs(1,2))
    then have "list_ok (ev_heap (mem s), master_index (mem s)) as" using alone_list inv p(3) by blast
    then show ?thesis using inv_writer [OF inv ok f alone] by blast
  qed
  show ?thesis
  proof (cases "writes_list (pcs s t)")
    case nw: False
    show ?thesis
    proof (cases "pcs s t")
      case (Linking fd b q)
      then have b: "b = a" using f by simp
      have filling: ?thesis if "fills q" using fill_access [of q, OF that c, of fd] Linking b that c quiet
        by (auto simp: links_def fun_upd_def)
      show ?thesis
      proof (cases q)
        case KStart
        have "thread_access (pcs s t) (mem s)
            = Done (Linking fd a (case master_index (mem s) of None \<Rightarrow> KMaster | Some i \<Rightarrow> KWalk i), mem s)"
          using Linking KStart b by (auto simp: access_simps split: option.splits)
        then show ?thesis
          by (rule entering) (use Linking KStart b mem enter_link [of "mem s" as a fd] in \<open>auto split: option.splits\<close>)
      next
        case Linked
        show ?thesis
          by (rule quiet [of "Looping a" "mem s"]) (use Linking Linked b in \<open>auto simp: access_simps\<close>)
      qed (use nw Linking filling in auto)
    next
      case (Looping b)
      then show ?thesis
        using f c by (intro quiet [of "if ei_closing (val c) then Unlinking a UCase else Looping a" "mem s"]) auto
    next
      case (Unlinking b q)
      then have b: "b = a" using f by simp
      show ?thesis
      proof (cases "q = UCase")
        case True
        obtain q' where "thread_access (pcs s t) (mem s) = Done (Unlinking a q', mem s)" "q' \<noteq> UCase" "q' \<noteq> Unlinked"
          using Unlinking True b c by (auto simp: access_simps split: option.splits)
        then show ?thesis
          by (intro entering) (use Unlinking True b mem enter_unlink [of "mem s" as a] in auto)
      next
        case False
        then have q: "q = Unlinked" using nw Unlinking by simp
        have "registry_inv (s\<lparr>mem := (mem s)\<lparr>ev_heap := (ev_heap (mem s))(a := None)\<rparr>, pcs := (pcs s)(t := Outside)\<rparr>) as"
        proof (rule inv_frame [OF inv])
          show "frame_of (pcs s u) \<noteq> Some a" if "u \<noteq> t" for u using inv f that unfolding registry_inv_def by blast
        qed (use Unlinking q mem in auto)
        then show ?thesis using Unlinking q b by auto
      qed
    qed (use f in auto)
  qed (rule writing)
qed

lemma inv_step:
  assumes inv: "registry_inv s as" and step: "registry_step s s'" and ap: "apart s s'"
  shows "\<exists>as'. registry_inv s' as'"
  using step
proof (cases rule: registry_step.cases)
  case (call_flag t event fd flag)
  then have "registry_inv s' as" by (intro inv_quiet [OF inv, where s' = s' and M = "mem s" and t = t and p = "Setting fd event flag AtStart"]) auto
  then show ?thesis by blast
next
  case (call_interrupt t fd)
  then have "registry_inv s' as" by (intro inv_quiet [OF inv, where s' = s' and M = "mem s" and t = t and p = "Interrupting fd AtStart"]) auto
  then show ?thesis by blast
next
  case (call_loop t a fd c)
  have "frame_of (pcs s u) \<noteq> Some a" for u using inv call_loop(3) unfolding registry_inv_def by blast
  moreover then have "a \<notin> set as" using inv unfolding registry_inv_def by blast
  ultimately have "registry_inv s' as"
    using call_loop by (intro inv_frame [OF inv, where s' = s' and a = a and x = "Some c" and t = t and p = "Linking fd a KStart"]) auto
  then show ?thesis by blast
next
  case (no_method t fd a)
  then have "registry_inv s' as" by (intro inv_quiet [OF inv, where s' = s' and M = "mem s" and t = t and p = "Unlinking a UCase"]) auto
  then show ?thesis by blast
next
  case (work t a c v)
  have "pcs s' = (pcs s)(t := pcs s t)" using work(1) by simp
  moreover have "links (ev_heap (mem s')) b = links (ev_heap (mem s)) b" for b using work by (auto simp: links_def)
  ultimately have "registry_inv s' as"
    by (intro inv_quiet [OF inv refl, where t = t and p = "pcs s t"]) (use work in simp_all)
  then show ?thesis by blast
next
  case (access t p M)
  show ?thesis
  proof (cases "frame_of (pcs s t)")
    case None
    then obtain fd event flag q where "pcs s t = Setting fd event flag q \<or> pcs s t = Interrupting fd q"
      using access(2) by (cases "pcs s t") auto
    then show ?thesis using walker_step [OF inv] access ap by metis
  next
    case (Some a)
    then show ?thesis using loop_access [OF inv Some] access ap by (metis prod.inject run.inject)
  qed
next
  case (crash t)
  show ?thesis
  proof (cases "frame_of (pcs s t)")
    case None
    then obtain fd event flag q where "pcs s t = Setting fd event flag q \<or> pcs s t = Interrupting fd q"
      using crash(2) by (cases "pcs s t") auto
    then show ?thesis using walker_never_faults [OF inv] crash(2) by metis
  next
    case (Some a)
    then show ?thesis using loop_access [OF inv Some] crash(2) by (metis run.distinct(1))
  qed
qed

lemma no_fault:
  assumes inv: "registry_inv s as"
  shows "thread_access (pcs s t) (mem s) \<noteq> Fault"
proof (cases "frame_of (pcs s t)")
  case None
  show ?thesis
  proof (cases "\<exists>fd event flag q. pcs s t = Setting fd event flag q \<or> pcs s t = Interrupting fd q")
    case True
    then show ?thesis using walker_never_faults [OF inv] by blast
  next
    case False
    then show ?thesis using None by (cases "pcs s t") auto
  qed
next
  case (Some a)
  obtain c where c: "ev_heap (mem s) a = Some c" using inv Some unfolding registry_inv_def by blast
  have mem: "a \<in> set as \<longleftrightarrow> linked (pcs s t)" using inv Some unfolding registry_inv_def by metis
  show ?thesis
  proof (cases "writes_list (pcs s t)")
    case True
    then have "writer_ok (pcs s t) (ev_heap (mem s)) as"
        "list_ok (completed (pcs s t) (ev_heap (mem s), master_index (mem s))) as"
      using inv unfolding registry_inv_def by blast+
    then have "access_ok a as (pcs s t) (mem s)"
      using True Some c mem link_access_ok [of _ a _ "mem s" as c] unlink_access_ok [of a _ "mem s" as c]
      by (cases "pcs s t") auto
    then show ?thesis by (auto simp: access_ok_def)
  next
    case False
    have fill: "thread_access (Linking fd a q) (mem s) \<noteq> Fault" if "fills q" for fd q
      using fill_access [of q, OF that c, of fd] by auto
    show ?thesis
    proof (cases "\<exists>fd q. pcs s t = Linking fd a q \<and> fills q")
      case True
      then show ?thesis using fill by metis
    next
      case nf: False
      then show ?thesis
        using False Some c by (cases "(pcs s t, mem s)" rule: thread_access.cases) (auto simp: access_simps)
    qed
  qed
qed

lemma takes_turns_inv: "takes_turns s \<Longrightarrow> \<exists>as. registry_inv s as"
proof (induction rule: takes_turns.induct)
  case (turns_start m)
  show ?case
    by (intro exI [of _ "[]"]) (simp add: registry_inv_def empty_registry_def list_ok_def dlist_def)
next
  case (turns_step s s')
  then show ?case using inv_step by blast
qed

section \<open>Alone, a call is its definition in the sequential model\<close>

inductive alone :: "pc \<Rightarrow> 'w evsys \<Rightarrow> pc \<Rightarrow> 'w evsys \<Rightarrow> bool" where
  alone_refl: "alone p m p m"
| alone_step: "thread_access p m = Done (p1, m1) \<Longrightarrow> alone p1 m1 p' m' \<Longrightarrow> alone p m p' m'"

lemma alone_flag_seek:
  "seek fuel (\<lambda>e. ei_fd e = fd) (ev_heap m) i = Done q \<Longrightarrow>
   alone (Setting fd event flag (AtCheck q)) m p' m' \<Longrightarrow> alone (Setting fd event flag (AtFd i)) m p' m'"
proof (induction fuel arbitrary: i)
  case (Suc fuel)
  obtain c where c: "ev_heap m i = Some c" using Suc.prems(1) by (auto simp: bind_Done deref_def split: option.splits)
  show ?case
  proof (cases "ei_fd (val c) = fd")
    case True
    then have "q = i" using Suc.prems(1) c by simp
    with Suc.prems(2) have "alone (Setting fd event flag (AtCheck i)) m p' m'" by simp
    then show ?thesis by (rule alone_step [rotated]) (use True c in \<open>simp add: lift_pc_def set_flag_pc_def\<close>)
  next
    case False
    obtain w where w: "thread_access (Setting fd event flag (AtNext i)) m = Done (Setting fd event flag w, m)" "alone (Setting fd event flag w) m p' m'"
    proof (cases "nxt c")
      case None
      then have "q = i" using Suc.prems(1) c False by simp
      then show thesis
        using that [of "AtCheck i"] Suc.prems(2) c None by (simp add: lift_pc_def set_flag_pc_def)
    next
      case (Some n)
      then have "alone (Setting fd event flag (AtFd n)) m p' m'" using Suc c False by simp
      then show thesis using that [of "AtFd n"] c Some by (simp add: lift_pc_def set_flag_pc_def)
    qed
    have "alone (Setting fd event flag (AtNext i)) m p' m'" by (rule alone_step [OF w])
    then show ?thesis by (rule alone_step [rotated]) (use False c in \<open>simp add: lift_pc_def set_flag_pc_def\<close>)
  qed
qed simp

lemma alone_interrupt_seek:
  "seek fuel (\<lambda>e. ei_fd e = fd) (ev_heap m) i = Done q \<Longrightarrow>
   alone (Interrupting fd (AtCheck q)) m p' m' \<Longrightarrow> alone (Interrupting fd (AtFd i)) m p' m'"
proof (induction fuel arbitrary: i)
  case (Suc fuel)
  obtain c where c: "ev_heap m i = Some c" using Suc.prems(1) by (auto simp: bind_Done deref_def split: option.splits)
  show ?case
  proof (cases "ei_fd (val c) = fd")
    case True
    then have "q = i" using Suc.prems(1) c by simp
    with Suc.prems(2) have "alone (Interrupting fd (AtCheck i)) m p' m'" by simp
    then show ?thesis by (rule alone_step [rotated]) (use True c in \<open>simp add: lift_pc_def interrupt_pc_def\<close>)
  next
    case False
    obtain w where w: "thread_access (Interrupting fd (AtNext i)) m = Done (Interrupting fd w, m)" "alone (Interrupting fd w) m p' m'"
    proof (cases "nxt c")
      case None
      then have "q = i" using Suc.prems(1) c False by simp
      then show thesis
        using that [of "AtCheck i"] Suc.prems(2) c None by (simp add: lift_pc_def interrupt_pc_def)
    next
      case (Some n)
      then have "alone (Interrupting fd (AtFd n)) m p' m'" using Suc c False by simp
      then show thesis using that [of "AtFd n"] c Some by (simp add: lift_pc_def interrupt_pc_def)
    qed
    have "alone (Interrupting fd (AtNext i)) m p' m'" by (rule alone_step [OF w])
    then show ?thesis by (rule alone_step [rotated]) (use False c in \<open>simp add: lift_pc_def interrupt_pc_def\<close>)
  qed
qed simp

text \<open>A call whose accesses nobody interrupts has the effect that \<open>Event_Registry\<close> gives it.\<close>

lemma alone_nativeSetEventFlag:
  assumes "nativeSetEventFlag fuel fd event flag m = Done m'"
  shows "alone (Setting fd event flag AtStart) m Outside m'"
proof (cases "master_index m")
  case None
  show ?thesis
    by (rule alone_step [OF _ alone_refl])
      (use assms None in \<open>auto simp: nativeSetEventFlag_def lift_pc_def set_flag_pc_def\<close>)
next
  case (Some i)
  obtain q c where q: "seek fuel (\<lambda>e. ei_fd e = fd) (ev_heap m) i = Done q" "ev_heap m q = Some c"
    using assms Some by (auto simp: nativeSetEventFlag_def bind_Done deref_def split: option.splits)
  have chk: "alone (Setting fd event flag (AtCheck q)) m Outside m'"
  proof (cases "ei_fd (val c) = fd")
    case False
    show ?thesis
      by (rule alone_step [OF _ alone_refl])
        (use assms Some q False in \<open>auto simp: nativeSetEventFlag_def lift_pc_def set_flag_pc_def\<close>)
  next
    case True
    then have "thread_access (Setting fd event flag (AtStore q)) m = Done (Outside, m')"
      using assms Some q
      by (auto simp: nativeSetEventFlag_def lift_pc_def set_flag_pc_def goto_def store_def bind_Done split: if_splits)
    then have "alone (Setting fd event flag (AtStore q)) m Outside m'" by (rule alone_step [OF _ alone_refl])
    then show ?thesis
      by (rule alone_step [rotated]) (use True q in \<open>simp add: lift_pc_def set_flag_pc_def\<close>)
  qed
  show ?thesis
    by (rule alone_step [OF _ alone_flag_seek [OF q(1) chk]]) (use Some in \<open>simp add: lift_pc_def set_flag_pc_def\<close>)
qed

lemma alone_interruptEventLoop:
  assumes "interruptEventLoop fuel jp m = Done m'"
  shows "alone (Interrupting (j_fd jp) AtStart) m Outside m'"
proof -
  obtain i q c where q: "master_index m = Some i" "seek fuel (\<lambda>e. ei_fd e = j_fd jp) (ev_heap m) i = Done q"
      "ev_heap m q = Some c" "ei_fd (val c) = j_fd jp"
      "m' = m\<lparr>ev_heap := (ev_heap m)(q \<mapsto> c\<lparr>val := (val c)\<lparr>eventloop_interrupted := 1, ei_closing := True\<rparr>\<rparr>)\<rparr>"
    using assms by (auto simp: interruptEventLoop_def bind_Done deref_def set_val_def split: option.splits if_splits)
  let ?m = "m\<lparr>ev_heap := (ev_heap m)(q \<mapsto> c\<lparr>val := (val c)\<lparr>eventloop_interrupted := 1\<rparr>\<rparr>)\<rparr>"
  have "alone (Interrupting (j_fd jp) (AtClose q)) ?m Outside m'"
    by (rule alone_step [OF _ alone_refl])
      (use q in \<open>simp add: lift_pc_def interrupt_pc_def goto_def store_def set_val_def\<close>)
  then have "alone (Interrupting (j_fd jp) (AtStore q)) m Outside m'"
    by (rule alone_step [rotated]) (use q in \<open>simp add: lift_pc_def interrupt_pc_def goto_def store_def set_val_def\<close>)
  then have chk: "alone (Interrupting (j_fd jp) (AtCheck q)) m Outside m'"
    by (rule alone_step [rotated]) (use q in \<open>simp add: lift_pc_def interrupt_pc_def\<close>)
  show ?thesis
    by (rule alone_step [OF _ alone_interrupt_seek [OF q(2) chk]]) (use q in \<open>simp add: lift_pc_def interrupt_pc_def\<close>)
qed

section \<open>Schedules\<close>

definition run_access :: "nat \<Rightarrow> 'w registry \<Rightarrow> 'w registry" where
  "run_access t s = (case thread_access (pcs s t) (mem s) of
     Done (p, m) \<Rightarrow> s\<lparr>mem := m, pcs := (pcs s)(t := p)\<rparr> | Fault \<Rightarrow> s\<lparr>pcs := (pcs s)(t := Crashed)\<rparr> | Hang \<Rightarrow> s)"

lemma run_access_step: "thread_access (pcs s t) (mem s) \<noteq> Hang \<Longrightarrow> registry_step s (run_access t s)"
  using registry_step.access [of s t] registry_step.crash [of s t]
  by (cases "thread_access (pcs s t) (mem s)") (auto simp: run_access_def)

lemma run_access_Hang: "thread_access (pcs s t) (mem s) = Hang \<Longrightarrow> run_access t s = s"
  by (simp add: run_access_def)

lemma races_run: "races s \<Longrightarrow> races (fold run_access ts s)"
proof (induction ts arbitrary: s)
  case (Cons t ts)
  have "races (run_access t s)"
    using races_step [OF Cons.prems run_access_step] run_access_Hang Cons.prems by metis
  then show ?case using Cons.IH by simp
qed simp

lemma turns_one: "takes_turns s \<Longrightarrow> apart s (run_access t s) \<Longrightarrow> takes_turns (run_access t s)"
  using turns_step run_access_step run_access_Hang by metis

lemma run_others: "u \<noteq> t \<Longrightarrow> pcs (run_access t s) u = pcs s u"
  by (cases "thread_access (pcs s t) (mem s)") (auto simp: run_access_def)

lemma turns_run:
  assumes "takes_turns s" and "\<forall>u. u \<noteq> t \<longrightarrow> pcs s u = Outside"
  shows "takes_turns ((run_access t ^^ n) s) \<and> (\<forall>u. u \<noteq> t \<longrightarrow> pcs ((run_access t ^^ n) s) u = Outside)"
proof (induction n)
  case (Suc n)
  let ?s = "(run_access t ^^ n) s"
  have out: "\<forall>u. u \<noteq> t \<longrightarrow> pcs (run_access t ?s) u = Outside" using Suc run_others by metis
  have no: "\<not> writes_list Outside" "walks_at Outside = None" by simp_all
  have "apart ?s (run_access t ?s)" using Suc out no unfolding apart_def by metis
  then have "takes_turns (run_access t ?s)" using turns_one [of ?s t] Suc by blast
  then show ?case using out by simp
qed (use assms in simp)

lemma start_loop:
  fixes s :: "'w registry"
  assumes "pcs s t = Outside" and "ev_heap (mem s) a = None"
    and s'_def: "s' = s\<lparr>mem := (mem s)\<lparr>ev_heap := (ev_heap (mem s))(a \<mapsto> c)\<rparr>, pcs := (pcs s)(t := Linking fd a KStart)\<rparr>"
  shows "races s \<Longrightarrow> races s'" and "takes_turns s \<Longrightarrow> takes_turns s'"
proof -
  have step: "registry_step s s'" unfolding s'_def by (rule registry_step.call_loop [OF assms(1,2)])
  have "apart s s'" by (auto simp: apart_def s'_def)
  with step show "races s \<Longrightarrow> races s'" "takes_turns s \<Longrightarrow> takes_turns s'"
    by (blast intro: races_step turns_step)+
qed

definition one_loop :: "refdev registry" where
  \<comment> \<open>the loop of descriptor 3 has its frame at 7\<close>
  "one_loop = (empty_registry mon0)\<lparr>mem := (mem (empty_registry mon0))\<lparr>ev_heap := (ev_heap (mem (empty_registry mon0)))(7 \<mapsto> eis_stack)\<rparr>,
     pcs := (pcs (empty_registry mon0))(0 := Linking 3 7 KStart)\<rparr>"

lemma one_loop: "races one_loop" "takes_turns one_loop"
proof -
  have "pcs (empty_registry mon0) 0 = Outside" "ev_heap (mem (empty_registry mon0)) 7 = None"
    by (simp_all add: empty_registry_def)
  note start = start_loop [OF this one_loop_def]
  show "races one_loop" by (rule start(1) [OF races_start])
  show "takes_turns one_loop" by (rule start(2) [OF turns_start])
qed

text \<open>After nineteen accesses it is registered.\<close>

definition running :: "event_info \<Rightarrow> refdev registry" where
  "running v = \<lparr>mem = \<lparr>ev_heap = (\<lambda>_. None)(7 \<mapsto> \<lparr>val = v, nxt = None, prv = None\<rparr>), master_index = Some 7, ev_mon = mon0\<rparr>,
     pcs = (\<lambda>_. Outside)(0 := Looping 7)\<rparr>"

lemma one_loop_running: "\<exists>v. (run_access 0 ^^ 19) one_loop = running v \<and> ei_fd v = 3 \<and> \<not> ei_closing v"
proof -
  have "replicate 19 0 = [0 :: nat, 0, 0, 0, 0, 0, 0, 0, 0, 0, 0, 0, 0, 0, 0, 0, 0, 0, 0]" by (simp add: eval_nat_numeral)
  then have "(run_access 0 ^^ 19) one_loop
      = fold run_access [0, 0, 0, 0, 0, 0, 0, 0, 0, 0, 0, 0, 0, 0, 0, 0, 0, 0, 0] one_loop"
    by (metis fold_replicate)
  also have "\<exists>v. \<dots> = running v \<and> ei_fd v = 3 \<and> \<not> ei_closing v"
    apply (simp add: run_access_def one_loop_def running_def empty_registry_def access_simps set_val_def
        upd_nxt_def upd_prv_def eis_stack_def)
    apply (intro exI conjI)
      apply (rule refl)
     apply simp_all
    done
  finally show ?thesis .
qed

lemma running_loop:
  obtains v where "races (running v)" "takes_turns (running v)" "ei_fd v = 3" "\<not> ei_closing v"
    "running v = (run_access 0 ^^ 19) one_loop"
proof -
  obtain v where v: "(run_access 0 ^^ 19) one_loop = running v" "ei_fd v = 3" "\<not> ei_closing v" using one_loop_running by blast
  have "\<forall>u. u \<noteq> 0 \<longrightarrow> pcs one_loop u = Outside" by (simp add: one_loop_def empty_registry_def)
  then have t: "takes_turns (running v)" using turns_run one_loop(2) v(1) by metis
  have "races (fold run_access (replicate 19 0) one_loop)" by (rule races_run [OF one_loop(1)])
  then have "races (running v)" using v(1) by simp
  then show thesis using that t v by simp
qed

section \<open>Properties\<close>

text \<open>C4. The list of monitor threads, for any number of threads and one memory access at a time: as long as no thread
  begins to write the list (to register or to take out a structure) while another is in it, and none begins to read it
  while another writes it (any number may read at once), no thread follows a dangling pointer, and whenever no write is in
  progress, \<open>master_index\<close> leads to a well-formed list of exactly the structures of the loops that are registered. The code
  has no lock that keeps threads apart like this.\<close>

theorem registry_turns_safe:
  assumes "takes_turns s"
  shows "(\<forall>t. pcs s t \<noteq> Crashed \<and> thread_access (pcs s t) (mem s) \<noteq> Fault)
    \<and> ((\<forall>t. \<not> writes_list (pcs s t)) \<longrightarrow>
        (\<exists>as. ev_inv (mem s) as \<and> (\<forall>a. a \<in> set as \<longleftrightarrow> (\<exists>t. frame_of (pcs s t) = Some a \<and> linked (pcs s t)))))"
proof -
  obtain as where inv: "registry_inv s as" using takes_turns_inv [OF assms] by blast
  have "pcs s t \<noteq> Crashed \<and> thread_access (pcs s t) (mem s) \<noteq> Fault" for t
    using no_fault [OF inv] inv unfolding registry_inv_def by blast
  moreover have "(\<forall>t. \<not> writes_list (pcs s t)) \<longrightarrow> ev_inv (mem s) as"
      "a \<in> set as \<longleftrightarrow> (\<exists>t. frame_of (pcs s t) = Some a \<and> linked (pcs s t))" for a
    using inv unfolding registry_inv_def ev_inv_def list_ok_def by simp_all
  ultimately show ?thesis by (intro conjI allI impI exI [of _ as]) simp_all
qed

theorem registry_turns_safe_witness:
  "\<exists>s :: refdev registry. takes_turns s \<and> pcs s 0 = Looping 7 \<and> thread_access (Looping 7) (mem s) \<noteq> Fault"
proof -
  obtain v where t: "takes_turns (running v)" by (rule running_loop)
  moreover have "pcs (running v) 0 = Looping 7" by (simp add: running_def)
  ultimately show ?thesis using registry_turns_safe [OF t] by metis
qed

text \<open>Without turns. A walk has read \<open>master_index\<close>; before it looks at the structure, the loop is interrupted, takes its
  structure out and returns; the walk then reads a frame that is gone.\<close>

theorem walk_into_returned_frame: "\<exists>s :: refdev registry. races s \<and> pcs s 1 = Crashed"
proof -
  obtain v where v: "races (running v)" "ei_fd v = 3" "\<not> ei_closing v" by (rule running_loop)
  let ?s1 = "(running v)\<lparr>pcs := (pcs (running v))(1 := Setting 5 0 True AtStart)\<rparr>"
  let ?s2 = "?s1\<lparr>pcs := (pcs ?s1)(2 := Interrupting 3 AtStart)\<rparr>"
  let ?ts = "[1, 2, 2, 2, 2, 2, 0, 0, 0, 0, 1]"
  have "races ?s1" by (rule races_step [OF v(1) registry_step.call_flag]) (simp_all add: running_def)
  then have "races ?s2" by (rule races_step [OF _ registry_step.call_interrupt]) (simp add: running_def)
  then have "races (fold run_access ?ts ?s2)" by (rule races_run)
  moreover have "pcs (fold run_access ?ts ?s2) 1 = Crashed"
    using v(2,3) by (simp add: run_access_def running_def access_simps set_val_def set_flag_pc_def interrupt_pc_def)
  ultimately show ?thesis by blast
qed

text \<open>And a structure can be reached before its own links are set: the walk follows what the stack happened to hold.\<close>

theorem walk_into_unset_link: "\<exists>s :: refdev registry. races s \<and> pcs s 1 = Crashed \<and> pcs s 0 = Looping 7 \<and> pcs s 2 = Linking 4 8 (KPrev 7)"
proof -
  obtain v where v: "races (running v)" "ei_fd v = 3" "\<not> ei_closing v" by (rule running_loop)
  let ?s2 = "(running v)\<lparr>mem := (mem (running v))\<lparr>ev_heap := (ev_heap (mem (running v)))(8 \<mapsto> eis_stack)\<rparr>,
    pcs := (pcs (running v))(2 := Linking 4 8 KStart)\<rparr>"
  let ?s3 = "?s2\<lparr>pcs := (pcs ?s2)(1 := Setting 6 0 True AtStart)\<rparr>"
  let ?ts = "[1, 1, 2, 2, 2, 1, 1, 1, 1]"
  have "pcs (running v) 2 = Outside" "ev_heap (mem (running v)) 8 = None" by (simp_all add: running_def)
  then have "races ?s2" using start_loop(1) [OF _ _ refl v(1), of 2 8] by blast
  then have "races ?s3" by (rule races_step [OF _ registry_step.call_flag]) (simp_all add: running_def)
  then have "races (fold run_access ?ts ?s3)" by (rule races_run)
  moreover have "pcs (fold run_access ?ts ?s3) 1 = Crashed" "pcs (fold run_access ?ts ?s3) 0 = Looping 7"
      "pcs (fold run_access ?ts ?s3) 2 = Linking 4 8 (KPrev 7)"
    using v(2,3) by (simp_all add: run_access_def running_def access_simps upd_nxt_def upd_prv_def set_flag_pc_def
        eis_stack_def eis0_def)
  ultimately show ?thesis by blast
qed

end
