(* ===== verification/Serial_IO.thy ===== *)
theory Serial_IO
  imports Events
begin

text \<open>
  Reading and writing: \<open>read_byte_array\<close> and the native methods on top of it, \<open>writeByte\<close>,
  \<open>writeArray\<close> and \<open>nativeDrain\<close>. The structure of the port's monitor is an option: the Java field
  is 0 until an event loop has stored its address, and \<open>read_byte_array\<close> dereferences it unchecked. A
  Java byte array is a list; writing outside it is \<open>Fault\<close>. \<open>ef\<close> bounds the calls that signals
  interrupt in a row.
\<close>

section \<open>Reading\<close>

definition select_timeout :: "int \<Rightarrow> int \<Rightarrow> int \<Rightarrow> (int \<times> int) option" where
  "select_timeout timeout now start =
     (if 0 \<le> timeout
      then (let timeLeft = timeout - (now - start) in Some (timeLeft sdiv 1000, 1000 * (timeLeft smod 1000)))
      else None)"

fun read_loop :: "'w posix \<Rightarrow> platform \<Rightarrow> nat \<Rightarrow> fd \<Rightarrow> int \<Rightarrow> int \<Rightarrow> int \<Rightarrow> nat \<Rightarrow> int \<Rightarrow> u8 list \<Rightarrow> 'w
    \<Rightarrow> ((int \<times> u8 list) \<times> 'w) run" where
  \<comment> \<open>\<open>while (bytes < len && count++ < 20)\<close>: the number of rounds left, the bytes read and the buffer so far\<close>
  "read_loop E p ef fd len timeout start 0 bytes buf w = Done ((bytes, buf), w)"
| "read_loop E p ef fd len timeout start (Suc k) bytes buf w =
     (if \<not> bytes < len then Done ((bytes, buf), w)
      else let (now, w) = (if 0 \<le> timeout then tick_of E w else (0, w)) in
      if 0 \<le> timeout \<and> timeout \<le> now - start then Done ((bytes, buf), w)
      else case (if p = Win32 then Some (1, w)
                 else retry_eintr ef (errno_of E) (select_op E fd (select_timeout timeout now start)) w) of
        None \<Rightarrow> Hang
      | Some (ret, w) \<Rightarrow>
          if ret = -1 then Done ((-1, buf), w)
          else if 0 < ret then
            (let ((ret, bs), w) = read_op E fd (len - bytes) w in
             if ret < 0 then Done ((-1, buf), w)
             else if ret \<noteq> 0 then read_loop E p ef fd len timeout start k (bytes + ret) (buf @ bs) w
             else read_loop E p ef fd len timeout start k bytes buf (usleep_op E 1000 w))
          else read_loop E p ef fd len timeout start k bytes buf w)"

definition set_flag :: "event_info \<Rightarrow> nat \<Rightarrow> int \<Rightarrow> event_info" where
  "set_flag eis i v = eis\<lparr>eventflags := (eventflags eis)(i := v)\<rparr>"

definition read_byte_array :: "'w posix \<Rightarrow> platform \<Rightarrow> nat \<Rightarrow> event_info option \<Rightarrow> fd \<Rightarrow> int \<Rightarrow> int \<Rightarrow> 'w
    \<Rightarrow> (((int \<times> u8 list) \<times> event_info) \<times> 'w) run" where
  "read_byte_array E p ef eis fd len timeout w =
     (case eis of
        None \<Rightarrow> Fault
      | Some eis \<Rightarrow>
          let flag = eventflags eis SPE_DATA_AVAILABLE;
              eis = set_flag eis SPE_DATA_AVAILABLE 0;
              (start, w) = (if 0 \<le> timeout then tick_of E w else (0, w))
          in run_bind (read_loop E p ef fd len timeout start 20 0 [] w) (\<lambda>(r, w).
               Done ((r, set_flag eis SPE_DATA_AVAILABLE flag), w)))"

definition readByte :: "'w posix \<Rightarrow> platform \<Rightarrow> nat \<Rightarrow> (string \<Rightarrow> bool) \<Rightarrow> event_info option \<Rightarrow> jport \<Rightarrow> 'w
    \<Rightarrow> ((int \<times> jexc option) \<times> 'w) run" where
  "readByte E p ef fc eis jp w =
     run_bind (read_byte_array E p ef eis (j_fd jp) 1 (j_timeout jp) w) (\<lambda>(((bytes, buf), eis), w).
     if bytes < 0 then Done ((-1, io_error E fc ''readByte'' w), w)
     else Done ((if bytes \<noteq> 0 \<and> buf \<noteq> [] then uint (hd buf) else -1, None), w))"

definition store_at :: "u8 list \<Rightarrow> int \<Rightarrow> u8 list \<Rightarrow> u8 list run" where
  \<comment> \<open>the bytes \<open>bs\<close> written from \<open>body + off\<close>\<close>
  "store_at body off bs =
     (if bs = [] then Done body
      else if off < 0 \<or> int (length body) < off + int (length bs) then Fault
      else Done (take (nat off) body @ bs @ drop (nat off + length bs) body))"

definition readArray :: "'w posix \<Rightarrow> platform \<Rightarrow> nat \<Rightarrow> (string \<Rightarrow> bool) \<Rightarrow> event_info option \<Rightarrow> jport
    \<Rightarrow> u8 list \<Rightarrow> int \<Rightarrow> int \<Rightarrow> 'w \<Rightarrow> (((int \<times> jexc option) \<times> u8 list) \<times> 'w) run" where
  \<comment> \<open>a negative length is greater than \<open>SSIZE_MAX\<close> as a \<open>size_t\<close>\<close>
  "readArray E p ef fc eis jp body offset len w =
     (if len < 0
      then Done (((-1, throw_java_exception fc ARRAY_INDEX_OUT_OF_BOUNDS ''readArray'' ''Invalid length''), body), w)
      else run_bind (read_byte_array E p ef eis (j_fd jp) len (j_timeout jp) w) (\<lambda>(((bytes, buf), eis), w).
           run_bind (store_at body offset buf) (\<lambda>body.
           if bytes < 0 then Done (((-1, io_error E fc ''readArray'' w), body), w)
           else Done (((bytes, None), body), w))))"

fun terminated_loop :: "'w posix \<Rightarrow> platform \<Rightarrow> nat \<Rightarrow> nat \<Rightarrow> (string \<Rightarrow> bool) \<Rightarrow> event_info option \<Rightarrow> jport
    \<Rightarrow> u8 list \<Rightarrow> u8 list \<Rightarrow> int \<Rightarrow> int \<Rightarrow> int \<Rightarrow> 'w \<Rightarrow> (((int \<times> jexc option) \<times> u8 list) \<times> 'w) run" where
  "terminated_loop E p ef 0 fc eis jp body term offset len tot w = Hang"
| "terminated_loop E p ef (Suc k) fc eis jp body term offset len tot w =
     run_bind (read_byte_array E p ef eis (j_fd jp) 1 (j_timeout jp) w) (\<lambda>(((bytes, buf), eis), w).
     run_bind (store_at body (offset + tot) buf) (\<lambda>body.
     let tot = tot + bytes in
     if bytes < 0 then Done (((-1, io_error E fc ''readArray'' w), body), w)
     else if 1 < tot \<and> (int (length body) < tot \<or> length term < 2) then Fault
     else if 1 < tot \<and> term ! 1 = body ! nat (tot - 1) \<and> term ! 0 = body ! nat (tot - 2)
     then Done (((bytes, None), body), w)
     else if 0 < bytes \<and> tot < len
     then terminated_loop E p ef k fc (Some eis) jp body term offset len tot w
     else Done (((bytes, None), body), w)))"

definition readTerminatedArray :: "'w posix \<Rightarrow> platform \<Rightarrow> nat \<Rightarrow> (string \<Rightarrow> bool) \<Rightarrow> event_info option \<Rightarrow> jport
    \<Rightarrow> u8 list \<Rightarrow> int \<Rightarrow> int \<Rightarrow> u8 list \<Rightarrow> 'w \<Rightarrow> (((int \<times> jexc option) \<times> u8 list) \<times> 'w) run" where
  "readTerminatedArray E p ef fc eis jp body offset len term w =
     (if len < 0
      then Done (((-1, throw_java_exception fc ARRAY_INDEX_OUT_OF_BOUNDS ''readArray'' ''Invalid length''), body), w)
      else terminated_loop E p ef (Suc (nat len)) fc eis jp body term offset len 0 w)"

section \<open>Writing\<close>

definition writeByte :: "'w posix \<Rightarrow> nat \<Rightarrow> (string \<Rightarrow> bool) \<Rightarrow> jport \<Rightarrow> int \<Rightarrow> 'w \<Rightarrow> (jexc option \<times> 'w) run" where
  "writeByte E ef fc jp ji w =
     (case retry_eintr ef (errno_of E) (write_op E (j_fd jp) [word_of_int ji]) w of
        None \<Rightarrow> Hang
      | Some (result, w) \<Rightarrow> if result < 0 then Done (io_error E fc ''writeByte'' w, w) else Done (None, w))"

definition slice :: "u8 list \<Rightarrow> int \<Rightarrow> int \<Rightarrow> u8 list run" where
  \<comment> \<open>\<open>n\<close> bytes from \<open>body + off\<close>\<close>
  "slice body off n =
     (if n \<le> 0 then Done []
      else if off < 0 \<or> int (length body) < off + n then Fault
      else Done (take (nat n) (drop (nat off) body)))"

fun write_loop :: "'w posix \<Rightarrow> nat \<Rightarrow> fd \<Rightarrow> u8 list \<Rightarrow> int \<Rightarrow> int \<Rightarrow> int \<Rightarrow> 'w \<Rightarrow> ((int \<times> int) \<times> 'w) run" where
  \<comment> \<open>\<open>do { ... } while (tot < count && (result < 0 && errno == EINTR))\<close>\<close>
  "write_loop E 0 fd body offset count tot w = Hang"
| "write_loop E (Suc k) fd body offset count tot w =
     run_bind (slice body (tot + offset) (count - tot)) (\<lambda>bs.
     let (result, w) = write_op E fd bs w;
         tot = (if 0 < result then tot + result else tot)
     in if tot < count \<and> result < 0 \<and> errno_of E w = EINTR
        then write_loop E k fd body offset count tot w
        else Done ((result, tot), w))"

definition writeArray :: "'w posix \<Rightarrow> nat \<Rightarrow> (string \<Rightarrow> bool) \<Rightarrow> jport \<Rightarrow> u8 list \<Rightarrow> int \<Rightarrow> int \<Rightarrow> 'w
    \<Rightarrow> (jexc option \<times> 'w) run" where
  "writeArray E ef fc jp body offset count w =
     run_bind (write_loop E ef (j_fd jp) body offset count 0 w) (\<lambda>((result, tot), w).
     if result < 0 then Done (io_error E fc ''writeArray'' w, w) else Done (None, w))"

fun drain_retry :: "'w posix \<Rightarrow> nat \<Rightarrow> fd \<Rightarrow> 'w \<Rightarrow> int \<times> 'w" where
  \<comment> \<open>\<open>do { result = tcdrain(fd); count++; } while (result && errno == EINTR && count < 3)\<close>\<close>
  "drain_retry E 0 fd w = tcdrain_op E fd w"
| "drain_retry E (Suc k) fd w =
     (let (result, w) = tcdrain_op E fd w in
      if result \<noteq> 0 \<and> errno_of E w = EINTR then drain_retry E k fd w else (result, w))"

definition build_threadsafe_eis :: "jport \<Rightarrow> event_info \<Rightarrow> event_info" where
  \<comment> \<open>a copy for the calling thread: its own environment, object and class\<close>
  "build_threadsafe_eis jp eis = eis\<lparr>ei_jclazz := True, ei_fd := j_fd jp\<rparr>"

definition nativeDrain :: "'w posix \<Rightarrow> callback \<Rightarrow> (string \<Rightarrow> bool) \<Rightarrow> event_info option \<Rightarrow> jport \<Rightarrow> bool \<Rightarrow> 'w mon
    \<Rightarrow> bool \<times> 'w mon" where
  \<comment> \<open>the pending exception is a component of the state: \<open>send_event\<close> clears it\<close>
  "nativeDrain E cb fc eis jp interrupted m =
     (let (result, w) = drain_retry E 2 (j_fd jp) (mon_w m);
          m = m\<lparr>mon_w := w\<rparr>;
          m = (if result \<noteq> 0 then m\<lparr>mon_pending := io_error E fc ''nativeDrain'' w\<rparr> else m) in
      if interrupted then (False, m)
      else case eis of
        None \<Rightarrow> (False, m)
      | Some e \<Rightarrow> if eventflags e SPE_OUTPUT_BUFFER_EMPTY \<noteq> 0
                  then (False, snd (send_event cb (build_threadsafe_eis jp e) SPE_OUTPUT_BUFFER_EMPTY 1 m)) else (False, m))"

section \<open>What a byte source promises\<close>

text \<open>
  The contract of \<open>read\<close>: \<open>consumed\<close> is everything the driver has handed out for a descriptor, in
  order. A read that returns a positive count hands out that many bytes and no more than asked for;
  waiting, sleeping and looking at the clock hand out nothing. New input may arrive at any time.
\<close>

locale byte_source =
  fixes E :: "'w posix" and live :: "fd \<Rightarrow> 'w \<Rightarrow> bool" and consumed :: "fd \<Rightarrow> 'w \<Rightarrow> u8 list"
  assumes read_bytes: "live fd w \<Longrightarrow> 0 < n \<Longrightarrow> read_op E fd n w = ((r, bs), w') \<Longrightarrow>
      live fd w' \<and> consumed fd w' = consumed fd w @ bs \<and> int (length bs) = max r 0 \<and> r \<le> n"
    and tick_quiet: "live fd w \<Longrightarrow> live fd (snd (tick_of E w)) \<and> consumed fd (snd (tick_of E w)) = consumed fd w"
    and sleep_quiet: "live fd w \<Longrightarrow> live fd (usleep_op E us w) \<and> consumed fd (usleep_op E us w) = consumed fd w"
    and select_quiet: "live fd w \<Longrightarrow> live fd (snd (select_op E fd tv w))
      \<and> consumed fd (snd (select_op E fd tv w)) = consumed fd w"
begin

lemma select_retry_quiet:
  assumes "live fd w" and "retry_eintr ef (errno_of E) (select_op E fd tv) w = Some (r, w')"
  shows "live fd w' \<and> consumed fd w' = consumed fd w"
  by (rule retry_eintr_inv [of "\<lambda>v. live fd v \<and> consumed fd v = consumed fd w", OF _ _ assms(2)])
    (use assms(1) select_quiet in \<open>auto dest: sym\<close>, metis snd_conv, metis snd_conv)

text \<open>The loop ends with the bytes it consumed in its buffer, in order.\<close>

lemma read_loop_stream:
  assumes "live fd w" and "bytes = int (length buf)" and "bytes \<le> len"
    and "\<And>w tv. retry_eintr ef (errno_of E) (select_op E fd tv) w \<noteq> None"
  shows "\<exists>r new w'. read_loop E p ef fd len timeout start k bytes buf w = Done ((r, buf @ new), w')
    \<and> live fd w' \<and> consumed fd w' = consumed fd w @ new
    \<and> (r = -1 \<or> r = bytes + int (length new) \<and> r \<le> len)"
  using assms(1-3)
proof (induction k arbitrary: bytes buf w)
  case 0
  then show ?case by (auto intro!: exI [of _ "[]"])
next
  case (Suc k)
  show ?case
  proof (cases "bytes < len")
    case False
    with Suc.prems show ?thesis by (auto intro!: exI [of _ "[]"])
  next
    case lt: True
    define now w1 where "now = fst (if 0 \<le> timeout then tick_of E w else (0, w))"
      and "w1 = snd (if 0 \<le> timeout then tick_of E w else (0, w))"
    have w1: "live fd w1" "consumed fd w1 = consumed fd w"
      using Suc.prems(1) tick_quiet by (auto simp: w1_def)
    have nw: "(if 0 \<le> timeout then tick_of E w else (0, w)) = (now, w1)" by (simp add: now_def w1_def)
    define sel where "sel = (if p = Win32 then Some (1, w1)
      else retry_eintr ef (errno_of E) (select_op E fd (select_timeout timeout now start)) w1)"
    obtain ret w2 where sel: "sel = Some (ret, w2)"
      using assms(4) unfolding sel_def by (cases "p = Win32") (auto, metis not_None_eq surj_pair)
    have w2: "live fd w2" "consumed fd w2 = consumed fd w"
      using sel w1 select_retry_quiet unfolding sel_def by (auto split: if_splits)
    obtain rr bs w3 where rd: "read_op E fd (len - bytes) w2 = ((rr, bs), w3)" by (metis surj_pair)
    have w3: "live fd w3" "consumed fd w3 = consumed fd w @ bs" "int (length bs) = max rr 0" "rr \<le> len - bytes"
      using read_bytes [OF w2(1) _ rd] lt w2(2) by auto
    have unf: "read_loop E p ef fd len timeout start (Suc k) bytes buf w =
      (if 0 \<le> timeout \<and> timeout \<le> now - start then Done ((bytes, buf), w1)
       else if ret = -1 then Done ((-1, buf), w2)
       else if 0 < ret then (if rr < 0 then Done ((-1, buf), w3)
         else if rr \<noteq> 0 then read_loop E p ef fd len timeout start k (bytes + rr) (buf @ bs) w3
         else read_loop E p ef fd len timeout start k bytes buf (usleep_op E 1000 w3))
       else read_loop E p ef fd len timeout start k bytes buf w2)"
      using lt nw sel [unfolded sel_def] rd by simp
    show ?thesis
    proof (cases "0 < rr")
      case True
      from Suc.IH [OF w3(1), of "bytes + rr" "buf @ bs"] True w3 Suc.prems(2)
      obtain r new w' where "read_loop E p ef fd len timeout start k (bytes + rr) (buf @ bs) w3
          = Done ((r, (buf @ bs) @ new), w')" "live fd w'" "consumed fd w' = consumed fd w3 @ new"
          "r = -1 \<or> r = bytes + rr + int (length new) \<and> r \<le> len" by auto
      moreover from Suc.IH [OF w2(1) Suc.prems(2,3)] obtain r2 new2 w2' where
        "read_loop E p ef fd len timeout start k bytes buf w2 = Done ((r2, buf @ new2), w2')" "live fd w2'"
        "consumed fd w2' = consumed fd w2 @ new2" "r2 = -1 \<or> r2 = bytes + int (length new2) \<and> r2 \<le> len" by auto
      ultimately show ?thesis
        using True w1 w2 w3 Suc.prems(2,3) unfolding unf
        by (auto intro: exI [of _ "[]"])
    next
      case False
      then have bs: "bs = []" using w3(3) by auto
      from Suc.IH [OF w2(1) Suc.prems(2,3)] Suc.IH [OF conjunct1 [OF sleep_quiet [OF w3(1)]] Suc.prems(2,3), of 1000]
      show ?thesis
        using False bs w1 w2 w3 Suc.prems(2,3) sleep_quiet [OF w3(1), of 1000] unfolding unf
        by (auto intro: exI [of _ "[]"])
    qed
  qed
qed

lemma read_byte_array_stream:
  assumes "live fd w" and "0 \<le> len" and "\<And>w tv. retry_eintr ef (errno_of E) (select_op E fd tv) w \<noteq> None"
  shows "\<exists>r bs w'. read_byte_array E p ef (Some eis) fd len timeout w = Done (((r, bs), eis), w')
    \<and> live fd w' \<and> consumed fd w' = consumed fd w @ bs
    \<and> (r = -1 \<or> r = int (length bs) \<and> r \<le> len)"
proof -
  define start w1 where "start = fst (if 0 \<le> timeout then tick_of E w else (0, w))"
    and "w1 = snd (if 0 \<le> timeout then tick_of E w else (0, w))"
  have nw: "(if 0 \<le> timeout then tick_of E w else (0, w)) = (start, w1)" by (simp add: start_def w1_def)
  have w1: "live fd w1" "consumed fd w1 = consumed fd w"
    using assms(1) tick_quiet by (auto simp: w1_def)
  obtain r new w' where "read_loop E p ef fd len timeout start 20 0 [] w1 = Done ((r, new), w')"
      "live fd w'" "consumed fd w' = consumed fd w1 @ new" "r = -1 \<or> r = int (length new) \<and> r \<le> len"
    using read_loop_stream [OF w1(1), of 0 "[]" len ef p timeout start 20] assms(2,3) by auto
  then show ?thesis
    using nw w1 by (auto simp: read_byte_array_def set_flag_def Let_def fun_upd_idem)
qed

end

definition ref_got :: "fd \<Rightarrow> refdev \<Rightarrow> u8 list" where
  "ref_got fd w = (case rd_lines w fd of None \<Rightarrow> [] | Some l \<Rightarrow> rl_got l)"

interpretation ref_bytes: byte_source refposix ref_live ref_got
  by unfold_locales
    (auto simp: refposix_def ref_read_def ref_defs ref_got_def Let_def split: option.splits if_splits)

section \<open>Properties\<close>

text \<open>C14. Reading, on every byte source: \<open>read_byte_array\<close> returns after at most twenty rounds; the
  buffer then holds exactly the bytes the driver handed out during the call, in order; a return value
  other than -1 is their number and at most the number asked for; and the flag for data events, switched
  off meanwhile, is what it was.\<close>

theorem read_byte_array_correct:
  assumes "byte_source E live consumed" and "live fd w" and "0 \<le> len"
    and "\<And>w tv. retry_eintr ef (errno_of E) (select_op E fd tv) w \<noteq> None"
  shows "\<exists>r bs w'. read_byte_array E p ef (Some eis) fd len timeout w = Done (((r, bs), eis), w')
    \<and> live fd w' \<and> consumed fd w' = consumed fd w @ bs
    \<and> (r = -1 \<or> r = int (length bs) \<and> r \<le> len)"
  using byte_source.read_byte_array_stream [OF assms] .

lemma ref_select_ends: "retry_eintr 1 (errno_of refposix) (select_op refposix 5 tv) w \<noteq> None"
  by (auto simp: refposix_def ref_err_def split: option.splits if_splits)

theorem read_byte_array_correct_witness:
  "\<exists>r bs w'. read_byte_array refposix Linux 1 (Some eis0) 5 2 100 ref_dev_data = Done (((r, bs), eis0), w')
    \<and> ref_got 5 w' = bs \<and> (r = -1 \<or> r = int (length bs) \<and> r \<le> 2)"
  using read_byte_array_correct [OF ref_bytes.byte_source_axioms, of 5 ref_dev_data 2 1 Linux eis0 100]
    ref_select_ends
  by (auto simp: ref_dev_data_def ref_dev0_def ref_live_def ref_got_def ref_line0_def)

text \<open>A failing read after a successful one loses data: the bytes already taken from the driver are in the
  buffer, but the result is -1, so \<open>readArray\<close> raises an exception instead of reporting them. This is the
  case even for \<open>EAGAIN\<close> and \<open>EINTR\<close>, which the code tells apart but treats alike.\<close>

theorem read_loses_after_error:
  assumes "\<And>w tv. select_op E fd tv w = (1, w)" and "timeout < 0"
    and "read_op E fd len w = ((r1, bs), w1)" and "0 < r1" and "r1 < len"
    and "read_op E fd (len - r1) w1 = ((r2, bs2), w2)" and "r2 < 0"
  shows "read_byte_array E p (Suc ef) (Some eis) fd len timeout w = Done (((-1, bs), eis), w2)"
  using assms
  by (simp add: read_byte_array_def eval_nat_numeral set_flag_def fun_upd_idem)

definition ref_torn :: "refdev posix" where
  \<comment> \<open>a driver that delivers two bytes and then fails with \<open>EAGAIN\<close>\<close>
  "ref_torn = refposix\<lparr>select_op := \<lambda>fd tv w. (1, w),
     read_op := \<lambda>fd n w. if rd_time w = 0 then ((2, [1, 2]), w\<lparr>rd_time := 1\<rparr>) else ((-1, []), ref_err EAGAIN w)\<rparr>"

theorem read_loses_after_error_witness:
  "read_byte_array ref_torn Linux 1 (Some eis0) 5 4 (-1) ref_dev0
     = Done (((-1, [1, 2]), eis0), ref_err EAGAIN (ref_dev0\<lparr>rd_time := 1\<rparr>))"
proof -
  have "read_op ref_torn 5 4 ref_dev0 = ((2, [1, 2]), ref_dev0\<lparr>rd_time := 1\<rparr>)"
    "read_op ref_torn 5 (4 - 2) (ref_dev0\<lparr>rd_time := 1\<rparr>) = ((-1, []), ref_err EAGAIN (ref_dev0\<lparr>rd_time := 1\<rparr>))"
    "select_op ref_torn 5 tv w = (1, w)" for tv w
    by (simp_all add: ref_torn_def ref_dev0_def)
  from read_loses_after_error [OF this(3) _ this(1) _ _ this(2), of "-1" Linux 0 eis0] show ?thesis by simp
qed

lemma terminated_loop_one:
  assumes "byte_source E live consumed" and "live (j_fd jp) w"
    and "\<And>w tv. retry_eintr ef (errno_of E) (select_op E (j_fd jp) tv) w \<noteq> None"
    and "terminated_loop E p ef k fc (Some eis) jp body term offset len tot w = Done (((r, e), b), w')"
  shows "r \<le> 1"
  using assms(2,4)
proof (induction k arbitrary: body tot w eis)
  case (Suc k)
  obtain r1 bs w1 where one: "read_byte_array E p ef (Some eis) (j_fd jp) 1 (j_timeout jp) w = Done (((r1, bs), eis), w1)"
      "live (j_fd jp) w1" "r1 = -1 \<or> r1 = int (length bs) \<and> r1 \<le> 1"
    using byte_source.read_byte_array_stream [OF assms(1) Suc.prems(1), of 1 ef p eis "j_timeout jp"] assms(3) by auto
  show ?case
  proof (cases "store_at body (offset + tot) bs")
    case (Done body')
    with Suc.prems(2) one(1) one(3) Suc.IH [OF one(2)] show ?thesis
      by (auto simp: Let_def split: if_splits)
  qed (use Suc.prems(2) one(1) in simp_all)
qed simp

text \<open>\<open>readTerminatedArray\<close> does not return the number of bytes read, as its comment says, but the
  result of its last one-byte read: on every byte source the value is at most 1, however much was read.\<close>

theorem read_terminated_result:
  assumes "byte_source E live consumed" and "live (j_fd jp) w"
    and "\<And>w tv. retry_eintr ef (errno_of E) (select_op E (j_fd jp) tv) w \<noteq> None"
    and "readTerminatedArray E p ef fc (Some eis) jp body offset len term w = Done (((r, e), b), w')"
  shows "r \<le> 1"
proof (cases "len < 0")
  case True
  then show ?thesis using assms(4) by (simp add: readTerminatedArray_def)
next
  case False
  then show ?thesis
    using assms(4) terminated_loop_one [OF assms(1-3)] by (simp add: readTerminatedArray_def del: terminated_loop.simps)
qed

definition ref_three :: refdev where
  "ref_three = ref_dev0\<lparr>rd_lines := [5 \<mapsto> ref_line0\<lparr>rl_in := [65, 13, 10]\<rparr>]\<rparr>"

lemmas read_loop_numeral = read_loop.simps(2) [where k = "pred_numeral n" for n, folded numeral_eq_Suc]
lemmas terminated_loop_numeral = terminated_loop.simps(2) [where k = "pred_numeral n" for n, folded numeral_eq_Suc]

lemma read_terminated_run:
  "\<exists>e w'. readTerminatedArray refposix Win32 1 (\<lambda>_. True) (Some eis0) (jport0\<lparr>j_timeout := -1\<rparr>) [0, 0, 0, 0] 0 4 [13, 10] ref_three
     = Done (((1, e), [65, 13, 10, 0]), w')"
  by (simp add: readTerminatedArray_def read_loop_numeral terminated_loop_numeral read_byte_array_def Let_def refposix_def ref_read_def
    ref_three_def ref_dev0_def ref_line0_def jport0_def ref_put_def store_at_def set_flag_def fun_upd_idem)

theorem read_terminated_result_witness:
  "\<exists>r e w'. readTerminatedArray refposix Win32 1 (\<lambda>_. True) (Some eis0) (jport0\<lparr>j_timeout := -1\<rparr>) [0, 0, 0, 0] 0 4 [13, 10] ref_three
     = Done (((r, e), [65, 13, 10, 0]), w') \<and> r \<le> 1"
proof -
  have "ref_live (j_fd (jport0\<lparr>j_timeout := -1\<rparr>)) ref_three"
    by (simp add: ref_live_def jport0_def ref_three_def)
  moreover have "retry_eintr 1 (errno_of refposix) (select_op refposix (j_fd (jport0\<lparr>j_timeout := -1\<rparr>)) tv) w \<noteq> None"
    for tv w using ref_select_ends by (simp add: jport0_def)
  ultimately show ?thesis
    using read_terminated_run read_terminated_result [OF ref_bytes.byte_source_axioms] by blast
qed

lemma write_loop_enough:
  assumes "interrupted_for (errno_of E) (write_op E fd bs) n w r w'" and "n < ef"
    and "slice body offset count = Done bs" and "0 < count"
  shows "write_loop E ef fd body offset count 0 w = Done ((r, if 0 < r then r else 0), w')"
  using assms(1,2)
proof (induction arbitrary: ef rule: interrupted_for.induct)
  case (done_now w r w')
  then show ?case using assms(3,4) by (cases ef) auto
next
  case (again w r w' n r' w'')
  then show ?case using assms(3,4) by (cases ef) auto
qed

text \<open>C29. Writing an array makes one effective \<open>write\<close>: after the calls that a signal interrupted, the result of
  the first other call decides. A negative result raises an exception; any other ends the method silently,
  also when the driver took only part of the bytes, in which case the rest is dropped.\<close>

theorem writeArray_outcome:
  assumes "slice body offset count = Done bs" and "0 < count"
    and "interrupted_for (errno_of E) (write_op E (j_fd jp) bs) n w r w'" and "n < ef"
  shows "writeArray E ef fc jp body offset count w =
    Done (if r < 0 then io_error E fc ''writeArray'' w' else None, w')"
  using write_loop_enough [OF assms(3,4,1,2)] by (simp add: writeArray_def)

definition ref_partial :: "refdev posix" where
  \<comment> \<open>a driver with room for one byte\<close>
  "ref_partial = refposix\<lparr>write_op := \<lambda>fd bs w. (1, w)\<rparr>"

theorem writeArray_outcome_witness:
  "writeArray ref_partial 1 (\<lambda>_. True) jport0 [1, 2, 3] 0 3 ref_dev0 = Done (None, ref_dev0)"
proof -
  have "interrupted_for (errno_of ref_partial) (write_op ref_partial (j_fd jport0) [1, 2, 3]) 0 ref_dev0 1 ref_dev0"
    by (rule interrupted_for.done_now) (simp_all add: ref_partial_def)
  from writeArray_outcome [OF _ _ this, of "[1, 2, 3]" 0 3 1 "\<lambda>_. True"] show ?thesis
    by (simp add: slice_def)
qed

text \<open>\<open>nativeDrain\<close> can swallow its own error: when draining fails while output-empty events are
  enabled, the exception it has just raised is cleared by sending the event, and the listener is told that
  the output is empty.\<close>

theorem drain_error_swallowed:
  assumes "tcdrain_op E (j_fd jp) (mon_w m) = (r, w')" and "r \<noteq> 0" and "errno_of E w' \<noteq> EINTR"
    and "eventflags e SPE_OUTPUT_BUFFER_EMPTY \<noteq> 0" and "eventloop_interrupted e \<le> 1"
  shows "nativeDrain E cb fc (Some e) jp False m =
    (False, m\<lparr>mon_w := w', mon_pending := None, mon_sent := mon_sent m @ [(SPE_OUTPUT_BUFFER_EMPTY, True)]\<rparr>)"
  using assms by (simp add: nativeDrain_def numeral_2_eq_2 send_event_def build_threadsafe_eis_def)

theorem drain_error_swallowed_witness:
  "mon_pending (snd (nativeDrain refposix (\<lambda>_ _. False) (\<lambda>_. True) (Some (eis0\<lparr>eventflags := \<lambda>_. 1\<rparr>))
     (jport0\<lparr>j_fd := 9\<rparr>) False mon0)) = None"
proof -
  have "tcdrain_op refposix (j_fd (jport0\<lparr>j_fd := 9\<rparr>)) (mon_w mon0) = (-1, ref_err EBADF ref_dev0)"
    "errno_of refposix (ref_err EBADF ref_dev0) \<noteq> EINTR"
    by (simp_all add: refposix_def ref_with_def mon0_def ref_dev0_def ref_err_def)
  from drain_error_swallowed [OF this(1) _ this(2), of "eis0\<lparr>eventflags := \<lambda>_. 1\<rparr>" "\<lambda>_ _. False" "\<lambda>_. True"]
  show ?thesis by (simp add: eis0_def)
qed

end
