(* ===== verification/Lock_Daemon.thy ===== *)
theory Lock_Daemon
  imports Lock_Files
begin

text \<open>
  The lock file server \<open>lfd/lockdaemon.c\<close> and its client in \<open>SerialImp.c\<close>. The server keeps the same
  lock files on behalf of its clients: a client sends \<open>lock <device> <pid>\<close> or
  \<open>unlock <device> <pid>\<close> and gets a status line, 200 or 450. The server's copies of the locking
  functions differ from those of the library in several places, so they are modelled again.
\<close>

section \<open>The server's locking functions\<close>

record ident =
  \<comment> \<open>\<open>getpwuid(geteuid())\<close> with its \<open>pw_gid\<close>, the supplementary groups, the effective user, and
    the group of the lock directory\<close>
  id_pw_gid :: "nat option"
  id_groups :: "nat list"
  id_euid :: nat
  id_lock_gid :: nat

definition lfd_check_group_uucp :: "ident \<Rightarrow> fsys \<Rightarrow> int run" where
  \<comment> \<open>when no group matches the loop ends with \<open>group_count = -1\<close>, and \<open>list[-1]\<close> is read\<close>
  "lfd_check_group_uucp I s =
     (if \<not> fs_exists (LOCKDIR linux_conf) s then Done 1
      else case id_pw_gid I of
        None \<Rightarrow> Fault
      | Some g \<Rightarrow> if g = 0 then Done 0
                  else if id_lock_gid I \<in> set (id_groups I @ [id_euid I]) then Done 0
                  else Fault)"

definition lfd_unexpected_lock :: "uninit \<Rightarrow> string \<Rightarrow> fsys \<Rightarrow> bool" where
  "lfd_unexpected_lock u port_filename s \<longleftrightarrow>
     list_ex (\<lambda>d. fs_exists d s \<and> take (length d) (LOCKDIR linux_conf) \<noteq> d \<and>
       list_ex (\<lambda>k. fs_exists (d @ ''/'' @ k @ base_of port_filename) s
         \<or> fs_exists (d @ ''/'' @ k @ dev_name (case fs_stat port_filename s of
               None \<Rightarrow> u_buf u | Some n \<Rightarrow> n)) s) lockprefixes) (lockdirs linux_conf)"

definition lfd_is_device_locked :: "uninit \<Rightarrow> string \<Rightarrow> fsys \<Rightarrow> int \<times> fsys" where
  "lfd_is_device_locked u port_filename s =
     (let file = LOCKDIR linux_conf @ ''/'' @ LOCKFILEPREFIX linux_conf @ base_of port_filename in
      if lfd_unexpected_lock u port_filename s then (1, s)
      else if \<not> fs_exists file s then (0, s)
      else if fs_gone s (sscanf_d (pid_text file u s) (u_pid u))
      then (let (r, s) = fs_unlink file s in if r \<noteq> 0 then (0, s) else (0, s))
      else (1, s))"

definition lfd_check_lock_status :: "ident \<Rightarrow> uninit \<Rightarrow> string \<Rightarrow> fsys \<Rightarrow> (int \<times> fsys) run" where
  "lfd_check_lock_status I u filename s =
     (if \<not> fs_exists (LOCKDIR linux_conf) s then Done (1, s)
      else run_bind (lfd_check_group_uucp I s) (\<lambda>g.
      if g \<noteq> 0 then Done (1, s)
      else let (r, s) = lfd_is_device_locked u filename s in
      if r \<noteq> 0 then Done (1, s) else Done (0, s)))"

definition lfd_fhs_lock :: "ident \<Rightarrow> uninit \<Rightarrow> string \<Rightarrow> int \<Rightarrow> fsys \<Rightarrow> (int \<times> fsys) run" where
  \<comment> \<open>\<open>lockinfo[12]\<close>; the file gets the process number of the request\<close>
  "lfd_fhs_lock I u filename pid s =
     run_bind (lfd_check_lock_status I u filename s) (\<lambda>(r, s).
     if r \<noteq> 0 then Done (1, s)
     else if fs_exists (fhs_file linux_conf filename) s \<or> \<not> fs_can_create s (fhs_file linux_conf filename)
     then Done (1, s)
     else if 12 \<le> length (lockinfo pid) then Fault
     else Done (0, s\<lparr>fs_file := (fs_file s)(fhs_file linux_conf filename \<mapsto> lockinfo pid)\<rparr>))"

definition lfd_check_lock_pid :: "uninit \<Rightarrow> string \<Rightarrow> int \<Rightarrow> fsys \<Rightarrow> int run" where
  \<comment> \<open>the message of \<open>char message[80]\<close> is formatted before the 1 is returned\<close>
  "lfd_check_lock_pid u file openpid s =
     (if fs_file s file = None \<or> \<not> fs_can_read s file then Done 1
      else let buf = take 11 (pid_text file u s); lockpid = atoi buf in
      if lockpid \<noteq> openpid then
        (if fs_gone s lockpid then Done 0
         else if 80 \<le> length (''check_lock_pid: lock = '' @ buf @ '' pid = '' @ dec_int (fs_pid s) @ '' gpid=''
                  @ dec_int (fs_ppid s) @ '' openpid='' @ dec_int openpid) + 1 then Fault
         else Done 1)
      else Done 0)"

definition lfd_fhs_unlock :: "uninit \<Rightarrow> string \<Rightarrow> int \<Rightarrow> fsys \<Rightarrow> (int \<times> fsys) run" where
  "lfd_fhs_unlock u filename openpid s =
     (let file = fhs_file linux_conf filename in
      if 80 \<le> length (''fhs_unlock '' @ filename) + 1 \<or> 80 \<le> length file then Fault
      else if \<not> fs_exists filename s then Done (0, s)
      else run_bind (lfd_check_lock_pid u file openpid s) (\<lambda>r.
        if r = 0 then Done (0, snd (fs_unlink file s)) else Done (1, s)))"

definition lfd_uucp_lock :: "ident \<Rightarrow> uninit \<Rightarrow> string \<Rightarrow> int \<Rightarrow> fsys \<Rightarrow> (int \<times> fsys) run" where
  "lfd_uucp_lock I u filename pid s =
     (if 80 \<le> length (''uucp_lock( '' @ filename @ '' );'') + 1 then Fault
      else run_bind (lfd_check_lock_status I u filename s) (\<lambda>(r, s).
      if r \<noteq> 0 then Done (1, s)
      else if \<not> fs_exists (LOCKDIR linux_conf) s then Done (1, s)
      else case fs_stat filename s of
        None \<Rightarrow> Fault
      | Some n \<Rightarrow>
          let file = uucp_file linux_conf n in
          if 80 \<le> length file \<or> 12 \<le> length (lockinfo pid) then Fault
          else if fs_exists file s
          then (if 80 \<le> length (''RXTX uucp_lock() '' @ file @ '' is there'') + 1 then Fault else Done (1, s))
          else case fs_creat_excl file (lockinfo pid) s of
                 None \<Rightarrow> (if 80 \<le> length (''RXTX uucp_lock() Error: creating lock file: '' @ file) + 1
                          then Fault else Done (1, s))
               | Some s' \<Rightarrow> Done (0, s')))"

definition lfd_uucp_unlock :: "uninit \<Rightarrow> string \<Rightarrow> int \<Rightarrow> fsys \<Rightarrow> fsys run" where
  "lfd_uucp_unlock u filename openpid s =
     (if 80 \<le> length (''uucp_unlock( '' @ filename @ '' );'') + 1 then Fault
      else case fs_stat filename s of
        None \<Rightarrow> Done s
      | Some n \<Rightarrow>
          let file = uucp_file linux_conf n in
          if 80 \<le> length file then Fault
          else if \<not> fs_exists file s then Done s
          else run_bind (lfd_check_lock_pid u file openpid s) (\<lambda>r.
            if r = 0
            then (if 80 \<le> length (''uucp_unlock: unlinking '' @ file) + 1 then Fault
                  else Done (snd (fs_unlink file s)))
            else (if 80 \<le> length (''uucp_unlock: unlinking failed '' @ file) + 1 then Fault else Done s)))"

section \<open>Requests\<close>

abbreviation NUL :: char where "NUL \<equiv> char_of (0::nat)"
abbreviation NL :: char where "NL \<equiv> char_of (10::nat)"

definition M200 :: string where "M200 = ''200 Command okay.'' @ [NL]"
definition M450 :: string where "M450 = ''450 : File busy.'' @ [NL]"
definition M220 :: "string \<Rightarrow> string" where
  "M220 hostname = ''220 '' @ hostname @ '' Lock File Server (Version rxtx-1.5-9) ready'' @ [NL]"
definition M221 :: "string \<Rightarrow> string" where
  "M221 hostname = ''221 Thank you for using the Lock File service on '' @ hostname @ [NL]"
definition M500 :: "string \<Rightarrow> string" where
  "M500 str = ''500 '' @ [char_of (39::nat)] @ str @ [char_of (39::nat)] @ '': command not understood'' @ [NL]"

definition c_string :: "string \<Rightarrow> string" where
  "c_string b = takeWhile (\<lambda>c. c \<noteq> NUL) b"

definition lower :: "char \<Rightarrow> char" where
  "lower c = (if 65 \<le> (of_char c :: nat) \<and> (of_char c :: nat) \<le> 90 then char_of (of_char c + 32 :: nat) else c)"

definition starts_ci :: "string \<Rightarrow> string \<Rightarrow> bool" where
  \<comment> \<open>\<open>!strncasecmp(b, w, strlen(w))\<close> for a lower case word \<open>w\<close>\<close>
  "starts_ci w b \<longleftrightarrow> map lower (take (length w) b) = w"

definition read_request :: "string \<Rightarrow> string option \<Rightarrow> string \<times> int" where
  \<comment> \<open>\<open>ret = read(1, str, 80)\<close> and the terminator, over the old contents of \<open>str\<close>; \<open>None\<close> is a failing
    read\<close>
  "read_request str0 input =
     (let ret = (case input of None \<Rightarrow> -1 | Some m \<Rightarrow> int (min 80 (length m)));
          b = (case input of None \<Rightarrow> str0 | Some m \<Rightarrow> take 80 m @ drop (min 80 (length m)) str0)
      in (if ret < 80 \<and> 1 < ret then b[nat ret := NUL] else b[79 := NUL], ret))"

definition parse_request :: "string \<Rightarrow> (string \<times> int) option run" where
  \<comment> \<open>the words behind the command: up to a space, then up to a newline; \<open>Done None\<close> when there is no
    space, \<open>Fault\<close> when a scan leaves the buffer\<close>
  "parse_request b =
     (let name = takeWhile (\<lambda>c. c \<noteq> CHR '' '' \<and> c \<noteq> NUL) b; rest = drop (length name) b in
      if rest = [] then Fault
      else if hd rest = NUL then Done None
      else let num = takeWhile (\<lambda>c. c \<noteq> NL \<and> c \<noteq> NUL) (tl rest) in
        if length num = length (tl rest) then Fault else Done (Some (name, atoi num)))"

definition process_requests ::
  "ident \<Rightarrow> uninit \<Rightarrow> string \<Rightarrow> string \<Rightarrow> string option \<Rightarrow> fsys \<Rightarrow> ((int \<times> string list) \<times> fsys) run" where
  \<comment> \<open>one request: whether the session ends, what was written to the client, the new state\<close>
  "process_requests I u hostname str0 input s =
     (let (b, ret) = read_request str0 input in
      if starts_ci ''quit'' b then
        (if 80 \<le> length (M221 hostname) then Fault else Done ((1, [M221 hostname]), s))
      else if starts_ci ''lock'' b then
        run_bind (parse_request (drop 5 b)) (\<lambda>q. case q of
            None \<Rightarrow> Done ((0, [M450]), s)
          | Some (p, pid) \<Rightarrow> run_bind (lfd_fhs_lock I u p pid s) (\<lambda>(r, s).
              Done ((0, [if r \<noteq> 0 then M450 else M200]), s)))
      else if starts_ci ''unlock'' b then
        run_bind (parse_request (drop 7 b)) (\<lambda>q. case q of
            None \<Rightarrow> Done ((0, [''q=0'' @ [NL], M450]), s)
          | Some (p, pid) \<Rightarrow> run_bind (lfd_fhs_unlock u p pid s) (\<lambda>(r, s).
              Done ((0, [if r \<noteq> 0 then M450 else M200]), s)))
      else if ret < 2 then Fault
      else let str = c_string (b[nat (ret - 2) := NUL]) in
        if 80 \<le> length (M500 str) then Fault else Done ((0, [M500 str]), s))"

fun serve :: "ident \<Rightarrow> uninit \<Rightarrow> string \<Rightarrow> string \<Rightarrow> string list \<Rightarrow> fsys \<Rightarrow> (string list \<times> fsys) run" where
  \<comment> \<open>the loop of \<open>main\<close> on the requests of a session\<close>
  "serve I u hostname str0 [] s = Done ([], s)"
| "serve I u hostname str0 (m # ms) s =
     run_bind (process_requests I u hostname str0 (Some m) s) (\<lambda>((stop, out), s).
       if stop \<noteq> 0 then Done (out, s)
       else run_bind (serve I u hostname str0 ms s) (\<lambda>(rest, s). Done (out @ rest, s)))"

definition lfd_main :: "ident \<Rightarrow> uninit \<Rightarrow> string \<Rightarrow> string \<Rightarrow> string list \<Rightarrow> fsys \<Rightarrow> (string list \<times> fsys) run" where
  \<comment> \<open>the greeting in \<open>str[128]\<close>, then the requests\<close>
  "lfd_main I u hostname str0 ms s =
     (if 128 \<le> length (M220 hostname) then Fault
      else run_bind (serve I u hostname str0 ms s) (\<lambda>(out, s). Done (M220 hostname # out, s)))"

section \<open>The client\<close>

definition lock_message :: "string \<Rightarrow> int \<Rightarrow> string" where
  "lock_message filename pid = ''lock '' @ filename @ '' '' @ dec_int pid @ [NL]"

definition unlock_message :: "string \<Rightarrow> int \<Rightarrow> string" where
  "unlock_message filename pid = ''unlock '' @ filename @ '' '' @ dec_int pid @ [NL]"

definition lfs_lock :: "bool \<Rightarrow> ident \<Rightarrow> uninit \<Rightarrow> string \<Rightarrow> string \<Rightarrow> string \<Rightarrow> int \<Rightarrow> fsys \<Rightarrow> (int \<times> fsys) run" where
  \<comment> \<open>\<open>connected\<close>: \<open>socket\<close> and \<open>connect\<close> succeed; the greeting is read, the request sent, and the first character of the
    answer decides\<close>
  "lfs_lock connected I u hostname str0 filename pid s =
     (if \<not> connected then Done (1, s)
      else if 1024 \<le> length (lock_message filename pid) then Fault
      else run_bind (lfd_main I u hostname str0 [lock_message filename pid, ''quit'' @ [NL]] s) (\<lambda>(out, s).
        Done (if 1 < length out \<and> out ! 1 \<noteq> [] \<and> hd (out ! 1) = CHR ''2'' then 0 else 1, s)))"

definition lfs_unlock :: "bool \<Rightarrow> ident \<Rightarrow> uninit \<Rightarrow> string \<Rightarrow> string \<Rightarrow> string \<Rightarrow> int \<Rightarrow> fsys \<Rightarrow> (int \<times> fsys) run" where
  \<comment> \<open>the client reads only once, so what it looks at is the greeting; it does not wait for the answer. The server's
    state in the result is the one once the session has been served, which may be after the client has returned\<close>
  "lfs_unlock connected I u hostname str0 filename pid s =
     (if \<not> connected then Done (1, s)
      else if 1024 \<le> length (unlock_message filename pid) then Fault
      else run_bind (lfd_main I u hostname str0 [unlock_message filename pid, ''quit'' @ [NL]] s) (\<lambda>(out, s).
        Done (if out \<noteq> [] \<and> hd out \<noteq> [] \<and> hd (hd out) = CHR ''2'' then 0 else 1, s)))"

section \<open>Requests and their parsing\<close>

lemma atoi_digits: "int n < 2^31 \<Longrightarrow> atoi (digits_of n) = int n"
proof -
  assume n: "int n < 2^31"
  obtain c cs where d: "digits_of n = c # cs" by (cases "digits_of n") auto
  have dig: "is_dig c" using digits_of_dig [of n] by (simp add: d)
  have "skip_ws (c # cs) = c # cs" by (rule is_dig_not_space [OF dig])
  moreover have "c \<noteq> CHR ''-''" "c \<noteq> CHR ''+''" using dig by (auto simp: is_dig_def)
  ultimately show ?thesis
    using n read_digits_of [of n] by (simp add: atoi_def d to_int32_id)
qed

lemma dec_int_good:
  assumes "good_pid q"
  shows "dec_int q = digits_of (nat q)" and "atoi (dec_int q) = q" and "\<forall>c \<in> set (dec_int q). is_dig c"
    and "length (dec_int q) \<le> 10"
proof -
  show d: "dec_int q = digits_of (nat q)" using assms by (simp add: dec_int_def good_pid_def)
  have "nat q < 10 ^ 10" using assms by (auto simp: good_pid_def)
  then show "atoi (dec_int q) = q" "\<forall>c \<in> set (dec_int q). is_dig c" "length (dec_int q) \<le> 10"
    using assms atoi_digits [of "nat q"] digits_of_dig length_digits_of [of "nat q" 10]
    by (auto simp: d good_pid_def)
qed

lemma blank_neq_NUL [simp]: "CHR '' '' \<noteq> NUL"
  by code_simp

definition good_name :: "string \<Rightarrow> bool" where
  \<comment> \<open>a device name that survives the protocol\<close>
  "good_name n \<longleftrightarrow> length n < 50 \<and> CHR '' '' \<notin> set n \<and> NUL \<notin> set n"

lemma read_request_short:
  assumes "1 < length m" and "length m < 80" and "length str0 = 80"
  shows "read_request str0 (Some m) = (m @ NUL # drop (Suc (length m)) str0, int (length m))"
proof -
  have "drop (length m) str0 \<noteq> []" using assms by simp
  then obtain x xs where x: "drop (length m) str0 = x # xs" by (cases "drop (length m) str0") auto
  then have "xs = drop (Suc (length m)) str0"
    by (metis drop_Suc list.sel(3) tl_drop)
  with x show ?thesis
    using assms by (simp add: read_request_def list_update_append)
qed

text \<open>The server reads back what the client wrote.\<close>

lemma parse_request_good:
  assumes "good_name n" and "good_pid q"
  shows "parse_request (n @ CHR '' '' # dec_int q @ NL # x # xs) = Done (Some (n, q))"
proof -
  have "takeWhile (\<lambda>c. c \<noteq> CHR '' '' \<and> c \<noteq> NUL) (n @ CHR '' '' # dec_int q @ NL # x # xs) = n"
    using assms(1) by (subst takeWhile_append2) (auto simp: good_name_def)
  moreover have "takeWhile (\<lambda>c. c \<noteq> NL \<and> c \<noteq> NUL) (dec_int q @ NL # x # xs) = dec_int q"
    using dec_int_good(3) [OF assms(2)] by (subst takeWhile_append2) (auto simp: is_dig_def)
  ultimately show ?thesis
    using dec_int_good(2) [OF assms(2)] by (simp add: parse_request_def Let_def)
qed

lemma lower_quit: "map lower ''quit'' = ''quit''" "map lower ''lock'' = ''lock''" "map lower ''unlo'' = ''unlo''"
  "map lower ''unlock'' = ''unlock''"
  by (simp_all add: lower_def)

lemma process_lock:
  assumes "good_name n" and "good_pid q" and "length str0 = 80"
  shows "process_requests I u hostname str0 (Some (lock_message n q)) s =
    run_bind (lfd_fhs_lock I u n q s) (\<lambda>(r, s). Done ((0, [if r \<noteq> 0 then M450 else M200]), s))"
proof -
  have len: "1 < length (lock_message n q)" "length (lock_message n q) < 80"
    using assms(1) dec_int_good(4) [OF assms(2)] by (simp_all add: lock_message_def good_name_def)
  have b: "fst (read_request str0 (Some (lock_message n q)))
      = ''lock '' @ n @ CHR '' '' # dec_int q @ NL # NUL # drop (Suc (length (lock_message n q))) str0"
    using read_request_short [OF len assms(3)] by (simp add: lock_message_def)
  then have "\<not> starts_ci ''quit'' (fst (read_request str0 (Some (lock_message n q))))"
    and "starts_ci ''lock'' (fst (read_request str0 (Some (lock_message n q))))"
    and "parse_request (drop 5 (fst (read_request str0 (Some (lock_message n q))))) = Done (Some (n, q))"
    using parse_request_good [OF assms(1,2)] by (simp_all add: b starts_ci_def lower_def)
  then show ?thesis
    by (simp add: process_requests_def case_prod_beta)
qed

lemma process_unlock:
  assumes "good_name n" and "good_pid q" and "length str0 = 80"
  shows "process_requests I u hostname str0 (Some (unlock_message n q)) s =
    run_bind (lfd_fhs_unlock u n q s) (\<lambda>(r, s). Done ((0, [if r \<noteq> 0 then M450 else M200]), s))"
proof -
  have len: "1 < length (unlock_message n q)" "length (unlock_message n q) < 80"
    using assms(1) dec_int_good(4) [OF assms(2)] by (simp_all add: unlock_message_def good_name_def)
  have b: "fst (read_request str0 (Some (unlock_message n q)))
      = ''unlock '' @ n @ CHR '' '' # dec_int q @ NL # NUL # drop (Suc (length (unlock_message n q))) str0"
    using read_request_short [OF len assms(3)] by (simp add: unlock_message_def)
  then have "\<not> starts_ci ''quit'' (fst (read_request str0 (Some (unlock_message n q))))"
    and "\<not> starts_ci ''lock'' (fst (read_request str0 (Some (unlock_message n q))))"
    and "starts_ci ''unlock'' (fst (read_request str0 (Some (unlock_message n q))))"
    and "parse_request (drop 7 (fst (read_request str0 (Some (unlock_message n q))))) = Done (Some (n, q))"
    using parse_request_good [OF assms(1,2)] by (simp_all add: b starts_ci_def lower_def)
  then show ?thesis
    by (simp add: process_requests_def case_prod_beta)
qed

lemma process_quit:
  assumes "length hostname < 30" and "length str0 = 80"
  shows "process_requests I u hostname str0 (Some (''quit'' @ [NL])) s = Done ((1, [M221 hostname]), s)"
proof -
  have "starts_ci ''quit'' (fst (read_request str0 (Some (''quit'' @ [NL]))))"
    using read_request_short [of "''quit'' @ [NL]" str0] assms(2) by (simp add: starts_ci_def lower_def)
  then show ?thesis
    using assms(1) by (simp add: process_requests_def case_prod_beta M221_def)
qed

text \<open>A session of one request, seen by the client.\<close>

lemma lfs_lock_is:
  assumes "good_name n" and "good_pid q" and "length str0 = 80" and "length hostname < 30"
  shows "lfs_lock True I u hostname str0 n q s =
    run_bind (lfd_fhs_lock I u n q s) (\<lambda>(r, s). Done (if r = 0 then 0 else 1, s))"
proof -
  have "length (lock_message n q) < 1024" "length (M220 hostname) < 128"
    using assms dec_int_good(4) [OF assms(2)] by (simp_all add: lock_message_def good_name_def M220_def)
  then show ?thesis
    using process_lock [OF assms(1-3)] process_quit [OF assms(4,3)]
    by (cases "lfd_fhs_lock I u n q s")
      (auto simp: lfs_lock_def lfd_main_def M200_def M450_def split: prod.splits)
qed

lemma lfs_unlock_is:
  assumes "good_name n" and "good_pid q" and "length str0 = 80" and "length hostname < 30"
  shows "lfs_unlock True I u hostname str0 n q s =
    run_bind (lfd_fhs_unlock u n q s) (\<lambda>(r, s). Done (0, s))"
proof -
  have "length (unlock_message n q) < 1024" "length (M220 hostname) < 128"
    using assms dec_int_good(4) [OF assms(2)] by (simp_all add: unlock_message_def good_name_def M220_def)
  then show ?thesis
    using process_unlock [OF assms(1-3)] process_quit [OF assms(4,3)]
    by (cases "lfd_fhs_unlock u n q s")
      (auto simp: lfs_unlock_def lfd_main_def M220_def split: prod.splits)
qed

section \<open>The server as a lock service\<close>

definition lfd_ok :: "ident \<Rightarrow> uninit \<Rightarrow> string \<Rightarrow> fsys \<Rightarrow> bool" where
  \<comment> \<open>the server may use the lock directory, nobody keeps locks for the device elsewhere, and a lock
    file that is there has the library's format\<close>
  "lfd_ok I u n s \<longleftrightarrow> good_name n
   \<and> fs_ino s (LOCKDIR linux_conf) \<noteq> None \<and> fs_dev s n \<noteq> None \<and> lfd_check_group_uucp I s = Done 0
   \<and> \<not> lfd_unexpected_lock u n s
   \<and> (let f = fhs_file linux_conf n in
       fs_can_create s f \<and> fs_can_read s f \<and> fs_can_unlink s f \<and> fs_dev s f = None \<and> fs_ino s f = None
       \<and> (case fs_file s f of None \<Rightarrow> True | Some c \<Rightarrow> good_pid (atoi c) \<and> c = lockinfo (atoi c)))"

definition lfd_valid :: "int \<Rightarrow> fsys \<Rightarrow> bool" where
  "lfd_valid q s \<longleftrightarrow> good_pid q \<and> \<not> fs_gone s q"

definition lfd_mine :: "string \<Rightarrow> int \<Rightarrow> fsys \<Rightarrow> bool" where
  "lfd_mine n q s \<longleftrightarrow> fs_file s (fhs_file linux_conf n) = Some (lockinfo q)"

lemma base_of_shorter: "length (base_of n) \<le> length n"
proof -
  have "length (walk_back r t) \<le> length r + length t" for r t
    by (induction r t rule: walk_back.induct) auto
  from this [of "rev n" "[]"] show ?thesis by (simp add: base_of_def)
qed

lemma lfd_unexpected_frame:
  assumes "fs_dev s n \<noteq> None" and "f = fhs_file linux_conf m"
  shows "lfd_unexpected_lock u n (s\<lparr>fs_file := (fs_file s)(f := v)\<rparr>) = lfd_unexpected_lock u n s"
proof -
  let ?s' = "s\<lparr>fs_file := (fs_file s)(f := v)\<rparr>"
  have st: "fs_stat n ?s' = fs_stat n s" using assms(1) by (auto simp: fs_stat_def)
  have ex: "fs_exists d ?s' = fs_exists d s" "fs_exists (d @ ''/'' @ x) ?s' = fs_exists (d @ ''/'' @ x) s"
    if "d \<in> set (lockdirs linux_conf)" "take (length d) (LOCKDIR linux_conf) \<noteq> d" for d x
    using that assms(2) by (auto simp: lockdirs_def linux_conf_def fhs_file_def)
  show ?thesis
    unfolding lfd_unexpected_lock_def st list_ex_iff using ex by blast
qed

lemma lfd_ok_upd:
  assumes "lfd_ok I u n s" and "v = None \<or> (\<exists>q. v = Some (lockinfo q) \<and> good_pid q)"
  shows "lfd_ok I u n (s\<lparr>fs_file := (fs_file s)(fhs_file linux_conf n := v)\<rparr>)"
proof -
  have dir: "fs_exists (LOCKDIR linux_conf) (s\<lparr>fs_file := x\<rparr>)" "fs_exists (LOCKDIR linux_conf) s" for x
    using assms(1) by (auto simp: lfd_ok_def fs_exists_def fs_stat_def split: option.splits)
  then have "lfd_check_group_uucp I (s\<lparr>fs_file := x\<rparr>) = lfd_check_group_uucp I s" for x
    by (simp add: lfd_check_group_uucp_def)
  then show ?thesis
    using assms lfd_unexpected_frame [of s n "fhs_file linux_conf n" n u v]
    by (auto simp: lfd_ok_def Let_def lockinfo_good)
qed

lemma lfd_status:
  assumes "lfd_ok I u n s"
  shows "lfd_check_lock_status I u n s = Done (if fhs_held n s then (1, s)
    else (0, s\<lparr>fs_file := (fs_file s)(fhs_file linux_conf n := None)\<rparr>))"
proof -
  define f where "f = fhs_file linux_conf n"
  have ff: "LOCKDIR linux_conf @ ''/'' @ LOCKFILEPREFIX linux_conf @ base_of n = f"
    by (simp add: f_def fhs_file_def linux_conf_def)
  have dir: "fs_exists (LOCKDIR linux_conf) s"
    using assms by (auto simp: lfd_ok_def fs_exists_def fs_stat_def split: option.splits)
  have grp: "lfd_check_group_uucp I s = Done 0" and un: "\<not> lfd_unexpected_lock u n s"
    and f: "fs_dev s f = None" "fs_ino s f = None" "fs_can_read s f" "fs_can_unlink s f"
    using assms by (simp_all add: lfd_ok_def Let_def f_def)
  show ?thesis
  proof (cases "fs_file s f")
    case None
    then have same: "s\<lparr>fs_file := (fs_file s)(f := None)\<rparr> = s" by (simp add: fun_upd_idem)
    show ?thesis
      using None dir grp un f ff same
      by (simp add: lfd_check_lock_status_def lfd_is_device_locked_def fs_exists_def [of f] fs_stat_def
        fhs_held_def held_file_def f_def [symmetric])
  next
    case (Some c)
    define q where "q = atoi c"
    have c: "c = lockinfo q" "good_pid q"
      using assms Some by (auto simp: lfd_ok_def Let_def f_def q_def)
    have "pid_text f u s = lockinfo q @ drop 11 (u_pidbuf u)"
      using Some f c lockinfo_good(1) [OF c(2)] by (simp add: pid_text_def)
    then have "sscanf_d (pid_text f u s) (u_pid u) = q"
      using lockinfo_good(3) [OF c(2)] by simp
    then show ?thesis
      using Some dir grp un f ff c(1) lockinfo_good(2) [OF c(2)]
      by (simp add: lfd_check_lock_status_def lfd_is_device_locked_def fs_exists_def [of f] fs_stat_def
        fhs_held_def held_file_def f_def [symmetric] fs_unlink_def)
  qed
qed

lemma lfd_fhs_lock_exact:
  assumes "lfd_ok I u n s" and "good_pid q"
  shows "lfd_fhs_lock I u n q s = Done (if fhs_held n s then (1, s)
    else (0, s\<lparr>fs_file := (fs_file s)(fhs_file linux_conf n \<mapsto> lockinfo q)\<rparr>))"
  using assms lfd_status [OF assms(1)] lockinfo_good(1) [OF assms(2)]
  by (simp add: lfd_fhs_lock_def lfd_ok_def Let_def fs_exists_def fs_stat_def)

lemma lfd_fhs_unlock_mine:
  assumes "lfd_ok I u n s" and "good_pid q" and "lfd_mine n q s"
  shows "lfd_fhs_unlock u n q s = Done (0, s\<lparr>fs_file := (fs_file s)(fhs_file linux_conf n := None)\<rparr>)"
proof -
  have len: "length n < 50" and ex: "fs_exists n s"
    using assms(1) by (auto simp: lfd_ok_def good_name_def fs_exists_def fs_stat_def)
  have "length (fhs_file linux_conf n) < 80"
    using len base_of_shorter [of n] by (simp add: fhs_file_def linux_conf_def)
  moreover have "lfd_check_lock_pid u (fhs_file linux_conf n) q s = Done 0"
    using assms lockinfo_good [OF assms(2)]
    by (simp add: lfd_check_lock_pid_def lfd_mine_def lfd_ok_def Let_def pid_text_def)
  ultimately show ?thesis
    using len ex assms by (simp add: lfd_fhs_unlock_def Let_def fs_unlink_def lfd_mine_def lfd_ok_def)
qed

definition lfs_host :: "string \<Rightarrow> string \<Rightarrow> bool" where
  \<comment> \<open>the server's name fits its buffers, and \<open>str\<close> has 80 bytes\<close>
  "lfs_host hostname str0 \<longleftrightarrow> length hostname < 30 \<and> length str0 = 80"

locale lock_server =
  fixes hostname str0 :: string
  assumes host: "lfs_host hostname str0"
begin

lemma lfs_lock_exact:
  assumes "lfd_ok I u n s" and "good_pid q"
  shows "lfs_lock True I u hostname str0 n q s = Done (if fhs_held n s then (1, s)
    else (0, s\<lparr>fs_file := (fs_file s)(fhs_file linux_conf n \<mapsto> lockinfo q)\<rparr>))"
  using host assms lfs_lock_is [of n q str0 hostname] lfd_fhs_lock_exact [OF assms]
  by (simp add: lfs_host_def lfd_ok_def)

lemma lfs_unlock_mine:
  assumes "lfd_ok I u n s" and "good_pid q" and "lfd_mine n q s"
  shows "lfs_unlock True I u hostname str0 n q s
    = Done (0, s\<lparr>fs_file := (fs_file s)(fhs_file linux_conf n := None)\<rparr>)"
  using host assms lfs_unlock_is [of n q str0 hostname] lfd_fhs_unlock_mine [OF assms]
  by (simp add: lfs_host_def lfd_ok_def)

end

sublocale lock_server \<subseteq> lfs: lock_service "lfs_lock True I u hostname str0"
  "\<lambda>n q s. run_bind (lfs_unlock True I u hostname str0 n q s) (\<lambda>(r, s). Done s)"
  "lfd_ok I u" lfd_valid fhs_held lfd_mine for I u
proof
  fix n s q
  assume ok: "lfd_ok I u n s" and v: "lfd_valid q s"
  then have q: "good_pid q" "\<not> fs_gone s q" by (simp_all add: lfd_valid_def)
  { assume "\<not> fhs_held n s"
    then show "\<exists>s'. lfs_lock True I u hostname str0 n q s = Done (0, s') \<and> lfd_ok I u n s' \<and> lfd_mine n q s'
        \<and> (\<forall>q. lfd_valid q s' = lfd_valid q s)"
      using lfs_lock_exact [OF ok q(1)] lfd_ok_upd [OF ok, of "Some (lockinfo q)"] q(1)
      by (auto simp: lfd_mine_def lfd_valid_def) }
  { assume "fhs_held n s"
    then show "\<exists>r. r \<noteq> 0 \<and> lfs_lock True I u hostname str0 n q s = Done (r, s)"
      using lfs_lock_exact [OF ok q(1)] by simp }
  { assume m: "lfd_mine n q s"
    show "\<exists>s'. run_bind (lfs_unlock True I u hostname str0 n q s) (\<lambda>(r, s). Done s) = Done s' \<and> lfd_ok I u n s'
        \<and> \<not> fhs_held n s' \<and> (\<forall>q. lfd_valid q s' = lfd_valid q s)"
      using lfs_unlock_mine [OF ok q(1) m] lfd_ok_upd [OF ok, of None]
      by (auto simp: lfd_valid_def fhs_held_def held_file_def)
    show "fhs_held n s"
      using m q lockinfo_good(2) [OF q(1)] by (simp add: fhs_held_def held_file_def lfd_mine_def) }
qed

context lock_server
begin

lemma lfs_cycle:
  assumes "lfd_ok I u n s" and "lfd_valid q s" and "lfd_valid q' s" and "\<not> fhs_held n s"
  shows "\<exists>s1 s2 s3. lfs_lock True I u hostname str0 n q s = Done (0, s1)
    \<and> (\<exists>r. r \<noteq> 0 \<and> lfs_lock True I u hostname str0 n q' s1 = Done (r, s1))
    \<and> lfs_unlock True I u hostname str0 n q s1 = Done (0, s2)
    \<and> lfs_lock True I u hostname str0 n q' s2 = Done (0, s3)"
proof -
  obtain s1 s2 s3 where c: "lfs_lock True I u hostname str0 n q s = Done (0, s1)"
      "\<And>q. lfd_valid q s \<Longrightarrow> \<exists>r. r \<noteq> 0 \<and> lfs_lock True I u hostname str0 n q s1 = Done (r, s1)"
      "run_bind (lfs_unlock True I u hostname str0 n q s1) (\<lambda>(r, s). Done s) = Done s2"
      "lfs_lock True I u hostname str0 n q' s2 = Done (0, s3)"
    using lfs.lock_cycle [OF assms] by metis
  have "lfd_ok I u n s1" "lfd_mine n q s1" "good_pid q"
    using lfs.lock_free [OF assms(1,2,4)] c(1) assms(2) by (auto simp: lfd_valid_def)
  from lfs_unlock_mine [OF this(1,3,2)] c show ?thesis using assms(3) by auto
qed

end

definition lfs_str0 :: string where
  "lfs_str0 = replicate 80 (CHR ''x'')"

interpretation localhost: lock_server "''localhost''" lfs_str0
  by unfold_locales (simp add: lfs_host_def lfs_str0_def)

section \<open>Properties\<close>

definition lfs_root :: ident where
  "lfs_root = \<lparr>id_pw_gid = Some 0, id_groups = [], id_euid = 0, id_lock_gid = 54\<rparr>"

definition lfd_fs :: fsys where
  \<comment> \<open>one serial device with a stale FHS lock; processes 4711 and 1 are alive\<close>
  "lfd_fs = ttyS0_fs\<lparr>fs_file := [''/var/lock/LCK..ttyS0'' \<mapsto> lockinfo 77]\<rparr>"

lemma ttyS0_lfd_ok: "lfd_ok lfs_root uninit0 ''/dev/ttyS0'' lfd_fs"
proof -
  have "NUL \<notin> set ''/dev/ttyS0''" by code_simp
  then show ?thesis
    by (simp add: lfd_ok_def good_name_def lfd_fs_def ttyS0_fs_def linux_conf_def fhs_file_def ttyS0_base lockinfo_77
      lfd_unexpected_lock_def lockdirs_def lockprefixes_def fs_exists_def fs_stat_def uninit0_def ttyS0_dev_name
      lfd_check_group_uucp_def lfs_root_def)
qed

lemma lfd_fs_free: "\<not> fhs_held ''/dev/ttyS0'' lfd_fs"
  by (simp add: fhs_held_def held_file_def lfd_fs_def ttyS0_fs_def linux_conf_def fhs_file_def ttyS0_base lockinfo_77)

lemma lfd_fs_valid: "lfd_valid 4711 lfd_fs" "lfd_valid 1 lfd_fs"
  by (simp_all add: lfd_valid_def good_pid_def lfd_fs_def ttyS0_fs_def)

text \<open>C17. Locking through the lock file server, from the request the client formats over the server's parsing,
  checking and creation of the file to the answer the client looks at, where the server can work for the device:
  the device exists and its name has fewer than 50 characters and no blank; the lock directory exists and the
  server may create, read and remove the lock file; the server runs as root or with the directory's group; no
  other directory or prefix it knows has a lock for the device; a lock file that is there has the library's
  format; the host name is shorter than 30 characters; and the process number is not negative. Then a device
  locked by a living process is refused and nothing changes, and any other is locked under the process number
  the client sent, whatever the uninitialised request buffer holds.\<close>

theorem lfs_lock_correct:
  assumes "lfs_host hostname str0" and "lfd_ok I u n s" and "good_pid q"
  shows "lfs_lock True I u hostname str0 n q s = Done (if fhs_held n s then (1, s)
    else (0, s\<lparr>fs_file := (fs_file s)(fhs_file linux_conf n \<mapsto> lockinfo q)\<rparr>))"
  using lock_server.lfs_lock_exact [OF lock_server.intro [OF assms(1)] assms(2,3)] .

theorem lfs_lock_correct_witness:
  "\<exists>s'. lfs_lock True lfs_root uninit0 ''localhost'' lfs_str0 ''/dev/ttyS0'' 4711 lfd_fs = Done (0, s')"
  using lfs_lock_correct [OF localhost.host ttyS0_lfd_ok, of 4711] lfd_fs_free lockinfo_77 by auto

text \<open>C19. Locks taken through the server exclude each other among living clients, and a client that
  unlocks under the process number it locked with releases the lock, once the server has served the request
  (the client does not wait for that).\<close>

theorem lfs_lock_exclusive:
  assumes "lfs_host hostname str0" and "lfd_ok I u n s" and "lfd_valid q s" and "lfd_valid q' s"
    and "\<not> fhs_held n s"
  shows "\<exists>s1 s2 s3. lfs_lock True I u hostname str0 n q s = Done (0, s1)
    \<and> (\<exists>r. r \<noteq> 0 \<and> lfs_lock True I u hostname str0 n q' s1 = Done (r, s1))
    \<and> lfs_unlock True I u hostname str0 n q s1 = Done (0, s2)
    \<and> lfs_lock True I u hostname str0 n q' s2 = Done (0, s3)"
  using lock_server.lfs_cycle [OF lock_server.intro [OF assms(1)] assms(2-5)] .

theorem lfs_lock_exclusive_witness:
  "\<exists>s1. lfs_lock True lfs_root uninit0 ''localhost'' lfs_str0 ''/dev/ttyS0'' 4711 lfd_fs = Done (0, s1)
    \<and> (\<exists>r. r \<noteq> 0 \<and> lfs_lock True lfs_root uninit0 ''localhost'' lfs_str0 ''/dev/ttyS0'' 1 s1 = Done (r, s1))"
  using lfs_lock_exclusive [OF localhost.host ttyS0_lfd_ok lfd_fs_valid lfd_fs_free] by blast

text \<open>\<open>lfs_unlock\<close> reports success whatever the server did: it reads only the greeting, whose first
  character is that of success. Unlocking a device another living client holds is refused by the server
  (nothing changes) and still returns 0.\<close>

theorem lfs_unlock_blind:
  assumes "lfs_host hostname str0" and "lfd_ok I u n s" and "good_pid q"
    and "fs_file s (fhs_file linux_conf n) = Some (lockinfo p)" and "good_pid p" and "p \<noteq> q"
    and "\<not> fs_gone s p" and "0 \<le> fs_pid s" and "fs_pid s < 10000" and "0 \<le> fs_ppid s" and "fs_ppid s < 10000"
    and "q < 10000"
  shows "lfs_unlock True I u hostname str0 n q s = Done (0, s)"
proof -
  have n: "good_name n" "length n < 50" and ex: "fs_exists n s"
    using assms(2) by (auto simp: lfd_ok_def good_name_def fs_exists_def fs_stat_def)
  have f: "length (fhs_file linux_conf n) < 80"
    using n(2) base_of_shorter [of n] by (simp add: fhs_file_def linux_conf_def)
  have dec: "length (dec_int i) \<le> 4" if "0 \<le> i" "i < 10000" for i
    using that length_digits_of [of "nat i" 4] by (simp add: dec_int_def)
  have "0 \<le> q" using assms(3) by (simp add: good_pid_def)
  then have d: "length (dec_int q) \<le> 4" "length (dec_int (fs_pid s)) \<le> 4" "length (dec_int (fs_ppid s)) \<le> 4"
    using dec assms(8-12) by auto
  have "lfd_check_lock_pid u (fhs_file linux_conf n) q s = Done 1"
    using assms(2,4,6,7) lockinfo_good(1,2) [OF assms(5)] d
    by (simp add: lfd_check_lock_pid_def lfd_ok_def Let_def pid_text_def)
  then have "lfd_fhs_unlock u n q s = Done (1, s)"
    using n f ex by (simp add: lfd_fhs_unlock_def Let_def)
  then show ?thesis
    using lfs_unlock_is [OF n(1) assms(3), of str0 hostname I u s] assms(1) by (simp add: lfs_host_def)
qed

definition lfd_fs_busy :: fsys where
  "lfd_fs_busy = lfd_fs\<lparr>fs_file := [''/var/lock/LCK..ttyS0'' \<mapsto> lockinfo 1]\<rparr>"

theorem lfs_unlock_blind_witness:
  "lfs_unlock True lfs_root uninit0 ''localhost'' lfs_str0 ''/dev/ttyS0'' 4711 lfd_fs_busy = Done (0, lfd_fs_busy)"
proof (rule lfs_unlock_blind [OF localhost.host, where p = 1])
  have "good_pid 1" by (simp add: good_pid_def)
  then have "lfd_fs_busy = lfd_fs\<lparr>fs_file := (fs_file lfd_fs)(fhs_file linux_conf ''/dev/ttyS0'' := Some (lockinfo 1))\<rparr>"
    by (simp add: lfd_fs_busy_def lfd_fs_def fhs_file_def linux_conf_def ttyS0_base)
  then show "lfd_ok lfs_root uninit0 ''/dev/ttyS0'' lfd_fs_busy"
    using lfd_ok_upd [OF ttyS0_lfd_ok, of "Some (lockinfo 1)"] \<open>good_pid 1\<close> by auto
qed (simp_all add: good_pid_def lfd_fs_busy_def lfd_fs_def ttyS0_fs_def fhs_file_def linux_conf_def ttyS0_base)

text \<open>The server overruns \<open>str2[80]\<close> on a command it does not know: every request of 51 to 79
  characters that is none of quit, lock and unlock formats an answer of at least 80 characters.\<close>

theorem unknown_command_overflow:
  assumes "51 \<le> length m" and "length m < 80" and "NUL \<notin> set m" and "length str0 = 80"
    and "\<not> starts_ci ''quit'' m" and "\<not> starts_ci ''lock'' m" and "\<not> starts_ci ''unlock'' m"
  shows "process_requests I u hostname str0 (Some m) s = Fault"
proof -
  have r: "read_request str0 (Some m) = (m @ NUL # drop (Suc (length m)) str0, int (length m))"
    using read_request_short [of m str0] assms(1,2,4) by simp
  have i: "nat (int (length m) - 2) = length m - 2" by simp
  have "c_string ((m @ NUL # drop (Suc (length m)) str0)[length m - 2 := NUL]) = take (length m - 2) m"
    using assms(1,3)
    by (auto simp: c_string_def list_update_append upd_conv_take_nth_drop takeWhile_append takeWhile_eq_all_conv
      dest: in_set_takeD)
  moreover have "starts_ci w (m @ x) = starts_ci w m" if "length w \<le> 6" for w x
    using that assms(1) by (simp add: starts_ci_def)
  ultimately show ?thesis
    using assms(1,2,5-7) by (simp add: process_requests_def r i M500_def Let_def)
qed

theorem unknown_command_overflow_witness:
  "process_requests lfs_root uninit0 ''localhost'' lfs_str0 (Some (replicate 60 (CHR ''?''))) lfd_fs = Fault"
proof (rule unknown_command_overflow)
  have "CHR ''?'' \<noteq> NUL" by code_simp
  then show "NUL \<notin> set (replicate 60 (CHR ''?''))" by simp
qed (simp_all add: lfs_str0_def starts_ci_def lower_def numeral_eq_Suc)

end
