(* ===== verification/Win32_Convert.thy ===== *)
theory Win32_Convert
  imports Posix_Env
begin

text \<open>
  The Windows build brings its own \<open>termios\<close>. This theory holds the part of \<open>termios.c\<close> that needs no
  system call: the speed and byte size tables, the \<open>cf*\<close> functions, the default settings, and the
  translation between a \<open>termios\<close> structure and the device control block (\<open>DCB\<close>) of the Windows
  communication API, in both directions.
\<close>

section \<open>The Windows structures\<close>

text \<open>The members of \<open>DCB\<close> the code touches, and \<open>COMMTIMEOUTS\<close>. Parity and stop bits are the
  documented numbers.\<close>

record DCB =
  DCBlength :: u32
  BaudRate :: u32
  fBinary :: bool
  fParity :: bool
  fOutxCtsFlow :: bool
  fOutxDsrFlow :: bool
  fDtrControl :: nat
  fDsrSensitivity :: bool
  fTXContinueOnXoff :: bool
  fOutX :: bool
  fInX :: bool
  fRtsControl :: nat
  XonLim :: u16
  XoffLim :: u16
  ByteSize :: u8
  Parity :: u8
  StopBits :: u8
  XonChar :: u8
  XoffChar :: u8
  ErrorChar :: u8
  EofChar :: u8
  EvtChar :: u8

record COMMTIMEOUTS =
  ReadIntervalTimeout :: u32
  ReadTotalTimeoutMultiplier :: u32
  ReadTotalTimeoutConstant :: u32
  WriteTotalTimeoutMultiplier :: u32
  WriteTotalTimeoutConstant :: u32

abbreviation (input) NOPARITY :: u8 where "NOPARITY \<equiv> 0"
abbreviation (input) ODDPARITY :: u8 where "ODDPARITY \<equiv> 1"
abbreviation (input) EVENPARITY :: u8 where "EVENPARITY \<equiv> 2"
abbreviation (input) MARKPARITY :: u8 where "MARKPARITY \<equiv> 3"
abbreviation (input) SPACEPARITY :: u8 where "SPACEPARITY \<equiv> 4"
abbreviation (input) ONESTOPBIT :: u8 where "ONESTOPBIT \<equiv> 0"
abbreviation (input) ONE5STOPBITS :: u8 where "ONE5STOPBITS \<equiv> 1"
abbreviation (input) TWOSTOPBITS :: u8 where "TWOSTOPBITS \<equiv> 2"
abbreviation (input) DTR_CONTROL_DISABLE :: nat where "DTR_CONTROL_DISABLE \<equiv> 0"
abbreviation (input) DTR_CONTROL_ENABLE :: nat where "DTR_CONTROL_ENABLE \<equiv> 1"
abbreviation (input) RTS_CONTROL_DISABLE :: nat where "RTS_CONTROL_DISABLE \<equiv> 0"
abbreviation (input) RTS_CONTROL_ENABLE :: nat where "RTS_CONTROL_ENABLE \<equiv> 1"
abbreviation (input) RTS_CONTROL_HANDSHAKE :: nat where "RTS_CONTROL_HANDSHAKE \<equiv> 2"
abbreviation (input) MAXDWORD :: u32 where "MAXDWORD \<equiv> 0xFFFFFFFF"
abbreviation (input) CR_char :: u8 where "CR_char \<equiv> 13"
abbreviation (input) LF_char :: u8 where "LF_char \<equiv> 10"

section \<open>Speeds and sizes\<close>

text \<open>The \<open>switch\<close> of \<open>CBR_to_B\<close> and the one of \<open>B_to_CBR\<close>.\<close>

definition cbr_cases :: "(u32 \<times> u32) list" where
  "cbr_cases =
     [(0, B0), (50, B50), (75, B75), (110, B110), (134, B134), (150, B150), (200, B200), (300, B300),
      (600, B600), (1200, B1200), (1800, B1800), (2400, B2400), (4800, B4800), (9600, B9600),
      (14400, B14400), (19200, B19200), (28800, B28800), (38400, B38400), (57600, B57600),
      (115200, B115200), (128000, B128000), (230400, B230400), (256000, B256000), (460800, B460800),
      (500000, B500000), (576000, B576000), (921600, B921600), (1000000, B1000000),
      (1152000, B1152000), (1500000, B1500000), (2000000, B2000000), (2500000, B2500000),
      (3000000, B3000000), (3500000, B3500000), (4000000, B4000000)]"

definition CBR_to_B :: "u32 \<Rightarrow> u32" where
  "CBR_to_B Baud = (case map_of cbr_cases Baud of Some b \<Rightarrow> b | None \<Rightarrow> Baud)"

definition b_cases :: "(u32 \<times> u32) list" where
  "b_cases =
     [(0, 0), (B50, 50), (B75, 75), (B110, 110), (B134, 134), (B150, 150), (B200, 200), (B300, 300),
      (B600, 600), (B1200, 1200), (B1800, 1800), (B2400, 2400), (B4800, 4800), (B9600, 9600),
      (B14400, 14400), (B19200, 19200), (B28800, 28800), (B38400, 38400), (B57600, 57600),
      (B115200, 115200), (B128000, 128000), (B230400, 230400), (B256000, 256000), (B460800, 460800),
      (B500000, 500000), (B576000, 576000), (B921600, 921600), (B1000000, 1000000),
      (B1152000, 1152000), (B1500000, 1500000), (B2000000, 2000000), (B2500000, 2500000),
      (B3000000, 3000000), (B3500000, 3500000), (B4000000, 4000000)]"

definition B_to_CBR :: "u32 \<Rightarrow> u32" where
  "B_to_CBR Baud = (case map_of b_cases Baud of Some r \<Rightarrow> r | None \<Rightarrow> Baud)"

definition bytesize_to_termios :: "u8 \<Rightarrow> u32" where
  "bytesize_to_termios n = (if n = 5 then CS5 else if n = 6 then CS6 else if n = 7 then CS7 else CS8)"

definition termios_to_bytesize :: "u32 \<Rightarrow> u8" where
  "termios_to_bytesize cflag =
     (if cflag AND CSIZE = CS5 then 5 else if cflag AND CSIZE = CS6 then 6
      else if cflag AND CSIZE = CS7 then 7 else 8)"

definition get_dos_port :: "string \<Rightarrow> string" where
  "get_dos_port name =
     (if name = ''/dev/cua0'' then ''COM1'' else if name = ''/dev/cua1'' then ''COM2''
      else if name = ''/dev/cua2'' then ''COM3'' else if name = ''/dev/cua3'' then ''COM4'' else name)"

section \<open>The \<open>cf\<close> functions and the defaults\<close>

definition cfmakeraw :: "termios \<Rightarrow> termios" where
  "cfmakeraw t =
     t\<lparr>c_iflag := c_iflag t AND NOT (IGNBRK OR BRKINT OR PARMRK OR ISTRIP OR INLCR OR IGNCR OR ICRNL OR IXON),
       c_oflag := c_oflag t AND NOT OPOST,
       c_lflag := c_lflag t AND NOT (ECHO OR ECHONL OR ICANON OR ISIG OR IEXTEN),
       c_cflag := (c_cflag t AND NOT (CSIZE OR PARENB)) OR CS8\<rparr>"

definition cfsetospeed :: "termios \<Rightarrow> u32 \<Rightarrow> int \<times> termios" where
  "cfsetospeed t speed =
     (let c = c_cflag t AND NOT (CBAUD Win32);
          c = (if speed AND NOT (CBAUD Win32) \<noteq> 0 then (c OR B38400) OR CBAUDEX
               else if speed \<noteq> 0 then c OR speed else c OR B9600)
      in (1, t\<lparr>c_cflag := c, c_ispeed := speed, c_ospeed := speed\<rparr>))"

definition cfsetispeed :: "termios \<Rightarrow> u32 \<Rightarrow> int \<times> termios" where
  "cfsetispeed t speed = cfsetospeed t speed"

definition cfsetspeed :: "termios \<Rightarrow> u32 \<Rightarrow> int \<times> termios" where
  "cfsetspeed t speed = cfsetospeed t speed"

definition cfgetospeed :: "termios \<Rightarrow> u32" where "cfgetospeed t = c_ospeed t"

definition cfgetispeed :: "termios \<Rightarrow> u32" where "cfgetispeed t = c_ispeed t"

definition init_serial_struct :: "serial_struct \<Rightarrow> serial_struct" where
  "init_serial_struct ss = ss\<lparr>custom_divisor := 0, baud_base := 115200\<rparr>"

definition init_termios :: termios where
  "init_termios =
     (let t = cfmakeraw (snd (cfsetospeed zero_termios B9600))
      in t\<lparr>c_cc := (c_cc t)(VINTR := 0x03, VQUIT := 0x1C, VERASE := 0x7F, VKILL := 0x15, VEOF := 0x04,
             VTIME := 0, VMIN := 1, VSUSP := 0x1A, VEOL := CR_char, VREPRINT := 0x12, VWERASE := 0x17,
             VLNEXT := 0x16, VEOL2 := LF_char)\<rparr>)"

section \<open>From \<open>termios\<close> to \<open>DCB\<close>\<close>

definition parity_of :: "u32 \<Rightarrow> u8" where
  "parity_of c = (if c AND PARENB \<noteq> 0
     then (if c AND PARODD \<noteq> 0 \<and> c AND CMSPAR \<noteq> 0 then MARKPARITY
           else if c AND PARODD \<noteq> 0 then ODDPARITY
           else if c AND CMSPAR \<noteq> 0 then SPACEPARITY else EVENPARITY)
     else NOPARITY)"

definition termios_to_DCB :: "termios \<Rightarrow> DCB \<Rightarrow> int \<times> termios \<times> DCB" where
  \<comment> \<open>without \<open>CBAUDEX\<close> the speed members of the argument are set from its flags\<close>
  "termios_to_DCB t d =
     (let c = c_cflag t;
          t = (if c AND CBAUDEX = 0 then t\<lparr>c_ispeed := c AND CBAUD Win32, c_ospeed := c AND CBAUD Win32\<rparr> else t);
          n = termios_to_bytesize c
      in (0, t, d\<lparr>BaudRate := B_to_CBR (c_ispeed t), ByteSize := n,
        Parity := parity_of c,
        StopBits := (if c AND CSTOPB \<noteq> 0 then (if n = 5 then ONE5STOPBITS else TWOSTOPBITS) else ONESTOPBIT),
        fRtsControl := (if c AND HARDWARE_FLOW_CONTROL \<noteq> 0 then RTS_CONTROL_HANDSHAKE else RTS_CONTROL_DISABLE),
        fOutxCtsFlow := (c AND HARDWARE_FLOW_CONTROL \<noteq> 0)\<rparr>))"

definition dcb_chars :: "termios \<Rightarrow> DCB \<Rightarrow> DCB" where
  \<comment> \<open>the input flags and characters in \<open>tcsetattr\<close>; \<open>fBinary\<close> is first set from \<open>ISTRIP\<close> and then
    again from the end-of-file character\<close>
  "dcb_chars t d =
     d\<lparr>fOutX := (c_iflag t AND IXON \<noteq> 0), fInX := (c_iflag t AND IXOFF \<noteq> 0),
       fTXContinueOnXoff := (c_iflag t AND IXANY \<noteq> 0), fDtrControl := DTR_CONTROL_DISABLE,
       fOutxDsrFlow := False, fDsrSensitivity := False, XonChar := c_cc t VSTART, XoffChar := c_cc t VSTOP,
       XonLim := 0, XoffLim := 0, EofChar := c_cc t VEOF, fBinary := (c_cc t VEOF = 0), EvtChar := LF_char\<rparr>"

definition termios_timeouts :: "termios \<Rightarrow> COMMTIMEOUTS \<Rightarrow> COMMTIMEOUTS" where
  "termios_timeouts t tm =
     (let vtime = ucast (c_cc t VTIME) * 100 :: u32;
          now = c_cc t VMIN = 0 \<and> vtime = 0
      in tm\<lparr>ReadTotalTimeoutConstant := (if now then 0 else vtime),
            ReadIntervalTimeout := (if now then MAXDWORD else 0), ReadTotalTimeoutMultiplier := 0,
            WriteTotalTimeoutConstant := vtime, WriteTotalTimeoutMultiplier := 0\<rparr>)"

section \<open>From \<open>DCB\<close> to \<open>termios\<close>\<close>

definition DCB_to_termios :: "DCB \<Rightarrow> termios \<Rightarrow> termios" where
  "DCB_to_termios d t =
     (let b = CBR_to_B (BaudRate d) in t\<lparr>c_ispeed := b, c_ospeed := b, c_cflag := c_cflag t OR (b AND CBAUD Win32)\<rparr>)"

definition put_flag :: "bool \<Rightarrow> u32 \<Rightarrow> u32 \<Rightarrow> u32" where
  \<comment> \<open>\<open>if (b) x |= m; else x &= ~m;\<close>\<close>
  "put_flag b m x = (if b then x OR m else x AND NOT m)"

definition dcb_iflag :: "DCB \<Rightarrow> u32 \<Rightarrow> u32" where
  "dcb_iflag d i =
     (let i = (if fParity d then (i OR INPCK) AND NOT IGNPAR else (i AND NOT INPCK) OR IGNPAR);
          i = put_flag (fOutX d) IXON i;
          i = put_flag (fInX d) IXOFF i
      in put_flag (fTXContinueOnXoff d) IXANY i)"

definition parity_flags :: "u8 \<Rightarrow> u32 \<Rightarrow> u32" where
  "parity_flags q c =
     (let c = (c AND NOT (PARENB OR PARODD OR CMSPAR)) OR PARENB in
      if q = MARKPARITY then c OR (PARODD OR CMSPAR) else if q = SPACEPARITY then c OR CMSPAR
      else if q = ODDPARITY then c OR PARODD else if q = EVENPARITY then c AND NOT PARODD
      else if q = NOPARITY then c AND NOT (PARODD OR CMSPAR OR PARENB) else c)"

definition dcb_cflag :: "DCB \<Rightarrow> u32 \<Rightarrow> u32" where
  \<comment> \<open>stop bits, parity, byte size and hardware flow control in \<open>tcgetattr\<close>; the byte size is only or-ed in\<close>
  "dcb_cflag d c =
     (let c = (if StopBits d = TWOSTOPBITS then c OR CSTOPB
               else if StopBits d = ONE5STOPBITS then (c OR CSTOPB) OR CS5
               else if StopBits d = ONESTOPBIT then c AND NOT CSTOPB else c);
          c = parity_flags (Parity d) c;
          c = c OR bytesize_to_termios (ByteSize d)
      in put_flag (fOutxCtsFlow d \<or> fRtsControl d = RTS_CONTROL_HANDSHAKE) HARDWARE_FLOW_CONTROL c)"

definition overlay :: "DCB \<Rightarrow> COMMTIMEOUTS \<Rightarrow> termios \<Rightarrow> termios" where
  \<comment> \<open>what \<open>tcgetattr\<close> makes of the remembered structure\<close>
  "overlay d tm t =
     DCB_to_termios d (t\<lparr>c_iflag := dcb_iflag d (c_iflag t), c_cflag := dcb_cflag d (c_cflag t),
       c_cc := (c_cc t)(VTIME := ucast (ReadTotalTimeoutConstant tm div 100), VSTART := XonChar d,
         VSTOP := XoffChar d, VEOF := EofChar d)\<rparr>)"

section \<open>The tables agree\<close>

lemma b_cases_inverse: "map (\<lambda>(b, r). (r, b)) b_cases = cbr_cases"
  by (simp add: b_cases_def cbr_cases_def)

lemma distinct_b_cases: "distinct (map fst b_cases)" and distinct_cbr_cases: "distinct (map fst cbr_cases)"
  by (simp_all add: b_cases_def cbr_cases_def)

lemma cbr_inverse:
  assumes "(b, r) \<in> set b_cases"
  shows "B_to_CBR b = r \<and> CBR_to_B r = b"
proof -
  have "(r, b) \<in> set cbr_cases" using assms unfolding b_cases_inverse [symmetric] by force
  then have "map_of cbr_cases r = Some b" using distinct_cbr_cases by (rule map_of_is_SomeI [rotated])
  moreover have "map_of b_cases b = Some r" using distinct_b_cases assms by (rule map_of_is_SomeI)
  ultimately show ?thesis by (simp add: B_to_CBR_def CBR_to_B_def)
qed

text \<open>The rates of the Windows tables are the rates \<open>translate_speed\<close> lists.\<close>

lemma speed_cases_b: "map (\<lambda>(r, b). (b, word_of_int r)) (speed_cases Win32) = b_cases"
  by (simp add: speed_cases_def b_cases_def)

lemma listed_b_cases: "listed_speed Win32 b \<Longrightarrow> \<exists>r. (b, r) \<in> set b_cases"
  unfolding listed_speed_def speed_cases_b [symmetric] by force

lemma listed_cbr: "listed_speed Win32 b \<Longrightarrow> CBR_to_B (B_to_CBR b) = b"
  using listed_b_cases cbr_inverse by blast

section \<open>Settings Windows accepts\<close>

text \<open>The restrictions the documentation of \<open>DCB\<close> and \<open>SetCommState\<close> puts on a device control block.\<close>

definition legal_frame :: "DCB \<Rightarrow> bool" where
  "legal_frame d \<longleftrightarrow> ByteSize d \<in> {5, 6, 7, 8} \<and> Parity d \<in> {0, 1, 2, 3, 4} \<and> StopBits d \<in> {0, 1, 2}
     \<and> (ByteSize d = 5 \<longrightarrow> StopBits d \<noteq> TWOSTOPBITS) \<and> (ByteSize d \<noteq> 5 \<longrightarrow> StopBits d \<noteq> ONE5STOPBITS)"

definition legal_dcb :: "DCB \<Rightarrow> bool" where
  \<comment> \<open>\<open>fBinary\<close>: "Windows does not support nonbinary mode transfers, so this member must be TRUE"\<close>
  "legal_dcb d \<longleftrightarrow> legal_frame d \<and> XonChar d \<noteq> XoffChar d \<and> fBinary d"

lemma bytesize_range: "termios_to_bytesize c \<in> {5, 6, 7, 8}"
  by (simp add: termios_to_bytesize_def)

lemma termios_to_DCB_legal: "legal_frame (snd (snd (termios_to_DCB t d)))"
  using bytesize_range [of "c_cflag t"] by (auto simp: termios_to_DCB_def legal_frame_def parity_of_def Let_def)

lemma dcb_chars_legal [simp]: "legal_frame (dcb_chars t d) = legal_frame d"
  by (simp add: legal_frame_def dcb_chars_def)

section \<open>Reading back what was set\<close>

lemma size_cases: "c AND CSIZE = CS5 \<or> c AND CSIZE = CS6 \<or> c AND CSIZE = CS7 \<or> c AND CSIZE = CS8"
  using single_bit_cases [of c 4] single_bit_cases [of c 5] bit.conj_disj_distrib [of c "0x10" "0x20"] by auto

lemma bytesize_same: "c OR bytesize_to_termios (termios_to_bytesize c) = c"
  using size_cases [of c]
proof (elim disjE)
  assume "c AND CSIZE = CS6"
  moreover from this have "c AND CS6 = CS6" using masked_bit [of c CSIZE CS6 CS6] by simp
  ultimately show ?thesis using or_same [of c CS6] by (simp add: bytesize_to_termios_def termios_to_bytesize_def)
next
  assume "c AND CSIZE = CS7"
  moreover from this have "c AND CS7 = CS7" using masked_bit [of c CSIZE CS7 CS7] by simp
  ultimately show ?thesis using or_same [of c CS7] by (simp add: bytesize_to_termios_def termios_to_bytesize_def)
qed (simp_all add: bytesize_to_termios_def termios_to_bytesize_def or_same)

lemma parity_same:
  assumes "java_parity c \<noteq> -1"
  shows "parity_flags (parity_of c) c = c"
proof -
  let ?M = "PARENB OR PARODD OR CMSPAR"
  obtain v where v: "c AND ?M = v" "v = 0 \<or> v = PARENB \<or> v = PARENB OR PARODD \<or> v = ?M \<or> v = PARENB OR CMSPAR"
    using assms by (auto simp: java_parity_def Let_def split: if_splits)
  have bits: "c AND PARENB = v AND PARENB" "c AND PARODD = v AND PARODD" "c AND CMSPAR = v AND CMSPAR"
    unfolding v(1) [symmetric] by (simp_all add: and.assoc)
  have "parity_flags (parity_of c) c = (c AND NOT ?M) OR v"
    using v(2)
  proof (elim disjE)
  qed (use bits in \<open>simp_all add: parity_of_def parity_flags_def Let_def bitfield or.assoc\<close>)
  with field_same [OF v(1)] show ?thesis by simp
qed

lemma put_flag_same: "put_flag (c AND 2 ^ n \<noteq> 0) (2 ^ n) c = c"
  using single_bit_cases [of c n] or_same [of c "2 ^ n"] and_not_same [of c "2 ^ n"] by (auto simp: put_flag_def)

lemma dcb_cflag_same:
  assumes "java_parity c \<noteq> -1" and "c_cflag t = c"
  shows "dcb_cflag (snd (snd (termios_to_DCB t d))) c = c"
proof -
  have stop: "c AND CSTOPB = 0 \<Longrightarrow> c AND NOT CSTOPB = c" "c AND CSTOPB \<noteq> 0 \<Longrightarrow> c OR CSTOPB = c"
    using single_bit_cases [of c 6] or_same [of c CSTOPB] and_not_same [of c CSTOPB] by auto
  show ?thesis
    using stop parity_same [OF assms(1)] bytesize_same [of c] put_flag_same [of c 31] assms(2)
    by (cases "termios_to_bytesize c = 5") (simp_all add: dcb_cflag_def termios_to_DCB_def Let_def)
qed

lemma iflag_bits:
  "dcb_iflag d i AND IXON = (if fOutX d then IXON else 0)"
  "dcb_iflag d i AND IXOFF = (if fInX d then IXOFF else 0)"
  "dcb_iflag d i AND IXANY = (if fTXContinueOnXoff d then IXANY else 0)"
  by (simp_all add: dcb_iflag_def put_flag_def Let_def bitfield)

lemma vtime_scaled: "unat (ucast v * 100 :: u32) = unat v * 100" for v :: u8
proof -
  have "unat v < 256" using unsigned_less [of v, where 'a = nat] by simp
  then show ?thesis by (simp add: unat_word_ariths unsigned_ucast_eq take_bit_nat_def)
qed

lemma vtime_back: "ucast ((ucast v * 100 :: u32) div 100) = v" for v :: u8
proof -
  have "unat v < 256" using unsigned_less [of v, where 'a = nat] by simp
  moreover have "unat ((ucast v * 100 :: u32) div 100) = unat v"
    by (simp add: unat_div vtime_scaled)
  ultimately have "unat (ucast ((ucast v * 100 :: u32) div 100) :: u8) = unat v"
    by (simp add: unsigned_ucast_eq take_bit_nat_def)
  then show ?thesis by (simp add: unsigned_word_eqI)
qed

lemma dcb_chars_cflag [simp]: "dcb_cflag (dcb_chars t d) c = dcb_cflag d c"
  and dcb_chars_baud [simp]: "BaudRate (dcb_chars t d) = BaudRate d"
  by (simp_all add: dcb_cflag_def dcb_chars_def)

lemma termios_to_DCB_speed:
  assumes "representable Win32 t"
  shows "CBR_to_B (BaudRate (snd (snd (termios_to_DCB t d)))) = c_cflag t AND CBAUD Win32"
  using assms listed_cbr [of "c_cflag t AND CBAUD Win32"] by (auto simp: representable_def termios_to_DCB_def Let_def)

lemma termios_to_DCB_termios:
  "c_cflag (fst (snd (termios_to_DCB t d))) = c_cflag t" "c_iflag (fst (snd (termios_to_DCB t d))) = c_iflag t"
  "c_cc (fst (snd (termios_to_DCB t d))) = c_cc t"
  by (simp_all add: termios_to_DCB_def Let_def)

text \<open>What \<open>tcgetattr\<close> makes of settings that \<open>tcsetattr\<close> has written is what was set.\<close>

lemma overlay_same:
  assumes "representable Win32 t" and "t' = fst (snd (termios_to_DCB t d))"
  shows "line_same (overlay (dcb_chars t' (snd (snd (termios_to_DCB t d)))) (termios_timeouts t' tm) t') t"
proof -
  let ?d = "snd (snd (termios_to_DCB t d))"
  have par: "java_parity (c_cflag t) \<noteq> -1" using assms(1) by (simp add: representable_def)
  have "c_cflag t OR (c_cflag t AND CBAUD Win32) = c_cflag t"
    by (rule or_same) (simp add: and.left_commute and.assoc [symmetric])
  then have c: "c_cflag (overlay (dcb_chars t' ?d) (termios_timeouts t' tm) t') = c_cflag t"
    using dcb_cflag_same [OF par refl, of d] termios_to_DCB_speed [OF assms(1), of d] assms(2)
    by (simp add: overlay_def DCB_to_termios_def Let_def termios_to_DCB_termios)
  have "i AND IXON = (if i AND IXON \<noteq> 0 then IXON else 0)" "i AND IXOFF = (if i AND IXOFF \<noteq> 0 then IXOFF else 0)"
    "i AND IXANY = (if i AND IXANY \<noteq> 0 then IXANY else 0)" for i :: u32
    using single_bit_cases [of i 10] single_bit_cases [of i 12] single_bit_cases [of i 11] by auto
  then have i: "c_iflag (overlay (dcb_chars t' ?d) (termios_timeouts t' tm) t') AND m = c_iflag t AND m"
    if "m \<in> {IXON, IXOFF, IXANY}" for m
    using that assms(2) iflag_bits [of "dcb_chars t' ?d" "c_iflag t"]
    by (auto simp: overlay_def DCB_to_termios_def Let_def termios_to_DCB_termios dcb_chars_def)
  have "c_iflag (overlay (dcb_chars t' ?d) (termios_timeouts t' tm) t') AND (IXON OR (IXOFF OR IXANY))
      = c_iflag t AND (IXON OR (IXOFF OR IXANY))"
    unfolding bit.conj_disj_distrib using i by (metis insertCI)
  moreover have "unat (ucast v * 100 :: u32) = 0 \<longleftrightarrow> v = 0" for v :: u8 by (simp add: vtime_scaled unat_eq_zero)
  ultimately show ?thesis using c assms(2)
    by (auto simp: line_same_def overlay_def DCB_to_termios_def Let_def termios_to_DCB_termios termios_timeouts_def
      vtime_back unat_eq_zero)
qed

end
