(* ===== verification/Win32_Ports.thy ===== *)
theory Win32_Ports
  imports Win32_Convert Dll
begin

text \<open>
  The table of open ports of the Windows emulation: \<open>struct termios_list\<close>, the doubly linked list
  \<open>first_tl\<close> and the descriptors handed out for it (\<open>find_port\<close>, \<open>get_free_fd\<close>, \<open>add_port\<close>,
  \<open>port_opened\<close>, \<open>get_fd\<close>, \<open>get_filename\<close>, \<open>serial_close\<close>). The table refines a finite map from
  descriptors to ports, kept as a list sorted by descriptor.
\<close>

section \<open>The Windows API\<close>

text \<open>Handles: \<open>NULL\<close>, \<open>INVALID_HANDLE_VALUE\<close> and real ones.\<close>

datatype handle = NULL_HANDLE | INVALID_HANDLE | Handle nat

datatype escape = SETDTR | CLRDTR | SETRTS | CLRRTS

datatype purge = PURGE_RXABORT | PURGE_TXABORT

datatype wait = WAIT_OBJECT_0 | WAIT_TIMEOUT | WAIT_ABANDONED | WAIT_FAILED

datatype last_error = ERROR_SUCCESS | ERROR_ACCESS_DENIED | ERROR_BROKEN_PIPE | ERROR_MORE_DATA | ERROR_IO_INCOMPLETE
  | ERROR_IO_PENDING | ERROR_OTHER nat

record COMSTAT =
  cbInQue :: int
  cbOutQue :: int

text \<open>
  The calls of the Windows API, of the C library's allocator and of the clock, over an abstract state.
  A failing query gives \<open>None\<close>. \<open>ReadFile\<close> returns what it stored at once, and
  \<open>GetOverlappedResult\<close> what arrived for the pending operation.
\<close>

record 'k winapi =
  malloc_op :: "'k \<Rightarrow> addr option \<times> 'k"
  CreateFile_op :: "string \<Rightarrow> bool \<Rightarrow> 'k \<Rightarrow> handle \<times> 'k"
  SetupComm_op :: "handle \<Rightarrow> nat \<Rightarrow> nat \<Rightarrow> 'k \<Rightarrow> bool \<times> 'k"
  CreateEvent_op :: "'k \<Rightarrow> handle \<times> 'k"
  CloseHandle_op :: "handle \<Rightarrow> 'k \<Rightarrow> 'k"
  GetLastError_op :: "'k \<Rightarrow> last_error"
  GetCommState_op :: "handle \<Rightarrow> 'k \<Rightarrow> DCB option"
  SetCommState_op :: "handle \<Rightarrow> DCB \<Rightarrow> 'k \<Rightarrow> bool \<times> 'k"
  GetCommTimeouts_op :: "handle \<Rightarrow> 'k \<Rightarrow> COMMTIMEOUTS option"
  SetCommTimeouts_op :: "handle \<Rightarrow> COMMTIMEOUTS \<Rightarrow> 'k \<Rightarrow> bool \<times> 'k"
  ClearCommError_op :: "handle \<Rightarrow> 'k \<Rightarrow> (u32 \<times> COMSTAT) option \<times> 'k"
  GetCommModemStatus_op :: "handle \<Rightarrow> 'k \<Rightarrow> u32 option"
  EscapeCommFunction_op :: "handle \<Rightarrow> escape \<Rightarrow> 'k \<Rightarrow> bool \<times> 'k"
  PurgeComm_op :: "handle \<Rightarrow> purge \<Rightarrow> 'k \<Rightarrow> bool \<times> 'k"
  FlushFileBuffers_op :: "handle \<Rightarrow> 'k \<Rightarrow> bool \<times> 'k"
  SetCommBreak_op :: "handle \<Rightarrow> 'k \<Rightarrow> bool \<times> 'k"
  ClearCommBreak_op :: "handle \<Rightarrow> 'k \<Rightarrow> bool \<times> 'k"
  SetCommMask_op :: "handle \<Rightarrow> u32 \<Rightarrow> 'k \<Rightarrow> bool \<times> 'k"
  WaitCommEvent_op :: "handle \<Rightarrow> handle \<Rightarrow> 'k \<Rightarrow> bool \<times> 'k"
  WaitForSingleObject_op :: "handle \<Rightarrow> nat \<Rightarrow> 'k \<Rightarrow> wait \<times> 'k"
  ResetEvent_op :: "handle \<Rightarrow> 'k \<Rightarrow> 'k"
  WriteFile_op :: "handle \<Rightarrow> u8 list \<Rightarrow> 'k \<Rightarrow> (bool \<times> int) \<times> 'k"
  WriteResult_op :: "handle \<Rightarrow> 'k \<Rightarrow> (bool \<times> int) \<times> 'k"
  ReadFile_op :: "handle \<Rightarrow> int \<Rightarrow> 'k \<Rightarrow> (bool \<times> u8 list) \<times> 'k"
  ReadResult_op :: "handle \<Rightarrow> 'k \<Rightarrow> (bool \<times> u8 list) \<times> 'k"
  GetTickCount_op :: "'k \<Rightarrow> int \<times> 'k"
  clock_op :: "'k \<Rightarrow> int \<times> 'k"
  CLOCKS_PER_SEC_of :: int
  Sleep_op :: "nat \<Rightarrow> 'k \<Rightarrow> 'k"

section \<open>The table\<close>

record termios_list =
  tl_filename :: string
  tl_interrupt :: int
  tl_event_flag :: u32
  tl_tx_happened :: int
  tl_hComm :: handle
  tl_ttyset :: termios
  tl_sstruct :: serial_struct
  tl_MSR :: u8
  tl_sis :: serial_icounter
  tl_open_flags :: u32
  tl_rol :: handle
  tl_wol :: handle
  tl_sol :: handle
  tl_fd :: int

text \<open>\<open>my_errno\<close> is what \<open>set_errno\<close> sets; \<open>c_errno\<close> is the library's \<open>errno\<close>.\<close>

record 'k winsys =
  tl_heap :: "termios_list heap"
  first_tl :: "addr option"
  my_errno :: errno
  c_errno :: errno
  kern :: 'k

definition set_errno :: "errno \<Rightarrow> 'k winsys \<Rightarrow> 'k winsys" where
  "set_errno e s = s\<lparr>my_errno := e\<rparr>"

definition zero_port :: termios_list where
  \<comment> \<open>after the \<open>memset\<close> calls of \<open>add_port\<close>\<close>
  "zero_port = \<lparr>tl_filename = [], tl_interrupt = 0, tl_event_flag = 0, tl_tx_happened = 0, tl_hComm = NULL_HANDLE,
     tl_ttyset = zero_termios, tl_sstruct = \<lparr>custom_divisor = 0, baud_base = 0\<rparr>, tl_MSR = 0,
     tl_sis = \<lparr>ic_frame = 0, ic_overrun = 0, ic_parity = 0, ic_brk = 0\<rparr>, tl_open_flags = 0,
     tl_rol = NULL_HANDLE, tl_wol = NULL_HANDLE, tl_sol = NULL_HANDLE, tl_fd = 0\<rparr>"

definition find_port :: "nat \<Rightarrow> int \<Rightarrow> 'k winsys \<Rightarrow> (addr option \<times> 'k winsys) run" where
  \<comment> \<open>the loop stops at the descriptor, at a descriptor 0 or at the end\<close>
  "find_port fuel fd s =
     (case first_tl s of
        None \<Rightarrow> Done (None, set_errno EBADF s)
      | Some i \<Rightarrow>
          if fd \<le> 0 then Done (None, set_errno EBADF s)
          else run_bind (seek fuel (\<lambda>p. tl_fd p = 0 \<or> tl_fd p = fd) (tl_heap s) i) (\<lambda>a.
               run_bind (deref (tl_heap s) a) (\<lambda>c.
               if tl_fd (val c) = fd then Done (Some a, s) else Done (None, set_errno EBADF s))))"

definition port_opened :: "nat \<Rightarrow> string \<Rightarrow> 'k winsys \<Rightarrow> int run" where
  "port_opened fuel filename s =
     (case first_tl s of
        None \<Rightarrow> Done 0
      | Some i \<Rightarrow> run_bind (seek fuel (\<lambda>p. tl_filename p = filename) (tl_heap s) i) (\<lambda>a.
          run_bind (deref (tl_heap s) a) (\<lambda>c. Done (if tl_filename (val c) = filename then tl_fd (val c) else 0))))"

definition get_filename :: "nat \<Rightarrow> int \<Rightarrow> 'k winsys \<Rightarrow> string run" where
  "get_filename fuel fd s =
     (case first_tl s of
        None \<Rightarrow> Done ''bad''
      | Some i \<Rightarrow> run_bind (seek fuel (\<lambda>p. tl_fd p = fd) (tl_heap s) i) (\<lambda>a.
          run_bind (deref (tl_heap s) a) (\<lambda>c. Done (if tl_fd (val c) = fd then tl_filename (val c) else ''bad''))))"

fun get_fd_loop :: "nat \<Rightarrow> string \<Rightarrow> termios_list heap \<Rightarrow> addr \<Rightarrow> int run" where
  \<comment> \<open>\<open>while (strcmp(index->filename, filename)) { index = index->next; if (!index->next) return -1; }\<close>\<close>
  "get_fd_loop 0 filename h a = Hang"
| "get_fd_loop (Suc n) filename h a =
     run_bind (deref h a) (\<lambda>c.
     if tl_filename (val c) = filename then Done (tl_fd (val c))
     else case nxt c of
            None \<Rightarrow> Fault
          | Some b \<Rightarrow> run_bind (deref h b) (\<lambda>d. if nxt d = None then Done (-1) else get_fd_loop n filename h b))"

definition get_fd :: "nat \<Rightarrow> string \<Rightarrow> 'k winsys \<Rightarrow> int run" where
  "get_fd fuel filename s =
     (case first_tl s of None \<Rightarrow> Done (-1) | Some i \<Rightarrow> get_fd_loop fuel filename (tl_heap s) i)"

fun gap_loop :: "nat \<Rightarrow> termios_list heap \<Rightarrow> addr \<Rightarrow> int \<Rightarrow> int run" where
  \<comment> \<open>the loop of \<open>get_free_fd\<close>: a node and \<open>lst\<close>, its descriptor\<close>
  "gap_loop 0 h a lst = Hang"
| "gap_loop (Suc n) h a lst =
     run_bind (deref h a) (\<lambda>c. case nxt c of
       None \<Rightarrow> Done (tl_fd (val c) + 1)
     | Some b \<Rightarrow> run_bind (deref h b) (\<lambda>d.
         if tl_fd (val d) \<noteq> lst + 1 then Done (lst + 1) else gap_loop n h b (tl_fd (val d))))"

definition get_free_fd :: "nat \<Rightarrow> 'k winsys \<Rightarrow> int run" where
  "get_free_fd fuel s =
     (case first_tl s of
        None \<Rightarrow> Done 1
      | Some i \<Rightarrow> run_bind (deref (tl_heap s) i) (\<lambda>c.
          if tl_fd (val c) = 0 then Done 1
          else if 1 < tl_fd (val c) then Done 1
          else gap_loop fuel (tl_heap s) i (tl_fd (val c))))"

definition link_port :: "nat \<Rightarrow> addr \<Rightarrow> int \<Rightarrow> 'k winsys \<Rightarrow> 'k winsys run" where
  \<comment> \<open>the second half of \<open>add_port\<close>; \<open>index->prev->next\<close> is followed without a look at \<open>index->prev\<close>\<close>
  "link_port fuel a fd s =
     (case first_tl s of
        None \<Rightarrow> run_bind (set_prv a None (tl_heap s)) (\<lambda>h. run_bind (set_nxt a None h) (\<lambda>h.
          Done (s\<lparr>tl_heap := h, first_tl := Some a\<rparr>)))
      | Some i \<Rightarrow> run_bind (seek fuel (\<lambda>p. \<not> tl_fd p < fd) (tl_heap s) i) (\<lambda>i.
          run_bind (deref (tl_heap s) i) (\<lambda>c.
          if fd < tl_fd (val c) then
            run_bind (set_prv a (prv c) (tl_heap s)) (\<lambda>h.
            run_bind (set_nxt a (Some i) h) (\<lambda>h.
            case prv c of
              None \<Rightarrow> Fault
            | Some q \<Rightarrow> run_bind (set_nxt q (Some a) h) (\<lambda>h. run_bind (set_prv i (Some a) h) (\<lambda>h.
                Done (s\<lparr>tl_heap := h\<rparr>)))))
          else
            run_bind (set_prv a (Some i) (tl_heap s)) (\<lambda>h.
            run_bind (set_nxt a None h) (\<lambda>h.
            run_bind (set_nxt i (Some a) h) (\<lambda>h. Done (s\<lparr>tl_heap := h\<rparr>)))))))"

definition add_port :: "'k winapi \<Rightarrow> nat \<Rightarrow> string \<Rightarrow> 'k winsys \<Rightarrow> (addr option \<times> 'k winsys) run" where
  \<comment> \<open>four allocations: the port and its three structures. The error path dereferences \<open>port\<close> and, after
    freeing it, returns it.\<close>
  "add_port A fuel filename s =
     (let (p, k) = malloc_op A (kern s) in
      case p of
        None \<Rightarrow> Fault
      | Some a \<Rightarrow>
          let (m1, k) = malloc_op A k;
              (m2, k) = (if m1 = None then (None, k) else malloc_op A k);
              (m3, k) = (if m2 = None then (None, k) else malloc_op A k);
              s = s\<lparr>kern := k\<rparr>
          in if m3 = None then Done (Some a, s\<lparr>tl_heap := (tl_heap s)(a := None)\<rparr>)
             else if 80 \<le> length filename then Fault
             else run_bind (get_free_fd fuel s) (\<lambda>fd.
               let port = zero_port\<lparr>tl_filename := filename, tl_fd := fd\<rparr>;
                   s = s\<lparr>tl_heap := (tl_heap s)(a \<mapsto> \<lparr>val = port, nxt = None, prv = None\<rparr>)\<rparr>
               in run_bind (link_port fuel a fd s) (\<lambda>s. Done (Some a, s))))"

definition close_handle :: "'k winapi \<Rightarrow> handle \<Rightarrow> 'k \<Rightarrow> 'k" where
  "close_handle A h k = (if h = NULL_HANDLE then k else CloseHandle_op A h k)"

definition serial_close :: "'k winapi \<Rightarrow> nat \<Rightarrow> int \<Rightarrow> 'k winsys \<Rightarrow> (int \<times> 'k winsys) run" where
  "serial_close A fuel fd s =
     (case first_tl s of
        None \<Rightarrow> Done (0, s)
      | Some f \<Rightarrow> run_bind (deref (tl_heap s) f) (\<lambda>c0.
          if tl_hComm (val c0) = NULL_HANDLE then Done (0, s)
          else run_bind (find_port fuel fd s) (\<lambda>(i, s). case i of
            None \<Rightarrow> Done (-1, s)
          | Some a \<Rightarrow> run_bind (deref (tl_heap s) a) (\<lambda>c.
              run_bind (unlink a (tl_heap s)) (\<lambda>h.
              let p = val c;
                  k = close_handle A (tl_hComm p) (close_handle A (tl_sol p) (close_handle A (tl_wol p)
                        (close_handle A (tl_rol p) (kern s))))
              in Done (0, s\<lparr>tl_heap := h(a := None), kern := k,
                   first_tl := (case (nxt c, prv c) of
                      (Some n, Some q) \<Rightarrow> first_tl s
                    | (None, Some q) \<Rightarrow> first_tl s
                    | (Some n, None) \<Rightarrow> Some n
                    | (None, None) \<Rightarrow> None)\<rparr>))))))"

section \<open>The table is a sorted list\<close>

abbreviation tab :: "'k winsys \<Rightarrow> addr list \<Rightarrow> termios_list list" where
  "tab s as \<equiv> contents (tl_heap s) as"

definition tl_inv :: "'k winsys \<Rightarrow> addr list \<Rightarrow> bool" where
  "tl_inv s as \<longleftrightarrow> dlist (tl_heap s) as \<and> first_tl s = hdp as
     \<and> sorted_wrt (<) (map tl_fd (tab s as)) \<and> (\<forall>p \<in> set (tab s as). 0 < tl_fd p)"

definition ports :: "'k winsys \<Rightarrow> addr list \<Rightarrow> int \<Rightarrow> termios_list option" where
  \<comment> \<open>the map from descriptors to ports that the table stands for\<close>
  "ports s as = map_of (map (\<lambda>p. (tl_fd p, p)) (tab s as))"

lemma tl_invD:
  assumes "tl_inv s as"
  shows "dlist (tl_heap s) as" "first_tl s = hdp as" "sorted_wrt (<) (map tl_fd (tab s as))"
    "\<And>p. p \<in> set (tab s as) \<Longrightarrow> 0 < tl_fd p" "distinct (map tl_fd (tab s as))"
  using assms strict_sorted_iff by (auto simp: tl_inv_def strict_sorted_iff)

lemma tab_cell: "tl_inv s as \<Longrightarrow> a \<in> set as \<Longrightarrow> \<exists>c. tl_heap s a = Some c \<and> val c \<in> set (tab s as)"
  using dlist_mem [of "tl_heap s" as a] by (force simp: tl_inv_def contents_def)

lemma ports_Some:
  assumes "tl_inv s as"
  shows "ports s as fd = Some p \<longleftrightarrow> p \<in> set (tab s as) \<and> tl_fd p = fd"
proof -
  have "distinct (map fst (map (\<lambda>p. (tl_fd p, p)) (tab s as)))"
    using tl_invD(5) [OF assms] by (simp add: comp_def)
  then show ?thesis by (auto simp: ports_def map_of_eq_Some_iff)
qed

lemma ports_None: "ports s as fd = None \<longleftrightarrow> fd \<notin> tl_fd ` set (tab s as)"
  by (force simp: ports_def map_of_eq_None_iff)

lemma ports_None_fds: "ports s as fd = None \<longleftrightarrow> fd \<notin> set (map tl_fd (tab s as))"
  unfolding ports_None by simp

lemma tl_seek:
  assumes "tl_inv s as" and "length as \<le> fuel" and "first_tl s = Some i"
  shows "\<exists>a c. seek fuel P (tl_heap s) i = Done a \<and> a \<in> set as \<and> tl_heap s a = Some c
    \<and> val c \<in> set (tab s as) \<and> (P (val c) \<longleftrightarrow> (\<exists>p \<in> set (tab s as). P p))"
proof -
  obtain bs where as: "as = i # bs" using assms(3) tl_invD(2) [OF assms(1)] by (cases as) auto
  let ?a = "stop_at P (tl_heap s) as"
  have "seek fuel P (tl_heap s) i = Done ?a" using assms(1,2) seek_ok tl_invD(1) unfolding as by fastforce
  moreover have m: "?a \<in> set as" using stop_at_mem as by blast
  moreover obtain c where c: "tl_heap s ?a = Some c" "val c \<in> set (tab s as)"
    using tab_cell [OF assms(1) m] by blast
  moreover have "P (val c) \<longleftrightarrow> (\<exists>p \<in> set (tab s as). P p)"
    using stop_at_hit [of as P "tl_heap s"] c(1) as by simp
  ultimately show ?thesis by blast
qed

text \<open>\<open>find_port\<close> is the lookup of the map.\<close>

lemma find_port_found:
  assumes inv: "tl_inv s as" and len: "length as \<le> fuel" and p: "ports s as fd = Some p"
  obtains a c where "find_port fuel fd s = Done (Some a, s)" and "a \<in> set as" and "tl_heap s a = Some c" and "val c = p"
proof -
  have mem: "p \<in> set (tab s as)" "tl_fd p = fd" using p ports_Some [OF inv] by auto
  then obtain i where i: "first_tl s = Some i" using tl_invD(2) [OF inv] by (cases as) (auto simp: contents_def)
  have pos: "0 < fd" using mem tl_invD(4) [OF inv] by auto
  obtain a c where a: "seek fuel (\<lambda>p. tl_fd p = 0 \<or> tl_fd p = fd) (tl_heap s) i = Done a" "a \<in> set as"
      "tl_heap s a = Some c" "val c \<in> set (tab s as)" "tl_fd (val c) = 0 \<or> tl_fd (val c) = fd"
    using tl_seek [OF inv len i, of "\<lambda>p. tl_fd p = 0 \<or> tl_fd p = fd"] mem by blast
  then have fd: "tl_fd (val c) = fd" using tl_invD(4) [OF inv a(4)] by auto
  with a(4) have "val c = p" using p ports_Some [OF inv, of fd "val c"] by simp
  then show thesis
    using that [of a c] a fd pos i by (simp add: find_port_def)
qed

lemma find_port_absent:
  assumes inv: "tl_inv s as" and len: "length as \<le> fuel" and p: "ports s as fd = None"
  shows "find_port fuel fd s = Done (None, set_errno EBADF s)"
proof (cases "first_tl s")
  case (Some i)
  obtain a c where a: "seek fuel (\<lambda>p. tl_fd p = 0 \<or> tl_fd p = fd) (tl_heap s) i = Done a" 
      "tl_heap s a = Some c" "val c \<in> set (tab s as)"
    using tl_seek [OF inv len Some, of "\<lambda>p. tl_fd p = 0 \<or> tl_fd p = fd"] by blast
  then have "tl_fd (val c) \<noteq> fd" using p by (auto simp: ports_None)
  then show ?thesis using a Some by (simp add: find_port_def)
qed (simp add: find_port_def)

lemma port_opened_iff:
  assumes inv: "tl_inv s as" and len: "length as \<le> fuel"
  shows "\<exists>r. port_opened fuel n s = Done r \<and> (r \<noteq> 0 \<longleftrightarrow> (\<exists>p \<in> set (tab s as). tl_filename p = n))
    \<and> (r \<noteq> 0 \<longrightarrow> (\<exists>p. ports s as r = Some p \<and> tl_filename p = n))"
proof (cases "first_tl s")
  case (Some i)
  obtain a c where a: "seek fuel (\<lambda>p. tl_filename p = n) (tl_heap s) i = Done a" "tl_heap s a = Some c"
      "val c \<in> set (tab s as)" "tl_filename (val c) = n \<longleftrightarrow> (\<exists>p \<in> set (tab s as). tl_filename p = n)"
    using tl_seek [OF inv len Some, of "\<lambda>p. tl_filename p = n"] by blast
  have "0 < tl_fd (val c)" using tl_invD(4) [OF inv a(3)] .
  then show ?thesis
    using a Some ports_Some [OF inv] by (auto simp: port_opened_def)
next
  case None
  then have "as = []" using tl_invD(2) [OF inv] by (cases as) auto
  with None show ?thesis by (simp add: port_opened_def contents_def)
qed

section \<open>The next free descriptor\<close>

fun gap :: "int \<Rightarrow> int list \<Rightarrow> int" where
  "gap f [] = f + 1"
| "gap f (g # gs) = (if g \<noteq> f + 1 then f + 1 else gap g gs)"

lemma gap_spec:
  "sorted_wrt (<) (f # fs) \<Longrightarrow>
   f < gap f fs \<and> gap f fs \<notin> set (f # fs) \<and> (\<forall>m. f \<le> m \<and> m < gap f fs \<longrightarrow> m \<in> set (f # fs))"
proof (induction f fs rule: gap.induct)
  case (2 f g gs)
  show ?case
  proof (cases "g = f + 1")
    case True
    then have "g < gap g gs \<and> gap g gs \<notin> set (g # gs) \<and> (\<forall>m. g \<le> m \<and> m < gap g gs \<longrightarrow> m \<in> set (g # gs))"
      using 2 by simp
    with True show ?thesis by (auto simp: le_less) (metis add1_zle_eq le_less)
  next
    case False
    with 2 show ?thesis by force
  qed
qed simp

lemma gap_loop_ok:
  "dseg h pr (Some a) (a # as) None \<Longrightarrow> length as < fuel \<Longrightarrow> tl_fd (val (the (h a))) = f \<Longrightarrow>
   gap_loop fuel h a f = Done (gap f (map tl_fd (contents h as)))"
proof (induction as arbitrary: pr a fuel f)
  case Nil
  then show ?case by (cases fuel) (auto simp: contents_def split: option.splits)
next
  case (Cons b bs)
  then obtain n where n: "fuel = Suc n" by (cases fuel) auto
  from Cons.prems obtain c where c: "h a = Some c" "nxt c = Some b" "dseg h (Some a) (Some b) (b # bs) None"
    by (auto split: option.splits)
  then obtain d where d: "h b = Some d" by (auto split: option.splits)
  with c Cons.IH [OF c(3), of n "tl_fd (val d)"] Cons.prems n show ?case
    by (cases "tl_fd (val d) = f + 1") (simp_all add: contents_def)
qed

lemma get_free_fd_least:
  assumes inv: "tl_inv s as" and len: "length as \<le> fuel"
  shows "\<exists>n. get_free_fd fuel s = Done n \<and> 0 < n \<and> ports s as n = None \<and> (\<forall>m. 0 < m \<and> m < n \<longrightarrow> ports s as m \<noteq> None)"
proof (cases as)
  case Nil
  then show ?thesis using tl_invD(2) [OF inv] by (simp add: get_free_fd_def ports_def contents_def)
next
  case (Cons i bs)
  obtain c where c: "tl_heap s i = Some c" "val c \<in> set (tab s as)" using tab_cell [OF inv] Cons by fastforce
  have pos: "0 < tl_fd (val c)" using tl_invD(4) [OF inv c(2)] .
  have fds: "map tl_fd (tab s as) = tl_fd (val c) # map tl_fd (tab s bs)"
    using c(1) Cons by (simp add: contents_def)
  have seg: "dseg (tl_heap s) None (Some i) (i # bs) None"
    using tl_invD(1) [OF inv] Cons by (simp add: dlist_def)
  show ?thesis
  proof (cases "1 < tl_fd (val c)")
    case True
    have "\<forall>g \<in> set (map tl_fd (tab s bs)). tl_fd (val c) < g"
      using tl_invD(3) [OF inv] unfolding fds by simp
    with True have "1 \<notin> set (map tl_fd (tab s as))" unfolding fds by force
    then have "ports s as 1 = None" unfolding ports_None_fds by blast
    then show ?thesis using True c tl_invD(2) [OF inv] Cons by (auto simp: get_free_fd_def)
  next
    case False
    with pos have one: "tl_fd (val c) = 1" by simp
    let ?n = "gap 1 (map tl_fd (tab s bs))"
    have g: "1 < ?n" "?n \<notin> set (map tl_fd (tab s as))" "\<forall>m. 1 \<le> m \<and> m < ?n \<longrightarrow> m \<in> set (map tl_fd (tab s as))"
      using gap_spec [of 1 "map tl_fd (tab s bs)"] tl_invD(3) [OF inv] unfolding fds one by simp_all
    have "get_free_fd fuel s = Done ?n"
      using gap_loop_ok [OF seg, of fuel 1] len c one tl_invD(2) [OF inv] Cons by (simp add: get_free_fd_def)
    moreover have "ports s as ?n = None" using g(2) unfolding ports_None_fds by blast
    moreover have "ports s as m \<noteq> None" if "0 < m" "m < ?n" for m
      using g(3) that unfolding ports_None_fds by simp
    ultimately show ?thesis using g(1) by (intro exI [of _ ?n]) simp
  qed
qed

section \<open>Entering and leaving the table\<close>

lemma tab_same_vals:
  "tl_inv s as \<Longrightarrow> same_vals (tl_heap s) h \<Longrightarrow> set bs \<subseteq> set as \<Longrightarrow> contents h bs = tab s bs"
  using dlist_mem tl_invD(1) by (intro same_vals_contents) blast+

lemma tl_inv_insert:
  assumes "tl_inv s (xs @ ys)" and "dlist h (xs @ a # ys)" and "first_tl s = hdp (xs @ a # ys)"
    and "contents h xs = tab s xs" and "val (the (h a)) = p" and "contents h ys = tab s ys" and "0 < tl_fd p"
    and "\<forall>v \<in> set (tab s xs). tl_fd v < tl_fd p" and "\<forall>v \<in> set (tab s ys). tl_fd p < tl_fd v"
  shows "tl_inv (s\<lparr>tl_heap := h\<rparr>) (xs @ a # ys) \<and> contents h (xs @ a # ys) = tab s xs @ p # tab s ys"
proof -
  have t: "contents h (xs @ a # ys) = tab s xs @ p # tab s ys"
    using assms(4,5,6) by (simp add: contents_def)
  have "sorted_wrt (<) (map tl_fd (tab s xs @ tab s ys))" "\<forall>v \<in> set (tab s xs @ tab s ys). 0 < tl_fd v"
    using assms(1) by (simp_all add: tl_inv_def)
  then show ?thesis using assms(2,3,7,8,9) unfolding tl_inv_def
    by (simp add: t sorted_wrt_append ball_Un del: contents_append)
qed

lemma ports_insert:
  assumes "tl_inv s (xs @ ys)" and "tl_inv s' (xs @ a # ys)"
    and "tab s' (xs @ a # ys) = tab s xs @ p # tab s ys" and "ports s (xs @ ys) (tl_fd p) = None"
  shows "ports s' (xs @ a # ys) = (ports s (xs @ ys))(tl_fd p \<mapsto> p)"
proof (rule ext)
  fix fd
  have "ports s' (xs @ a # ys) fd = Some q \<longleftrightarrow> ((ports s (xs @ ys))(tl_fd p \<mapsto> p)) fd = Some q" for q
    using assms(3,4)
    by (auto simp: ports_Some [OF assms(1)] ports_Some [OF assms(2)] ports_None) (metis UnI1 UnI2 image_eqI)+
  then show "ports s' (xs @ a # ys) fd = ((ports s (xs @ ys))(tl_fd p \<mapsto> p)) fd"
    by (metis option.exhaust)
qed

text \<open>A descriptor between two others, or behind all of them, is linked in where it belongs.\<close>

lemma link_between:
  assumes inv: "tl_inv s (xs @ j # ys)" and a: "a \<notin> set (xs @ j # ys)" and cell: "tl_heap s a = Some \<lparr>val = p, nxt = None, prv = None\<rparr>"
    and pos: "0 < tl_fd p" and first: "first_tl s = Some i"
    and sk: "seek fuel (\<lambda>q. \<not> tl_fd q < tl_fd p) (tl_heap s) i = Done j" and c: "tl_heap s j = Some c"
    and lt: "\<forall>v \<in> set (tab s xs). tl_fd v < tl_fd p" and gt: "tl_fd p < tl_fd (val c)" and ne: "xs \<noteq> []"
  shows "\<exists>s'. link_port fuel a (tl_fd p) s = Done s' \<and> tl_inv s' (xs @ a # j # ys)
    \<and> tab s' (xs @ a # j # ys) = tab s xs @ p # tab s (j # ys) \<and> kern s' = kern s \<and> dom (tl_heap s') = dom (tl_heap s)"
proof -
  obtain zs q where xs: "xs = zs @ [q]" using ne by (metis rev_exhaust)
  obtain cq where cq: "tl_heap s q = Some cq" using tab_cell [OF inv, of q] xs by auto
  have link: "prv c = lastp None xs" "nxt c = hdp ys" using dlist_prv_nxt [OF tl_invD(1) [OF inv]] c by auto
  define h where "h = (tl_heap s)(a \<mapsto> \<lparr>val = p, nxt = Some j, prv = Some q\<rparr>, q \<mapsto> cq\<lparr>nxt := Some a\<rparr>,
    j \<mapsto> c\<lparr>prv := Some a\<rparr>)"
  have ne': "q \<noteq> a" "q \<noteq> j" "j \<noteq> a" using a xs tl_invD(1) [OF inv] by (auto simp: dlist_def)
  have run: "link_port fuel a (tl_fd p) s = Done (s\<lparr>tl_heap := h\<rparr>)"
    using first sk c link cell cq xs gt ne' by (simp add: link_port_def set_prv_def set_nxt_def h_def)
  have "dlist h ((zs @ [q]) @ a # j # ys)"
    unfolding h_def using tl_invD(1) [OF inv] xs a by (intro insert_ok cq c) simp_all
  moreover have same: "same_vals (tl_heap s) h"
    using cell cq c ne' by (auto simp: same_vals_def h_def)
  moreover have "contents h xs = tab s xs" "contents h (j # ys) = tab s (j # ys)"
    by (rule tab_same_vals [OF inv same]; auto)+
  moreover have "val (the (h a)) = p" using ne' by (simp add: h_def)
  moreover have "\<forall>v \<in> set (tab s (j # ys)). tl_fd p < tl_fd v"
    using tl_invD(3) [OF inv] gt c by (auto simp: contents_def sorted_wrt_append)
  ultimately have "tl_inv (s\<lparr>tl_heap := h\<rparr>) (xs @ a # j # ys) \<and> contents h (xs @ a # j # ys) = tab s xs @ p # tab s (j # ys)"
    using inv xs pos lt tl_invD(2) [OF inv] by (intro tl_inv_insert) auto
  then show ?thesis using run same_vals_dom [OF same] by (intro exI [of _ "s\<lparr>tl_heap := h\<rparr>"]) simp
qed

lemma link_behind:
  assumes inv: "tl_inv s (xs @ [j])" and a: "a \<notin> set (xs @ [j])" and cell: "tl_heap s a = Some \<lparr>val = p, nxt = None, prv = None\<rparr>"
    and pos: "0 < tl_fd p" and first: "first_tl s = Some i"
    and sk: "seek fuel (\<lambda>q. \<not> tl_fd q < tl_fd p) (tl_heap s) i = Done j" and c: "tl_heap s j = Some c"
    and lt: "\<forall>v \<in> set (tab s (xs @ [j])). tl_fd v < tl_fd p"
  shows "\<exists>s'. link_port fuel a (tl_fd p) s = Done s' \<and> tl_inv s' ((xs @ [j]) @ [a])
    \<and> tab s' ((xs @ [j]) @ [a]) = tab s (xs @ [j]) @ [p] \<and> kern s' = kern s \<and> dom (tl_heap s') = dom (tl_heap s)"
proof -
  define h where "h = (tl_heap s)(a \<mapsto> \<lparr>val = p, nxt = None, prv = Some j\<rparr>, j \<mapsto> c\<lparr>nxt := Some a\<rparr>)"
  have ja: "j \<noteq> a" using a by auto
  have le: "tl_fd (val c) < tl_fd p" using lt c by (auto simp: contents_def)
  have link: "prv c = lastp None xs" "nxt c = None" using dlist_prv_nxt [OF tl_invD(1) [OF inv]] c by auto
  have run: "link_port fuel a (tl_fd p) s = Done (s\<lparr>tl_heap := h\<rparr>)"
    using first sk c link cell le ja by (simp add: link_port_def set_prv_def set_nxt_def h_def)
  have "dlist h (xs @ [j, a])"
    unfolding h_def using tl_invD(1) [OF inv] a by (intro append_ok c) simp_all
  moreover have same: "same_vals (tl_heap s) h" using cell c ja by (auto simp: same_vals_def h_def)
  have "contents h (xs @ [j]) = tab s (xs @ [j])" using tab_same_vals [OF inv same] by blast
  moreover have "val (the (h a)) = p" using ja by (simp add: h_def)
  ultimately have "tl_inv (s\<lparr>tl_heap := h\<rparr>) ((xs @ [j]) @ [a]) \<and> contents h ((xs @ [j]) @ [a]) = tab s (xs @ [j]) @ p # tab s []"
    using lt inv pos tl_invD(2) [OF inv] by (intro tl_inv_insert) (simp_all add: contents_def)
  then show ?thesis using run same_vals_dom [OF same] by (intro exI [of _ "s\<lparr>tl_heap := h\<rparr>"]) (simp add: contents_def)
qed

lemma link_port_ok:
  assumes inv: "tl_inv s as" and len: "length as \<le> fuel" and a: "a \<notin> set as"
    and cell: "tl_heap s a = Some \<lparr>val = p, nxt = None, prv = None\<rparr>" and pos: "0 < tl_fd p"
    and free: "ports s as (tl_fd p) = None" and low: "as = [] \<or> (\<exists>q \<in> set (tab s as). tl_fd q < tl_fd p)"
  shows "\<exists>s' xs ys. link_port fuel a (tl_fd p) s = Done s' \<and> as = xs @ ys \<and> tl_inv s' (xs @ a # ys)
    \<and> tab s' (xs @ a # ys) = tab s xs @ p # tab s ys \<and> kern s' = kern s \<and> dom (tl_heap s') = dom (tl_heap s)"
proof (cases "first_tl s")
  case None
  then have "as = []" using tl_invD(2) [OF inv] by (cases as) auto
  then show ?thesis
    using None cell pos
    by (auto simp: link_port_def set_prv_def set_nxt_def tl_inv_def dlist_def contents_def)
next
  case (Some i)
  define P :: "termios_list \<Rightarrow> bool" where "P = (\<lambda>q. \<not> tl_fd q < tl_fd p)"
  define j where "j = stop_at P (tl_heap s) as"
  obtain bs where as: "as = i # bs" using Some tl_invD(2) [OF inv] by (cases as) auto
  have sk: "seek fuel P (tl_heap s) i = Done j"
    using seek_ok [of "tl_heap s" i bs fuel P] tl_invD(1) [OF inv] len by (simp add: as j_def)
  obtain xs ys where xy: "as = xs @ j # ys" "\<forall>v \<in> set (tab s xs). tl_fd v < tl_fd p"
    using stop_at_first [of as P "tl_heap s"] as by (auto simp: j_def P_def)
  obtain c where c: "tl_heap s j = Some c" using tab_cell [OF inv, of j] xy(1) by auto
  have vals: "tab s as = tab s xs @ val c # tab s ys" using xy(1) c by (auto simp: contents_def)
  have ne: "tl_fd (val c) \<noteq> tl_fd p" using free vals by (auto simp: ports_None)
  show ?thesis
  proof (cases "tl_fd p < tl_fd (val c)")
    case True
    have "\<not> (\<exists>q \<in> set (tab s as). tl_fd q < tl_fd p)" if "xs = []"
      using tl_invD(3) [OF inv] True unfolding vals that by (auto simp: contents_def)
    then have "xs \<noteq> []" using low as by blast
    then show ?thesis
      using link_between [OF inv [unfolded xy(1)] a [unfolded xy(1)] cell pos Some sk [unfolded P_def] c xy(2) True] xy(1) by blast
  next
    case False
    with ne have "\<not> P (val c)" by (simp add: P_def)
    then have all: "\<forall>v \<in> set (tab s as). tl_fd v < tl_fd p" and last: "j = last as"
      using stop_at_hit [of as P "tl_heap s"] stop_at_last [of as "tl_heap s" P] as c by (auto simp: P_def j_def)
    have "ys = []" using last xy(1) tl_invD(1) [OF inv] by (cases ys rule: rev_cases) (auto simp: dlist_def)
    then have as': "as = xs @ [j]" using xy(1) by simp
    then obtain s' where "link_port fuel a (tl_fd p) s = Done s'" "tl_inv s' (as @ [a])" "tab s' (as @ [a]) = tab s as @ [p]" "kern s' = kern s"
        "dom (tl_heap s') = dom (tl_heap s)"
      using link_behind [OF inv [unfolded as'] a [unfolded as'] cell pos Some sk [unfolded P_def] c all [unfolded as']] by blast
    then show ?thesis by (intro exI [of _ s'] exI [of _ as] exI [of _ "[]"]) (simp add: contents_def)
  qed
qed

text \<open>The four allocations of \<open>add_port\<close> succeed, the first with an address that is not in use.\<close>

definition fresh_port :: "'k winapi \<Rightarrow> 'k winsys \<Rightarrow> addr \<Rightarrow> 'k \<Rightarrow> bool" where
  "fresh_port A s a k' \<longleftrightarrow> (\<exists>k1 k2 k3 m1 m2 m3. malloc_op A (kern s) = (Some a, k1) \<and> malloc_op A k1 = (Some m1, k2)
     \<and> malloc_op A k2 = (Some m2, k3) \<and> malloc_op A k3 = (Some m3, k') \<and> tl_heap s a = None)"

lemma fresh_not_in: "tl_inv s as \<Longrightarrow> tl_heap s a = None \<Longrightarrow> a \<notin> set as"
  using tab_cell by force

lemma tl_inv_frame:
  fixes s :: "'k winsys"
  assumes "tl_inv s as" and "tl_heap s a = None"
  shows "tl_inv (s\<lparr>kern := k, tl_heap := (tl_heap s)(a \<mapsto> c)\<rparr>) as"
    and "ports (s\<lparr>kern := k, tl_heap := (tl_heap s)(a \<mapsto> c)\<rparr>) as = ports s as"
    and "tab (s\<lparr>kern := k, tl_heap := (tl_heap s)(a \<mapsto> c)\<rparr>) as = tab s as"
  using assms(1) fresh_not_in [OF assms] by (simp_all add: tl_inv_def ports_def)

definition new_port :: "string \<Rightarrow> int \<Rightarrow> termios_list" where
  "new_port filename fd = zero_port\<lparr>tl_filename := filename, tl_fd := fd\<rparr>"

lemma new_port_sel [simp]: "tl_fd (new_port n fd) = fd" "tl_filename (new_port n fd) = n"
  by (simp_all add: new_port_def)

lemma get_free_fd_kern: "get_free_fd fuel (s\<lparr>kern := k\<rparr>) = get_free_fd fuel s"
  by (simp add: get_free_fd_def cong: option.case_cong if_cong)

lemma add_port_link:
  assumes inv: "tl_inv s as" and len: "length as \<le> fuel" and fresh: "fresh_port A s a k'" and name: "length n < 80"
    and fd: "get_free_fd fuel s = Done fd"
  shows "add_port A fuel n s = run_bind (link_port fuel a fd
    (s\<lparr>kern := k', tl_heap := (tl_heap s)(a \<mapsto> \<lparr>val = new_port n fd, nxt = None, prv = None\<rparr>)\<rparr>)) (\<lambda>s. Done (Some a, s))"
  using fresh name fd by (auto simp: add_port_def fresh_port_def new_port_def get_free_fd_kern)

lemma low_port:
  assumes inv: "tl_inv s as" and "as = [] \<or> ports s as 1 \<noteq> None" and "0 < fd" and "ports s as fd = None"
  shows "as = [] \<or> (\<exists>q \<in> set (tab s as). tl_fd q < fd)"
proof (cases "ports s as 1")
  case (Some p)
  then have "p \<in> set (tab s as)" "tl_fd p = 1" using ports_Some [OF inv] by auto
  moreover have "fd \<noteq> 1" using assms(4) Some by auto
  ultimately show ?thesis using assms(3) by force
qed (use assms(2) in simp)

lemma add_port_ok:
  assumes inv: "tl_inv s as" and len: "length as \<le> fuel" and fresh: "fresh_port A s a k'" and name: "length n < 80"
    and one: "as = [] \<or> ports s as 1 \<noteq> None"
  shows "\<exists>fd s' as'. get_free_fd fuel s = Done fd \<and> add_port A fuel n s = Done (Some a, s') \<and> tl_inv s' as'
    \<and> length as' = Suc (length as) \<and> ports s' as' = (ports s as)(fd \<mapsto> new_port n fd) \<and> kern s' = k'
    \<and> a \<in> set as' \<and> (\<exists>c. tl_heap s' a = Some c \<and> val c = new_port n fd)
    \<and> (dom (tl_heap s) = set as \<longrightarrow> dom (tl_heap s') = set as')"
proof -
  obtain fd where fd: "get_free_fd fuel s = Done fd" "0 < fd" "ports s as fd = None"
    using get_free_fd_least [OF inv len] by blast
  let ?c = "\<lparr>val = new_port n fd, nxt = None, prv = None\<rparr>"
  let ?s = "s\<lparr>kern := k', tl_heap := (tl_heap s)(a \<mapsto> ?c)\<rparr>"
  have a: "tl_heap s a = None" using fresh by (auto simp: fresh_port_def)
  note frame = tl_inv_frame [OF inv a, where c = ?c and k = k']
  have low: "as = [] \<or> (\<exists>q \<in> set (tab ?s as). tl_fd q < tl_fd (new_port n fd))"
    using low_port [OF inv one fd(2,3)] frame(3) by simp
  have cell: "tl_heap ?s a = Some ?c" by simp
  obtain s' xs ys where l: "link_port fuel a fd ?s = Done s'" "as = xs @ ys" "tl_inv s' (xs @ a # ys)"
      "tab s' (xs @ a # ys) = tab ?s xs @ new_port n fd # tab ?s ys" "kern s' = kern ?s"
      "dom (tl_heap s') = dom (tl_heap ?s)"
    using link_port_ok [OF frame(1) len fresh_not_in [OF inv a] cell _ _ low] fd(2,3) frame(2) by auto
  have "ports s' (xs @ a # ys) = (ports ?s (xs @ ys))(fd \<mapsto> new_port n fd)"
    using ports_insert [OF _ l(3,4)] frame(1,2) fd(3) l(2) by simp
  then have "ports s' (xs @ a # ys) = (ports s as)(fd \<mapsto> new_port n fd)" using frame(2) l(2) by simp
  moreover have "add_port A fuel n s = Done (Some a, s')"
    unfolding add_port_link [OF inv len fresh name fd(1)] l(1) by simp
  moreover obtain c where "tl_heap s' a = Some c" using tab_cell [OF l(3), of a] by auto
  moreover from this have "val c = new_port n fd"
    using l(4) by (simp add: contents_def append_eq_append_conv)
  ultimately show ?thesis
    using l fd(1) by (intro exI [of _ fd] exI [of _ s'] exI [of _ "xs @ a # ys"]) simp
qed

text \<open>When descriptor 1 is free but another is not, the new port belongs in front, and \<open>index->prev\<close> is
  null.\<close>

lemma add_port_faults:
  assumes inv: "tl_inv s as" and len: "length as \<le> fuel" and fresh: "fresh_port A s a k'" and name: "length n < 80"
    and one: "as \<noteq> []" "ports s as 1 = None"
  shows "add_port A fuel n s = Fault"
proof -
  obtain i bs where as: "as = i # bs" using one(1) by (cases as) auto
  obtain c where c: "tl_heap s i = Some c" "prv c = None" "val c \<in> set (tab s as)"
    using tl_invD(1) [OF inv] tab_cell [OF inv, of i] as by (auto simp: dlist_def)
  have hi: "1 < tl_fd (val c)"
    using tl_invD(4) [OF inv c(3)] one(2) c(3) unfolding ports_None by (metis image_eqI int_one_le_iff_zero_less le_less)
  have fd: "get_free_fd fuel s = Done 1"
    using hi c(1) tl_invD(2) [OF inv] as by (simp add: get_free_fd_def)
  have a: "tl_heap s a = None" using fresh by (auto simp: fresh_port_def)
  then have ia: "i \<noteq> a" using c(1) by auto
  obtain m where m: "fuel = Suc m" using len as by (cases fuel) auto
  show ?thesis
    unfolding add_port_link [OF inv len fresh name fd]
    using hi c ia m tl_invD(2) [OF inv] as by (simp add: link_port_def set_prv_def set_nxt_def)
qed

text \<open>Closing takes exactly the port out.\<close>

lemma ports_delete:
  assumes "tl_inv s (xs @ a # ys)" and "tl_heap s a = Some c" and "tl_inv s' (xs @ ys)" and "tab s' (xs @ ys) = tab s (xs @ ys)"
  shows "ports s' (xs @ ys) = (ports s (xs @ a # ys))(tl_fd (val c) := None)"
proof (rule ext)
  fix fd
  have t: "tab s (xs @ a # ys) = tab s xs @ val c # tab s ys" using assms(2) by (simp add: contents_def)
  then have t': "set (tab s (xs @ a # ys)) = insert (val c) (set (tab s' (xs @ ys)))"
    and "tl_fd (val c) \<notin> tl_fd ` set (tab s' (xs @ ys))"
    using tl_invD(5) [OF assms(1)] unfolding assms(4) by auto
  then have "ports s' (xs @ ys) fd = Some q \<longleftrightarrow> ((ports s (xs @ a # ys))(tl_fd (val c) := None)) fd = Some q" for q
    unfolding fun_upd_apply by (auto simp: ports_Some [OF assms(1)] ports_Some [OF assms(3)] t' simp del: contents_append) (metis image_eqI)
  then show "ports s' (xs @ ys) fd = ((ports s (xs @ a # ys))(tl_fd (val c) := None)) fd"
    by (metis option.exhaust)
qed

lemma serial_close_ok:
  assumes inv: "tl_inv s as" and len: "length as \<le> fuel" and p: "ports s as fd = Some p"
    and ci: "first_tl s = Some i" "tl_heap s i = Some ci" "tl_hComm (val ci) \<noteq> NULL_HANDLE"
  shows "\<exists>s' as'. serial_close A fuel fd s = Done (0, s') \<and> tl_inv s' as' \<and> length as = Suc (length as')
    \<and> ports s' as' = (ports s as)(fd := None) \<and> (dom (tl_heap s) = set as \<longrightarrow> dom (tl_heap s') = set as')"
proof -
  obtain a c where a: "find_port fuel fd s = Done (Some a, s)" "a \<in> set as" "tl_heap s a = Some c" "val c = p"
    using find_port_found [OF inv len p] .
  obtain xs ys where xy: "as = xs @ a # ys" using split_list [OF a(2)] by blast
  obtain h where h: "unlink a (tl_heap s) = Done h" "dlist h (xs @ ys)" "same_vals (tl_heap s) h" "h a = tl_heap s a"
    using unlink_ok tl_invD(1) [OF inv] xy by metis
  have link: "prv c = lastp None xs" "nxt c = hdp ys" using dlist_prv_nxt [of "tl_heap s" xs a ys] tl_invD(1) [OF inv] xy a(3) by auto
  have nin: "a \<notin> set (xs @ ys)" using tl_invD(1) [OF inv] xy by (auto simp: dlist_def)
  have first: "(case (nxt c, prv c) of (Some n, Some q) \<Rightarrow> first_tl s | (None, Some q) \<Rightarrow> first_tl s
      | (Some n, None) \<Rightarrow> Some n | (None, None) \<Rightarrow> None) = hdp (xs @ ys)"
    using link tl_invD(2) [OF inv] xy by (cases xs rule: rev_cases; cases ys) auto
  define k where "k = close_handle A (tl_hComm p) (close_handle A (tl_sol p) (close_handle A (tl_wol p)
    (close_handle A (tl_rol p) (kern s))))"
  have run: "serial_close A fuel fd s = Done (0, s\<lparr>tl_heap := h(a := None), kern := k, first_tl := hdp (xs @ ys)\<rparr>)"
    using a h(1) ci first by (simp add: serial_close_def Let_def k_def)
  let ?s = "s\<lparr>tl_heap := h(a := None), kern := k, first_tl := hdp (xs @ ys)\<rparr>"
  have t: "tab ?s (xs @ ys) = tab s (xs @ ys)"
    using tab_same_vals [OF inv h(3), of "xs @ ys"] nin xy by (auto simp del: contents_append)
  have "sorted_wrt (<) (map tl_fd (tab s xs @ tab s ys))" "\<forall>v \<in> set (tab s xs @ tab s ys). 0 < tl_fd v"
    using inv xy by (auto simp: tl_inv_def contents_def sorted_wrt_append)
  then have inv': "tl_inv ?s (xs @ ys)" using h(2) nin t unfolding tl_inv_def by simp
  have "ports ?s (xs @ ys) = (ports s as)(fd := None)"
    using ports_delete [OF inv [unfolded xy] a(3) inv' t] a(4) p ports_Some [OF inv] xy by simp
  with run inv' show ?thesis using xy nin same_vals_dom [OF h(3)] by (intro exI [of _ ?s] exI [of _ "xs @ ys"]) simp
qed

text \<open>Closing anything else changes nothing.\<close>

lemma tl_inv_errno: "tl_inv (set_errno e s) as = tl_inv s as" "ports (set_errno e s) as = ports s as"
  by (simp_all add: tl_inv_def ports_def set_errno_def)

lemma serial_close_returns:
  assumes inv: "tl_inv s as" and len: "length as \<le> fuel"
  shows "\<exists>r s' as'. serial_close A fuel fd s = Done (r, s') \<and> tl_inv s' as' \<and> length as' \<le> length as
    \<and> (ports s' as' = ports s as \<or> ports s' as' = (ports s as)(fd := None))"
proof (cases "first_tl s")
  case None
  then show ?thesis using inv by (auto simp: serial_close_def)
next
  case (Some i)
  then have "i \<in> set as" using tl_invD(2) [OF inv] by (cases as) auto
  then obtain c where c: "tl_heap s i = Some c" using tab_cell [OF inv] by blast
  show ?thesis
  proof (cases "tl_hComm (val c) \<noteq> NULL_HANDLE \<and> ports s as fd \<noteq> None")
    case True
    then show ?thesis using serial_close_ok [OF inv len _ Some c] by fastforce
  next
    case False
    then have "serial_close A fuel fd s = Done (0, s) \<or> serial_close A fuel fd s = Done (-1, set_errno EBADF s)"
      using Some c find_port_absent [OF inv len, of fd] by (auto simp: serial_close_def)
    then show ?thesis
    proof
      assume "serial_close A fuel fd s = Done (0, s)"
      then show ?thesis using inv by (intro exI [of _ 0] exI [of _ s] exI [of _ as]) simp
    next
      assume "serial_close A fuel fd s = Done (-1, set_errno EBADF s)"
      then show ?thesis using inv
        by (intro exI [of _ "-1"] exI [of _ "set_errno EBADF s"] exI [of _ as]) (simp add: tl_inv_errno)
    qed
  qed
qed

end
