(* ===== verification/Win32_Termios.thy ===== *)
theory Win32_Termios
  imports Win32_Ports
begin

text \<open>
  The terminal interface of \<open>termios.c\<close> over the Windows API: \<open>tcgetattr\<close>, \<open>tcsetattr\<close>,
  \<open>ClearErrors\<close>, \<open>tcsendbreak\<close>, \<open>tcdrain\<close>, \<open>tcflush\<close>, \<open>tcflow\<close>, \<open>ioctl\<close>, \<open>fcntl\<close>,
  \<open>termios_setflags\<close>, the parity error character, and opening a port. An operation on a port is a
  function of the port's structure and of the state; \<open>on_port\<close> looks the structure up and stores it back.
\<close>

abbreviation (input) EV_RXCHAR :: u32 where "EV_RXCHAR \<equiv> 1"
abbreviation (input) EV_TXEMPTY :: u32 where "EV_TXEMPTY \<equiv> 4"
abbreviation (input) EV_CTS :: u32 where "EV_CTS \<equiv> 8"
abbreviation (input) EV_DSR :: u32 where "EV_DSR \<equiv> 0x10"
abbreviation (input) EV_RLSD :: u32 where "EV_RLSD \<equiv> 0x20"
abbreviation (input) EV_BREAK :: u32 where "EV_BREAK \<equiv> 0x40"
abbreviation (input) EV_ERR :: u32 where "EV_ERR \<equiv> 0x80"
abbreviation (input) EV_RING :: u32 where "EV_RING \<equiv> 0x100"
abbreviation (input) CE_RXPARITY :: u32 where "CE_RXPARITY \<equiv> 4"
abbreviation (input) CE_FRAME :: u32 where "CE_FRAME \<equiv> 8"
abbreviation (input) CE_BREAK :: u32 where "CE_BREAK \<equiv> 0x10"
abbreviation (input) MS_CTS_ON :: u32 where "MS_CTS_ON \<equiv> 0x10"
abbreviation (input) MS_DSR_ON :: u32 where "MS_DSR_ON \<equiv> 0x20"
abbreviation (input) MS_RING_ON :: u32 where "MS_RING_ON \<equiv> 0x40"
abbreviation (input) MS_RLSD_ON :: u32 where "MS_RLSD_ON \<equiv> 0x80"
abbreviation (input) ENOIOCTLCMD :: int where "ENOIOCTLCMD \<equiv> 515"
abbreviation (input) WIN_O_NONBLOCK :: u32 where "WIN_O_NONBLOCK \<equiv> 4"

section \<open>Working on a port\<close>

type_synonym ('k, 'r) port_op = "termios_list \<Rightarrow> 'k winsys \<Rightarrow> ('r \<times> termios_list \<times> 'k winsys) run"

definition on_port :: "nat \<Rightarrow> int \<Rightarrow> 'r \<Rightarrow> ('k, 'r) port_op \<Rightarrow> 'k winsys \<Rightarrow> ('r \<times> 'k winsys) run" where
  "on_port fuel fd dflt f s =
     run_bind (find_port fuel fd s) (\<lambda>(i, s). case i of
       None \<Rightarrow> Done (dflt, s)
     | Some a \<Rightarrow> run_bind (deref (tl_heap s) a) (\<lambda>c.
         run_bind (f (val c) s) (\<lambda>(r, p, s).
         run_bind (set_val a p (tl_heap s)) (\<lambda>h. Done (r, s\<lparr>tl_heap := h\<rparr>)))))"

definition count_error :: "u32 \<Rightarrow> u32 \<Rightarrow> u32 \<Rightarrow> u32" where
  "count_error e m n = (if e AND m \<noteq> 0 then n + 1 else n)"

definition ClearErrors :: "'k winapi \<Rightarrow> termios_list \<Rightarrow> 'k winsys \<Rightarrow> COMSTAT option \<times> termios_list \<times> 'k winsys" where
  \<comment> \<open>overruns are not counted\<close>
  "ClearErrors A p s =
     (case ClearCommError_op A (tl_hComm p) (kern s) of
        (None, k) \<Rightarrow> (None, p, s\<lparr>kern := k\<rparr>)
      | (Some (e, st), k) \<Rightarrow>
          (Some st, p\<lparr>tl_sis := (tl_sis p)\<lparr>ic_frame := count_error e CE_FRAME (ic_frame (tl_sis p)),
             ic_parity := count_error e CE_RXPARITY (ic_parity (tl_sis p)),
             ic_brk := count_error e CE_BREAK (ic_brk (tl_sis p))\<rparr>\<rparr>, s\<lparr>kern := k\<rparr>))"

definition set_mask :: "'k winapi \<Rightarrow> termios_list \<Rightarrow> u32 \<Rightarrow> 'k winsys \<Rightarrow> 'k winsys" where
  \<comment> \<open>\<open>SetCommMask\<close> with the result not looked at\<close>
  "set_mask A p m s = s\<lparr>kern := snd (SetCommMask_op A (tl_hComm p) m (kern s))\<rparr>"

section \<open>Terminal attributes\<close>

definition tcgetattr :: "'k winapi \<Rightarrow> nat \<Rightarrow> int \<Rightarrow> termios \<Rightarrow> 'k winsys \<Rightarrow> ((int \<times> termios) \<times> 'k winsys) run" where
  "tcgetattr A fuel fd t0 s =
     (if fd \<le> 0 then Done ((0, t0), s)
      else on_port fuel fd (-1, t0) (\<lambda>p s.
        case GetCommState_op A (tl_hComm p) (kern s) of
          None \<Rightarrow> Done ((-1, t0), p, s)
        | Some d \<Rightarrow>
            let t = tl_ttyset p in
            (case GetCommTimeouts_op A (tl_hComm p) (kern s) of
               None \<Rightarrow> Done ((-1, t\<lparr>c_iflag := dcb_iflag d (c_iflag t), c_cflag := dcb_cflag d (c_cflag t)\<rparr>), p, s)
             | Some tm \<Rightarrow> Done ((0, overlay d tm t), p, s))) s)"

definition tcsetattr :: "'k winapi \<Rightarrow> nat \<Rightarrow> int \<Rightarrow> termios \<Rightarrow> 'k winsys \<Rightarrow> ((int \<times> termios) \<times> 'k winsys) run" where
  \<comment> \<open>the structure comes back too: \<open>termios_to_DCB\<close> writes to it\<close>
  "tcsetattr A fuel fd t s =
     (if fd \<le> 0 then Done ((0, t), s)
      else on_port fuel fd (-1, t) (\<lambda>p s.
        if c_lflag t AND ICANON \<noteq> 0 then Done ((-1, t), p, s)
        else case GetCommState_op A (tl_hComm p) (kern s) of
          None \<Rightarrow> Done ((-1, t), p, s)
        | Some d \<Rightarrow> (case GetCommTimeouts_op A (tl_hComm p) (kern s) of
            None \<Rightarrow> Done ((-1, t), p, s)
          | Some tm \<Rightarrow>
              let (r, t, d) = (if c_cflag t AND CIGNORE = 0 then termios_to_DCB t (d\<lparr>fParity := True\<rparr>) else (0, t, d)) in
              if r < 0 then Done ((-1, t), p, s)
              else let (ok, k) = SetCommState_op A (tl_hComm p) (dcb_chars t d) (kern s); s = s\<lparr>kern := k\<rparr> in
              if \<not> ok then Done ((-1, t), p, s)
              else let (ok, k) = SetCommTimeouts_op A (tl_hComm p) (termios_timeouts t tm) (kern s); s = s\<lparr>kern := k\<rparr> in
              if \<not> ok then Done ((-1, t), p, s)
              else Done ((0, t), p\<lparr>tl_ttyset := t\<rparr>, s))) s)"

section \<open>Line control\<close>

definition tcsendbreak :: "'k winapi \<Rightarrow> nat \<Rightarrow> int \<Rightarrow> int \<Rightarrow> 'k winsys \<Rightarrow> (int \<times> 'k winsys) run" where
  "tcsendbreak A fuel fd duration s =
     on_port fuel fd (-1) (\<lambda>p s.
       let duration = (if duration \<le> 0 then 1 else duration);
           (ok, k) = SetCommBreak_op A (tl_hComm p) (kern s);
           (p, s) = (if ok then (p, s\<lparr>kern := k\<rparr>) else snd (ClearErrors A p (s\<lparr>kern := k\<rparr>)));
           s = s\<lparr>kern := Sleep_op A (nat (duration * 250000) div 1000) (kern s)\<rparr>;
           (ok, k) = ClearCommBreak_op A (tl_hComm p) (kern s);
           (p, s) = (if ok then (p, s\<lparr>kern := k\<rparr>) else snd (ClearErrors A p (s\<lparr>kern := k\<rparr>)))
       in Done (1, p, s)) s"

definition tcdrain :: "'k winapi \<Rightarrow> nat \<Rightarrow> int \<Rightarrow> 'k winsys \<Rightarrow> (int \<times> 'k winsys) run" where
  "tcdrain A fuel fd s =
     on_port fuel fd (-1) (\<lambda>p s.
       let (ok, k) = FlushFileBuffers_op A (tl_hComm p) (kern s); s = s\<lparr>kern := k\<rparr> in
       if \<not> ok then
         (if GetLastError_op A (kern s) = ERROR_SUCCESS then Done (0, p, set_errno (EOTHER 0) s)
          else Done (-1, p, set_errno EAGAIN s))
       else Done (0, p, set_mask A p (tl_event_flag p OR EV_TXEMPTY) s)) s"

definition tcflush :: "'k winapi \<Rightarrow> nat \<Rightarrow> int \<Rightarrow> nat \<Rightarrow> 'k winsys \<Rightarrow> (int \<times> 'k winsys) run" where
  "tcflush A fuel fd queue_selector s =
     on_port fuel fd (-1) (\<lambda>p s.
       let p = p\<lparr>tl_tx_happened := 1\<rparr>;
           purge = (\<lambda>w s. let (ok, k) = PurgeComm_op A (tl_hComm p) w (kern s) in (ok, s\<lparr>kern := k\<rparr>)) in
       if queue_selector \<notin> {TCIFLUSH, TCOFLUSH, TCIOFLUSH} then Done (-1, p, s)
       else let (ok, s) =
              (if queue_selector = TCIFLUSH then purge PURGE_RXABORT s
               else if queue_selector = TCOFLUSH then purge PURGE_TXABORT s
               else let (ok, s) = purge PURGE_TXABORT s in if ok then purge PURGE_RXABORT s else (ok, s)) in
       if \<not> ok then Done (-1, p, set_errno EAGAIN s)
       else Done (0, p, set_mask A p (tl_event_flag p OR EV_TXEMPTY) s)) s"

datatype flow_action = TCOOFF | TCOON | TCIOFF | TCION | TC_OTHER int

definition tcflow :: "int \<Rightarrow> flow_action \<Rightarrow> int" where
  "tcflow fd action = (case action of TC_OTHER _ \<Rightarrow> -1 | _ \<Rightarrow> 1)"

definition win_fstat :: "int \<Rightarrow> int" where "win_fstat fd = 0"

section \<open>Device control\<close>

text \<open>A request with the contents of its argument. Requests that answer \<open>-ENOIOCTLCMD\<close> are
  \<open>Unsupported\<close>.\<close>

datatype ioctl_request = TIOCMGET u32 | TIOCMSET u32 | TIOCSERGETLSR int | TIOCGICOUNT serial_icounter
  | TIOCSERWILD | FIONREAD int | Unsupported

definition modem_status :: "u32 \<Rightarrow> u8 \<Rightarrow> u32 \<Rightarrow> u32" where
  "modem_status st msr arg =
     (let arg = put_flag (st AND MS_RLSD_ON \<noteq> 0) TIOCM_CAR arg;
          arg = put_flag (st AND MS_RING_ON \<noteq> 0) TIOCM_RNG arg;
          arg = put_flag (st AND MS_DSR_ON \<noteq> 0) TIOCM_DSR arg;
          arg = put_flag (st AND MS_CTS_ON \<noteq> 0) TIOCM_CTS arg;
          arg = put_flag (ucast msr AND TIOCM_DTR \<noteq> 0) TIOCM_DTR arg
      in put_flag (ucast msr AND TIOCM_RTS \<noteq> 0) TIOCM_RTS arg)"

definition modem_set :: "'k winapi \<Rightarrow> u32 \<Rightarrow> termios_list \<Rightarrow> 'k winsys \<Rightarrow> termios_list \<times> 'k winsys" where
  "modem_set A arg p s =
     (let p = p\<lparr>tl_MSR := ucast (put_flag (arg AND TIOCM_DTR \<noteq> 0) TIOCM_DTR (ucast (tl_MSR p)))\<rparr>;
          (_, k) = EscapeCommFunction_op A (tl_hComm p) (if arg AND TIOCM_DTR \<noteq> 0 then SETDTR else CLRDTR) (kern s);
          p = p\<lparr>tl_MSR := ucast (put_flag (arg AND TIOCM_RTS \<noteq> 0) TIOCM_RTS (ucast (tl_MSR p)))\<rparr>;
          (_, k) = EscapeCommFunction_op A (tl_hComm p) (if arg AND TIOCM_RTS \<noteq> 0 then SETRTS else CLRRTS) k
      in (p, s\<lparr>kern := k\<rparr>))"

definition get_lsr :: "'k winapi \<Rightarrow> int \<Rightarrow> ('k, int \<times> int) port_op" where
  \<comment> \<open>output that has drained since the last write is reported once\<close>
  "get_lsr A arg p s =
     (case ClearErrors A p s of
        (None, p, s) \<Rightarrow> Done ((-1, arg), p, set_errno EBADFD s)
      | (Some st, p, s) \<Rightarrow>
          if cbOutQue st = 0 \<and> tl_tx_happened p = 1
          then Done ((0, 1), p\<lparr>tl_tx_happened := 0\<rparr>, set_mask A p (tl_event_flag p AND NOT EV_TXEMPTY) s)
          else Done ((0, 0), p, s))"

definition get_icount :: "'k winapi \<Rightarrow> serial_icounter \<Rightarrow> ('k, int \<times> serial_icounter) port_op" where
  \<comment> \<open>a counter that differs is copied, so all four end up equal\<close>
  "get_icount A arg p s =
     (case ClearErrors A p s of
        (None, p, s) \<Rightarrow> Done ((-1, arg), p, set_errno EBADFD s)
      | (Some st, p, s) \<Rightarrow>
          Done ((0, arg\<lparr>ic_frame := (if ic_frame arg \<noteq> ic_frame (tl_sis p) then ic_frame (tl_sis p) else ic_frame arg),
            ic_overrun := (if ic_overrun arg \<noteq> ic_overrun (tl_sis p) then ic_overrun (tl_sis p) else ic_overrun arg),
            ic_parity := (if ic_parity arg \<noteq> ic_parity (tl_sis p) then ic_parity (tl_sis p) else ic_parity arg),
            ic_brk := (if ic_brk arg \<noteq> ic_brk (tl_sis p) then ic_brk (tl_sis p) else ic_brk arg)\<rparr>), p, s))"

definition fion_read :: "'k winapi \<Rightarrow> int \<Rightarrow> ('k, int \<times> int) port_op" where
  "fion_read A arg p s =
     (case ClearErrors A p s of
        (None, p, s) \<Rightarrow> Done ((-1, arg), p, set_errno EBADFD s)
      | (Some st, p, s) \<Rightarrow> Done ((0, cbInQue st), p, s))"

definition ioctl_body :: "'k winapi \<Rightarrow> ioctl_request \<Rightarrow> ('k, int \<times> ioctl_request) port_op" where
  "ioctl_body A req p s =
     (case ClearErrors A p s of
        (None, p, s) \<Rightarrow> Done ((-1, req), p, set_errno EBADFD s)
      | (Some _, p, s) \<Rightarrow>
         (case req of
            TIOCMGET arg \<Rightarrow>
              (let st = (case GetCommModemStatus_op A (tl_hComm p) (kern s) of None \<Rightarrow> 0 | Some st \<Rightarrow> st)
               in Done ((0, TIOCMGET (modem_status st (tl_MSR p) arg)), p, s))
          | TIOCMSET arg \<Rightarrow> (let (p, s) = modem_set A arg p s in Done ((0, req), p, s))
          | TIOCSERGETLSR arg \<Rightarrow>
              run_bind (get_lsr A arg p s) (\<lambda>((r, arg), p, s). Done ((r, TIOCSERGETLSR arg), p, s))
          | TIOCGICOUNT arg \<Rightarrow>
              run_bind (get_icount A arg p s) (\<lambda>((r, arg), p, s). Done ((r, TIOCGICOUNT arg), p, s))
          | TIOCSERWILD \<Rightarrow> Done ((0, req), p, s)
          | FIONREAD arg \<Rightarrow>
              run_bind (fion_read A arg p s) (\<lambda>((r, arg), p, s). Done ((r, FIONREAD arg), p, s))
          | Unsupported \<Rightarrow> Done ((- ENOIOCTLCMD, req), p, s)))"

definition ioctl :: "'k winapi \<Rightarrow> nat \<Rightarrow> int \<Rightarrow> ioctl_request \<Rightarrow> 'k winsys \<Rightarrow> ((int \<times> ioctl_request) \<times> 'k winsys) run" where
  "ioctl A fuel fd req s =
     (if fd \<le> 0 then Done ((0, req), s)
      else on_port fuel fd (-1, req) (ioctl_body A req) s)"

datatype fcntl_command = F_SETOWN | F_SETFL | F_GETFL | F_UNKNOWN

definition fcntl :: "nat \<Rightarrow> int \<Rightarrow> fcntl_command \<Rightarrow> u32 \<Rightarrow> 'k winsys \<Rightarrow> (int \<times> 'k winsys) run" where
  "fcntl fuel fd command arg s =
     (if fd \<le> 0 then Done (0, s)
      else on_port fuel fd (-1) (\<lambda>p s. case command of
        F_SETFL \<Rightarrow> Done (0, p\<lparr>tl_open_flags := arg\<rparr>, s)
      | F_GETFL \<Rightarrow> Done (sint (tl_open_flags p), p, s)
      | _ \<Rightarrow> Done (0, p, s)) s)"

definition windows_flags :: "u32 list" where
  "windows_flags = [0, EV_RXCHAR, EV_TXEMPTY, EV_CTS, EV_DSR, EV_RING OR 0x2000, EV_RLSD, EV_ERR, EV_ERR, EV_ERR, EV_BREAK]"

definition event_mask :: "(nat \<Rightarrow> int) \<Rightarrow> u32" where
  "event_mask flags = fold (\<lambda>i m. if flags i \<noteq> 0 then m OR windows_flags ! i else m) [0..<11] 0"

definition termios_setflags :: "'k winapi \<Rightarrow> nat \<Rightarrow> int \<Rightarrow> (nat \<Rightarrow> int) \<Rightarrow> 'k winsys \<Rightarrow> (unit \<times> 'k winsys) run" where
  "termios_setflags A fuel fd flags s =
     on_port fuel fd () (\<lambda>p s.
       let p = p\<lparr>tl_event_flag := event_mask flags\<rparr>;
           (ok, k) = SetCommMask_op A (tl_hComm p) (tl_event_flag p) (kern s); s = s\<lparr>kern := k\<rparr> in
       if tl_event_flag p AND 0x2000 \<noteq> 0 \<and> \<not> ok
       then (let p = p\<lparr>tl_event_flag := tl_event_flag p AND NOT 0x2000\<rparr>
             in Done ((), p, set_mask A p (tl_event_flag p) s))
       else Done ((), p, s)) s"

definition termios_interrupt_event_loop :: "nat \<Rightarrow> int \<Rightarrow> int \<Rightarrow> 'k winsys \<Rightarrow> (unit \<times> 'k winsys) run" where
  "termios_interrupt_event_loop fuel fd flag s = on_port fuel fd () (\<lambda>p s. Done ((), p\<lparr>tl_interrupt := flag\<rparr>, s)) s"

definition termiosGetParityErrorChar :: "'k winapi \<Rightarrow> nat \<Rightarrow> DCB \<Rightarrow> int \<Rightarrow> 'k winsys \<Rightarrow> (int \<times> 'k winsys) run" where
  \<comment> \<open>\<open>dcb0\<close> is the uninitialised local a failing call leaves\<close>
  "termiosGetParityErrorChar A fuel dcb0 fd s =
     on_port fuel fd (-1) (\<lambda>p s.
       let d = (case GetCommState_op A (tl_hComm p) (kern s) of None \<Rightarrow> dcb0 | Some d \<Rightarrow> d)
       in Done (sint (ErrorChar d), p, s)) s"

definition termiosSetParityError :: "'k winapi \<Rightarrow> nat \<Rightarrow> DCB \<Rightarrow> int \<Rightarrow> u8 \<Rightarrow> 'k winsys \<Rightarrow> (unit \<times> 'k winsys) run" where
  "termiosSetParityError A fuel dcb0 fd v s =
     on_port fuel fd () (\<lambda>p s.
       let d = (case GetCommState_op A (tl_hComm p) (kern s) of None \<Rightarrow> dcb0 | Some d \<Rightarrow> d)
       in Done ((), p, s\<lparr>kern := snd (SetCommState_op A (tl_hComm p) (d\<lparr>ErrorChar := v\<rparr>) (kern s))\<rparr>)) s"

section \<open>Opening\<close>

definition serial_test :: "'k winapi \<Rightarrow> string \<Rightarrow> 'k \<Rightarrow> int \<times> 'k" where
  "serial_test A filename k =
     (let (h, k) = CreateFile_op A filename False k;
          ret = (if h = INVALID_HANDLE \<and> GetLastError_op A k \<noteq> ERROR_ACCESS_DENIED then 0 else 1)
      in (ret, CloseHandle_op A h k))"

definition win_open_port :: "'k winapi \<Rightarrow> ('k, int) port_op" where
  "win_open_port A p s =
     (let (h, k) = CreateFile_op A (tl_filename p) True (kern s); p = p\<lparr>tl_hComm := h\<rparr>; s = s\<lparr>kern := k\<rparr> in
      if h = INVALID_HANDLE then Done (-1, p, set_errno EINVAL s)
      else let (ok, k) = SetupComm_op A h 2048 1024 (kern s); s = s\<lparr>kern := k\<rparr> in
      if \<not> ok then Done (-1, p, s)
      else let p = p\<lparr>tl_rol := NULL_HANDLE, tl_wol := NULL_HANDLE, tl_sol := NULL_HANDLE\<rparr>;
               (e, k) = CreateEvent_op A (kern s); p = p\<lparr>tl_rol := e\<rparr>; s = s\<lparr>kern := k\<rparr> in
      if e = NULL_HANDLE then Done (-1, p, s)
      else let (e, k) = CreateEvent_op A (kern s); p = p\<lparr>tl_sol := e\<rparr>; s = s\<lparr>kern := k\<rparr> in
      if e = NULL_HANDLE then Done (-1, p, s)
      else let (e, k) = CreateEvent_op A (kern s); p = p\<lparr>tl_wol := e\<rparr>; s = s\<lparr>kern := k\<rparr> in
      if e = NULL_HANDLE then Done (-1, p, s) else Done (0, p, s))"

definition check_port_capabilities :: "'k winapi \<Rightarrow> termios_list \<Rightarrow> 'k winsys \<Rightarrow> int" where
  \<comment> \<open>missing capabilities are only reported\<close>
  "check_port_capabilities A p s = (if GetCommState_op A (tl_hComm p) (kern s) = None then -1 else 0)"

definition put_port :: "addr \<Rightarrow> termios_list \<Rightarrow> 'k winsys \<Rightarrow> 'k winsys run" where
  "put_port a p s = run_bind (set_val a p (tl_heap s)) (\<lambda>h. Done (s\<lparr>tl_heap := h\<rparr>))"

definition get_port :: "addr \<Rightarrow> 'k winsys \<Rightarrow> termios_list run" where
  "get_port a s = run_bind (deref (tl_heap s) a) (\<lambda>c. Done (val c))"

definition set_defaults :: "'k winapi \<Rightarrow> nat \<Rightarrow> addr \<Rightarrow> termios_list \<Rightarrow> 'k winsys \<Rightarrow> 'k winsys run" where
  \<comment> \<open>\<open>init_termios(index->ttyset); init_serial_struct(index->sstruct); tcsetattr(index->fd, 0, index->ttyset)\<close>:
    \<open>tcsetattr\<close> works on the port's own structure, and its result is not looked at\<close>
  "set_defaults A fuel a p s =
     run_bind (put_port a (p\<lparr>tl_ttyset := init_termios, tl_sstruct := init_serial_struct (tl_sstruct p)\<rparr>) s) (\<lambda>s.
     run_bind (tcsetattr A fuel (tl_fd p) init_termios s) (\<lambda>((_, t), s).
     run_bind (get_port a s) (\<lambda>p. put_port a (p\<lparr>tl_ttyset := t\<rparr>) s)))"

definition finish_open :: "addr \<Rightarrow> u32 \<Rightarrow> 'k winsys \<Rightarrow> (int \<times> 'k winsys) run" where
  \<comment> \<open>the end of \<open>serial_open\<close>\<close>
  "finish_open a flags s = run_bind (get_port a s) (\<lambda>p.
     run_bind (put_port a (p\<lparr>tl_open_flags := (if flags AND WIN_O_NONBLOCK \<noteq> 0 then WIN_O_NONBLOCK else 0)\<rparr>) s) (\<lambda>s.
     Done (tl_fd p, s)))"

definition serial_open :: "'k winapi \<Rightarrow> nat \<Rightarrow> string \<Rightarrow> u32 \<Rightarrow> 'k winsys \<Rightarrow> (int \<times> 'k winsys) run" where
  "serial_open A fuel filename flags s =
     run_bind (port_opened fuel filename s) (\<lambda>o1.
     if o1 \<noteq> 0 then Done (-1, s)
     else run_bind (add_port A fuel filename s) (\<lambda>(i, s). case i of
       None \<Rightarrow> Done (-1, s)
     | Some a \<Rightarrow> run_bind (get_port a s) (\<lambda>p.
         run_bind (win_open_port A (p\<lparr>tl_interrupt := 0, tl_tx_happened := 0\<rparr>) s) (\<lambda>(r, p, s).
         run_bind (put_port a p s) (\<lambda>s.
         if r \<noteq> 0 then run_bind (serial_close A fuel (tl_fd p) s) (\<lambda>(_, s). Done (-1, s))
         else if check_port_capabilities A p s \<noteq> 0
         then run_bind (serial_close A fuel (tl_fd p) s) (\<lambda>(_, s). Done (-1, s))
         else run_bind (set_defaults A fuel a p s) (finish_open a flags))))))"

section \<open>What an operation on a port does to the table\<close>

text \<open>An operation that leaves the heap alone and keeps the descriptor changes the map in one place.\<close>

lemma tl_inv_set_val:
  assumes inv: "tl_inv s as" and a: "a \<in> set as" "tl_heap s a = Some c" and fd: "tl_fd p = tl_fd (val c)"
    and s': "tl_heap s' = (tl_heap s)(a \<mapsto> c\<lparr>val := p\<rparr>)" "first_tl s' = first_tl s"
  shows "tl_inv s' as \<and> ports s' as = (ports s as)(tl_fd p \<mapsto> p)"
proof -
  obtain xs ys where xy: "as = xs @ a # ys" using split_list [OF a(1)] by blast
  have n: "a \<notin> set xs" "a \<notin> set ys" using tl_invD(1) [OF inv] xy by (auto simp: dlist_def)
  have old: "tab s as = tab s xs @ val c # tab s ys" and new: "tab s' as = tab s xs @ p # tab s ys"
    using a(2) n xy s'(1) by (auto simp: contents_def)
  have "map tl_fd (tab s' as) = map tl_fd (tab s as)" using old new fd by simp
  moreover have "\<forall>q \<in> set (tab s' as). 0 < tl_fd q"
    using tl_invD(4) [OF inv] unfolding old new by (auto simp: fd)
  moreover have "dlist (tl_heap s') as" using tl_invD(1) [OF inv] dlist_set_val [of "tl_heap s", OF a(2)] s'(1) by simp
  ultimately have inv': "tl_inv s' as" using inv s'(2) by (simp add: tl_inv_def)
  have "tl_fd p \<notin> tl_fd ` set (tab s xs @ tab s ys)" using tl_invD(5) [OF inv] fd unfolding old by auto
  then have "ports s' as f = Some q \<longleftrightarrow> ((ports s as)(tl_fd p \<mapsto> p)) f = Some q" for f q
    unfolding fun_upd_apply by (auto simp: ports_Some [OF inv] ports_Some [OF inv'] old new fd) (metis UnI1 UnI2 image_eqI fd)+
  then have "ports s' as = (ports s as)(tl_fd p \<mapsto> p)" by (intro ext) (metis option.exhaust)
  with inv' show ?thesis ..
qed

lemma on_port_ok:
  assumes inv: "tl_inv s as" and len: "length as \<le> fuel" and p: "ports s as fd = Some p"
    and f: "f p s = Done (r, p', s')" and keep: "tl_heap s' = tl_heap s" "first_tl s' = first_tl s" "tl_fd p' = tl_fd p"
  shows "\<exists>s''. on_port fuel fd dflt f s = Done (r, s'') \<and> tl_inv s'' as \<and> ports s'' as = (ports s as)(fd \<mapsto> p')
    \<and> kern s'' = kern s'"
proof -
  obtain a c where a: "find_port fuel fd s = Done (Some a, s)" "a \<in> set as" "tl_heap s a = Some c" "val c = p"
    using find_port_found [OF inv len p] .
  let ?s = "s'\<lparr>tl_heap := (tl_heap s)(a \<mapsto> c\<lparr>val := p'\<rparr>)\<rparr>"
  have "tl_fd p' = fd" using p ports_Some [OF inv] keep(3) by simp
  then have "tl_inv ?s as \<and> ports ?s as = (ports s as)(fd \<mapsto> p')"
    using tl_inv_set_val [OF inv a(2,3), of p' ?s] keep a(4) by simp
  moreover have "on_port fuel fd dflt f s = Done (r, ?s)"
    using a f keep(1) by (simp add: on_port_def set_val_def)
  ultimately show ?thesis by (intro exI [of _ ?s]) simp
qed

text \<open>An operation that changes nothing leaves the state as it is.\<close>

lemma on_port_same:
  assumes inv: "tl_inv s as" and len: "length as \<le> fuel" and p: "ports s as fd = Some p" and f: "f p s = Done (r, p, s)"
  shows "on_port fuel fd dflt f s = Done (r, s)"
proof -
  obtain a c where a: "find_port fuel fd s = Done (Some a, s)" "a \<in> set as" "tl_heap s a = Some c" "val c = p"
    using find_port_found [OF inv len p] .
  have "(tl_heap s)(a \<mapsto> c\<lparr>val := p\<rparr>) = tl_heap s" using a(3,4) by auto
  then show ?thesis using a f by (simp add: on_port_def set_val_def)
qed

lemma on_port_absent:
  assumes "tl_inv s as" and "length as \<le> fuel" and "ports s as fd = None"
  shows "on_port fuel fd dflt f s = Done (dflt, set_errno EBADF s)"
  using find_port_absent [OF assms] by (simp add: on_port_def)

end
