(* ===== verification/Win32_IO.thy ===== *)
theory Win32_IO
  imports Win32_Termios
begin

text \<open>
  Reading, writing and waiting in the Windows emulation: \<open>serial_read\<close>, \<open>serial_write\<close> and
  \<open>serial_select\<close>. The loops around overlapped operations have no bound in the source; they carry a
  number of rounds, and running out of it is \<open>Hang\<close>.
\<close>

section \<open>Writing\<close>

fun write_result :: "'k winapi \<Rightarrow> nat \<Rightarrow> handle \<Rightarrow> 'k \<Rightarrow> (int option \<times> 'k) run" where
  \<comment> \<open>\<open>while (!GetOverlappedResult(..)) if (GetLastError() != ERROR_IO_INCOMPLETE) ..\<close>; \<open>None\<close> is an error\<close>
  "write_result A 0 h k = Hang"
| "write_result A (Suc n) h k =
     (let ((ok, nb), k) = WriteResult_op A h k in
      if ok then Done (Some nb, k)
      else if GetLastError_op A k \<noteq> ERROR_IO_INCOMPLETE then Done (None, k)
      else write_result A n h k)"

definition serial_write :: "'k winapi \<Rightarrow> nat \<Rightarrow> nat \<Rightarrow> int \<Rightarrow> u8 list \<Rightarrow> 'k winsys \<Rightarrow> (int \<times> 'k winsys) run" where
  "serial_write A fuel rounds fd str s =
     (if fd \<le> 0 then Done (0, s)
      else on_port fuel fd (-1) (\<lambda>p s.
        let k = ResetEvent_op A (tl_wol p) (kern s);
            ((ok, nb), k) = WriteFile_op A (tl_hComm p) str k in
        run_bind (if ok then Done (Some nb, k)
                  else let (_, k) = WaitForSingleObject_op A (tl_wol p) 100 k in
                       if GetLastError_op A k \<noteq> ERROR_IO_PENDING then Done (None, k)
                       else write_result A rounds (tl_hComm p) k) (\<lambda>(r, k).
        let s = s\<lparr>kern := k\<rparr>;
            s = (if r = None then s\<lparr>c_errno := EIO\<rparr> else s);
            s = set_mask A p (tl_event_flag p OR EV_TXEMPTY) s
        in Done (case r of None \<Rightarrow> -1 | Some nb \<Rightarrow> nb, p\<lparr>tl_tx_happened := 1\<rparr>, s))) s)"

section \<open>Reading\<close>

definition timed_out :: "termios_list \<Rightarrow> int \<Rightarrow> int \<Rightarrow> bool" where
  "timed_out p start now \<longleftrightarrow> c_cc (tl_ttyset p) VTIME \<noteq> 0 \<and> uint (c_cc (tl_ttyset p) VTIME) * 100 \<le> now - start"

fun await_input :: "'k winapi \<Rightarrow> nat \<Rightarrow> int \<Rightarrow> int \<Rightarrow> COMSTAT \<Rightarrow> ('k, bool) port_op" where
  \<comment> \<open>the loop for a port opened with \<open>O_NONBLOCK\<close>; \<open>False\<close> is the timeout. \<open>stat\<close> is what the last
    successful \<open>ClearErrors\<close> left\<close>
  "await_input A 0 wanted start stat p s = Hang"
| "await_input A (Suc n) wanted start stat p s =
     (let (st, p, s) = ClearErrors A p s;
          stat = (case st of None \<Rightarrow> stat | Some st \<Rightarrow> st);
          (now, k) = GetTickCount_op A (kern s); s = s\<lparr>kern := k\<rparr> in
      if timed_out p start now then Done (False, p, s)
      else if cbInQue stat < wanted \<and> 1 < wanted then await_input A n wanted start stat p s
      else Done (True, p, s))"

fun await_clock :: "'k winapi \<Rightarrow> nat \<Rightarrow> int \<Rightarrow> ('k, unit) port_op" where
  \<comment> \<open>\<open>do { ClearErrors(..); usleep(1000); } while (c > clock());\<close>\<close>
  "await_clock A 0 c p s = Hang"
| "await_clock A (Suc n) c p s =
     (let (_, p, s) = ClearErrors A p s;
          k = Sleep_op A 1 (kern s);
          (now, k) = clock_op A k; s = s\<lparr>kern := k\<rparr> in
      if now < c then await_clock A n c p s else Done ((), p, s))"

fun read_result :: "'k winapi \<Rightarrow> nat \<Rightarrow> handle \<Rightarrow> 'k \<Rightarrow> (u8 list option \<times> 'k) run" where
  "read_result A 0 h k = Hang"
| "read_result A (Suc n) h k =
     (let ((ok, bs), k) = ReadResult_op A h k in
      if ok then Done (Some bs, k)
      else if GetLastError_op A k \<noteq> ERROR_IO_INCOMPLETE then Done (None, k)
      else read_result A n h k)"

fun win_read_loop :: "'k winapi \<Rightarrow> nat \<Rightarrow> int \<Rightarrow> int \<Rightarrow> u8 list \<Rightarrow> ('k, int \<times> u8 list) port_op" where
  \<comment> \<open>\<open>while (size > 0)\<close>: what is still wanted and the bytes so far\<close>
  "win_read_loop A 0 wanted start buf p s = Hang"
| "win_read_loop A (Suc n) wanted start buf p s =
     (if \<not> 0 < wanted then Done ((int (length buf), buf), p, s)
      else let k = ResetEvent_op A (tl_rol p) (kern s);
               ((ok, bs), k) = ReadFile_op A (tl_hComm p) wanted k;
               s = s\<lparr>kern := k\<rparr>; wanted = wanted - int (length bs); buf = buf @ bs in
      if ok then (let (_, p, s) = ClearErrors A p s in Done ((int (length buf), buf), p, s))
      else case GetLastError_op A (kern s) of
        ERROR_BROKEN_PIPE \<Rightarrow> win_read_loop A n wanted start buf p s
      | ERROR_MORE_DATA \<Rightarrow> win_read_loop A n wanted start buf p s
      | ERROR_IO_PENDING \<Rightarrow> run_bind (read_result A n (tl_hComm p) (kern s)) (\<lambda>(r, k). case r of
          None \<Rightarrow> (let (_, p, s) = ClearErrors A p (s\<lparr>kern := k\<rparr>) in Done ((int (length buf), buf), p, s))
        | Some bs \<Rightarrow>
            let s = s\<lparr>kern := k\<rparr>; wanted = wanted - int (length bs); buf = buf @ bs in
            if 0 < wanted then
              (let (now, k) = GetTickCount_op A (kern s); s = s\<lparr>kern := k\<rparr> in
               if timed_out p start now then Done ((int (length buf), buf), p, s)
               else win_read_loop A n wanted start buf p s)
            else win_read_loop A n wanted start buf p s)
      | _ \<Rightarrow> Done ((-1, buf), p, s))"

definition serial_read :: "'k winapi \<Rightarrow> nat \<Rightarrow> nat \<Rightarrow> COMSTAT \<Rightarrow> int \<Rightarrow> int \<Rightarrow> 'k winsys
    \<Rightarrow> ((int \<times> u8 list) \<times> 'k winsys) run" where
  \<comment> \<open>\<open>stat0\<close> is the uninitialised local\<close>
  "serial_read A fuel rounds stat0 fd wanted s =
     (let (start, k) = GetTickCount_op A (kern s); s = s\<lparr>kern := k\<rparr> in
      if fd \<le> 0 then Done ((0, []), s)
      else on_port fuel fd (-1, []) (\<lambda>p s.
        if tl_open_flags p AND WIN_O_NONBLOCK \<noteq> 0 then
          run_bind (await_input A rounds wanted start stat0 p s) (\<lambda>(ready, p, s).
          if \<not> ready then Done ((0, []), p, s) else win_read_loop A rounds wanted start [] p s)
        else
          let (c, k) = clock_op A (kern s); s = s\<lparr>kern := k\<rparr>;
              c = c + uint (c_cc (tl_ttyset p) VTIME) * CLOCKS_PER_SEC_of A sdiv 10 in
          run_bind (await_clock A rounds c p s) (\<lambda>(_, p, s). win_read_loop A rounds wanted start [] p s)) s)"

section \<open>Waiting\<close>

definition select_fail :: "'k winsys \<Rightarrow> 'k winsys" where
  "select_fail s = s\<lparr>c_errno := EBADFD\<rparr>"

definition select_wait :: "'k winapi \<Rightarrow> ('k, int) port_op" where
  \<comment> \<open>the body of the loop, which every case of its \<open>switch\<close> leaves\<close>
  "select_wait A p s =
     (let s = set_mask A p (tl_event_flag p) s;
          (_, p, s) = ClearErrors A p s;
          (ok, k) = WaitCommEvent_op A (tl_hComm p) (tl_sol p) (kern s); s = s\<lparr>kern := k\<rparr> in
      if \<not> ok \<and> GetLastError_op A (kern s) \<noteq> ERROR_IO_PENDING
      then (let (_, p, s) = ClearErrors A p s in Done (1, p, select_fail s))
      else let (_, p, s) = ClearErrors A p s;
               (w, k) = WaitForSingleObject_op A (tl_sol p) 100 (kern s); s = s\<lparr>kern := k\<rparr> in
      case w of
        WAIT_OBJECT_0 \<Rightarrow> Done (1, p, s\<lparr>kern := Sleep_op A 1 (kern s)\<rparr>)
      | WAIT_TIMEOUT \<Rightarrow> Done (0, p, s)
      | _ \<Rightarrow> Done (1, p, select_fail s))"

definition select_body :: "'k winapi \<Rightarrow> ('k, int) port_op" where
  "select_body A p s =
     (if tl_event_flag p = 0 then Done (0, p, s\<lparr>kern := Sleep_op A 10 (kern s)\<rparr>)
      else let k = ResetEvent_op A (tl_rol p) (ResetEvent_op A (tl_sol p) (ResetEvent_op A (tl_wol p) (kern s)));
               (st, p, s) = ClearErrors A p (s\<lparr>kern := k\<rparr>) in
      if st = None then Done (1, p, select_fail s)
      else if tl_sol p = NULL_HANDLE then Done (1, p, s\<lparr>kern := Sleep_op A 1 (kern s)\<rparr>)
      else if tl_interrupt p = 1 then Done (1, p, select_fail s)
      else select_wait A p s)"

definition serial_select :: "'k winapi \<Rightarrow> nat \<Rightarrow> int \<Rightarrow> 'k winsys \<Rightarrow> (int \<times> 'k winsys) run" where
  "serial_select A fuel fd s =
     (if fd \<le> 0 then Done (1, select_fail s)
      else run_bind (on_port fuel fd None (\<lambda>p s. run_bind (select_body A p s) (\<lambda>(r, x). Done (Some r, x))) s) (\<lambda>(r, s).
        case r of None \<Rightarrow> Done (0, s\<lparr>kern := Sleep_op A 10 (kern s)\<rparr>) | Some r \<Rightarrow> Done (r, s)))"

end
