(* ===== verification/Win32_Calls.thy ===== *)
theory Win32_Calls
  imports Win32_IO
begin

text \<open>
  What the entry points of \<open>termios.c\<close> do to the table of open ports: all but opening and closing
  work within one port and leave the list, the descriptors, the names and the handles as they are.
\<close>

section \<open>Operations that stay within a port\<close>

definition within :: "('k, 'r) port_op \<Rightarrow> bool" where
  \<comment> \<open>the operation leaves the list alone and keeps the identity of the port\<close>
  "within f \<longleftrightarrow> (\<forall>p s r p' s'. f p s = Done (r, p', s') \<longrightarrow> tl_heap s' = tl_heap s \<and> first_tl s' = first_tl s
     \<and> tl_fd p' = tl_fd p \<and> tl_filename p' = tl_filename p \<and> tl_hComm p' = tl_hComm p)"

lemma withinI:
  assumes "\<And>p s r p' s'. f p s = Done (r, p', s') \<Longrightarrow> tl_heap s' = tl_heap s \<and> first_tl s' = first_tl s
     \<and> tl_fd p' = tl_fd p \<and> tl_filename p' = tl_filename p \<and> tl_hComm p' = tl_hComm p"
  shows "within f"
  using assms by (simp add: within_def)

lemma withinD:
  "within f \<Longrightarrow> f p s = Done (r, p', s') \<Longrightarrow> tl_heap s' = tl_heap s \<and> first_tl s' = first_tl s
     \<and> tl_fd p' = tl_fd p \<and> tl_filename p' = tl_filename p \<and> tl_hComm p' = tl_hComm p"
  unfolding within_def by blast

lemma ClearErrors_within:
  "ClearErrors A p s = (st, p', s') \<Longrightarrow> tl_heap s' = tl_heap s \<and> first_tl s' = first_tl s \<and> tl_fd p' = tl_fd p
     \<and> tl_filename p' = tl_filename p \<and> tl_hComm p' = tl_hComm p"
  by (auto simp: ClearErrors_def split: prod.splits option.splits)

lemma ClearErrors_snd:
  "snd (ClearErrors A p s) = (p', s') \<Longrightarrow> tl_heap s' = tl_heap s \<and> first_tl s' = first_tl s \<and> tl_fd p' = tl_fd p
     \<and> tl_filename p' = tl_filename p \<and> tl_hComm p' = tl_hComm p"
  by (cases "ClearErrors A p s") (simp add: ClearErrors_within)

lemma state_frame [simp]:
  "tl_heap (set_mask A p m s) = tl_heap s" "first_tl (set_mask A p m s) = first_tl s"
  "tl_heap (set_errno e s) = tl_heap s" "first_tl (set_errno e s) = first_tl s"
  "tl_heap (select_fail s) = tl_heap s" "first_tl (select_fail s) = first_tl s"
  by (simp_all add: set_mask_def set_errno_def select_fail_def)

lemma run_bind_case: "run_bind x f = (case x of Done a \<Rightarrow> f a | Fault \<Rightarrow> Fault | Hang \<Rightarrow> Hang)"
  by (cases x) auto

lemmas within_simps = Let_def run_bind_case

definition ident :: "termios_list \<Rightarrow> int \<times> string \<times> handle" where
  "ident p = (tl_fd p, tl_filename p, tl_hComm p)"

definition idents :: "'k winsys \<Rightarrow> addr list \<Rightarrow> (int \<times> string \<times> handle) list" where
  "idents s as = map ident (tab s as)"

lemma idents_set_val:
  assumes "tl_heap s' = (tl_heap s)(a \<mapsto> c\<lparr>val := p\<rparr>)" and "tl_heap s a = Some c" and "ident p = ident (val c)"
  shows "idents s' as = idents s as"
  using assms by (auto simp: idents_def contents_def)

lemma on_port_within:
  assumes inv: "tl_inv s as" and len: "length as \<le> fuel" and f: "within f" and run: "on_port fuel fd d f s = Done (r, s')"
  shows "tl_inv s' as \<and> idents s' as = idents s as \<and> dom (tl_heap s') = dom (tl_heap s)"
proof (cases "ports s as fd")
  case None
  then show ?thesis using on_port_absent [OF inv len None, of d f] run inv
    by (auto simp: tl_inv_errno idents_def)
next
  case (Some p)
  obtain a c where a: "find_port fuel fd s = Done (Some a, s)" "a \<in> set as" "tl_heap s a = Some c" "val c = p"
    using find_port_found [OF inv len Some] .
  with run obtain p' s1 where f1: "f p s = Done (r, p', s1)"
    and s': "s' = s1\<lparr>tl_heap := (tl_heap s1)(a \<mapsto> (the (tl_heap s1 a))\<lparr>val := p'\<rparr>)\<rparr>"
    by (auto simp: on_port_def bind_Done set_val_def deref_def split: option.splits)
  note k = withinD [OF f f1]
  have h: "tl_heap s' = (tl_heap s)(a \<mapsto> c\<lparr>val := p'\<rparr>)" using k s' a(3) by simp
  then show ?thesis
    using tl_inv_set_val [OF inv a(2,3), of p' s'] idents_set_val [OF h a(3)] k s' a(3,4) by (auto simp: ident_def)
qed

section \<open>Every entry point but opening and closing\<close>

definition same_table :: "'k winsys \<Rightarrow> 'k winsys \<Rightarrow> addr list \<Rightarrow> bool" where
  "same_table s s' as \<longleftrightarrow> tl_inv s' as \<and> idents s' as = idents s as \<and> dom (tl_heap s') = dom (tl_heap s)"

lemma same_table_refl: "tl_inv s as \<Longrightarrow> same_table s s as"
  by (simp add: same_table_def)

lemma same_table_frame:
  assumes "tl_inv s as" and "tl_heap s' = tl_heap s" and "first_tl s' = first_tl s"
  shows "same_table s s' as"
  using assms by (simp add: same_table_def tl_inv_def idents_def)

lemma same_table_trans: "same_table s s' as \<Longrightarrow> same_table s' s'' as \<Longrightarrow> same_table s s'' as"
  by (simp add: same_table_def)

lemma on_port_same_table:
  assumes "tl_inv s as" and "length as \<le> fuel" and "on_port fuel fd d f s = Done (r, s')" and "within f"
  shows "same_table s s' as"
  using on_port_within [OF assms(1,2,4,3)] by (simp add: same_table_def)

lemma tcgetattr_table:
  assumes "tl_inv s as" and "length as \<le> fuel" and "tcgetattr A fuel fd t0 s = Done (r, s')"
  shows "same_table s s' as"
proof (cases "fd \<le> 0")
  case False
  show ?thesis
    by (rule on_port_same_table [OF assms(1,2) assms(3) [unfolded tcgetattr_def if_not_P [OF False]]], rule withinI)
      (auto simp: Let_def split: option.splits)
qed (use assms(1,3) in \<open>simp add: tcgetattr_def same_table_refl\<close>)

lemma tcsetattr_table:
  assumes "tl_inv s as" and "length as \<le> fuel" and "tcsetattr A fuel fd t s = Done (r, s')"
  shows "same_table s s' as"
proof (cases "fd \<le> 0")
  case False
  show ?thesis
    by (rule on_port_same_table [OF assms(1,2) assms(3) [unfolded tcsetattr_def if_not_P [OF False]]], rule withinI)
      (auto simp: Let_def split: option.splits if_splits prod.splits)
qed (use assms(1,3) in \<open>simp add: tcsetattr_def same_table_refl\<close>)

lemma tcsendbreak_table:
  assumes "tl_inv s as" and "length as \<le> fuel" and "tcsendbreak A fuel fd du s = Done (r, s')"
  shows "same_table s s' as"
  by (rule on_port_same_table [OF assms(1,2) assms(3) [unfolded tcsendbreak_def]], rule withinI)
    (auto simp: Let_def split: if_splits prod.splits dest!: ClearErrors_snd)

lemma tcdrain_table:
  assumes "tl_inv s as" and "length as \<le> fuel" and "tcdrain A fuel fd s = Done (r, s')"
  shows "same_table s s' as"
  by (rule on_port_same_table [OF assms(1,2) assms(3) [unfolded tcdrain_def]], rule withinI)
    (auto simp: Let_def split: if_splits prod.splits)

lemma tcflush_table:
  assumes "tl_inv s as" and "length as \<le> fuel" and "tcflush A fuel fd q s = Done (r, s')"
  shows "same_table s s' as"
  by (rule on_port_same_table [OF assms(1,2) assms(3) [unfolded tcflush_def]], rule withinI)
    (auto simp: Let_def split: if_splits prod.splits)

lemma fcntl_table:
  assumes "tl_inv s as" and "length as \<le> fuel" and "fcntl fuel fd cmd arg s = Done (r, s')"
  shows "same_table s s' as"
proof (cases "fd \<le> 0")
  case False
  show ?thesis
    by (rule on_port_same_table [OF assms(1,2) assms(3) [unfolded fcntl_def if_not_P [OF False]]], rule withinI)
      (auto split: fcntl_command.splits)
qed (use assms(1,3) in \<open>simp add: fcntl_def same_table_refl\<close>)

lemma flags_table:
  assumes "tl_inv s as" and "length as \<le> fuel"
  shows "termios_setflags A fuel fd flags s = Done (r, s') \<Longrightarrow> same_table s s' as"
    and "termios_interrupt_event_loop fuel fd flag s = Done (r, s') \<Longrightarrow> same_table s s' as"
    and "termiosSetParityError A fuel dcb0 fd v s = Done (r, s') \<Longrightarrow> same_table s s' as"
    and "termiosGetParityErrorChar A fuel dcb0 fd s = Done (q, s') \<Longrightarrow> same_table s s' as"
  unfolding termios_setflags_def termios_interrupt_event_loop_def termiosSetParityError_def termiosGetParityErrorChar_def
  by (erule on_port_same_table [OF assms], rule withinI, auto simp: Let_def split: if_splits prod.splits)+

lemma ioctl_within: "within (ioctl_body A req)"
  by (rule withinI)
    (auto simp: ioctl_body_def get_lsr_def get_icount_def fion_read_def modem_set_def within_simps
      split: run.splits option.splits ioctl_request.splits if_splits prod.splits dest!: ClearErrors_within)

lemma ioctl_table:
  assumes "tl_inv s as" and "length as \<le> fuel" and "ioctl A fuel fd req s = Done (r, s')"
  shows "same_table s s' as"
proof (cases "fd \<le> 0")
  case False
  show ?thesis
    by (rule on_port_same_table [OF assms(1,2) assms(3) [unfolded ioctl_def if_not_P [OF False]] ioctl_within])
qed (use assms(1,3) in \<open>simp add: ioctl_def same_table_refl\<close>)

lemma serial_write_table:
  assumes "tl_inv s as" and "length as \<le> fuel" and "serial_write A fuel rounds fd bs s = Done (r, s')"
  shows "same_table s s' as"
proof (cases "fd \<le> 0")
  case False
  show ?thesis
    by (rule on_port_same_table [OF assms(1,2) assms(3) [unfolded serial_write_def if_not_P [OF False]]], rule withinI)
      (auto simp: within_simps split: run.splits prod.splits)
qed (use assms(1,3) in \<open>simp add: serial_write_def same_table_refl\<close>)

lemma await_within: "within (await_input A n wanted start st)" "within (await_clock A n c)"
proof -
  show "within (await_input A n wanted start st)"
  proof (induction n arbitrary: st)
    case (Suc n)
    show ?case
      by (rule withinI) (auto simp: Let_def split: prod.splits if_splits dest!: ClearErrors_within withinD [OF Suc.IH])
  qed (simp add: within_def)
  show "within (await_clock A n c)"
  proof (induction n)
    case (Suc n)
    show ?case
      by (rule withinI) (auto simp: Let_def split: prod.splits if_splits dest!: ClearErrors_within withinD [OF Suc.IH])
  qed (simp add: within_def)
qed

lemma read_loop_within: "within (win_read_loop A n wanted start buf)"
proof (induction n arbitrary: wanted buf)
  case (Suc n)
  show ?case
    by (rule withinI)
      (auto simp: within_simps split: run.splits prod.splits if_splits option.splits last_error.splits
        dest!: ClearErrors_within withinD [OF Suc.IH])
qed (simp add: within_def)

lemma serial_read_table:
  assumes inv: "tl_inv s as" and len: "length as \<le> fuel" and run: "serial_read A fuel rounds st fd wanted s = Done (r, s')"
  shows "same_table s s' as"
proof -
  obtain start k where t: "GetTickCount_op A (kern s) = (start, k)" by (cases "GetTickCount_op A (kern s)")
  let ?s = "s\<lparr>kern := k\<rparr>"
  have frame: "same_table s ?s as" by (rule same_table_frame [OF inv]) simp_all
  show ?thesis
  proof (cases "fd \<le> 0")
    case False
    have "same_table ?s s' as"
      by (rule on_port_same_table [OF _ len run [unfolded serial_read_def t Let_def prod.case if_not_P [OF False]]], use frame in \<open>simp add: same_table_def\<close>, rule withinI)
        (auto simp: within_simps split: run.splits prod.splits if_splits
          dest!: withinD [OF read_loop_within] withinD [OF await_within(1)] withinD [OF await_within(2)])
    with frame show ?thesis by (rule same_table_trans)
  qed (use run frame t in \<open>simp add: serial_read_def\<close>)
qed

lemma select_within: "within (select_body A)"
  by (rule withinI)
    (auto simp: select_body_def select_wait_def Let_def split: prod.splits if_splits wait.splits dest!: ClearErrors_within)

lemma serial_select_table:
  assumes inv: "tl_inv s as" and len: "length as \<le> fuel" and run: "serial_select A fuel fd s = Done (r, s')"
  shows "same_table s s' as"
proof (cases "fd \<le> 0")
  case True
  with inv run show ?thesis by (auto simp: serial_select_def intro: same_table_frame)
next
  case False
  then obtain r1 s1 where s1: "on_port fuel fd None (\<lambda>p s. run_bind (select_body A p s) (\<lambda>(r, x). Done (Some r, x))) s = Done (r1, s1)"
      "tl_heap s' = tl_heap s1" "first_tl s' = first_tl s1"
    using run by (auto simp: serial_select_def bind_Done split: option.splits)
  have "same_table s s1 as"
    by (rule on_port_same_table [OF inv len s1(1)], rule withinI) (auto simp: bind_Done dest!: withinD [OF select_within])
  then show ?thesis using same_table_frame [of s1 as s'] s1(2,3) same_table_trans by (auto simp: same_table_def)
qed

end
