(* ===== verification/Ref_Win32.thy ===== *)
theory Ref_Win32
  imports Win32_IO
begin

text \<open>
  A small kernel behind the Windows API, for concrete runs of the emulation: devices with their control
  block, timeouts, modem status and queues, an allocator that counts, and a clock that advances with every
  look at it. It accepts the control blocks the documentation of \<open>SetCommState\<close> allows.
\<close>

record refcom =
  rc_dcb :: DCB
  rc_timeouts :: COMMTIMEOUTS
  rc_status :: u32
  rc_in :: "u8 list"
  rc_out :: "u8 list"

record refkern =
  rk_next :: nat
  rk_devs :: "nat \<Rightarrow> refcom option"
  rk_time :: int

definition refcom0 :: refcom where
  "refcom0 = \<lparr>rc_dcb = \<lparr>DCBlength = 28, BaudRate = 1200, fBinary = True, fParity = False, fOutxCtsFlow = False,
       fOutxDsrFlow = False, fDtrControl = DTR_CONTROL_ENABLE, fDsrSensitivity = False, fTXContinueOnXoff = False,
       fOutX = False, fInX = False, fRtsControl = RTS_CONTROL_ENABLE, XonLim = 2048, XoffLim = 512, ByteSize = 7,
       Parity = EVENPARITY, StopBits = ONESTOPBIT, XonChar = 0x11, XoffChar = 0x13, ErrorChar = 0, EofChar = 0, EvtChar = 0\<rparr>,
     rc_timeouts = \<lparr>ReadIntervalTimeout = 0, ReadTotalTimeoutMultiplier = 0, ReadTotalTimeoutConstant = 0,
       WriteTotalTimeoutMultiplier = 0, WriteTotalTimeoutConstant = 0\<rparr>,
     rc_status = 0x30, rc_in = [], rc_out = []\<rparr>"

definition rk_dev :: "handle \<Rightarrow> refkern \<Rightarrow> refcom option" where
  "rk_dev h k = (case h of Handle n \<Rightarrow> rk_devs k n | _ \<Rightarrow> None)"

definition rk_put :: "handle \<Rightarrow> refcom option \<Rightarrow> refkern \<Rightarrow> refkern" where
  "rk_put h d k = (case h of Handle n \<Rightarrow> k\<lparr>rk_devs := (rk_devs k)(n := d)\<rparr> | _ \<Rightarrow> k)"

definition rk_with :: "handle \<Rightarrow> (refcom \<Rightarrow> refcom option) \<Rightarrow> refkern \<Rightarrow> bool \<times> refkern" where
  "rk_with h f k = (case rk_dev h k of None \<Rightarrow> (False, k)
     | Some d \<Rightarrow> (case f d of None \<Rightarrow> (False, k) | Some d \<Rightarrow> (True, rk_put h (Some d) k)))"

definition rk_new :: "refcom option \<Rightarrow> refkern \<Rightarrow> handle \<times> refkern" where
  "rk_new d k = (Handle (rk_next k), k\<lparr>rk_next := Suc (rk_next k), rk_devs := (rk_devs k)(rk_next k := d)\<rparr>)"

definition rk_tick :: "refkern \<Rightarrow> int \<times> refkern" where
  "rk_tick k = (rk_time k, k\<lparr>rk_time := rk_time k + 1\<rparr>)"

definition refwin :: "refkern winapi" where
  "refwin = \<lparr>
     malloc_op = (\<lambda>k. (Some (rk_next k), k\<lparr>rk_next := Suc (rk_next k)\<rparr>)),
     CreateFile_op = (\<lambda>name overlapped. rk_new (Some refcom0)),
     SetupComm_op = (\<lambda>h i o1. rk_with h Some),
     CreateEvent_op = rk_new None,
     CloseHandle_op = (\<lambda>h. rk_put h None),
     GetLastError_op = (\<lambda>k. ERROR_SUCCESS),
     GetCommState_op = (\<lambda>h k. map_option rc_dcb (rk_dev h k)),
     SetCommState_op = (\<lambda>h d. rk_with h (\<lambda>c. if legal_dcb d then Some (c\<lparr>rc_dcb := d\<rparr>) else None)),
     GetCommTimeouts_op = (\<lambda>h k. map_option rc_timeouts (rk_dev h k)),
     SetCommTimeouts_op = (\<lambda>h t. rk_with h (\<lambda>c. Some (c\<lparr>rc_timeouts := t\<rparr>))),
     ClearCommError_op = (\<lambda>h k. (map_option (\<lambda>c. (0, \<lparr>cbInQue = int (length (rc_in c)), cbOutQue = 0\<rparr>)) (rk_dev h k), k)),
     GetCommModemStatus_op = (\<lambda>h k. map_option rc_status (rk_dev h k)),
     EscapeCommFunction_op = (\<lambda>h e. rk_with h Some),
     PurgeComm_op = (\<lambda>h w. rk_with h (\<lambda>c. Some (if w = PURGE_RXABORT then c\<lparr>rc_in := []\<rparr> else c))),
     FlushFileBuffers_op = (\<lambda>h. rk_with h Some),
     SetCommBreak_op = (\<lambda>h. rk_with h Some),
     ClearCommBreak_op = (\<lambda>h. rk_with h Some),
     SetCommMask_op = (\<lambda>h m. rk_with h Some),
     WaitCommEvent_op = (\<lambda>h e. rk_with h Some),
     WaitForSingleObject_op = (\<lambda>h ms k. (WAIT_TIMEOUT, k)),
     ResetEvent_op = (\<lambda>h k. k),
     WriteFile_op = (\<lambda>h bs k. let (ok, k) = rk_with h (\<lambda>c. Some (c\<lparr>rc_out := rc_out c @ bs\<rparr>)) k in ((ok, int (length bs)), k)),
     WriteResult_op = (\<lambda>h k. ((False, 0), k)),
     ReadFile_op = (\<lambda>h n k. case rk_dev h k of None \<Rightarrow> ((False, []), k)
       | Some c \<Rightarrow> ((True, take (nat n) (rc_in c)), rk_put h (Some (c\<lparr>rc_in := drop (nat n) (rc_in c)\<rparr>)) k)),
     ReadResult_op = (\<lambda>h k. ((False, []), k)),
     GetTickCount_op = rk_tick,
     clock_op = rk_tick,
     CLOCKS_PER_SEC_of = 1000,
     Sleep_op = (\<lambda>ms k. k\<lparr>rk_time := rk_time k + int ms\<rparr>)\<rparr>"

definition refsys0 :: "refkern winsys" where
  "refsys0 = \<lparr>tl_heap = (\<lambda>a. None), first_tl = None, my_errno = EOTHER 0, c_errno = EOTHER 0,
     kern = \<lparr>rk_next = 1, rk_devs = (\<lambda>n. None), rk_time = 0\<rparr>\<rparr>"

definition refopen :: "string \<Rightarrow> refkern winsys \<Rightarrow> (int \<times> refkern winsys) run" where
  "refopen name s = serial_open refwin 9 name 4 s"

section \<open>Concrete runs\<close>

lemmas run_simps = serial_open_def port_opened_def add_port_def get_free_fd_def link_port_def win_open_port_def put_port_def
  get_port_def check_port_capabilities_def set_defaults_def finish_open_def tcsetattr_def on_port_def find_port_def
  serial_close_def close_handle_def deref_def set_prv_def set_nxt_def set_val_def zero_port_def Let_def rk_new_def rk_put_def
  rk_with_def rk_dev_def set_errno_def unlink_def termios_to_DCB_def dcb_chars_def legal_dcb_def legal_frame_def

lemma init_termios_sel:
  "c_cc init_termios VSTART = 0" "c_cc init_termios VSTOP = 0" "c_lflag init_termios = 0" "c_cflag init_termios = 61"
  by (simp_all add: init_termios_def cfmakeraw_def cfsetospeed_def zero_termios_def CBAUD_def)

text \<open>Two devices are opened and the first is closed again: descriptor 1 is free, descriptor 2 is not.\<close>

lemma gap_run:
  "\<exists>s1 s2 s3 i c. refopen ''COM1'' refsys0 = Done (1, s1) \<and> tl_heap s1 (rk_next (kern s1)) = None
     \<and> refopen ''COM2'' s1 = Done (2, s2) \<and> serial_close refwin 9 1 s2 = Done (0, s3)
     \<and> tl_heap s3 (rk_next (kern s3)) = None \<and> first_tl s3 = Some i \<and> tl_heap s3 i = Some c
     \<and> tl_fd (val c) = 2 \<and> tl_filename (val c) = ''COM2'' \<and> nxt c = None"
  by (simp add: refopen_def refsys0_def eval_nat_numeral run_simps init_termios_sel refwin_def)

end
