(* ===== verification/Win32_Table.thy ===== *)
theory Win32_Table
  imports Win32_Calls Ref_Win32
begin

text \<open>
  The table of open ports as a state machine. Every entry point of \<open>termios.c\<close> is a step; an invariant
  holds in every state the steps reach, and the steps refine an abstract table, a map from descriptors to
  device names in which opening takes the least free descriptor and closing gives it back.
\<close>

section \<open>Opening\<close>

text \<open>The new port at its address, while \<open>serial_open\<close> works on it.\<close>

definition holds_port :: "'k winsys \<Rightarrow> addr list \<Rightarrow> addr \<Rightarrow> termios_list \<Rightarrow> bool" where
  "holds_port s as a p \<longleftrightarrow> tl_inv s as \<and> dom (tl_heap s) = set as \<and> a \<in> set as \<and> (\<exists>c. tl_heap s a = Some c \<and> val c = p)"

lemma holds_port_frame:
  "holds_port s as a p \<Longrightarrow> tl_heap s' = tl_heap s \<Longrightarrow> first_tl s' = first_tl s \<Longrightarrow> holds_port s' as a p \<and> ports s' as = ports s as"
  by (simp add: holds_port_def tl_inv_def ports_def)

lemma holds_port_get: "holds_port s as a p \<Longrightarrow> get_port a s = Done p"
  by (auto simp: holds_port_def get_port_def)

lemma holds_port_Some: "holds_port s as a p \<Longrightarrow> ports s as (tl_fd p) = Some p"
  using ports_Some by (force simp: holds_port_def contents_def)

lemma holds_port_put:
  assumes "holds_port s as a p" and "tl_fd q = tl_fd p"
  shows "\<exists>s'. put_port a q s = Done s' \<and> holds_port s' as a q \<and> ports s' as = (ports s as)(tl_fd q \<mapsto> q) \<and> kern s' = kern s"
proof -
  obtain c where c: "tl_inv s as" "a \<in> set as" "tl_heap s a = Some c" "val c = p" "dom (tl_heap s) = set as" using assms(1) by (auto simp: holds_port_def)
  let ?s = "s\<lparr>tl_heap := (tl_heap s)(a \<mapsto> c\<lparr>val := q\<rparr>)\<rparr>"
  have "put_port a q s = Done ?s" using c by (simp add: put_port_def set_val_def)
  moreover have "tl_inv ?s as \<and> ports ?s as = (ports s as)(tl_fd q \<mapsto> q)"
    using tl_inv_set_val [OF c(1-3), of q ?s] assms(2) c(4) by simp
  ultimately show ?thesis using c(2,5) by (intro exI [of _ ?s]) (auto simp: holds_port_def)
qed

lemma addr_unique:
  assumes inv: "tl_inv s as" and a: "a \<in> set as" "tl_heap s a = Some c" and b: "b \<in> set as" "tl_heap s b = Some d"
    and eq: "tl_fd (val c) = tl_fd (val d)"
  shows "a = b"
proof -
  have "inj_on (\<lambda>x. tl_fd (val (the (tl_heap s x)))) (set as)"
    using tl_invD(5) [OF inv] by (simp add: contents_def distinct_map comp_def)
  then show ?thesis by (rule inj_onD) (use a b eq in simp_all)
qed

lemma holds_port_on:
  assumes at: "holds_port s as a p" and len: "length as \<le> fuel" and f: "f p s = Done (r, p', s1)"
    and keep: "tl_heap s1 = tl_heap s" "first_tl s1 = first_tl s" "tl_fd p' = tl_fd p"
  shows "\<exists>s'. on_port fuel (tl_fd p) d f s = Done (r, s') \<and> holds_port s' as a p'
    \<and> ports s' as = (ports s as)(tl_fd p \<mapsto> p') \<and> kern s' = kern s1"
proof -
  obtain c where c: "tl_inv s as" "a \<in> set as" "tl_heap s a = Some c" "val c = p" "dom (tl_heap s) = set as" using at by (auto simp: holds_port_def)
  obtain b e where b: "find_port fuel (tl_fd p) s = Done (Some b, s)" "b \<in> set as" "tl_heap s b = Some e" "val e = p"
    using find_port_found [OF c(1) len holds_port_Some [OF at]] .
  have "b = a" using addr_unique [OF c(1) b(2,3) c(2,3)] b(4) c(4) by simp
  let ?s = "s1\<lparr>tl_heap := (tl_heap s)(a \<mapsto> c\<lparr>val := p'\<rparr>)\<rparr>"
  have "on_port fuel (tl_fd p) d f s = Done (r, ?s)"
    using b c f keep \<open>b = a\<close> by (simp add: on_port_def set_val_def)
  moreover have "tl_inv ?s as \<and> ports ?s as = (ports s as)(tl_fd p \<mapsto> p')"
    using tl_inv_set_val [OF c(1-3), of p' ?s] keep c(4) by simp
  ultimately show ?thesis using c(2,5) by (intro exI [of _ ?s]) (auto simp: holds_port_def)
qed

lemma holds_port_tcsetattr:
  assumes at: "holds_port s as a p" and len: "length as \<le> fuel"
  shows "\<exists>r t' tt s'. tcsetattr A fuel (tl_fd p) t s = Done ((r, t'), s') \<and> holds_port s' as a (p\<lparr>tl_ttyset := tt\<rparr>)
    \<and> ports s' as = (ports s as)(tl_fd p \<mapsto> p\<lparr>tl_ttyset := tt\<rparr>)"
proof -
  have pos: "\<not> tl_fd p \<le> 0"
    using at tl_invD(4) [of s as p] by (force simp: holds_port_def contents_def)
  have same: "\<exists>tt. p = p\<lparr>tl_ttyset := tt\<rparr>" by (metis termios_list.surjective termios_list.update_convs(6))
  have on: "\<exists>r t' tt s'. on_port fuel (tl_fd p) (-1, t) f s = Done ((r, t'), s') \<and> holds_port s' as a (p\<lparr>tl_ttyset := tt\<rparr>)
      \<and> ports s' as = (ports s as)(tl_fd p \<mapsto> p\<lparr>tl_ttyset := tt\<rparr>)"
    if f: "\<exists>r t' tt s1. f p s = Done ((r, t'), p\<lparr>tl_ttyset := tt\<rparr>, s1) \<and> tl_heap s1 = tl_heap s \<and> first_tl s1 = first_tl s" for f
    using f holds_port_on [OF at len, of f] by fastforce
  show ?thesis
    unfolding tcsetattr_def if_not_P [OF pos]
    by (rule on) (use same in \<open>auto simp: Let_def split: option.splits prod.splits\<close>)
qed

lemma set_defaults_at:
  assumes at: "holds_port s as a p" and len: "length as \<le> fuel"
  shows "\<exists>s' p'. set_defaults A fuel a p s = Done s' \<and> holds_port s' as a p' \<and> ident p' = ident p
    \<and> ports s' as = (ports s as)(tl_fd p \<mapsto> p')"
proof -
  let ?q = "p\<lparr>tl_ttyset := init_termios, tl_sstruct := init_serial_struct (tl_sstruct p)\<rparr>"
  obtain s1 where s1: "put_port a ?q s = Done s1" "holds_port s1 as a ?q" "ports s1 as = (ports s as)(tl_fd p \<mapsto> ?q)"
    using holds_port_put [OF at, of ?q] by auto
  obtain r t tt s2 where s2: "tcsetattr A fuel (tl_fd p) init_termios s1 = Done ((r, t), s2)"
      "holds_port s2 as a (?q\<lparr>tl_ttyset := tt\<rparr>)" "ports s2 as = (ports s1 as)(tl_fd p \<mapsto> ?q\<lparr>tl_ttyset := tt\<rparr>)"
    using holds_port_tcsetattr [OF s1(2) len, of A init_termios] by auto
  obtain s3 where s3: "put_port a (?q\<lparr>tl_ttyset := t\<rparr>) s2 = Done s3" "holds_port s3 as a (?q\<lparr>tl_ttyset := t\<rparr>)"
      "ports s3 as = (ports s2 as)(tl_fd p \<mapsto> ?q\<lparr>tl_ttyset := t\<rparr>)"
    using holds_port_put [OF s2(2), of "?q\<lparr>tl_ttyset := t\<rparr>"] by auto
  have "set_defaults A fuel a p s = Done s3"
    using s1(1) s2(1) s3(1) holds_port_get [OF s2(2)] by (simp add: set_defaults_def)
  then show ?thesis using s1 s2 s3 by (intro exI [of _ s3] exI) (auto simp: ident_def)
qed

lemma win_open_port_at:
  "\<exists>r p' s'. win_open_port A p s = Done (r, p', s') \<and> tl_heap s' = tl_heap s \<and> first_tl s' = first_tl s
    \<and> ident p' = (tl_fd p, tl_filename p, fst (CreateFile_op A (tl_filename p) True (kern s)))"
  by (auto simp: win_open_port_def Let_def ident_def split: prod.splits)

text \<open>What the allocator and \<open>CreateFile\<close> are documented to do: memory handed out was not in use, and
  the handle of a failed \<open>CreateFile\<close> is \<open>INVALID_HANDLE_VALUE\<close>, not null.\<close>

definition malloc_new :: "'k winapi \<Rightarrow> 'k winsys \<Rightarrow> bool" where
  "malloc_new A s \<longleftrightarrow> (\<forall>a k. malloc_op A (kern s) = (Some a, k) \<longrightarrow> tl_heap s a = None)"

definition no_null :: "'k winapi \<Rightarrow> bool" where
  "no_null A \<longleftrightarrow> (\<forall>n b k. fst (CreateFile_op A n b k) \<noteq> NULL_HANDLE)"

lemma add_port_cases:
  assumes inv: "tl_inv s as" and len: "length as \<le> fuel" and new: "malloc_new A s" and run: "add_port A fuel n s = Done (i, s1)"
  obtains (freed) a where "i = Some a" and "tl_heap s1 a = None"
    | (linked) a k' where "i = Some a" and "fresh_port A s a k'" and "length n < 80" and "as = [] \<or> ports s as 1 \<noteq> None"
proof -
  obtain a k where a: "malloc_op A (kern s) = (Some a, k)"
    using run by (cases "malloc_op A (kern s)"; cases "fst (malloc_op A (kern s))") (auto simp: add_port_def)
  show thesis
  proof (cases "length n < 80 \<and> (\<exists>k'. fresh_port A s a k')")
    case True
    then obtain k' where k': "fresh_port A s a k'" by blast
    then have "as = [] \<or> ports s as 1 \<noteq> None"
      using add_port_faults [OF inv len k'] True run by force
    moreover have "i = Some a"
      using run True a by (auto simp: add_port_def Let_def bind_Done split: prod.splits if_splits)
    ultimately show thesis using linked k' True by blast
  next
    case False
    then show thesis
      using run a new freed
      by (auto simp: add_port_def malloc_new_def fresh_port_def Let_def bind_Done split: prod.splits if_splits)
  qed
qed

section \<open>The invariant\<close>

definition names :: "'k winsys \<Rightarrow> addr list \<Rightarrow> int \<Rightarrow> string option" where
  \<comment> \<open>the abstract table: which device a descriptor stands for\<close>
  "names s as fd = map_option tl_filename (ports s as fd)"

definition sys_inv :: "'k winsys \<Rightarrow> addr list \<Rightarrow> bool" where
  "sys_inv s as \<longleftrightarrow> tl_inv s as \<and> dom (tl_heap s) = set as \<and> (\<forall>p \<in> ran (ports s as). tl_hComm p \<noteq> NULL_HANDLE)
     \<and> inj_on (names s as) (dom (names s as))"

lemma map_of_ident:
  "map_option ident (map_of (map (\<lambda>p. (tl_fd p, p)) ps) fd) = map_of (map (\<lambda>i. (fst i, i)) (map ident ps)) fd"
  by (induction ps) (auto simp: ident_def)

lemma same_table_ident:
  "same_table s s' as \<Longrightarrow> map_option ident (ports s' as fd) = map_option ident (ports s as fd)"
  unfolding ports_def map_of_ident by (simp add: same_table_def idents_def)

lemma same_table_inv:
  assumes "same_table s s' as" and "sys_inv s as"
  shows "sys_inv s' as \<and> names s' as = names s as"
proof -
  note i = same_table_ident [OF assms(1)]
  have n: "names s' as fd = names s as fd" for fd
    using i [of fd] by (cases "ports s as fd"; cases "ports s' as fd") (auto simp: names_def ident_def)
  have "tl_hComm p \<noteq> NULL_HANDLE" if p: "p \<in> ran (ports s' as)" for p
  proof -
    obtain fd where "ports s' as fd = Some p" using p by (auto simp: ran_def)
    with i [of fd] obtain q where "ports s as fd = Some q" "ident p = ident q"
      by (cases "ports s as fd") auto
    then show ?thesis using assms(2) by (auto simp: sys_inv_def ident_def ran_def)
  qed
  moreover have "names s' as = names s as" using n by blast
  ultimately show ?thesis using assms by (simp add: sys_inv_def same_table_def)
qed

lemma names_upd: "ports s' as' = (ports s as)(fd \<mapsto> p) \<Longrightarrow> names s' as' = (names s as)(fd \<mapsto> tl_filename p)"
  "ports s' as' = (ports s as)(fd := None) \<Longrightarrow> names s' as' = (names s as)(fd := None)"
  by (auto simp: names_def)

definition least_free :: "(int \<Rightarrow> string option) \<Rightarrow> int \<Rightarrow> bool" where
  "least_free m fd \<longleftrightarrow> 0 < fd \<and> m fd = None \<and> (\<forall>e. 0 < e \<and> e < fd \<longrightarrow> m e \<noteq> None)"

lemma sys_inv_insert:
  assumes "sys_inv s as" and "tl_inv s' as'" and "dom (tl_heap s') = set as'" and "ports s' as' = (ports s as)(fd \<mapsto> p)" and "tl_hComm p \<noteq> NULL_HANDLE"
    and "names s as fd = None" and "tl_filename p \<notin> ran (names s as)"
  shows "sys_inv s' as'"
  using assms names_upd(1) [OF assms(4)] unfolding sys_inv_def
  by (auto simp: inj_on_def ran_def split: if_splits)

lemma sys_inv_delete:
  assumes "sys_inv s as" and "tl_inv s' as'" and "dom (tl_heap s') = set as'" and "ports s' as' = (ports s as)(fd := None)"
  shows "sys_inv s' as'"
  using assms names_upd(2) [OF assms(4)] unfolding sys_inv_def
  by (auto simp: inj_on_def ran_def split: if_splits)

lemma sys_inv_first:
  assumes "sys_inv s as" and "as \<noteq> []"
  obtains i c where "first_tl s = Some i" and "tl_heap s i = Some c" and "tl_hComm (val c) \<noteq> NULL_HANDLE"
proof -
  have inv: "tl_inv s as" using assms(1) by (simp add: sys_inv_def)
  obtain i bs where as: "as = i # bs" using assms(2) by (cases as) auto
  obtain c where c: "tl_heap s i = Some c" "val c \<in> set (tab s as)" using tab_cell [OF inv, of i] as by auto
  then have "ports s as (tl_fd (val c)) = Some (val c)" using ports_Some [OF inv] by blast
  then have "tl_hComm (val c) \<noteq> NULL_HANDLE" using assms(1) by (auto simp: sys_inv_def ran_def)
  then show thesis using that c(1) tl_invD(2) [OF inv] as by simp
qed

lemma serial_close_entry:
  assumes inv: "sys_inv s as" and len: "length as \<le> fuel" and fd: "names s as fd \<noteq> None"
  shows "\<exists>s' as'. serial_close A fuel fd s = Done (0, s') \<and> sys_inv s' as' \<and> length as = Suc (length as')
    \<and> names s' as' = (names s as)(fd := None)"
proof -
  have tl: "tl_inv s as" using inv by (simp add: sys_inv_def)
  obtain p where p: "ports s as fd = Some p" using fd by (auto simp: names_def)
  then have "as \<noteq> []" by (auto simp: ports_def contents_def)
  from sys_inv_first [OF inv this]
  obtain s' as' where "serial_close A fuel fd s = Done (0, s')" "tl_inv s' as'" "length as = Suc (length as')"
      "dom (tl_heap s') = set as'" "ports s' as' = (ports s as)(fd := None)"
    using serial_close_ok [OF tl len p] inv unfolding sys_inv_def by metis
  then show ?thesis using sys_inv_delete [OF inv] names_upd(2) by blast
qed

definition open_result :: "'k winsys \<Rightarrow> addr list \<Rightarrow> string \<Rightarrow> int \<Rightarrow> 'k winsys \<Rightarrow> bool" where
  "open_result s as n r s' \<longleftrightarrow>
     (\<exists>as'. sys_inv s' as' \<and> length as' \<le> Suc (length as)
        \<and> (r = -1 \<and> names s' as' = names s as
           \<or> least_free (names s as) r \<and> n \<notin> ran (names s as) \<and> names s' as' = (names s as)(r \<mapsto> n)))"

lemma ident_sel: "ident p = (f, n, h) \<longleftrightarrow> tl_fd p = f \<and> tl_filename p = n \<and> tl_hComm p = h"
  by (auto simp: ident_def)

lemma finish_open_at:
  assumes at: "holds_port s as a p" and len: "length as \<le> fuel"
  shows "\<exists>s' p'. run_bind (set_defaults A fuel a p s) (finish_open a flags) = Done (tl_fd p, s') \<and> tl_inv s' as
    \<and> dom (tl_heap s') = set as \<and> ident p' = ident p \<and> ports s' as = (ports s as)(tl_fd p \<mapsto> p')"
proof -
  obtain s1 p1 where s1: "set_defaults A fuel a p s = Done s1" "holds_port s1 as a p1" "ident p1 = ident p"
      "ports s1 as = (ports s as)(tl_fd p \<mapsto> p1)"
    using set_defaults_at [OF at len] by blast
  let ?q = "p1\<lparr>tl_open_flags := (if flags AND WIN_O_NONBLOCK \<noteq> 0 then WIN_O_NONBLOCK else 0)\<rparr>"
  obtain s2 where s2: "put_port a ?q s1 = Done s2" "holds_port s2 as a ?q" "ports s2 as = (ports s1 as)(tl_fd p1 \<mapsto> ?q)"
    using holds_port_put [OF s1(2), of ?q] by auto
  have "tl_fd p1 = tl_fd p" using s1(3) by (simp add: ident_def)
  moreover have "run_bind (set_defaults A fuel a p s) (finish_open a flags) = Done (tl_fd p1, s2)"
    using s1(1) holds_port_get [OF s1(2)] s2(1) by (simp add: finish_open_def)
  ultimately show ?thesis
    using s1(3,4) s2(2,3) by (intro exI [of _ s2] exI [of _ ?q]) (simp add: holds_port_def ident_def)
qed

definition openable :: "'k winapi \<Rightarrow> bool" where
  \<comment> \<open>every device opens and has a control block\<close>
  "openable A \<longleftrightarrow> (\<forall>p s. \<exists>p' s'. win_open_port A p s = Done (0, p', s') \<and> GetCommState_op A (tl_hComm p') (kern s') \<noteq> None)"

lemma serial_open_linked:
  assumes inv: "sys_inv s as" and len: "length as < fuel" and null: "no_null A" and n: "n \<notin> ran (names s as)"
    and fresh: "fresh_port A s a k'" "length n < 80" "as = [] \<or> ports s as 1 \<noteq> None" and opened: "port_opened fuel n s = Done 0"
  shows "\<exists>r s'. serial_open A fuel n flags s = Done (r, s') \<and> open_result s as n r s' \<and> (openable A \<longrightarrow> r \<noteq> -1)"
proof -
  have tl: "tl_inv s as" using inv by (simp add: sys_inv_def)
  obtain fd s1 as1 where s1: "get_free_fd fuel s = Done fd" "add_port A fuel n s = Done (Some a, s1)" "tl_inv s1 as1"
      "length as1 = Suc (length as)" "ports s1 as1 = (ports s as)(fd \<mapsto> new_port n fd)"
      "holds_port s1 as1 a (new_port n fd)"
    using add_port_ok [OF tl _ fresh(1,2,3), of fuel] len inv by (auto simp: holds_port_def sys_inv_def)
  have free: "least_free (names s as) fd"
    using get_free_fd_least [OF tl, of fuel] len s1(1) by (auto simp: least_free_def names_def)
  have len1: "length as1 \<le> fuel" using s1(4) len by simp
  obtain r p2 s2 where s2: "win_open_port A ((new_port n fd)\<lparr>tl_interrupt := 0, tl_tx_happened := 0\<rparr>) s1 = Done (r, p2, s2)"
      "tl_heap s2 = tl_heap s1" "first_tl s2 = first_tl s1" "tl_fd p2 = fd" "tl_filename p2 = n" "tl_hComm p2 \<noteq> NULL_HANDLE"
    using win_open_port_at [of A "(new_port n fd)\<lparr>tl_interrupt := 0, tl_tx_happened := 0\<rparr>" s1] null
    by (auto simp: ident_sel no_null_def)
  obtain s3 where s3: "put_port a p2 s2 = Done s3" "holds_port s3 as1 a p2" "ports s3 as1 = (ports s as)(fd \<mapsto> p2)" "kern s3 = kern s2"
    using holds_port_frame [OF s1(6) s2(2,3)] holds_port_put [of s2 as1 a "new_port n fd" p2] s2(4) s1(5) by auto
  have inv3: "sys_inv s3 as1"
    using sys_inv_insert [OF inv _ _ s3(3) s2(6)] s3(2) free n s2(5) by (simp add: holds_port_def least_free_def)
  have "(names s as)(fd := None) = names s as" using free by (simp add: least_free_def fun_upd_idem)
  then obtain s4 as4 where s4: "serial_close A fuel fd s3 = Done (0, s4)" "sys_inv s4 as4" "length as1 = Suc (length as4)"
      "names s4 as4 = names s as"
    using serial_close_entry [OF inv3 len1, of fd A] names_upd(1) [OF s3(3)] free by (auto simp: least_free_def)
  obtain s6 p6 where s6: "run_bind (set_defaults A fuel a p2 s3) (finish_open a flags) = Done (fd, s6)" "tl_inv s6 as1"
      "dom (tl_heap s6) = set as1" "ident p6 = ident p2" "ports s6 as1 = (ports s as)(fd \<mapsto> p6)"
    using finish_open_at [OF s3(2) len1, of A flags] s3(3) s2(4) by auto
  then have p6: "tl_filename p6 = n" "tl_hComm p6 \<noteq> NULL_HANDLE" using s2(5,6) by (simp_all add: ident_def)
  have "sys_inv s6 as1"
    by (rule sys_inv_insert [OF inv s6(2,3,5)]) (use free n p6 in \<open>simp_all add: least_free_def\<close>)
  then have good: "open_result s as n fd s6"
    using names_upd(1) [OF s6(5)] free n s1(4) p6(1) by (auto simp: open_result_def)
  have bad: "open_result s as n (-1) s4" using s4 s1(4) by (auto simp: open_result_def)
  have "openable A \<Longrightarrow> r = 0 \<and> check_port_capabilities A p2 s3 = 0"
    using s2(1) s3(4) unfolding openable_def check_port_capabilities_def by (metis Pair_inject run.inject)
  then show ?thesis
    using good bad free opened s1(2) holds_port_get [OF s1(6)] s2(1,4) s3(1) s4(1) s6(1)
    by (cases "r \<noteq> 0 \<or> check_port_capabilities A p2 s3 \<noteq> 0") (auto simp: serial_open_def least_free_def)
qed

lemma serial_open_entry:
  assumes inv: "sys_inv s as" and len: "length as < fuel" and null: "no_null A" and new: "malloc_new A s"
    and run: "serial_open A fuel n flags s = Done (r, s')"
  shows "open_result s as n r s'"
proof -
  have tl: "tl_inv s as" using inv by (simp add: sys_inv_def)
  obtain o1 where o1: "port_opened fuel n s = Done o1" "o1 \<noteq> 0 \<longleftrightarrow> (\<exists>p \<in> set (tab s as). tl_filename p = n)"
    using port_opened_iff [OF tl, of fuel n] len by auto
  show ?thesis
  proof (cases "o1 = 0")
    case False
    then show ?thesis using run o1(1) inv by (auto simp: serial_open_def open_result_def)
  next
    case True
    then have "n \<notin> ran (names s as)" using o1(2) ports_Some [OF tl] by (auto simp: names_def ran_def)
    moreover obtain i s1 where add: "add_port A fuel n s = Done (i, s1)" using run o1(1) True by (auto simp: serial_open_def bind_Done)
    then show ?thesis
    proof (cases rule: add_port_cases [OF tl _ new add])
      case (2 a)
      then show ?thesis using run o1(1) True add by (simp add: serial_open_def get_port_def deref_def)
    next
      case (3 a k')
      with calculation serial_open_linked [OF inv len null _ 3(2,3,4), of flags] o1(1) True run show ?thesis by auto
    qed (use len in simp)
  qed
qed

section \<open>The state machine\<close>

datatype win_call = Open string | Close int | Other

inductive win_step :: "'k winapi \<Rightarrow> nat \<Rightarrow> win_call \<Rightarrow> 'k winsys \<Rightarrow> int \<Rightarrow> 'k winsys \<Rightarrow> bool" for A fuel where
  opens: "malloc_new A s \<Longrightarrow> serial_open A fuel n flags s = Done (r, s') \<Longrightarrow> win_step A fuel (Open n) s r s'"
| closes: "serial_close A fuel fd s = Done (r, s') \<Longrightarrow> win_step A fuel (Close fd) s r s'"
| getting: "tcgetattr A fuel fd t s = Done ((r, t'), s') \<Longrightarrow> win_step A fuel Other s r s'"
| setting: "tcsetattr A fuel fd t s = Done ((r, t'), s') \<Longrightarrow> win_step A fuel Other s r s'"
| breaking: "tcsendbreak A fuel fd du s = Done (r, s') \<Longrightarrow> win_step A fuel Other s r s'"
| draining: "tcdrain A fuel fd s = Done (r, s') \<Longrightarrow> win_step A fuel Other s r s'"
| flushing: "tcflush A fuel fd q s = Done (r, s') \<Longrightarrow> win_step A fuel Other s r s'"
| control: "ioctl A fuel fd req s = Done ((r, req'), s') \<Longrightarrow> win_step A fuel Other s r s'"
| descriptor: "fcntl fuel fd cmd arg s = Done (r, s') \<Longrightarrow> win_step A fuel Other s r s'"
| selecting: "serial_select A fuel fd s = Done (r, s') \<Longrightarrow> win_step A fuel Other s r s'"
| writing: "serial_write A fuel rounds fd bs s = Done (r, s') \<Longrightarrow> win_step A fuel Other s r s'"
| reading: "serial_read A fuel rounds st fd wanted s = Done ((r, bs), s') \<Longrightarrow> win_step A fuel Other s r s'"
| notifying: "termios_setflags A fuel fd flags s = Done ((), s') \<Longrightarrow> win_step A fuel Other s 0 s'"
| interrupting: "termios_interrupt_event_loop fuel fd flag s = Done ((), s') \<Longrightarrow> win_step A fuel Other s 0 s'"
| replacing: "termiosSetParityError A fuel dcb0 fd v s = Done ((), s') \<Longrightarrow> win_step A fuel Other s 0 s'"
| asking: "termiosGetParityErrorChar A fuel dcb0 fd s = Done (r, s') \<Longrightarrow> win_step A fuel Other s r s'"

inductive_cases win_step_Open: "win_step A fuel (Open n) s r s'"
inductive_cases win_step_Close: "win_step A fuel (Close fd) s r s'"
inductive_cases win_step_Other: "win_step A fuel Other s r s'"

text \<open>The states a program reaches: \<open>n\<close> counts the calls and so bounds the number of open ports, and
  a list search of more rounds than that does not run out.\<close>

inductive win_reach :: "'k winapi \<Rightarrow> nat \<Rightarrow> 'k winsys \<Rightarrow> bool" for A where
  start: "first_tl s = None \<Longrightarrow> tl_heap s = Map.empty \<Longrightarrow> win_reach A 0 s"
| call: "win_reach A n s \<Longrightarrow> n < fuel \<Longrightarrow> win_step A fuel c s r s' \<Longrightarrow> win_reach A (Suc n) s'"

inductive table_step :: "win_call \<Rightarrow> (int \<Rightarrow> string option) \<Rightarrow> int \<Rightarrow> (int \<Rightarrow> string option) \<Rightarrow> bool" where
  opened: "least_free m fd \<Longrightarrow> n \<notin> ran m \<Longrightarrow> table_step (Open n) m fd (m(fd \<mapsto> n))"
| refused: "table_step (Open n) m (-1) m"
| closed: "m fd \<noteq> None \<Longrightarrow> table_step (Close fd) m 0 (m(fd := None))"
| absent: "m fd = None \<Longrightarrow> r = 0 \<or> r = -1 \<Longrightarrow> table_step (Close fd) m r m"
| kept: "table_step Other m r m"

lemma other_step_table:
  assumes "win_step A fuel Other s r s'" and "tl_inv s as" and "length as \<le> fuel"
  shows "same_table s s' as"
proof -
  note kept = tcgetattr_table [OF assms(2,3)] tcsetattr_table [OF assms(2,3)] tcsendbreak_table [OF assms(2,3)]
    tcdrain_table [OF assms(2,3)] tcflush_table [OF assms(2,3)] ioctl_table [OF assms(2,3)] fcntl_table [OF assms(2,3)]
    serial_select_table [OF assms(2,3)] serial_write_table [OF assms(2,3)] serial_read_table [OF assms(2,3)]
    flags_table [OF assms(2,3)]
  show ?thesis by (rule win_step_Other [OF assms(1)]) (erule kept)+
qed

lemma serial_close_absent:
  assumes inv: "sys_inv s as" and len: "length as \<le> fuel" and fd: "names s as fd = None"
    and run: "serial_close A fuel fd s = Done (r, s')"
  shows "(r = 0 \<or> r = -1) \<and> sys_inv s' as \<and> names s' as = names s as"
proof -
  have tl: "tl_inv s as" using inv by (simp add: sys_inv_def)
  have "find_port fuel fd s = Done (None, set_errno EBADF s)"
    using find_port_absent [OF tl len] fd by (simp add: names_def)
  then have "(r = 0 \<or> r = -1) \<and> (s' = s \<or> s' = set_errno EBADF s)"
    using run by (auto simp: serial_close_def bind_Done split: option.splits if_splits)
  moreover have "names (set_errno EBADF s) as = names s as" by (simp add: names_def fun_eq_iff tl_inv_errno)
  ultimately show ?thesis using inv by (elim conjE disjE) (simp_all add: sys_inv_def tl_inv_errno)
qed

lemma win_step_refines:
  assumes inv: "sys_inv s as" and len: "length as < fuel" and null: "no_null A" and step: "win_step A fuel c s r s'"
  shows "\<exists>as'. sys_inv s' as' \<and> length as' \<le> Suc (length as) \<and> table_step c (names s as) r (names s' as')"
proof (cases c)
  case (Open n)
  then have "open_result s as n r s'"
    using step serial_open_entry [OF inv len null] by (auto elim: win_step_Open)
  then show ?thesis using Open table_step.intros(1,2) by (fastforce simp: open_result_def)
next
  case (Close fd)
  then have run: "serial_close A fuel fd s = Done (r, s')" using step by (auto elim: win_step_Close)
  show ?thesis
  proof (cases "names s as fd")
    case None
    then show ?thesis
      using serial_close_absent [OF inv _ None run] len Close
      by (intro exI [of _ as]) (auto intro: table_step.absent)
  next
    case (Some n)
    then obtain as' where "r = 0" "sys_inv s' as'" "length as = Suc (length as')" "names s' as' = (names s as)(fd := None)"
      using serial_close_entry [OF inv, of fuel fd A] len run by auto
    then show ?thesis using Close Some table_step.closed [of "names s as" fd] by (intro exI [of _ as']) simp
  qed
next
  case Other
  then have "same_table s s' as" using other_step_table [of A fuel s r s' as] step inv len by (simp add: sys_inv_def)
  then show ?thesis using same_table_inv [OF _ inv] Other table_step.kept by (intro exI [of _ as]) auto
qed

lemma win_reach_inv:
  assumes "win_reach A n s" and "no_null A"
  shows "\<exists>as. sys_inv s as \<and> length as \<le> n"
  using assms(1)
proof induction
  case (start s)
  then show ?case
    by (intro exI [of _ "[]"]) (simp add: sys_inv_def tl_inv_def ports_def names_def contents_def dlist_def inj_on_def dom_def)
next
  case (call n s fuel c r s')
  then obtain as where "sys_inv s as" "length as \<le> n" by blast
  then show ?case using win_step_refines [of s as fuel A c r s'] assms(2) call by fastforce
qed

section \<open>What the table promises\<close>

lemma win_reach_step:
  assumes "win_reach A n s" and "no_null A" and "n < fuel" and "win_step A fuel c s r s'"
  shows "\<exists>as as'. sys_inv s as \<and> sys_inv s' as' \<and> table_step c (names s as) r (names s' as')"
proof -
  obtain as where "sys_inv s as" "length as \<le> n" using win_reach_inv [OF assms(1,2)] by blast
  then show ?thesis using win_step_refines [of s as fuel A c r s'] assms(2-4) by auto
qed

lemma get_filename_at:
  assumes inv: "tl_inv s as" and len: "length as \<le> fuel"
  shows "get_filename fuel fd s = Done (case names s as fd of None \<Rightarrow> ''bad'' | Some n \<Rightarrow> n)"
proof (cases "first_tl s")
  case None
  then have "as = []" using tl_invD(2) [OF inv] by (cases as) auto
  with None show ?thesis by (simp add: get_filename_def names_def ports_def contents_def)
next
  case (Some i)
  obtain a c where a: "seek fuel (\<lambda>p. tl_fd p = fd) (tl_heap s) i = Done a" "tl_heap s a = Some c"
      "val c \<in> set (tab s as)" "tl_fd (val c) = fd \<longleftrightarrow> (\<exists>p \<in> set (tab s as). tl_fd p = fd)"
    using tl_seek [OF inv len Some, of "\<lambda>p. tl_fd p = fd"] by blast
  show ?thesis
  proof (cases "tl_fd (val c) = fd")
    case True
    then have "ports s as fd = Some (val c)" using ports_Some [OF inv] a(3) by blast
    then show ?thesis using a Some True by (simp add: get_filename_def names_def)
  next
    case False
    then have "ports s as fd = None" using a(4) by (auto simp: ports_None)
    then show ?thesis using a Some False by (simp add: get_filename_def names_def)
  qed
qed

lemma refwin_no_null: "no_null refwin"
  by (simp add: no_null_def refwin_def rk_new_def)

lemma refwin_openable: "openable refwin"
  by (auto simp: openable_def win_open_port_def refwin_def rk_new_def rk_with_def rk_dev_def rk_put_def Let_def)

lemma refsys0_start: "first_tl refsys0 = None" "tl_heap refsys0 = Map.empty"
  by (simp_all add: refsys0_def)

text \<open>C7. In every state that calls of the emulation reach, the list of open ports is well formed: it is a doubly
  linked list without cycles that starts at \<open>first_tl\<close>, sorted by descriptor, all descriptors are positive,
  every allocated node is in it (nothing leaks) and every node in it is allocated (nothing dangles), every
  port has a handle and no device is open twice.
\<close>

theorem port_table_invariant:
  assumes "win_reach A n s" and "no_null A"
  shows "\<exists>as. dlist (tl_heap s) as \<and> first_tl s = hdp as \<and> dom (tl_heap s) = set as \<and> length as \<le> n
    \<and> sorted_wrt (<) (map tl_fd (contents (tl_heap s) as)) \<and> (\<forall>p \<in> set (contents (tl_heap s) as). 0 < tl_fd p \<and> tl_hComm p \<noteq> NULL_HANDLE)
    \<and> (\<forall>p \<in> set (contents (tl_heap s) as). \<forall>q \<in> set (contents (tl_heap s) as). tl_filename p = tl_filename q \<longrightarrow> p = q)"
proof -
  obtain as where as: "sys_inv s as" "length as \<le> n" using win_reach_inv [OF assms] by blast
  then have inv: "tl_inv s as" and inj: "inj_on (names s as) (dom (names s as))" by (simp_all add: sys_inv_def)
  have at: "ports s as (tl_fd p) = Some p" if "p \<in> set (tab s as)" for p using that ports_Some [OF inv] by blast
  have "tl_fd p = tl_fd q" if "p \<in> set (tab s as)" "q \<in> set (tab s as)" "tl_filename p = tl_filename q" for p q
    by (rule inj_onD [OF inj]) (simp_all add: names_def dom_def at [OF that(1)] at [OF that(2)] that(3))
  then have "p = q" if "p \<in> set (tab s as)" "q \<in> set (tab s as)" "tl_filename p = tl_filename q" for p q
    using at that by (metis option.inject)
  moreover have "tl_hComm p \<noteq> NULL_HANDLE" if "p \<in> set (tab s as)" for p
    using as(1) at [OF that] by (auto simp: sys_inv_def ran_def)
  moreover have "dom (tl_heap s) = set as" using as(1) by (simp add: sys_inv_def)
  ultimately show ?thesis
    using as(2) tl_invD(1-4) [OF inv] by (intro exI [of _ as] conjI ballI impI)
qed

text \<open>A device that opens: the first call on the empty table.\<close>

lemma refwin_open_first:
  obtains s as where "win_step refwin 1 (Open ''COM1'') refsys0 1 s" and "win_reach refwin 1 s" and "sys_inv s as"
    and "names s as = [1 \<mapsto> ''COM1'']"
proof -
  have inv: "sys_inv refsys0 []" and empty: "names refsys0 [] = Map.empty"
    by (simp_all add: sys_inv_def tl_inv_def ports_def names_def contents_def dlist_def inj_on_def dom_def refsys0_def fun_eq_iff)
  have open0: "port_opened 1 ''COM1'' refsys0 = Done 0" by (simp add: port_opened_def refsys0_def)
  have fresh: "fresh_port refwin refsys0 1 (kern refsys0\<lparr>rk_next := 5\<rparr>)"
    by (simp add: fresh_port_def refsys0_def refwin_def)
  obtain r s where s: "serial_open refwin 1 ''COM1'' 4 refsys0 = Done (r, s)" "open_result refsys0 [] ''COM1'' r s" "r \<noteq> -1"
    using serial_open_linked [OF inv _ refwin_no_null _ fresh _ _ open0, of 4] refwin_openable by (auto simp: empty)
  then have step: "win_step refwin 1 (Open ''COM1'') refsys0 r s"
    by (intro win_step.opens) (auto simp: malloc_new_def refsys0_def)
  obtain as where as: "sys_inv s as" "least_free Map.empty r" "names s as = [r \<mapsto> ''COM1'']"
    using s(2,3) by (auto simp: open_result_def empty)
  then have "r = 1" by (cases "1 < r") (auto simp: least_free_def)
  with as step that win_reach.call [OF win_reach.start [OF refsys0_start] _ step] show thesis by auto
qed

theorem port_table_invariant_witness:
  "\<exists>s as. win_reach refwin 1 s \<and> dlist (tl_heap s) as \<and> first_tl s = hdp as \<and> dom (tl_heap s) = set as \<and> length as \<le> 1"
proof -
  obtain s as where "win_reach refwin 1 s" using refwin_open_first .
  then show ?thesis using port_table_invariant [OF _ refwin_no_null, of 1 s] by blast
qed

text \<open>C6. The table refines a map from descriptors to device names, for the calls that return. A call of
  \<open>serial_open\<close> that returns, for a device that is not open, has taken the least free positive descriptor, or is
  refused with -1 and has changed nothing; closing an open descriptor returns 0 and removes exactly that entry,
  and closing any other removes nothing; every other entry point leaves the map alone. \<open>malloc\<close> gives
  new memory, and \<open>CreateFile\<close> returns no null handle. (Not every \<open>serial_open\<close> returns: one for a name of 80
  characters or more overruns the copy of the name, and one whose port belongs in front of the list crashes, as
  \<open>open_in_front_faults\<close> shows below. Nothing is said of a call after that.)
\<close>

theorem port_table_refines:
  assumes "win_reach A n s" and "no_null A" and "n < fuel" and "win_step A fuel c s r s'"
  shows "\<exists>as as'. sys_inv s as \<and> sys_inv s' as' \<and> table_step c (names s as) r (names s' as')"
  using assms by (rule win_reach_step)

theorem port_table_refines_witness:
  "\<exists>s as as'. win_step refwin 1 (Open ''COM1'') refsys0 1 s \<and> sys_inv refsys0 as \<and> sys_inv s as'
     \<and> table_step (Open ''COM1'') (names refsys0 as) 1 (names s as')"
proof -
  obtain s as where "win_step refwin 1 (Open ''COM1'') refsys0 1 s" using refwin_open_first .
  moreover from port_table_refines [OF win_reach.start [OF refsys0_start] refwin_no_null _ this]
  obtain as as' where "sys_inv refsys0 as" "sys_inv s as'" "table_step (Open ''COM1'') (names refsys0 as) 1 (names s as')"
    by auto
  ultimately show ?thesis by blast
qed

text \<open>C21. Every search of the table ends: after \<open>n\<close> calls, \<open>n\<close> rounds are enough for \<open>find_port\<close>,
  \<open>port_opened\<close>, \<open>get_filename\<close>, \<open>get_free_fd\<close> and \<open>serial_close\<close> to return, for any descriptor and
  any name, and none of them follows a dangling pointer.
\<close>

theorem table_searches_end:
  assumes "win_reach A n s" and "no_null A" and "n \<le> fuel"
  shows "(\<exists>x. find_port fuel fd s = Done x) \<and> (\<exists>x. port_opened fuel name s = Done x)
    \<and> (\<exists>x. get_filename fuel fd s = Done x) \<and> (\<exists>x. get_free_fd fuel s = Done x) \<and> (\<exists>x. serial_close A fuel fd s = Done x)"
proof -
  obtain as where "sys_inv s as" "length as \<le> n" using win_reach_inv [OF assms(1,2)] by blast
  then have inv: "tl_inv s as" and len: "length as \<le> fuel" using assms(3) by (simp_all add: sys_inv_def)
  have "\<exists>x. find_port fuel fd s = Done x"
    using find_port_absent [OF inv len, of fd] find_port_found [OF inv len, of fd] by (cases "ports s as fd") blast+
  moreover have "\<exists>x. port_opened fuel name s = Done x" using port_opened_iff [OF inv len, of name] by blast
  moreover have "\<exists>x. get_free_fd fuel s = Done x" using get_free_fd_least [OF inv len] by blast
  moreover have "\<exists>x. serial_close A fuel fd s = Done x" using serial_close_returns [OF inv len, of A fd] by blast
  ultimately show ?thesis using get_filename_at [OF inv len, of fd] by blast
qed

theorem table_searches_end_witness:
  "\<exists>s. win_reach refwin 1 s \<and> (\<exists>x. find_port 1 5 s = Done x) \<and> (\<exists>x. serial_close refwin 1 1 s = Done x)"
proof -
  obtain s as where "win_reach refwin 1 s" using refwin_open_first .
  then show ?thesis using table_searches_end [OF _ refwin_no_null, of 1 s 1] by blast
qed

lemma add_port_front:
  assumes inv: "sys_inv s as" and len: "length as \<le> fuel" and front: "first_tl s = Some i" "tl_heap s i = Some c" "1 < tl_fd (val c)"
  shows "as \<noteq> [] \<and> ports s as 1 = None"
proof -
  have tl: "tl_inv s as" using inv by (simp add: sys_inv_def)
  obtain bs where as: "as = i # bs" using tl_invD(2) [OF tl] front(1) by (cases as) auto
  have t: "tab s as = val c # tab s bs" using as front(2) by (simp add: contents_def)
  have "1 < tl_fd p" if "p \<in> set (tab s as)" for p
    using that tl_invD(3) [OF tl] front(3) unfolding t by auto
  then show ?thesis using as by (force simp: ports_None)
qed

text \<open>Opening fails badly when descriptor 1 is free while another port is open: the new port belongs in front
  of the list, and \<open>add_port\<close> writes through the null \<open>prev\<close> pointer of the first node. The state is
  reached by opening two devices and closing the first.
\<close>

theorem open_in_front_faults:
  assumes "win_reach A n s" and "no_null A" and "n \<le> fuel" and "first_tl s = Some i" and "tl_heap s i = Some c"
    and "1 < tl_fd (val c)" and "port_opened fuel name s = Done 0" and "fresh_port A s a k'" and "length name < 80"
  shows "serial_open A fuel name flags s = Fault"
proof -
  obtain as where as: "sys_inv s as" "length as \<le> n" using win_reach_inv [OF assms(1,2)] by blast
  then have "tl_inv s as" and len: "length as \<le> fuel" using assms(3) by (simp_all add: sys_inv_def)
  then have "add_port A fuel name s = Fault"
    using add_port_faults [OF _ len assms(8,9)] add_port_front [OF as(1) len assms(4-6)] by simp
  then show ?thesis using assms(7) by (simp add: serial_open_def)
qed

theorem open_in_front_faults_witness:
  "\<exists>s1 s2 s3. serial_open refwin 9 ''COM1'' 4 refsys0 = Done (1, s1) \<and> serial_open refwin 9 ''COM2'' 4 s1 = Done (2, s2)
     \<and> serial_close refwin 9 1 s2 = Done (0, s3) \<and> serial_open refwin 9 ''COM3'' 4 s3 = Fault"
proof -
  obtain s1 s2 s3 i c where run: "serial_open refwin 9 ''COM1'' 4 refsys0 = Done (1, s1)" "tl_heap s1 (rk_next (kern s1)) = None"
      "serial_open refwin 9 ''COM2'' 4 s1 = Done (2, s2)" "serial_close refwin 9 1 s2 = Done (0, s3)"
      "tl_heap s3 (rk_next (kern s3)) = None" "first_tl s3 = Some i" "tl_heap s3 i = Some c" "tl_fd (val c) = 2"
      "tl_filename (val c) = ''COM2''" "nxt c = None"
    using gap_run unfolding refopen_def by blast
  have new: "malloc_new refwin refsys0" "malloc_new refwin s1"
    using run(2) by (simp_all add: malloc_new_def refwin_def refsys0_def)
  have "win_reach refwin 3 s3" unfolding numeral_3_eq_3
    by (rule win_reach.call [where fuel = 9] win_reach.start refsys0_start win_step.opens win_step.closes new run(1,3,4) | simp)+
  moreover have "fresh_port refwin s3 (rk_next (kern s3)) (kern s3\<lparr>rk_next := rk_next (kern s3) + 4\<rparr>)"
    using run(5) by (simp add: fresh_port_def refwin_def)
  moreover have "port_opened 9 ''COM3'' s3 = Done 0"
    using run(6-10) by (simp add: port_opened_def eval_nat_numeral)
  ultimately have "serial_open refwin 9 ''COM3'' 4 s3 = Fault"
    using open_in_front_faults [OF _ refwin_no_null, of 3 s3 9 i c] run(6-8) by simp
  with run show ?thesis by blast
qed

end
