(* ===== verification/Win32_Env.thy ===== *)
theory Win32_Env
  imports Win32_Table Ref_Tty
begin

text \<open>
  The Windows emulation as the terminal interface \<open>SerialImp.c\<close> is written against. The state is a run of
  the emulation: once a call has gone wrong, nothing after it happens. From what the documentation of the
  Windows communication API promises (\<open>win32_api\<close>) it follows that the emulation keeps the contract of a
  terminal driver, so everything proved of the port parameters and modem lines over that contract holds on
  Windows too.
\<close>

section \<open>The interface\<close>

definition lift_run :: "'r \<Rightarrow> ('k winsys \<Rightarrow> ('r \<times> 'k winsys) run) \<Rightarrow> 'k winsys run \<Rightarrow> 'r \<times> 'k winsys run" where
  "lift_run d f w =
     (case run_bind w f of Done (r, s) \<Rightarrow> (r, Done s) | Fault \<Rightarrow> (d, Fault) | Hang \<Rightarrow> (d, Hang))"

definition lift_kern :: "'r \<Rightarrow> ('k \<Rightarrow> 'r \<times> 'k) \<Rightarrow> 'k winsys run \<Rightarrow> 'r \<times> 'k winsys run" where
  "lift_kern d f = lift_run d (\<lambda>s. let (r, k) = f (kern s) in Done (r, s\<lparr>kern := k\<rparr>))"

definition with_value :: "('v \<Rightarrow> ioctl_request) \<Rightarrow> (ioctl_request \<Rightarrow> 'v) \<Rightarrow> 'k winapi \<Rightarrow> nat \<Rightarrow> int \<Rightarrow> 'v
    \<Rightarrow> 'k winsys run \<Rightarrow> (int \<times> 'v) \<times> 'k winsys run" where
  "with_value req out A fuel fd v w =
     (let ((r, q), w) = lift_run (-1, req v) (ioctl A fuel fd (req v)) w in ((r, out q), w))"

definition out_word :: "ioctl_request \<Rightarrow> u32" where "out_word q = (case q of TIOCMGET v \<Rightarrow> v | _ \<Rightarrow> 0)"
definition out_int :: "ioctl_request \<Rightarrow> int" where "out_int q = (case q of TIOCSERGETLSR v \<Rightarrow> v | FIONREAD v \<Rightarrow> v | _ \<Rightarrow> 0)"
definition out_count :: "serial_icounter \<Rightarrow> ioctl_request \<Rightarrow> serial_icounter" where
  "out_count d q = (case q of TIOCGICOUNT v \<Rightarrow> v | _ \<Rightarrow> d)"

text \<open>
  The names the Windows build gives to the calls: \<open>OPEN\<close> is \<open>serial_open\<close> and so on. \<open>rounds\<close> bounds
  the unbounded waiting loops, \<open>stat0\<close> is an uninitialised local; \<open>strerror\<close> and the process id belong to
  the C library. The two \<open>TIOC*SERIAL\<close> requests, \<open>FASYNC\<close> and
  \<open>stat\<close> are not compiled in. \<open>tcsetattr\<close> also writes
  the speed members of the structure it is given; its callers set them again before they look.
\<close>

definition win_posix :: "'k winapi \<Rightarrow> nat \<Rightarrow> nat \<Rightarrow> COMSTAT \<Rightarrow> (errno \<Rightarrow> string) \<Rightarrow> int \<Rightarrow> 'k winsys run posix" where
  "win_posix A fuel rounds stat0 strerror pid = \<lparr>
     errno_of = (\<lambda>w. case w of Done s \<Rightarrow> c_errno s | _ \<Rightarrow> EOTHER 0),
     strerror_of = strerror,
     getpid_of = (\<lambda>w. pid),
     tick_of = lift_kern 0 (GetTickCount_op A),
     usleep_op = (\<lambda>us w. snd (lift_kern () (\<lambda>k. ((), Sleep_op A (nat us div 1000) k)) w)),
     open_op = (\<lambda>name mode. lift_run (-1) (serial_open A fuel name WIN_O_NONBLOCK)),
     close_op = (\<lambda>fd. lift_run (-1) (serial_close A fuel fd)),
     read_op = (\<lambda>fd n. lift_run (-1, []) (serial_read A fuel rounds stat0 fd n)),
     write_op = (\<lambda>fd bs. lift_run (-1) (serial_write A fuel rounds fd bs)),
     select_op = (\<lambda>fd tv. lift_run (-1) (serial_select A fuel fd)),
     stat_chr = (\<lambda>name w. None),
     tcgetattr_op = (\<lambda>fd t. lift_run (-1, t) (tcgetattr A fuel fd t)),
     tcsetattr_op = (\<lambda>fd t w. let ((r, _), w) = lift_run (-1, t) (tcsetattr A fuel fd t) w in (r, w)),
     cfsetispeed_op = (\<lambda>t b. cfsetispeed t (word_of_int b)),
     cfsetospeed_op = (\<lambda>t b. cfsetospeed t (word_of_int b)),
     cfmakeraw_op = cfmakeraw,
     tcdrain_op = (\<lambda>fd. lift_run (-1) (tcdrain A fuel fd)),
     tcflush_op = (\<lambda>fd q. lift_run (-1) (tcflush A fuel fd q)),
     tcsendbreak_op = (\<lambda>fd du. lift_run (-1) (tcsendbreak A fuel fd du)),
     fcntl_setown = (\<lambda>fd v. lift_run (-1) (fcntl fuel fd F_SETOWN (word_of_int v))),
     fcntl_setfl = (\<lambda>fd v. lift_run (-1) (fcntl fuel fd F_SETFL (word_of_int v))),
     fcntl_getfl = (\<lambda>fd. lift_run (-1) (fcntl fuel fd F_GETFL 0)),
     fstat_op = (\<lambda>fd w. (win_fstat fd, w)),
     tiocmget_op = with_value TIOCMGET out_word A fuel,
     tiocmset_op = (\<lambda>fd v w. let ((r, _), w) = lift_run (-1, TIOCMSET v) (ioctl A fuel fd (TIOCMSET v)) w in (r, w)),
     tiocgserial_op = (\<lambda>fd ss w. ((- ENOIOCTLCMD, ss), w)),
     tiocsserial_op = (\<lambda>fd ss w. (- ENOIOCTLCMD, w)),
     tiocgicount_op = (\<lambda>fd v. with_value TIOCGICOUNT (out_count v) A fuel fd v),
     tiocsergetlsr_op = with_value TIOCSERGETLSR out_int A fuel,
     fionread_op = with_value FIONREAD out_int A fuel,
     O_NONBLOCK_of = uint WIN_O_NONBLOCK,
     FASYNC_of = 0\<rparr>"

section \<open>What Windows promises\<close>

definition listed_rate :: "u32 \<Rightarrow> bool" where
  \<comment> \<open>the baud rates of the table in \<open>termios.c\<close>\<close>
  "listed_rate r \<longleftrightarrow> r \<in> fst ` set cbr_cases"

definition same_settings :: "'k winapi \<Rightarrow> handle \<Rightarrow> 'k \<Rightarrow> 'k \<Rightarrow> bool" where
  "same_settings A h k k' \<longleftrightarrow> GetCommState_op A h k' = GetCommState_op A h k \<and> GetCommTimeouts_op A h k' = GetCommTimeouts_op A h k"

locale win32_api =
  fixes A :: "'k winapi" and is_open :: "handle \<Rightarrow> 'k \<Rightarrow> bool"
  assumes comm_state: "is_open h k \<Longrightarrow> \<exists>d. GetCommState_op A h k = Some d"
    and comm_timeouts: "is_open h k \<Longrightarrow> \<exists>tm. GetCommTimeouts_op A h k = Some tm"
    and set_comm_state: "is_open h k \<Longrightarrow> legal_dcb d \<Longrightarrow> listed_rate (BaudRate d) \<Longrightarrow>
      \<exists>k'. SetCommState_op A h d k = (True, k') \<and> is_open h k' \<and> GetCommState_op A h k' = Some d
        \<and> GetCommTimeouts_op A h k' = GetCommTimeouts_op A h k"
    and set_comm_timeouts: "is_open h k \<Longrightarrow>
      \<exists>k'. SetCommTimeouts_op A h tm k = (True, k') \<and> is_open h k' \<and> GetCommTimeouts_op A h k' = Some tm
        \<and> GetCommState_op A h k' = GetCommState_op A h k"
    and clear_comm_error: "is_open h k \<Longrightarrow>
      \<exists>e k'. ClearCommError_op A h k = (Some e, k') \<and> is_open h k' \<and> same_settings A h k k'"
    and escape_comm: "is_open h k \<Longrightarrow>
      \<exists>b k'. EscapeCommFunction_op A h f k = (b, k') \<and> is_open h k' \<and> same_settings A h k k'"

definition ref_open :: "handle \<Rightarrow> refkern \<Rightarrow> bool" where
  "ref_open h k \<longleftrightarrow> rk_dev h k \<noteq> None"

lemma rk_dev_put [simp]: "rk_dev h k \<noteq> None \<Longrightarrow> rk_dev h (rk_put h (Some c) k) = Some c"
  by (auto simp: rk_dev_def rk_put_def split: handle.splits)

interpretation rw: win32_api refwin ref_open
  by unfold_locales (auto simp: refwin_def ref_open_def rk_with_def same_settings_def)

section \<open>The emulation keeps the contract of a terminal driver\<close>

definition win_live :: "'k winapi \<Rightarrow> (handle \<Rightarrow> 'k \<Rightarrow> bool) \<Rightarrow> nat \<Rightarrow> fd \<Rightarrow> 'k winsys run \<Rightarrow> bool" where
  \<comment> \<open>a port of a well-formed table whose device is open, with distinct start and stop characters and no end of input character\<close>
  "win_live A is_open fuel fd w \<longleftrightarrow>
     (\<exists>s as p d. w = Done s \<and> tl_inv s as \<and> length as \<le> fuel \<and> ports s as fd = Some p \<and> is_open (tl_hComm p) (kern s)
        \<and> GetCommState_op A (tl_hComm p) (kern s) = Some d \<and> XonChar d \<noteq> XoffChar d
        \<and> EofChar d = 0)"

definition win_attr :: "'k winapi \<Rightarrow> nat \<Rightarrow> fd \<Rightarrow> 'k winsys run \<Rightarrow> termios" where
  "win_attr A fuel fd w = snd (fst (lift_run (-1, zero_termios) (tcgetattr A fuel fd zero_termios) w))"

definition win_lines :: "'k winapi \<Rightarrow> nat \<Rightarrow> fd \<Rightarrow> 'k winsys run \<Rightarrow> u32" where
  "win_lines A fuel fd w = snd (fst (with_value TIOCMGET out_word A fuel fd 0 w))"

lemma lift_run_Done: "f s = Done (r, s') \<Longrightarrow> lift_run d f (Done s) = (r, Done s')"
  by (simp add: lift_run_def)

lemma ports_pos: "tl_inv s as \<Longrightarrow> ports s as fd = Some p \<Longrightarrow> 0 < fd \<and> tl_fd p = fd"
  by (metis ports_Some tl_invD(4))

lemma listed_rate_B: "listed_speed Win32 b \<Longrightarrow> listed_rate (B_to_CBR b)"
  using listed_b_cases [of b] cbr_inverse [of b] unfolding listed_rate_def b_cases_inverse [symmetric] by force

lemma termios_to_DCB_rate:
  assumes "representable Win32 t"
  shows "listed_rate (BaudRate (snd (snd (termios_to_DCB t d))))"
  using assms listed_rate_B [of "c_cflag t AND CBAUD Win32"] by (auto simp: representable_def termios_to_DCB_def Let_def)

lemma overlay_chars: "c_cc (overlay d tm t) VSTART = XonChar d" "c_cc (overlay d tm t) VSTOP = XoffChar d"
    "c_cc (overlay d tm t) VEOF = EofChar d"
  by (simp_all add: overlay_def DCB_to_termios_def Let_def)

lemma cfset_listed:
  assumes "listed_speed Win32 b"
  shows "cfsetospeed t b = (1, t\<lparr>c_cflag := (c_cflag t AND NOT (CBAUD Win32)) OR b, c_ispeed := b, c_ospeed := b\<rparr>)"
proof -
  have "b \<noteq> 0" "b AND NOT (CBAUD Win32) = 0" using assms listed_in_CBAUD by (auto simp: listed_speed_def)
  then show ?thesis by (simp add: cfsetospeed_def Let_def)
qed

text \<open>The bits of the modem status word, and the shadow of the output lines in eight bits.\<close>

lemma modem_status_bits:
  "modem_status st msr v AND TIOCM_CAR = (if st AND MS_RLSD_ON \<noteq> 0 then TIOCM_CAR else 0)"
  "modem_status st msr v AND TIOCM_RNG = (if st AND MS_RING_ON \<noteq> 0 then TIOCM_RNG else 0)"
  "modem_status st msr v AND TIOCM_DSR = (if st AND MS_DSR_ON \<noteq> 0 then TIOCM_DSR else 0)"
  "modem_status st msr v AND TIOCM_CTS = (if st AND MS_CTS_ON \<noteq> 0 then TIOCM_CTS else 0)"
  "modem_status st msr v AND TIOCM_DTR = (if ucast msr AND TIOCM_DTR \<noteq> 0 then TIOCM_DTR else 0)"
  "modem_status st msr v AND TIOCM_RTS = (if ucast msr AND TIOCM_RTS \<noteq> 0 then TIOCM_RTS else 0)"
  by (simp_all add: modem_status_def put_flag_def Let_def bitfield)

lemma modem_status_lines: "modem_status st msr v AND modem_lines = modem_status st msr 0 AND modem_lines"
  unfolding bit.conj_disj_distrib modem_status_bits ..

lemma modem_status_out: "modem_status st msr v AND out_lines = modem_status st' msr v' AND out_lines"
  unfolding bit.conj_disj_distrib modem_status_bits ..

definition shadow :: "u32 \<Rightarrow> u8 \<Rightarrow> u8" where
  "shadow v msr = ucast (put_flag (v AND TIOCM_RTS \<noteq> 0) TIOCM_RTS
     (ucast (ucast (put_flag (v AND TIOCM_DTR \<noteq> 0) TIOCM_DTR (ucast msr)) :: u8)))"

lemma and_bit: "x AND TIOCM_DTR \<noteq> 0 \<longleftrightarrow> bit x 1" "x AND TIOCM_RTS \<noteq> 0 \<longleftrightarrow> bit x 2" for x :: u32
  using and_exp_eq_0_iff_not_bit [of x 1] and_exp_eq_0_iff_not_bit [of x 2] by simp_all

lemma shadow_bits: "bit (ucast (shadow v msr) :: u32) 1 = bit v 1" "bit (ucast (shadow v msr) :: u32) 2 = bit v 2"
  by (simp_all add: shadow_def put_flag_def and_bit bit_simps)

lemma shadow_lines: "modem_status st (shadow v msr) u AND out_lines = v AND out_lines"
proof -
  have "v AND TIOCM_DTR = (if bit v 1 then TIOCM_DTR else 0)" "v AND TIOCM_RTS = (if bit v 2 then TIOCM_RTS else 0)"
    using single_bit_cases [of v 1] single_bit_cases [of v 2] and_bit [of v] by auto
  then show ?thesis
    unfolding bit.conj_disj_distrib modem_status_bits and_bit shadow_bits by simp
qed

definition has_MSR :: "'k winsys \<Rightarrow> fd \<Rightarrow> u8 \<Rightarrow> bool" where
  "has_MSR s fd msr \<longleftrightarrow> (\<exists>as p. tl_inv s as \<and> ports s as fd = Some p \<and> tl_MSR p = msr)"

lemma has_MSR_unique: "has_MSR s fd m \<Longrightarrow> has_MSR s fd m' \<Longrightarrow> m = m'"
proof -
  assume "has_MSR s fd m" "has_MSR s fd m'"
  then obtain as p bs q where pq: "tl_inv s as" "ports s as fd = Some p" "tl_MSR p = m" "tl_inv s bs" "ports s bs fd = Some q" "tl_MSR q = m'"
    by (auto simp: has_MSR_def)
  let ?n = "max (length as) (length bs)"
  obtain a c where "find_port ?n fd s = Done (Some a, s)" "tl_heap s a = Some c" "val c = p"
    by (rule find_port_found [OF pq(1) max.cobounded1 pq(2)])
  moreover obtain b d where "find_port ?n fd s = Done (Some b, s)" "tl_heap s b = Some d" "val d = q"
    by (rule find_port_found [OF pq(4) max.cobounded2 pq(5)])
  ultimately show "m = m'" using pq(3,6) by simp
qed

context win32_api
begin

lemma live_state:
  assumes "win_live A is_open fuel fd w"
  obtains s as p d tm where "w = Done s" and "tl_inv s as" and "length as \<le> fuel" and "ports s as fd = Some p"
    and "is_open (tl_hComm p) (kern s)" and "GetCommState_op A (tl_hComm p) (kern s) = Some d" and "XonChar d \<noteq> XoffChar d \<and> EofChar d = 0"
    and "GetCommTimeouts_op A (tl_hComm p) (kern s) = Some tm"
  using assms comm_timeouts unfolding win_live_def by metis

lemma tcgetattr_open:
  assumes "tl_inv s as" and "length as \<le> fuel" and "ports s as fd = Some p"
    and "GetCommState_op A (tl_hComm p) (kern s) = Some d" and "GetCommTimeouts_op A (tl_hComm p) (kern s) = Some tm"
  shows "tcgetattr A fuel fd t0 s = Done ((0, overlay d tm (tl_ttyset p)), s)"
proof -
  have "\<not> fd \<le> 0" using ports_pos [OF assms(1,3)] by simp
  then show ?thesis
    unfolding tcgetattr_def if_not_P [OF \<open>\<not> fd \<le> 0\<close>]
    by (intro on_port_same [OF assms(1-3)]) (simp add: assms(4,5))
qed

lemma win_attr_open:
  assumes "tl_inv s as" and "length as \<le> fuel" and "ports s as fd = Some p"
    and "GetCommState_op A (tl_hComm p) (kern s) = Some d" and "GetCommTimeouts_op A (tl_hComm p) (kern s) = Some tm"
  shows "win_attr A fuel fd (Done s) = overlay d tm (tl_ttyset p)"
  by (simp add: win_attr_def lift_run_def tcgetattr_open [OF assms])

lemma tcsetattr_open:
  assumes inv: "tl_inv s as" and len: "length as \<le> fuel" and p: "ports s as fd = Some p" and op: "is_open (tl_hComm p) (kern s)"
    and t: "representable Win32 t"
  shows "\<exists>t' s'. tcsetattr A fuel fd t s = Done ((0, t'), s') \<and> win_live A is_open fuel fd (Done s')
    \<and> line_same (win_attr A fuel fd (Done s')) t"
proof -
  obtain d tm where d: "GetCommState_op A (tl_hComm p) (kern s) = Some d" "GetCommTimeouts_op A (tl_hComm p) (kern s) = Some tm"
    using comm_state [OF op] comm_timeouts [OF op] by blast
  obtain t' d' where td: "termios_to_DCB t (d\<lparr>fParity := True\<rparr>) = (0, t', d')" by (simp add: termios_to_DCB_def Let_def)
  have chars: "c_cc t' = c_cc t" using termios_to_DCB_termios(3) [of t "d\<lparr>fParity := True\<rparr>"] td by simp
  have "legal_dcb (dcb_chars t' d')"
    using termios_to_DCB_legal [of t "d\<lparr>fParity := True\<rparr>"] td t chars
    by (simp add: legal_dcb_def representable_def legal_chars_def dcb_chars_def legal_frame_def)
  moreover have "listed_rate (BaudRate (dcb_chars t' d'))" using termios_to_DCB_rate [OF t, of "d\<lparr>fParity := True\<rparr>"] td by simp
  ultimately obtain k1 where k1: "SetCommState_op A (tl_hComm p) (dcb_chars t' d') (kern s) = (True, k1)" "is_open (tl_hComm p) k1"
      "GetCommState_op A (tl_hComm p) k1 = Some (dcb_chars t' d')"
    using set_comm_state [OF op] by blast
  obtain k2 where k2: "SetCommTimeouts_op A (tl_hComm p) (termios_timeouts t' tm) k1 = (True, k2)" "is_open (tl_hComm p) k2"
      "GetCommTimeouts_op A (tl_hComm p) k2 = Some (termios_timeouts t' tm)" "GetCommState_op A (tl_hComm p) k2 = Some (dcb_chars t' d')"
    using set_comm_timeouts [OF k1(2)] k1(3) by metis
  have raw: "c_lflag t AND ICANON = 0" "c_cflag t AND CIGNORE = 0" using t by (auto simp: representable_def raw_mode_def)
  have pos: "\<not> fd \<le> 0" using ports_pos [OF inv p] by simp
  have "\<exists>s'. tcsetattr A fuel fd t s = Done ((0, t'), s') \<and> tl_inv s' as \<and> ports s' as = (ports s as)(fd \<mapsto> p\<lparr>tl_ttyset := t'\<rparr>)
      \<and> kern s' = kern (s\<lparr>kern := k2\<rparr>)"
    unfolding tcsetattr_def if_not_P [OF pos]
    by (rule on_port_ok [OF inv len p]) (use d td k1(1) k2(1) raw in simp_all)
  then obtain s' where s': "tcsetattr A fuel fd t s = Done ((0, t'), s')" "tl_inv s' as"
      "ports s' as = (ports s as)(fd \<mapsto> p\<lparr>tl_ttyset := t'\<rparr>)" "kern s' = k2" by auto
  have "win_attr A fuel fd (Done s') = overlay (dcb_chars t' d') (termios_timeouts t' tm) t'"
    using win_attr_open [OF s'(2) len, of fd "p\<lparr>tl_ttyset := t'\<rparr>"] s'(3,4) k2(3,4) by simp
  moreover have "line_same (overlay (dcb_chars t' d') (termios_timeouts t' tm) t') t"
    using overlay_same [OF t, of t' "d\<lparr>fParity := True\<rparr>" tm] td by simp
  moreover have "win_live A is_open fuel fd (Done s')"
    using s' len k2 t chars unfolding win_live_def
    by (intro exI [of _ s'] exI [of _ as] exI [of _ "p\<lparr>tl_ttyset := t'\<rparr>"] exI [of _ "dcb_chars t' d'"])
      (simp add: representable_def legal_chars_def dcb_chars_def)
  ultimately show ?thesis using s'(1) by auto
qed

lemma ClearErrors_open:
  assumes "is_open (tl_hComm p) (kern s)"
  shows "\<exists>st si k'. ClearErrors A p s = (Some st, p\<lparr>tl_sis := si\<rparr>, s\<lparr>kern := k'\<rparr>) \<and> is_open (tl_hComm p) k'
    \<and> same_settings A (tl_hComm p) (kern s) k'"
  using clear_comm_error [OF assms] by (auto simp: ClearErrors_def)

lemma live_after:
  assumes inv: "tl_inv s' as" and len: "length as \<le> fuel" and p': "ports s' as = (ports s as)(fd \<mapsto> p')"
    and op: "is_open (tl_hComm p) (kern s')" and same: "same_settings A (tl_hComm p) (kern s) (kern s')"
    and d: "GetCommState_op A (tl_hComm p) (kern s) = Some d" "XonChar d \<noteq> XoffChar d \<and> EofChar d = 0"
    and tm: "GetCommTimeouts_op A (tl_hComm p) (kern s) = Some tm"
    and p: "tl_hComm p' = tl_hComm p" "tl_ttyset p' = tl_ttyset p"
    and old: "tl_inv s as" "ports s as fd = Some p"
  shows "win_live A is_open fuel fd (Done s') \<and> win_attr A fuel fd (Done s') = win_attr A fuel fd (Done s)"
proof -
  have d': "GetCommState_op A (tl_hComm p') (kern s') = Some d" and tm': "GetCommTimeouts_op A (tl_hComm p') (kern s') = Some tm"
    and at: "ports s' as fd = Some p'"
    using d(1) tm same p(1) p' by (simp_all add: same_settings_def)
  have "win_live A is_open fuel fd (Done s')"
    unfolding win_live_def using inv len at op d' d(2) p(1) by (intro exI [of _ s'] exI [of _ as] exI [of _ p'] exI [of _ d]) simp
  then show ?thesis
    using win_attr_open [OF inv len at d' tm'] win_attr_open [OF old(1) len old(2) d(1) tm] p(2) by simp
qed

lemma modem_get_open:
  assumes live: "win_live A is_open fuel fd (Done s)"
  shows "\<exists>st msr s'. (\<forall>v. ioctl A fuel fd (TIOCMGET v) s = Done ((0, TIOCMGET (modem_status st msr v)), s'))
    \<and> win_live A is_open fuel fd (Done s') \<and> win_attr A fuel fd (Done s') = win_attr A fuel fd (Done s)
    \<and> has_MSR s fd msr \<and> has_MSR s' fd msr"
proof -
  obtain as p d tm where s: "tl_inv s as" "length as \<le> fuel" "ports s as fd = Some p" "is_open (tl_hComm p) (kern s)"
      "GetCommState_op A (tl_hComm p) (kern s) = Some d" "XonChar d \<noteq> XoffChar d \<and> EofChar d = 0" "GetCommTimeouts_op A (tl_hComm p) (kern s) = Some tm"
    using live_state [OF live] by (metis run.inject)
  obtain st0 si k' where ce: "ClearErrors A p s = (Some st0, p\<lparr>tl_sis := si\<rparr>, s\<lparr>kern := k'\<rparr>)" "is_open (tl_hComm p) k'"
      "same_settings A (tl_hComm p) (kern s) k'"
    using ClearErrors_open [OF s(4)] by blast
  define st where "st = (case GetCommModemStatus_op A (tl_hComm p) k' of None \<Rightarrow> 0 | Some st \<Rightarrow> st)"
  obtain a c where a: "find_port fuel fd s = Done (Some a, s)" "a \<in> set as" "tl_heap s a = Some c" "val c = p"
    using find_port_found [OF s(1-3)] .
  define s' where "s' = s\<lparr>kern := k', tl_heap := (tl_heap s)(a \<mapsto> c\<lparr>val := p\<lparr>tl_sis := si\<rparr>\<rparr>)\<rparr>"
  have run: "ioctl A fuel fd (TIOCMGET v) s = Done ((0, TIOCMGET (modem_status st (tl_MSR p) v)), s')" for v
    using ports_pos [OF s(1,3)] a ce(1) by (simp add: ioctl_def on_port_def ioctl_body_def Let_def set_val_def s'_def st_def)
  have "tl_inv s' as \<and> ports s' as = (ports s as)(fd \<mapsto> p\<lparr>tl_sis := si\<rparr>)"
    using tl_inv_set_val [OF s(1) a(2,3), of "p\<lparr>tl_sis := si\<rparr>" s'] a(4) ports_pos [OF s(1,3)] by (simp add: s'_def)
  moreover from this have "win_live A is_open fuel fd (Done s') \<and> win_attr A fuel fd (Done s') = win_attr A fuel fd (Done s)"
    using live_after [of s' as fuel s fd "p\<lparr>tl_sis := si\<rparr>" p d tm] s ce(2,3) by (simp add: s'_def)
  ultimately show ?thesis
    using run s(1,3) by (intro exI [of _ st] exI [of _ "tl_MSR p"] exI [of _ s']) (force simp: has_MSR_def)
qed

lemma modem_set_open:
  assumes live: "win_live A is_open fuel fd (Done s)"
  shows "\<exists>s'. ioctl A fuel fd (TIOCMSET v) s = Done ((0, TIOCMSET v), s') \<and> win_live A is_open fuel fd (Done s')
    \<and> win_attr A fuel fd (Done s') = win_attr A fuel fd (Done s)
    \<and> (\<exists>msr. has_MSR s' fd (shadow v msr))"
proof -
  obtain as p d tm where s: "tl_inv s as" "length as \<le> fuel" "ports s as fd = Some p" "is_open (tl_hComm p) (kern s)"
      "GetCommState_op A (tl_hComm p) (kern s) = Some d" "XonChar d \<noteq> XoffChar d \<and> EofChar d = 0" "GetCommTimeouts_op A (tl_hComm p) (kern s) = Some tm"
    using live_state [OF live] by (metis run.inject)
  obtain st0 si k1 where ce: "ClearErrors A p s = (Some st0, p\<lparr>tl_sis := si\<rparr>, s\<lparr>kern := k1\<rparr>)" "is_open (tl_hComm p) k1"
      "same_settings A (tl_hComm p) (kern s) k1"
    using ClearErrors_open [OF s(4)] by blast
  obtain b2 k2 where k2: "EscapeCommFunction_op A (tl_hComm p) (if v AND TIOCM_DTR \<noteq> 0 then SETDTR else CLRDTR) k1 = (b2, k2)"
      "is_open (tl_hComm p) k2" "same_settings A (tl_hComm p) k1 k2"
    using escape_comm [OF ce(2)] by blast
  obtain b3 k3 where k3: "EscapeCommFunction_op A (tl_hComm p) (if v AND TIOCM_RTS \<noteq> 0 then SETRTS else CLRRTS) k2 = (b3, k3)"
      "is_open (tl_hComm p) k3" "same_settings A (tl_hComm p) k2 k3"
    using escape_comm [OF k2(2)] by blast
  let ?p = "p\<lparr>tl_sis := si, tl_MSR := shadow v (tl_MSR p)\<rparr>"
  have body: "ioctl_body A (TIOCMSET v) p s = Done ((0, TIOCMSET v), ?p, s\<lparr>kern := k3\<rparr>)"
    using ce(1) k2(1) k3(1) by (simp add: ioctl_body_def modem_set_def Let_def shadow_def)
  have pos: "\<not> fd \<le> 0" using ports_pos [OF s(1,3)] by simp
  have "\<exists>s'. ioctl A fuel fd (TIOCMSET v) s = Done ((0, TIOCMSET v), s') \<and> tl_inv s' as \<and> ports s' as = (ports s as)(fd \<mapsto> ?p)
      \<and> kern s' = kern (s\<lparr>kern := k3\<rparr>)"
    unfolding ioctl_def if_not_P [OF pos] by (rule on_port_ok [OF s(1-3), where f = "ioctl_body A (TIOCMSET v)", OF body]) simp_all
  then obtain s' where s': "ioctl A fuel fd (TIOCMSET v) s = Done ((0, TIOCMSET v), s')" "tl_inv s' as"
      "ports s' as = (ports s as)(fd \<mapsto> ?p)" "kern s' = k3" by auto
  have "win_live A is_open fuel fd (Done s') \<and> win_attr A fuel fd (Done s') = win_attr A fuel fd (Done s)"
    using live_after [OF s'(2) s(2) s'(3), of p d tm] s ce(3) k2(3) k3(2,3) s'(4) by (simp add: same_settings_def)
  moreover have "has_MSR s' fd (shadow v (tl_MSR p))" using s'(2,3) by (force simp: has_MSR_def)
  ultimately show ?thesis using s'(1) by blast
qed

lemma win_lines_open:
  assumes "win_live A is_open fuel fd (Done s)"
  shows "\<exists>st msr. has_MSR s fd msr \<and> win_lines A fuel fd (Done s) = modem_status st msr 0"
  using modem_get_open [OF assms] by (force simp: win_lines_def with_value_def lift_run_def out_word_def)

lemma win_lines_out:
  assumes "win_live A is_open fuel fd (Done s)" and "has_MSR s fd msr"
  shows "win_lines A fuel fd (Done s) AND out_lines = modem_status 0 msr 0 AND out_lines"
  using win_lines_open [OF assms(1)] has_MSR_unique [OF assms(2)] modem_status_out by metis

text \<open>The two halves of the contract.\<close>

lemma win_tty_driver:
  "tty_driver (win_posix A fuel rounds stat0 strerror pid) Win32 (win_live A is_open fuel) (win_attr A fuel)"
proof unfold_locales
  fix fd w and t0 t :: termios
  assume live: "win_live A is_open fuel fd w"
  then obtain s as p d tm where s: "w = Done s" "tl_inv s as" "length as \<le> fuel" "ports s as fd = Some p"
      "is_open (tl_hComm p) (kern s)" "GetCommState_op A (tl_hComm p) (kern s) = Some d" "XonChar d \<noteq> XoffChar d \<and> EofChar d = 0"
      "GetCommTimeouts_op A (tl_hComm p) (kern s) = Some tm"
    by (rule live_state)
  show "0 < fd" using ports_pos [OF s(2,4)] by simp
  show "legal_chars Win32 (win_attr A fuel fd w)"
    using win_attr_open [OF s(2-4,6,8)] s(1,7) by (simp add: legal_chars_def overlay_chars)
  show "tcgetattr_op (win_posix A fuel rounds stat0 strerror pid) fd t0 w = ((0, win_attr A fuel fd w), w)"
    using win_attr_open [OF s(2-4,6,8)] s(1) by (simp add: win_posix_def lift_run_def tcgetattr_open [OF s(2-4,6,8)])
  assume "representable Win32 t"
  from tcsetattr_open [OF s(2-5) this]
  show "\<exists>w'. tcsetattr_op (win_posix A fuel rounds stat0 strerror pid) fd t w = (0, w') \<and> win_live A is_open fuel fd w'
      \<and> line_same (win_attr A fuel fd w') t"
    using s(1) by (auto simp: win_posix_def lift_run_def)
next
  fix b t
  assume "listed_speed Win32 b"
  then show "\<exists>r t'. cfsetispeed_op (win_posix A fuel rounds stat0 strerror pid) t (uint b) = (r, t') \<and> 0 \<le> r \<and> speed_set Win32 b t t'"
    and "\<exists>r t'. cfsetospeed_op (win_posix A fuel rounds stat0 strerror pid) t (uint b) = (r, t') \<and> 0 \<le> r \<and> speed_set Win32 b t t'"
    by (simp_all add: win_posix_def cfsetispeed_def cfset_listed speed_set_def)
qed

lemma win_modem_driver:
  "modem_driver (win_posix A fuel rounds stat0 strerror pid) Win32 (win_live A is_open fuel) (win_attr A fuel) (win_lines A fuel)"
proof (intro modem_driver.intro win_tty_driver modem_driver_axioms.intro)
  fix fd w v
  assume live: "win_live A is_open fuel fd w"
  then obtain s where s: "w = Done s" by (rule live_state)
  note live = live [unfolded s]
  obtain st msr s' where g: "\<forall>v. ioctl A fuel fd (TIOCMGET v) s = Done ((0, TIOCMGET (modem_status st msr v)), s')"
      "win_live A is_open fuel fd (Done s')" "win_attr A fuel fd (Done s') = win_attr A fuel fd (Done s)"
      "has_MSR s fd msr" "has_MSR s' fd msr"
    using modem_get_open [OF live] by blast
  have lines: "win_lines A fuel fd (Done s) = modem_status st msr 0"
    using g(1) by (simp add: win_lines_def with_value_def lift_run_def out_word_def)
  show "\<exists>u w'. tiocmget_op (win_posix A fuel rounds stat0 strerror pid) fd v w = ((0, u), w')
      \<and> u AND modem_lines = win_lines A fuel fd w AND modem_lines \<and> win_live A is_open fuel fd w'
      \<and> win_lines A fuel fd w' AND out_lines = win_lines A fuel fd w AND out_lines \<and> win_attr A fuel fd w' = win_attr A fuel fd w"
  proof (intro exI conjI)
    show "tiocmget_op (win_posix A fuel rounds stat0 strerror pid) fd v w = ((0, modem_status st msr v), Done s')"
      using g(1) by (simp add: win_posix_def with_value_def lift_run_def out_word_def s)
    show "modem_status st msr v AND modem_lines = win_lines A fuel fd w AND modem_lines"
      unfolding s lines by (rule modem_status_lines)
    show "win_lines A fuel fd (Done s') AND out_lines = win_lines A fuel fd w AND out_lines"
      unfolding s using win_lines_out [OF g(2,5)] win_lines_out [OF live g(4)] by (rule trans [OF _ sym])
  qed (simp_all add: g(2,3) s)
  obtain s2 msr2 where m: "ioctl A fuel fd (TIOCMSET v) s = Done ((0, TIOCMSET v), s2)" "win_live A is_open fuel fd (Done s2)"
      "win_attr A fuel fd (Done s2) = win_attr A fuel fd (Done s)" "has_MSR s2 fd (shadow v msr2)"
    using modem_set_open [OF live] by blast
  then show "\<exists>w'. tiocmset_op (win_posix A fuel rounds stat0 strerror pid) fd v w = (0, w') \<and> win_live A is_open fuel fd w'
      \<and> win_lines A fuel fd w' AND out_lines = v AND out_lines \<and> win_attr A fuel fd w' = win_attr A fuel fd w"
    using win_lines_out [OF m(2,4)] shadow_lines by (intro exI [of _ "Done s2"]) (simp add: win_posix_def lift_run_def s)
qed

end

locale win32_port = win32_api A is_open
  for A :: "'k winapi" and is_open :: "handle \<Rightarrow> 'k \<Rightarrow> bool" +
  fixes fuel :: nat and rounds :: nat and stat0 :: COMSTAT and strerror :: "errno \<Rightarrow> string" and pid :: int

sublocale win32_port \<subseteq> modem_driver "win_posix A fuel rounds stat0 strerror pid" Win32 "win_live A is_open fuel" "win_attr A fuel" "win_lines A fuel"
  by (rule win_modem_driver)

abbreviation (input) stat0 :: COMSTAT where "stat0 \<equiv> \<lparr>cbInQue = 0, cbOutQue = 0\<rparr>"

interpretation rp: win32_port refwin ref_open 9 9 stat0 "\<lambda>e. ''error''" 4711
  by unfold_locales

section \<open>Properties\<close>

text \<open>C5. On Windows the library's own terminal layer keeps the contract of a terminal driver with modem lines,
  from what the documentation of the communication API promises. For a port of a well-formed table whose device
  is open, with distinct start and stop characters and no end of input character (\<open>EofChar\<close> 0), \<open>tcgetattr\<close>
  reports the settings; \<open>tcsetattr\<close> accepts every raw-mode setting with a listed speed other than B0, a parity
  Java knows, distinct start and stop characters and no end of input character (with one, the device control
  block is not binary, which Windows does not support), and the settings come back as far as the library looks
  at them; the \<open>cf\<close> functions store listed speeds; and the modem lines read back as they were driven.
\<close>

theorem win_implements_driver:
  assumes "win32_api A is_open"
  shows "modem_driver (win_posix A fuel rounds stat strerror pid) Win32 (win_live A is_open fuel) (win_attr A fuel) (win_lines A fuel)"
  using win32_api.win_modem_driver [OF assms] .

definition refport :: termios_list where
  "refport = (new_port ''COM1'' 1)\<lparr>tl_hComm := Handle 1, tl_ttyset := init_termios\<rparr>"

definition refsys1 :: "refkern winsys" where
  "refsys1 = refsys0\<lparr>first_tl := Some 7, tl_heap := [7 \<mapsto> \<lparr>val = refport, nxt = None, prv = None\<rparr>],
     kern := (kern refsys0)\<lparr>rk_next := 8, rk_devs := [1 \<mapsto> refcom0]\<rparr>\<rparr>"

definition winport :: jport where
  "winport = \<lparr>j_fd = 1, j_pid = 0, j_timeout = 0, j_speed = 0, j_dataBits = 0, j_stopBits = 0, j_parity = 0\<rparr>"

abbreviation (input) refwinposix :: "refkern winsys run posix" where
  "refwinposix \<equiv> win_posix refwin 9 9 stat0 (\<lambda>e. ''error'') 4711"

lemma refsys1_table: "tl_inv refsys1 [7]" "ports refsys1 [7] = [1 \<mapsto> refport]"
  by (simp_all add: tl_inv_def dlist_def ports_def contents_def refsys1_def refport_def)

lemma refsys1_live: "win_live refwin ref_open 9 (j_fd winport) (Done refsys1)"
  unfolding win_live_def
  by (intro exI [of _ refsys1] exI [of _ "[7]"] exI [of _ refport] exI [of _ "rc_dcb refcom0"])
    (simp add: refsys1_table winport_def, simp add: ref_open_def refport_def refsys1_def rk_dev_def refwin_def refcom0_def)

theorem win_implements_driver_witness:
  "win_live refwin ref_open 9 (j_fd winport) (Done refsys1)
   \<and> (\<exists>w. tcsetattr_op refwinposix (j_fd winport) (zero_termios\<lparr>c_cflag := B9600 OR CS8, c_ispeed := B9600, c_cc := (\<lambda>i. 0)(VSTART := 1)\<rparr>) (Done refsys1) = (0, w))"
proof -
  have "representable Win32 (zero_termios\<lparr>c_cflag := B9600 OR CS8, c_ispeed := B9600, c_cc := (\<lambda>i. 0)(VSTART := 1)\<rparr>)"
    by (simp add: representable_def raw_mode_def legal_chars_def zero_termios_def CBAUD_def listed_speed_def speed_cases_def java_parity_def)
  then show ?thesis
    using tty_driver.set_attr [OF modem_driver.axioms(1) [OF win_implements_driver [OF rw.win32_api_axioms, of 9 9 stat0 "\<lambda>e. ''error''" 4711]] refsys1_live]
      refsys1_live by blast
qed

text \<open>C15. The line parameters on Windows, end to end, for an open port in raw mode with distinct start and stop
  characters and no end of input character: from \<open>nativeSetSerialPortParams\<close> through the emulation of
  \<open>tcsetattr\<close>, the device control block and back through \<open>tcgetattr\<close> to the fields of the Java object, a
  listed speed other than 0 with valid data bits, stop bits and parity is accepted, and the fields say what was
  set, except that 1.5 stop bits (code 3) are reported with five data bits whatever was asked for, and two stop
  bits with five data bits are reported as 1.5. The API is taken to behave as documented; in particular it
  accepts only device control blocks with \<open>fBinary\<close> set.
\<close>

theorem win_params_roundtrip:
  assumes "win32_api A is_open" and "win_live A is_open fuel (j_fd jp) w" and "raw_mode (win_attr A fuel (j_fd jp) w)"
    and "(speed, b) \<in> set (speed_cases Win32)" and "b \<noteq> B0"
    and "d \<in> {5, 6, 7, 8}" and "sb \<in> {1, 2, 3}" and "q \<in> {0, 1, 2, 3, 4}"
  shows "\<exists>w'. nativeSetSerialPortParams (win_posix A fuel rounds st strerror pid) Win32 t0 ss0 jp speed d sb q w = Some (False, w')
    \<and> win_live A is_open fuel (j_fd jp) w'
    \<and> set_java_vars (win_posix A fuel rounds st strerror pid) Win32 t1 (j_fd jp) jp w' =
      (jp\<lparr>j_speed := speed, j_dataBits := if sb = 3 then 5 else d,
          j_stopBits := if sb = 3 then 3 else if sb = 2 \<and> d = 5 then 3 else sb, j_parity := q\<rparr>, w')"
  using tty_driver.set_params_reported [OF win32_api.win_tty_driver [OF assms(1), of fuel rounds st strerror pid] assms(2-5) _ assms(6-8), of t0 ss0 t1]
  by (metis platform.distinct(1))

lemma refsys1_raw: "raw_mode (win_attr refwin 9 (j_fd winport) (Done refsys1))"
proof -
  have "win_attr refwin 9 1 (Done refsys1) = overlay (rc_dcb refcom0) (rc_timeouts refcom0) (tl_ttyset refport)"
    by (rule rw.win_attr_open [OF refsys1_table(1)])
      (simp_all add: refsys1_table(2), simp_all add: refport_def refsys1_def rk_dev_def refwin_def)
  then show ?thesis
    by (simp add: raw_mode_def winport_def overlay_def DCB_to_termios_def Let_def refport_def init_termios_sel dcb_cflag_def
      refcom0_def CBR_to_B_def cbr_cases_def parity_flags_def put_flag_def bytesize_to_termios_def CBAUD_def)
qed

theorem win_params_roundtrip_witness:
  "\<exists>w'. nativeSetSerialPortParams refwinposix Win32 zero_termios \<lparr>custom_divisor = 0, baud_base = 0\<rparr> winport 115200 7 2 2 (Done refsys1)
      = Some (False, w')
    \<and> set_java_vars refwinposix Win32 zero_termios (j_fd winport) winport w'
      = (winport\<lparr>j_speed := 115200, j_dataBits := 7, j_stopBits := 2, j_parity := 2\<rparr>, w')"
  using win_params_roundtrip [OF rw.win32_api_axioms refsys1_live refsys1_raw, of 115200 "0x1002" 7 2 2 9 stat0 "\<lambda>e. ''error''" 4711
      zero_termios "\<lparr>custom_divisor = 0, baud_base = 0\<rparr>" zero_termios]
  by (auto simp: speed_cases_def)

text \<open>C25. Whatever flags the library puts into a \<open>termios\<close> structure, the device control block \<open>tcsetattr\<close>
  makes of it is one whose frame Windows accepts: 5 to 8 data bits, one of the five parities, one, one and a
  half or two stop bits, never two with five data bits and never one and a half with more.
\<close>

theorem dcb_frame_typed:
  "let (r, t', d') = termios_to_DCB t d in
     r = 0 \<and> ByteSize (dcb_chars t' d') \<in> {5, 6, 7, 8} \<and> Parity (dcb_chars t' d') \<in> {0, 1, 2, 3, 4}
     \<and> StopBits (dcb_chars t' d') \<in> {0, 1, 2}
     \<and> (if ByteSize (dcb_chars t' d') = 5 then StopBits (dcb_chars t' d') \<noteq> 2 else StopBits (dcb_chars t' d') \<noteq> 1)"
proof -
  obtain r t' d' where td: "termios_to_DCB t d = (r, t', d')" by (cases "termios_to_DCB t d") auto
  moreover have "r = 0" using td by (simp add: termios_to_DCB_def Let_def)
  moreover have "legal_frame (dcb_chars t' d')" using termios_to_DCB_legal [of t d] td by simp
  ultimately show ?thesis by (simp add: legal_frame_def)
qed

text \<open>The rate tables of the Windows layer are those of the line parameters: a rate that \<open>translate_speed\<close>
  turns into a constant is the number \<open>B_to_CBR\<close> hands to Windows for that constant, and \<open>CBR_to_B\<close> turns
  the number back into it.
\<close>

theorem win_rates_agree:
  assumes "(rate, b) \<in> set (speed_cases Win32)"
  shows "B_to_CBR (word_of_int (translate_speed Win32 rate)) = word_of_int rate
    \<and> uint (CBR_to_B (word_of_int rate)) = translate_speed Win32 rate"
proof -
  have "(b, word_of_int rate) \<in> set b_cases" using assms unfolding speed_cases_b [symmetric] by force
  then show ?thesis using cbr_inverse translate_listed [OF assms] by simp
qed

theorem win_rates_agree_witness:
  "B_to_CBR (word_of_int (translate_speed Win32 115200)) = 115200 \<and> uint (CBR_to_B 115200) = translate_speed Win32 115200"
  using win_rates_agree [of 115200 "0x1002"] by (simp add: speed_cases_def)

text \<open>The default settings never reach the device: \<open>init_termios\<close> leaves the start and stop characters
  equal, and \<open>SetCommState\<close> is documented to refuse a block whose \<open>XonChar\<close> equals its \<open>XoffChar\<close>. The
  \<open>tcsetattr\<close> by which \<open>serial_open\<close> sets the defaults then returns -1 (which \<open>serial_open\<close> ignores), and
  the settings, the timeouts and the port's structure stay as they were.
\<close>

theorem win_defaults_refused:
  assumes "tl_inv s as" and "length as \<le> fuel" and "ports s as fd = Some p"
    and "GetCommState_op A (tl_hComm p) (kern s) = Some d" and "GetCommTimeouts_op A (tl_hComm p) (kern s) = Some tm"
    and refuse: "\<And>b. XonChar b = XoffChar b \<Longrightarrow> SetCommState_op A (tl_hComm p) b (kern s) = (False, kern s)"
  shows "\<exists>t'. tcsetattr A fuel fd init_termios s = Done ((-1, t'), s)"
proof -
  obtain t' d' where td: "termios_to_DCB init_termios (d\<lparr>fParity := True\<rparr>) = (0, t', d')" by (simp add: termios_to_DCB_def Let_def)
  then have "c_cc t' = c_cc init_termios" using termios_to_DCB_termios(3) [of init_termios "d\<lparr>fParity := True\<rparr>"] by simp
  then have no: "SetCommState_op A (tl_hComm p) (dcb_chars t' d') (kern s) = (False, kern s)"
    by (intro refuse) (simp add: dcb_chars_def init_termios_sel)
  have pos: "\<not> fd \<le> 0" using ports_pos [OF assms(1,3)] by simp
  have "tcsetattr A fuel fd init_termios s = Done ((-1, t'), s)"
    unfolding tcsetattr_def if_not_P [OF pos]
    by (rule on_port_same [OF assms(1-3)]) (simp add: assms(4,5) td no init_termios_sel Let_def)
  then show ?thesis ..
qed

theorem win_defaults_refused_witness: "\<exists>t'. tcsetattr refwin 9 1 init_termios refsys1 = Done ((-1, t'), refsys1)"
proof (rule win_defaults_refused [OF refsys1_table(1), of 9 1 refport refwin "rc_dcb refcom0" "rc_timeouts refcom0"])
  show "SetCommState_op refwin (tl_hComm refport) b (kern refsys1) = (False, kern refsys1)" if "XonChar b = XoffChar b" for b
    using that by (simp add: refwin_def rk_with_def legal_dcb_def split: option.splits)
qed (simp_all add: refsys1_table(2), simp_all add: refport_def refsys1_def rk_dev_def refwin_def)

text \<open>Nor does an end of input character: \<open>tcsetattr\<close> clears \<open>fBinary\<close> for it, which Windows does not support. Where
  \<open>SetCommState\<close> refuses such a block, the settings stay as they were.
\<close>

theorem win_end_of_input_refused:
  assumes "tl_inv s as" and "length as \<le> fuel" and "ports s as fd = Some p"
    and "GetCommState_op A (tl_hComm p) (kern s) = Some d" and "GetCommTimeouts_op A (tl_hComm p) (kern s) = Some tm"
    and "raw_mode t" and "c_cc t VEOF \<noteq> 0"
    and refuse: "\<And>b. \<not> fBinary b \<Longrightarrow> SetCommState_op A (tl_hComm p) b (kern s) = (False, kern s)"
  shows "\<exists>t'. tcsetattr A fuel fd t s = Done ((-1, t'), s)"
proof -
  obtain t' d' where td: "termios_to_DCB t (d\<lparr>fParity := True\<rparr>) = (0, t', d')" by (simp add: termios_to_DCB_def Let_def)
  then have "c_cc t' = c_cc t" using termios_to_DCB_termios(3) [of t "d\<lparr>fParity := True\<rparr>"] by simp
  then have no: "SetCommState_op A (tl_hComm p) (dcb_chars t' d') (kern s) = (False, kern s)"
    using assms(7) by (intro refuse) (simp add: dcb_chars_def)
  have pos: "\<not> fd \<le> 0" using ports_pos [OF assms(1,3)] by simp
  have "tcsetattr A fuel fd t s = Done ((-1, t'), s)"
    unfolding tcsetattr_def if_not_P [OF pos]
    by (rule on_port_same [OF assms(1-3)]) (use assms(6) in \<open>simp add: assms(4,5) td no Let_def raw_mode_def\<close>)
  then show ?thesis ..
qed

theorem win_end_of_input_refused_witness:
  "\<exists>t'. tcsetattr refwin 9 1 (zero_termios\<lparr>c_cc := (\<lambda>i. 0)(VEOF := 4)\<rparr>) refsys1 = Done ((-1, t'), refsys1)"
proof (rule win_end_of_input_refused [OF refsys1_table(1), of 9 1 refport refwin "rc_dcb refcom0" "rc_timeouts refcom0"])
  show "SetCommState_op refwin (tl_hComm refport) b (kern refsys1) = (False, kern refsys1)" if "\<not> fBinary b" for b
    using that by (simp add: refwin_def rk_with_def legal_dcb_def split: option.splits)
qed (simp_all add: refsys1_table(2), simp_all add: refport_def refsys1_def rk_dev_def refwin_def raw_mode_def zero_termios_def)

lemma select_body_result: "select_body A p s = Done (r, p', s') \<Longrightarrow> r = 0 \<or> r = 1"
  by (auto simp: select_body_def select_wait_def Let_def split: prod.splits if_splits wait.splits)

text \<open>\<open>serial_select\<close> cannot report an error: whatever fails, its result is 0 (nothing yet) or 1 (an event),
  although its comment promises -1 on error; a descriptor that is not positive and a failing
  \<open>ClearCommError\<close> count as an event.
\<close>

theorem select_never_fails:
  assumes "serial_select A fuel fd s = Done (r, s')"
  shows "r = 0 \<or> r = 1"
  using assms select_body_result
  by (fastforce simp: serial_select_def on_port_def bind_Done split: if_splits option.splits)

theorem select_never_fails_witness:
  "\<exists>s'. serial_select refwin 9 (-1) refsys1 = Done (1, s') \<and> (1 = (0 :: int) \<or> 1 = (1 :: int))"
  using select_never_fails [of refwin 9 "-1" refsys1 1] by (simp add: serial_select_def)

end
