(* ===== verification/RS485.thy ===== *)
theory RS485
  imports Serial_IO Port_Open
begin

text \<open>
  The RS485 port (\<open>RS485Imp.c\<close>), an older relative of the serial port with code of its own: its parameter
  tables, half-duplex writing that raises DTR for the time of the transmission, reading, the event loop, and
  the remaining native methods, for the Linux build. The I2C and raw ports (\<open>I2CImp.c\<close>, \<open>RawImp.c\<close>) are
  copies of it up to opening, closing and writing, which are modelled at the end.
\<close>

section \<open>Opening and closing\<close>

definition rs_settings :: "termios \<Rightarrow> termios" where
  "rs_settings t = t\<lparr>c_iflag := INPCK, c_lflag := 0, c_oflag := 0, c_cflag := CREAD OR CS8 OR CLOCAL,
     c_cc := (c_cc t)(VMIN := 0, VTIME := 0)\<rparr>"

definition rs_open :: "'w posix \<Rightarrow> nat \<Rightarrow> (string \<Rightarrow> bool) \<Rightarrow> termios \<Rightarrow> string \<Rightarrow> 'w \<Rightarrow> ((int \<times> jexc option) \<times> 'w) run" where
  "rs_open E ef fc t0 filename w =
     (case retry_eintr ef (errno_of E) (open_op E filename RDWR_NOCTTY_NONBLOCK) w of
        None \<Rightarrow> Hang
      | Some (fd, w) \<Rightarrow>
          let fail = (\<lambda>w. Done ((-1, io_error E fc ''open'' w), w)) in
          if fd < 0 then fail w
          else let ((r, t), w) = tcgetattr_op E fd t0 w in
          if r < 0 then fail w
          else let (r, t) = cfsetispeed_op E (rs_settings t) (uint B9600) in
          if r < 0 then fail w
          else let (r, t) = cfsetospeed_op E t (uint B9600) in
          if r < 0 then fail w
          else let (r, w) = tcsetattr_op E fd t w in
          if r < 0 then fail w
          else let (_, w) = fcntl_setown E fd (getpid_of E w) w;
                   (_, w) = fcntl_setfl E fd (FASYNC_of E) w
               in Done ((fd, None), w))"

definition rs_nativeClose :: "'w posix \<Rightarrow> nat \<Rightarrow> jport \<Rightarrow> 'w \<Rightarrow> 'w run" where
  "rs_nativeClose E ef jp w =
     (case retry_eintr ef (errno_of E) (close_op E (j_fd jp)) w of None \<Rightarrow> Hang | Some (_, w) \<Rightarrow> Done w)"

section \<open>Parameters\<close>

abbreviation RS_UNSUPPORTED :: string where "RS_UNSUPPORTED \<equiv> ''gnu/io/UnsupportedCommOperationException''"

definition rs_speed_cases :: "(int \<times> u32) list" where
  "rs_speed_cases =
     [(0, B0), (50, B50), (75, B75), (110, B110), (134, B134), (150, B150), (200, B200), (300, B300), (600, B600),
      (1200, B1200), (1800, B1800), (2400, B2400), (4800, B4800), (9600, B9600), (19200, B19200), (38400, B38400),
      (57600, B57600), (115200, B115200), (230400, B230400), (460800, B460800)]"

definition rs_translate_speed :: "(string \<Rightarrow> bool) \<Rightarrow> int \<Rightarrow> u32 \<times> jexc option" where
  "rs_translate_speed fc speed =
     (case map_of rs_speed_cases speed of
        Some b \<Rightarrow> (b, None)
      | None \<Rightarrow> (0, throw_java_exception fc RS_UNSUPPORTED ''translate_speed'' ''speed''))"

definition rs_translate_data_bits :: "(string \<Rightarrow> bool) \<Rightarrow> u32 \<Rightarrow> int \<Rightarrow> (bool \<times> jexc option) \<times> u32" where
  "rs_translate_data_bits fc cflag dataBits =
     (let temp = cflag AND NOT CSIZE in
      if dataBits = 5 then ((True, None), temp OR CS5) else if dataBits = 6 then ((True, None), temp OR CS6)
      else if dataBits = 7 then ((True, None), temp OR CS7) else if dataBits = 8 then ((True, None), temp OR CS8)
      else ((False, throw_java_exception fc RS_UNSUPPORTED ''translate_data_bits'' ''data bits''), cflag))"

definition rs_translate_stop_bits :: "(string \<Rightarrow> bool) \<Rightarrow> u32 \<Rightarrow> int \<Rightarrow> (bool \<times> jexc option) \<times> u32" where
  "rs_translate_stop_bits fc cflag stopBits =
     (if stopBits = 1 then ((True, None), cflag AND NOT CSTOPB)
      else if stopBits = 2 then ((True, None), cflag OR CSTOPB)
      else ((False, throw_java_exception fc RS_UNSUPPORTED ''translate_stop_bits'' ''stop bits''), cflag))"

definition rs_translate_parity :: "(string \<Rightarrow> bool) \<Rightarrow> u32 \<Rightarrow> int \<Rightarrow> (bool \<times> jexc option) \<times> u32" where
  \<comment> \<open>\<open>CMSPAR\<close> is never cleared\<close>
  "rs_translate_parity fc cflag parity =
     (let c = cflag AND NOT (PARENB OR PARODD) in
      if parity = JPARITY_NONE then ((True, None), c)
      else if parity = JPARITY_EVEN then ((True, None), c OR PARENB)
      else if parity = JPARITY_ODD then ((True, None), c OR (PARENB OR PARODD))
      else if parity = JPARITY_MARK then ((True, None), c OR (PARENB OR PARODD OR CMSPAR))
      else if parity = JPARITY_SPACE then ((True, None), c OR (PARENB OR CMSPAR))
      else ((False, throw_java_exception fc RS_UNSUPPORTED ''translate_parity'' ''parity''), c))"

definition set_line_params :: "string \<Rightarrow> 'w posix \<Rightarrow> (string \<Rightarrow> bool) \<Rightarrow> termios \<Rightarrow> jport \<Rightarrow> int \<Rightarrow> int \<Rightarrow> int \<Rightarrow> int \<Rightarrow> 'w
    \<Rightarrow> jexc option \<times> 'w" where
  \<comment> \<open>\<open>foo\<close> is the name of the calling method, for the message\<close>
  "set_line_params foo E fc t0 jp speed dataBits stopBits parity w =
     (let fail = (\<lambda>w. (throw_java_exception fc RS_UNSUPPORTED foo (strerror_of E (errno_of E w)), w));
          (cspeed, e) = rs_translate_speed fc speed in
      if cspeed = 0 then (e, w)
      else let ((r, t), w) = tcgetattr_op E (j_fd jp) t0 w in
      if r < 0 then fail w
      else let ((ok, e), c) = rs_translate_data_bits fc (c_cflag t) dataBits in
      if \<not> ok then (e, w)
      else let ((ok, e), c) = rs_translate_stop_bits fc c stopBits in
      if \<not> ok then (e, w)
      else let ((ok, e), c) = rs_translate_parity fc c parity in
      if \<not> ok then (e, w)
      else let (r, t) = cfsetispeed_op E (t\<lparr>c_cflag := c\<rparr>) (uint cspeed) in
      if r < 0 then fail w
      else let (r, t) = cfsetospeed_op E t (uint cspeed) in
      if r < 0 then fail w
      else let (r, w) = tcsetattr_op E (j_fd jp) t w in
      if r < 0 then fail w else (None, w))"

definition nativeSetRS485PortParams :: "'w posix \<Rightarrow> (string \<Rightarrow> bool) \<Rightarrow> termios \<Rightarrow> jport \<Rightarrow> int \<Rightarrow> int \<Rightarrow> int \<Rightarrow> int \<Rightarrow> 'w
    \<Rightarrow> jexc option \<times> 'w" where
  "nativeSetRS485PortParams = set_line_params ''nativeSetRS485PortParams''"

section \<open>Writing\<close>

definition rs_dtr :: "'w posix \<Rightarrow> fd \<Rightarrow> bool \<Rightarrow> int \<Rightarrow> 'w \<Rightarrow> 'w" where
  \<comment> \<open>\<open>result\<close> is the variable the status is read into, with what it held before\<close>
  "rs_dtr E fd state result w =
     (let ((_, r), w) = tiocmget_op E fd (word_of_int result) w
      in snd (tiocmset_op E fd (if state then r OR TIOCM_DTR else r AND NOT TIOCM_DTR) w))"

abbreviation (input) TIOCSER_TEMT :: int where "TIOCSER_TEMT \<equiv> 1"

fun lsr_wait :: "'w posix \<Rightarrow> nat \<Rightarrow> fd \<Rightarrow> int \<Rightarrow> 'w \<Rightarrow> 'w run" where
  \<comment> \<open>\<open>do { result = ioctl(fd, TIOCSERGETLSR); .. } while (result != TIOCSER_TEMT)\<close>: the request is made without
    its argument (\<open>junk\<close>), and what is compared is the return value of the call\<close>
  "lsr_wait E 0 fd junk w = Hang"
| "lsr_wait E (Suc n) fd junk w =
     (let ((result, _), w) = tiocsergetlsr_op E fd junk w in
      if result \<noteq> TIOCSER_TEMT then lsr_wait E n fd junk (usleep_op E 100 w) else Done w)"

fun flush_input :: "'w posix \<Rightarrow> nat \<Rightarrow> fd \<Rightarrow> int \<Rightarrow> 'w \<Rightarrow> (int \<times> 'w) run" where
  \<comment> \<open>\<open>do { result = tcflush(fd, TCIFLUSH); } while (result && errno == EINTR && count < 5)\<close>; \<open>count\<close> does not
    change\<close>
  "flush_input E 0 fd count w = Hang"
| "flush_input E (Suc n) fd count w =
     (let (result, w) = tcflush_op E fd TCIFLUSH w in
      if result \<noteq> 0 \<and> errno_of E w = EINTR \<and> count < 5 then flush_input E n fd count w else Done (result, w))"

definition end_transmission :: "'w posix \<Rightarrow> nat \<Rightarrow> (string \<Rightarrow> bool) \<Rightarrow> string \<Rightarrow> int \<Rightarrow> int \<Rightarrow> fd \<Rightarrow> 'w \<Rightarrow> (jexc option \<times> 'w) run" where
  \<comment> \<open>wait for the last bit, lower DTR, throw away what was received meanwhile\<close>
  "end_transmission E n fc foo junk count fd w =
     run_bind (lsr_wait E n fd junk w) (\<lambda>w.
     run_bind (flush_input E n fd count (rs_dtr E fd False TIOCSER_TEMT w)) (\<lambda>(result, w).
     Done (if result \<noteq> 0 then io_error E fc foo w else None, w)))"

definition rs_writeByte :: "'w posix \<Rightarrow> nat \<Rightarrow> nat \<Rightarrow> (string \<Rightarrow> bool) \<Rightarrow> int \<Rightarrow> jport \<Rightarrow> int \<Rightarrow> 'w \<Rightarrow> (jexc option \<times> 'w) run" where
  "rs_writeByte E ef n fc junk jp ji w =
     (case retry_eintr ef (errno_of E) (write_op E (j_fd jp) [word_of_int ji]) (rs_dtr E (j_fd jp) True 0 w) of
        None \<Rightarrow> Hang
      | Some (result, w) \<Rightarrow>
          if result < 0 then Done (io_error E fc ''writeByte'' w, w)
          else end_transmission E n fc ''writeByte'' junk 0 (j_fd jp) w)"

fun rs_write_loop :: "'w posix \<Rightarrow> nat \<Rightarrow> fd \<Rightarrow> u8 list \<Rightarrow> nat \<Rightarrow> 'w \<Rightarrow> (int \<times> 'w) run" where
  \<comment> \<open>\<open>do { .. } while ((total < count) || (result < 0 && errno == EINTR))\<close>\<close>
  "rs_write_loop E 0 fd bytes tot w = Hang"
| "rs_write_loop E (Suc n) fd bytes tot w =
     (let (result, w) = write_op E fd (drop tot bytes) w;
          tot = (if 0 < result then tot + nat result else tot) in
      if tot < length bytes \<or> result < 0 \<and> errno_of E w = EINTR then rs_write_loop E n fd bytes tot w
      else Done (result, w))"

definition rs_writeArray :: "'w posix \<Rightarrow> nat \<Rightarrow> (string \<Rightarrow> bool) \<Rightarrow> int \<Rightarrow> jport \<Rightarrow> u8 list \<Rightarrow> int \<Rightarrow> int \<Rightarrow> 'w
    \<Rightarrow> (jexc option \<times> 'w) run" where
  "rs_writeArray E n fc junk jp body offset count w =
     (if count < 0 then Fault
      else run_bind (slice body offset count) (\<lambda>bytes.
        run_bind (rs_write_loop E n (j_fd jp) bytes 0 (rs_dtr E (j_fd jp) True 0 w)) (\<lambda>(result, w).
        if result < 0 then Done (io_error E fc ''writeArray'' w, w)
        else end_transmission E n fc ''writeArray'' junk count (j_fd jp) w)))"

definition rs_drain :: "'w posix \<Rightarrow> (string \<Rightarrow> bool) \<Rightarrow> jport \<Rightarrow> 'w \<Rightarrow> jexc option \<times> 'w" where
  "rs_drain E fc jp w =
     (let (result, w) = drain_retry E 4 (j_fd jp) w in (if result \<noteq> 0 then io_error E fc ''drain'' w else None, w))"

definition rs_sendBreak :: "'w posix \<Rightarrow> jport \<Rightarrow> int \<Rightarrow> 'w \<Rightarrow> 'w" where
  "rs_sendBreak E jp duration w = snd (tcsendbreak_op E (j_fd jp) (duration sdiv 250) w)"

section \<open>Timeouts and modem lines\<close>

definition rs_NativegetReceiveTimeout :: "'w posix \<Rightarrow> (string \<Rightarrow> bool) \<Rightarrow> termios \<Rightarrow> jport \<Rightarrow> 'w \<Rightarrow> (int \<times> jexc option) \<times> 'w" where
  "rs_NativegetReceiveTimeout E fc t0 jp w =
     (let ((r, t), w) = tcgetattr_op E (j_fd jp) t0 w in
      if r < 0 then ((-1, io_error E fc ''getReceiveTimeout'' w), w) else ((uint (c_cc t VTIME) * 100, None), w))"

definition rs_NativeisReceiveTimeoutEnabled :: "'w posix \<Rightarrow> (string \<Rightarrow> bool) \<Rightarrow> termios \<Rightarrow> jport \<Rightarrow> 'w \<Rightarrow> (bool \<times> jexc option) \<times> 'w" where
  "rs_NativeisReceiveTimeoutEnabled E fc t0 jp w =
     (let ((r, t), w) = tcgetattr_op E (j_fd jp) t0 w in
      if r < 0 then ((False, io_error E fc ''isReceiveTimeoutEnabled'' w), w) else ((0 < c_cc t VTIME, None), w))"

definition rs_NativeEnableReceiveTimeoutThreshold ::
  "'w posix \<Rightarrow> (string \<Rightarrow> bool) \<Rightarrow> termios \<Rightarrow> jport \<Rightarrow> int \<Rightarrow> int \<Rightarrow> 'w \<Rightarrow> jexc option \<times> 'w" where
  "rs_NativeEnableReceiveTimeoutThreshold E fc t0 jp vtime threshold w =
     (let ((r, t), w) = tcgetattr_op E (j_fd jp) t0 w in
      if r < 0 then (io_error E fc ''TimeoutThreshold'' w, w)
      else let t = t\<lparr>c_cc := (c_cc t)(VMIN := cc_of_int threshold, VTIME := cc_of_int (vtime sdiv 100))\<rparr>;
               (r, w) = tcsetattr_op E (j_fd jp) t w in
      if r < 0 then (io_error E fc ''TimeoutThreshold'' w, w) else (None, w))"

definition rs_line :: "'w posix \<Rightarrow> u32 \<Rightarrow> jport \<Rightarrow> 'w \<Rightarrow> bool \<times> 'w" where
  \<comment> \<open>\<open>isDSR\<close>, \<open>isCD\<close>, \<open>isCTS\<close>, \<open>isRI\<close>, \<open>isRTS\<close> and \<open>isDTR\<close>, which differ in the bit they test\<close>
  "rs_line E b jp w = (let ((_, result), w) = tiocmget_op E (j_fd jp) 0 w in (result AND b \<noteq> 0, w))"

definition rs_isDSR :: "'w posix \<Rightarrow> jport \<Rightarrow> 'w \<Rightarrow> bool \<times> 'w" where "rs_isDSR E = rs_line E TIOCM_DSR"
definition rs_isCD :: "'w posix \<Rightarrow> jport \<Rightarrow> 'w \<Rightarrow> bool \<times> 'w" where "rs_isCD E = rs_line E TIOCM_CD"
definition rs_isCTS :: "'w posix \<Rightarrow> jport \<Rightarrow> 'w \<Rightarrow> bool \<times> 'w" where "rs_isCTS E = rs_line E TIOCM_CTS"
definition rs_isRI :: "'w posix \<Rightarrow> jport \<Rightarrow> 'w \<Rightarrow> bool \<times> 'w" where "rs_isRI E = rs_line E TIOCM_RI"
definition rs_isRTS :: "'w posix \<Rightarrow> jport \<Rightarrow> 'w \<Rightarrow> bool \<times> 'w" where "rs_isRTS E = rs_line E TIOCM_RTS"
definition rs_isDTR :: "'w posix \<Rightarrow> jport \<Rightarrow> 'w \<Rightarrow> bool \<times> 'w" where "rs_isDTR E = rs_line E TIOCM_DTR"

definition rs_drive :: "'w posix \<Rightarrow> u32 \<Rightarrow> jport \<Rightarrow> bool \<Rightarrow> 'w \<Rightarrow> 'w" where
  \<comment> \<open>\<open>setRTS\<close>, \<open>setDSR\<close> and \<open>setDTR\<close>\<close>
  "rs_drive E b jp state w =
     (let ((_, result), w) = tiocmget_op E (j_fd jp) 0 w
      in snd (tiocmset_op E (j_fd jp) (if state then result OR b else result AND NOT b) w))"

definition rs_setRTS :: "'w posix \<Rightarrow> jport \<Rightarrow> bool \<Rightarrow> 'w \<Rightarrow> 'w" where "rs_setRTS E = rs_drive E TIOCM_RTS"
definition rs_setDSR :: "'w posix \<Rightarrow> jport \<Rightarrow> bool \<Rightarrow> 'w \<Rightarrow> 'w" where "rs_setDSR E = rs_drive E TIOCM_DSR"
definition rs_setDTR :: "'w posix \<Rightarrow> jport \<Rightarrow> bool \<Rightarrow> 'w \<Rightarrow> 'w" where "rs_setDTR E = rs_drive E TIOCM_DTR"

section \<open>Reading\<close>

fun rs_select :: "'w posix \<Rightarrow> ('w \<Rightarrow> int \<times> int \<Rightarrow> int \<times> int) \<Rightarrow> nat \<Rightarrow> fd \<Rightarrow> (int \<times> int) option \<Rightarrow> 'w
    \<Rightarrow> ((int \<times> (int \<times> int) option) \<times> 'w) run" where
  \<comment> \<open>retried after a signal; \<open>left\<close> is what the call leaves in its timeout (on Linux the time not slept)\<close>
  "rs_select E left 0 fd tv w = Hang"
| "rs_select E left (Suc n) fd tv w =
     (let (ret, w) = select_op E fd tv w; tv = map_option (left w) tv in
      if ret < 0 \<and> errno_of E w = EINTR then rs_select E left n fd tv w else Done ((ret, tv), w))"

fun rs_read_loop :: "'w posix \<Rightarrow> ('w \<Rightarrow> int \<times> int \<Rightarrow> int \<times> int) \<Rightarrow> nat \<Rightarrow> nat \<Rightarrow> fd \<Rightarrow> int \<Rightarrow> (int \<times> int) option \<Rightarrow> int \<Rightarrow> u8 list
    \<Rightarrow> 'w \<Rightarrow> ((int \<times> u8 list) \<times> 'w) run" where
  \<comment> \<open>\<open>while (bytes < length)\<close>; the first number bounds the rounds, the second the interrupted calls\<close>
  "rs_read_loop E left 0 ef fd len tv bytes buf w = Hang"
| "rs_read_loop E left (Suc n) ef fd len tv bytes buf w =
     (if \<not> bytes < len then Done ((bytes, buf), w)
      else run_bind (rs_select E left ef fd tv w) (\<lambda>((ret, tv), w).
        if ret = 0 then Done ((bytes, buf), w)
        else if ret < 0 then Done ((-1, buf), w)
        else let ((ret, bs), w) = read_op E fd (len - bytes) w in
        if ret = 0 then Done ((bytes, buf), w)
        else if ret < 0 then Done ((-1, buf), w)
        else rs_read_loop E left n ef fd len tv (bytes + ret) (buf @ bs) w))"

definition rs_read_byte_array :: "'w posix \<Rightarrow> ('w \<Rightarrow> int \<times> int \<Rightarrow> int \<times> int) \<Rightarrow> nat \<Rightarrow> nat \<Rightarrow> fd \<Rightarrow> int \<Rightarrow> int \<Rightarrow> 'w
    \<Rightarrow> ((int \<times> u8 list) \<times> 'w) run" where
  "rs_read_byte_array E left n ef fd len timeout w =
     rs_read_loop E left n ef fd len
       (if timeout \<noteq> 0 then Some (timeout sdiv 1000, 1000 * (timeout smod 1000)) else None) 0 [] w"

definition rs_readByte :: "'w posix \<Rightarrow> ('w \<Rightarrow> int \<times> int \<Rightarrow> int \<times> int) \<Rightarrow> nat \<Rightarrow> nat \<Rightarrow> (string \<Rightarrow> bool) \<Rightarrow> jport \<Rightarrow> 'w
    \<Rightarrow> ((int \<times> jexc option) \<times> 'w) run" where
  "rs_readByte E left n ef fc jp w =
     run_bind (rs_read_byte_array E left n ef (j_fd jp) 1 (j_timeout jp) w) (\<lambda>((bytes, buf), w).
     if bytes < 0 then Done ((-1, io_error E fc ''readByte'' w), w)
     else Done ((if bytes \<noteq> 0 \<and> buf \<noteq> [] then uint (hd buf) else -1, None), w))"

definition rs_readArray :: "'w posix \<Rightarrow> ('w \<Rightarrow> int \<times> int \<Rightarrow> int \<times> int) \<Rightarrow> nat \<Rightarrow> nat \<Rightarrow> (string \<Rightarrow> bool) \<Rightarrow> jport \<Rightarrow> u8 list \<Rightarrow> int
    \<Rightarrow> int \<Rightarrow> 'w \<Rightarrow> (((int \<times> jexc option) \<times> u8 list) \<times> 'w) run" where
  \<comment> \<open>the buffer is allocated; a negative length is greater than \<open>SSIZE_MAX\<close> as a \<open>size_t\<close>\<close>
  "rs_readArray E left n ef fc jp body offset len w =
     (if len < 0
      then Done (((-1, throw_java_exception fc ARRAY_INDEX_OUT_OF_BOUNDS ''readArray'' ''Invalid length''), body), w)
      else run_bind (rs_read_byte_array E left n ef (j_fd jp) len (j_timeout jp) w) (\<lambda>((bytes, buf), w).
        if bytes < 0 then Done (((-1, io_error E fc ''readArray'' w), body), w)
        else run_bind (store_at body offset buf) (\<lambda>body. Done (((if bytes \<noteq> 0 then bytes else -1, None), body), w))))"

definition rs_nativeavailable :: "'w posix \<Rightarrow> (string \<Rightarrow> bool) \<Rightarrow> int \<Rightarrow> jport \<Rightarrow> 'w \<Rightarrow> (int \<times> jexc option) \<times> 'w" where
  "rs_nativeavailable E fc result0 jp w =
     (let ((r, result), w) = fionread_op E (j_fd jp) result0 w in
      if r \<noteq> 0 then ((-1, io_error E fc ''nativeavailable'' w), w) else ((result, None), w))"

definition rs_setflowcontrol :: "'w posix \<Rightarrow> (string \<Rightarrow> bool) \<Rightarrow> termios \<Rightarrow> jport \<Rightarrow> u32 \<Rightarrow> 'w \<Rightarrow> jexc option \<times> 'w" where
  \<comment> \<open>the flags are edited as in the serial port\<close>
  "rs_setflowcontrol E fc t0 jp flowmode w =
     (let ((r, t), w) = tcgetattr_op E (j_fd jp) t0 w in
      if r \<noteq> 0 then (io_error E fc ''setHWFC'' w, w)
      else let (r, w) = tcsetattr_op E (j_fd jp) (flow_edit flowmode t) w in
      if r \<noteq> 0 then (io_error E fc ''setHWFC'' w, w) else (None, w))"

section \<open>Events\<close>

record rs_mon =
  rs_osis :: serial_icounter
  rs_omflags :: u32
  rs_sent :: "(nat \<times> bool) list"

function rs_count :: "nat \<Rightarrow> u32 \<Rightarrow> u32 \<Rightarrow> (nat \<times> bool) list \<Rightarrow> (nat \<times> bool) list" where
  "rs_count type target cur sent =
     (if target = cur then sent else rs_count type target (cur + 1) (sent @ [(type, True)]))"
  by pat_completeness auto

termination
  by (relation "measure (\<lambda>(type, target, cur, sent). unat (target - cur))") (auto simp: unat_step)

declare rs_count.simps [simp del]

definition rs_changed :: "nat \<Rightarrow> u32 \<Rightarrow> u32 \<Rightarrow> u32 \<Rightarrow> (nat \<times> bool) list" where
  "rs_changed type b cur old = (if (cur AND b) - (old AND b) \<noteq> 0 then [(type, True)] else [])"

definition rs_eventLoop_iter :: "'w posix \<Rightarrow> ('w \<Rightarrow> int \<times> int \<Rightarrow> int \<times> int) \<Rightarrow> ('w \<Rightarrow> bool \<times> 'w) \<Rightarrow> nat \<Rightarrow> int \<Rightarrow> fd \<Rightarrow> rs_mon \<Rightarrow> 'w
    \<Rightarrow> ((bool \<times> rs_mon) \<times> 'w) run" where
  \<comment> \<open>one round of \<open>while (!interrupted)\<close>: whether it goes on. \<open>intr\<close> is \<open>Thread.interrupted()\<close> and
    \<open>change0\<close> the uninitialised local\<close>
  "rs_eventLoop_iter E left intr ef change0 fd m w =
     run_bind (rs_select E left ef fd (Some (1, 0)) w) (\<lambda>((ret, _), w).
     if ret < 0 then Done ((False, m), w)
     else let ((r, change), w) = tiocsergetlsr_op E fd change0 w in
     if r \<noteq> 0 then Done ((False, m), w)
     else let m = (if change \<noteq> 0 then m\<lparr>rs_sent := rs_sent m @ [(SPE_OUTPUT_BUFFER_EMPTY, True)]\<rparr> else m);
              ((r, sis), w) = tiocgicount_op E fd (rs_osis m) w in
     if r \<noteq> 0 then Done ((False, m), w)
     else let sent = rs_count SPE_FE (ic_frame sis) (ic_frame (rs_osis m)) (rs_sent m);
              sent = rs_count SPE_OE (ic_overrun sis) (ic_overrun (rs_osis m)) sent;
              sent = rs_count SPE_PE (ic_parity sis) (ic_parity (rs_osis m)) sent;
              sent = rs_count SPE_BI (ic_brk sis) (ic_brk (rs_osis m)) sent;
              m = m\<lparr>rs_osis := sis, rs_sent := sent\<rparr>;
              ((r, mflags), w) = tiocmget_op E fd (rs_omflags m) w in
     if r \<noteq> 0 then Done ((False, m), w)
     else let (interrupted, w) = intr w;
              sent = rs_sent m @ rs_changed SPE_CTS TIOCM_CTS mflags (rs_omflags m)
                @ rs_changed SPE_DSR TIOCM_DSR mflags (rs_omflags m) @ rs_changed SPE_RI TIOCM_RNG mflags (rs_omflags m)
                @ rs_changed SPE_CD TIOCM_CD mflags (rs_omflags m);
              ((r, change), w) = fionread_op E fd (sint ((mflags AND TIOCM_CD) - (rs_omflags m AND TIOCM_CD))) w;
              m = m\<lparr>rs_omflags := mflags, rs_sent := sent\<rparr> in
     if r = 0 \<and> change \<noteq> 0
     then Done ((\<not> interrupted, m\<lparr>rs_sent := rs_sent m @ [(SPE_DATA_AVAILABLE, True)]\<rparr>), usleep_op E 1000 w)
     else Done ((\<not> interrupted, m), w))"

fun rs_loop :: "'w posix \<Rightarrow> ('w \<Rightarrow> int \<times> int \<Rightarrow> int \<times> int) \<Rightarrow> ('w \<Rightarrow> bool \<times> 'w) \<Rightarrow> nat \<Rightarrow> nat \<Rightarrow> int \<Rightarrow> fd \<Rightarrow> rs_mon \<Rightarrow> 'w
    \<Rightarrow> (rs_mon \<times> 'w) run" where
  "rs_loop E left intr 0 ef change0 fd m w = Hang"
| "rs_loop E left intr (Suc n) ef change0 fd m w =
     run_bind (rs_eventLoop_iter E left intr ef change0 fd m w) (\<lambda>((go, m), w).
     if go then rs_loop E left intr n ef change0 fd m w else Done (m, w))"

definition rs_eventLoop :: "'w posix \<Rightarrow> ('w \<Rightarrow> int \<times> int \<Rightarrow> int \<times> int) \<Rightarrow> ('w \<Rightarrow> bool \<times> 'w) \<Rightarrow> nat \<Rightarrow> nat \<Rightarrow> int \<Rightarrow> rs_mon \<Rightarrow> jport
    \<Rightarrow> 'w \<Rightarrow> (rs_mon \<times> 'w) run" where
  \<comment> \<open>\<open>m0\<close> holds the uninitialised locals and the events sent so far\<close>
  "rs_eventLoop E left intr n ef change0 m0 jp w =
     (let ((r, c), w) = tiocgicount_op E (j_fd jp) (rs_osis m0) w in
      if r < 0 then Done (m0, w)
      else let ((r, f), w) = tiocmget_op E (j_fd jp) (rs_omflags m0) w in
      if r < 0 then Done (m0\<lparr>rs_osis := c\<rparr>, w)
      else rs_loop E left intr n ef change0 (j_fd jp) (m0\<lparr>rs_osis := c, rs_omflags := f\<rparr>) w)"

definition send_modem_events :: "nat \<Rightarrow> nat \<Rightarrow> bool \<Rightarrow> (nat \<times> bool) list" where
  \<comment> \<open>the events sent, alternating so that the last one carries the state\<close>
  "send_modem_events event change state =
     map (\<lambda>i. (event, \<not> odd (change + (if state then 1 else 0) + i))) [0..<change]"

fun probe_units :: "'w posix \<Rightarrow> string \<Rightarrow> nat \<Rightarrow> nat \<Rightarrow> bool \<Rightarrow> 'w \<Rightarrow> ((bool \<times> bool) \<times> 'w) run" where
  \<comment> \<open>\<open>for (i = 0; i < 64; i++)\<close>; \<open>sprintf\<close> does not look at the size of \<open>teststring[256]\<close>\<close>
  "probe_units E name i 0 chr w = Done ((chr, False), w)"
| "probe_units E name i (Suc n) chr w =
     (if 256 \<le> length (DEVICEDIR @ name @ digits_of i) then Fault
      else let ((chr, ok), w) = probe E (DEVICEDIR @ name @ digits_of i) chr w in
      if ok then Done ((chr, True), w) else probe_units E name (Suc i) n chr w)"

definition IsDeviceGood :: "'w posix \<Rightarrow> string \<Rightarrow> bool \<Rightarrow> 'w \<Rightarrow> ((bool \<times> bool) \<times> 'w) run" where
  \<comment> \<open>\<open>mystat\<close> is static, as in \<open>probe\<close>\<close>
  "IsDeviceGood E name chr w =
     (if name \<in> {''tty0'', ''ttyd'', ''ttyq'', ''ttym'', ''ttyf'', ''cuaa''} then Done ((chr, False), w)
      else run_bind (probe_units E name 0 64 chr w) (\<lambda>((chr, ok), w).
        let ((chr, ok'), w) = probe E (DEVICEDIR @ name) chr w in Done ((chr, ok \<or> ok'), w)))"


section \<open>The parameters that reach the driver\<close>

definition rs_parity_seen :: "u32 \<Rightarrow> int \<Rightarrow> int" where
  \<comment> \<open>the parity a line has after \<open>q\<close> was asked for: sticky parity stays on once it is\<close>
  "rs_parity_seen c q =
     (if c AND CMSPAR = 0 then q else if q = JPARITY_ODD then JPARITY_MARK else if q = JPARITY_EVEN then JPARITY_SPACE else q)"

lemma rs_data_bits: "d \<in> {5, 6, 7, 8} \<Longrightarrow> rs_translate_data_bits fc c d = ((True, None), snd (translate_data_bits c d))"
  by (auto simp: rs_translate_data_bits_def translate_data_bits_def Let_def)

lemma rs_stop_bits: "s \<in> {1, 2} \<Longrightarrow> rs_translate_stop_bits fc c s = ((True, None), snd (translate_stop_bits c s))"
  by (auto simp: rs_translate_stop_bits_def translate_stop_bits_def)

lemma clear_more: "c AND k = 0 \<Longrightarrow> c AND NOT (m OR k) = c AND NOT (m :: 'a::len word)"
  by (rule bit_word_eqI) (metis (no_types, lifting) bit_0_eq bit_and_iff bit_not_iff_eq bit_or_iff bot_apply bot_bool_def)

lemma set_more: "(c AND NOT m) OR (v OR k) = (c AND NOT (m OR k)) OR (v OR (k :: 'a::len word))"
  by (rule bit_word_eqI) (auto simp: bit_and_iff bit_or_iff bit_not_iff)

lemma keep_more:
  assumes "c AND k = k" and "m AND k = 0"
  shows "(c AND NOT m) OR v = (c AND NOT (m OR k)) OR (v OR (k :: 'a::len word))"
proof -
  have "(c AND NOT m) OR v = ((c OR k) AND NOT m) OR v" using or_same [OF assms(1)] by simp
  also have "\<dots> = (c AND NOT m) OR (v OR (k AND NOT m))" by (simp add: bit.conj_disj_distrib2 or.assoc or.commute or.left_commute)
  also have "k AND NOT m = k" using assms(2) by (simp add: and_not_same and.commute)
  finally show ?thesis using set_more by metis
qed

lemma rs_parity:
  assumes "q \<in> {1, 2, 3, 4}"
  shows "rs_translate_parity fc c q = ((True, None), snd (translate_parity c (rs_parity_seen c q)))"
proof -
  note set = set_more [of c "PARENB OR PARODD" "PARENB" CMSPAR, simplified]
    set_more [of c "PARENB OR PARODD" "PARENB OR PARODD" CMSPAR, simplified]
  consider "c AND CMSPAR = 0" | "c AND CMSPAR = CMSPAR" using single_bit_cases [of c 30] by auto
  then show ?thesis
  proof cases
    case 1
    then show ?thesis
      using assms clear_more [OF 1, of "PARENB OR PARODD"]
      by (auto simp: rs_translate_parity_def translate_parity_def rs_parity_seen_def)
  next
    case 2
    then show ?thesis
      using assms set keep_more [OF 2, of "PARENB OR PARODD" "PARENB"]
        keep_more [OF 2, of "PARENB OR PARODD" "PARENB OR PARODD"]
      by (auto simp: rs_translate_parity_def translate_parity_def rs_parity_seen_def)
  qed
qed

lemma rs_parity_clear:
  "c AND CMSPAR = 0 \<Longrightarrow> rs_translate_parity fc c 0 = ((True, None), snd (translate_parity c (rs_parity_seen c 0)))"
  using clear_more [of c CMSPAR "PARENB OR PARODD"]
  by (simp add: rs_translate_parity_def translate_parity_def rs_parity_seen_def)

lemma rs_speed_listed: "(speed, b) \<in> set rs_speed_cases \<Longrightarrow> (speed, b) \<in> set (speed_cases Linux)"
  by (auto simp: rs_speed_cases_def speed_cases_def)

lemma rs_translate_listed: "(speed, b) \<in> set rs_speed_cases \<Longrightarrow> rs_translate_speed fc speed = (b, None)"
  by (auto simp: rs_translate_speed_def rs_speed_cases_def)

lemma rs_edit_CMSPAR:
  "snd (translate_stop_bits (snd (translate_data_bits c d)) s) AND CMSPAR = c AND CMSPAR"
proof -
  have "snd (translate_stop_bits (snd (translate_data_bits c d)) s) AND NOT (NOT CMSPAR)
      = snd (translate_data_bits c d) AND NOT (NOT CMSPAR)"
    by (rule mask_weaken [OF stop_bits_frame]) simp
  also have "\<dots> = c AND NOT (NOT CMSPAR)" by (rule mask_weaken [OF data_bits_frame]) simp
  finally show ?thesis by simp
qed

context tty_driver
begin

lemma rs_params_reported:
  assumes "p = Linux" and "live (j_fd jp) w" and "raw_mode (attr (j_fd jp) w)"
    and "(speed, b) \<in> set rs_speed_cases" and "b \<noteq> B0" and d: "d \<in> {5, 6, 7, 8}" and s: "s \<in> {1, 2}"
    and q: "q \<in> {1, 2, 3, 4} \<or> q = 0 \<and> c_cflag (attr (j_fd jp) w) AND CMSPAR = 0"
  obtains w' where "set_line_params foo E fc t0 jp speed d s q w = (None, w')" and "live (j_fd jp) w'"
    and "set_java_vars E p t1 (j_fd jp) jp w' =
      (jp\<lparr>j_speed := speed, j_dataBits := d, j_stopBits := if s = 2 \<and> d = 5 then 3 else s,
          j_parity := rs_parity_seen (c_cflag (attr (j_fd jp) w)) q\<rparr>, w')"
proof -
  define c where "c = c_cflag (attr (j_fd jp) w)"
  define seen where "seen = rs_parity_seen c q"
  define t where "t = (attr (j_fd jp) w)\<lparr>c_cflag := line_edit c d s seen\<rparr>"
  have b: "listed_speed p b"
    using rs_speed_listed [OF assms(4)] assms(1,5) by (force simp: listed_speed_def)
  have seen: "seen \<in> {0, 1, 2, 3, 4}" using q by (auto simp: seen_def rs_parity_seen_def)
  obtain u where u: "set_speeds E t (uint b) = (True, u)" "speed_set p b t u"
    using set_speeds_listed [OF b] .
  have raw: "raw_mode t" using assms(3) by (simp add: raw_mode_def t_def c_def line_edit_CIGNORE)
  have par: "java_parity (c_cflag t) \<noteq> -1" using line_edit_parity [OF seen] seen by (auto simp: t_def)
  obtain w' where w': "tcsetattr_op E (j_fd jp) u w = (0, w')" "live (j_fd jp) w'"
      "c_cflag (attr (j_fd jp) w') = (line_edit c d s seen AND NOT (CBAUD p)) OR b"
    using set_speed_attr [OF assms(2) b raw par u] attr_chars [OF assms(2)] by (auto simp: legal_chars_def t_def)
  let ?c = "snd (translate_stop_bits (snd (translate_data_bits c d)) s)"
  have "rs_parity_seen ?c q = seen" by (simp add: seen_def rs_parity_seen_def rs_edit_CMSPAR)
  then have "rs_translate_parity fc ?c q = ((True, None), line_edit c d s seen)"
    using q rs_parity [of q fc ?c] rs_parity_clear [of ?c fc] rs_edit_CMSPAR [of c d s]
    by (auto simp: line_edit_def c_def)
  moreover obtain r1 ti r2 where "cfsetispeed_op E t (uint b) = (r1, ti)" "\<not> r1 < 0"
      "cfsetospeed_op E ti (uint b) = (r2, u)" "\<not> r2 < 0"
    using u(1) by (auto simp: set_speeds_def split: prod.splits if_splits)
  ultimately have "set_line_params foo E fc t0 jp speed d s q w = (None, w')"
    using get_attr [OF assms(2)] rs_data_bits [OF d] rs_stop_bits [OF s] w'(1) assms(5)
    by (simp add: set_line_params_def Let_def rs_translate_listed [OF assms(4)] c_def [symmetric] t_def)
  moreover have "get_java_baudrate p b = speed"
    using rs_speed_listed [OF assms(4)] assms(1) by (simp add: speed_in_baud baudrate_listed)
  moreover have "set_java_vars E p t1 (j_fd jp) jp w' =
      (jp\<lparr>j_speed := get_java_baudrate p (c_cflag (attr (j_fd jp) w') AND CBAUD p),
          j_dataBits := java_databits (c_cflag (attr (j_fd jp) w')),
          j_stopBits := java_stopbits (c_cflag (attr (j_fd jp) w')),
          j_parity := java_parity (c_cflag (attr (j_fd jp) w'))\<rparr>, w')"
    using get_attr [OF w'(2)] by (simp add: set_java_vars_def)
  moreover have "s \<in> {1, 2, 3}" "s \<noteq> 3" using s by auto
  ultimately show thesis
    using w'(2,3) line_edit_size [OF d, of c s seen] line_edit_stop [OF d, of s c seen] line_edit_parity [OF seen, of c d s]
    by (intro that)
      (simp_all add: speed_field_get [OF b] speed_field_line [OF b] c_def seen_def del: insert_iff)
qed

end

section \<open>Reading from a byte source\<close>

lemma rs_select_no_fault: "rs_select E left ef fd tv w \<noteq> Fault"
  by (induction ef arbitrary: tv w) (auto simp: Let_def split: prod.splits)

context byte_source
begin

lemma rs_select_quiet:
  "live fd w \<Longrightarrow> rs_select E left ef fd tv w = Done (r, w') \<Longrightarrow> live fd w' \<and> consumed fd w' = consumed fd w"
proof (induction ef arbitrary: tv w)
  case (Suc ef)
  obtain ret w1 where s: "select_op E fd tv w = (ret, w1)" by (metis surj_pair)
  then have "live fd w1" "consumed fd w1 = consumed fd w" using select_quiet [OF Suc.prems(1), of tv] by simp_all
  then show ?case using Suc.IH Suc.prems(2) s by (auto simp: Let_def split: if_splits)
qed simp

lemma rs_read_loop_stream:
  assumes "live fd w" and "bytes = int (length buf)" and "bytes \<le> len" and "nat (len - bytes) < n"
    and "\<And>w tv. rs_select E left ef fd tv w \<noteq> Hang"
  shows "\<exists>r new w'. rs_read_loop E left n ef fd len tv bytes buf w = Done ((r, buf @ new), w')
    \<and> live fd w' \<and> consumed fd w' = consumed fd w @ new
    \<and> (r = -1 \<or> r = bytes + int (length new) \<and> r \<le> len)"
  using assms(1-4)
proof (induction n arbitrary: tv bytes buf w)
  case (Suc n)
  show ?case
  proof (cases "bytes < len")
    case False
    with Suc.prems show ?thesis by (auto intro!: exI [of _ "[]"])
  next
    case lt: True
    obtain ret tv1 w1 where sel: "rs_select E left ef fd tv w = Done ((ret, tv1), w1)"
      using assms(5) [of tv w] rs_select_no_fault [of E left ef fd tv w] by (cases "rs_select E left ef fd tv w") auto
    have w1: "live fd w1" "consumed fd w1 = consumed fd w" using rs_select_quiet [OF Suc.prems(1) sel] by simp_all
    obtain rr bs w2 where rd: "read_op E fd (len - bytes) w1 = ((rr, bs), w2)" by (metis surj_pair)
    have w2: "live fd w2" "consumed fd w2 = consumed fd w @ bs" "int (length bs) = max rr 0" "rr \<le> len - bytes"
      using read_bytes [OF w1(1) _ rd] lt w1(2) by auto
    show ?thesis
    proof (cases "0 < ret \<and> 0 < rr")
      case True
      then have "nat (len - (bytes + rr)) < n" using Suc.prems(4) lt by linarith
      with True obtain r new w' where "rs_read_loop E left n ef fd len tv1 (bytes + rr) (buf @ bs) w2
          = Done ((r, (buf @ bs) @ new), w')" "live fd w'" "consumed fd w' = consumed fd w2 @ new"
          "r = -1 \<or> r = bytes + rr + int (length new) \<and> r \<le> len"
        using Suc.IH [OF w2(1), of "bytes + rr" "buf @ bs" tv1] w2 Suc.prems lt by auto
      with True lt sel rd w2 show ?thesis by (auto intro!: exI [of _ "bs @ new"])
    next
      case False
      with w2 have "bs = [] \<or> ret \<le> 0" by auto
      with False lt sel rd w1 w2 Suc.prems show ?thesis by (auto intro!: exI [of _ "[]"])
    qed
  qed
qed simp

lemma rs_read_stream:
  assumes "live fd w" and "0 \<le> len" and "\<And>w tv. rs_select E left ef fd tv w \<noteq> Hang"
  shows "\<exists>r bs w'. rs_read_byte_array E left (Suc (nat len)) ef fd len timeout w = Done ((r, bs), w')
    \<and> live fd w' \<and> consumed fd w' = consumed fd w @ bs \<and> (r = -1 \<or> r = int (length bs) \<and> r \<le> len)"
  using rs_read_loop_stream [OF assms(1), of 0 "[]" len "Suc (nat len)" left ef] assms(2,3)
  by (simp add: rs_read_byte_array_def)

end

section \<open>The modem lines and the transmitter\<close>

text \<open>The line methods do what those of the serial port do.\<close>

lemma rs_line_methods:
  "rs_isRTS = isRTS" "rs_isDTR = isDTR" "rs_isCTS = isCTS" "rs_isDSR = isDSR" "rs_isCD = isCD" "rs_isRI = isRI"
  "rs_setRTS = setRTS" "rs_setDTR = setDTR"
  by (auto simp: fun_eq_iff rs_isRTS_def rs_isDTR_def rs_isCTS_def rs_isDSR_def rs_isCD_def rs_isRI_def rs_line_def
    rs_setRTS_def rs_setDTR_def rs_drive_def isRTS_def isDTR_def isCTS_def isDSR_def isCD_def isRI_def setRTS_def
    setDTR_def)

lemma rs_dtr_set: "rs_dtr E (j_fd jp) state 0 w = rs_setDTR E jp state w"
  by (simp add: rs_dtr_def rs_setDTR_def rs_drive_def)

lemma lsr_wait_forever:
  "(\<And>fd a w. fst (fst (tiocsergetlsr_op E fd a w)) \<noteq> TIOCSER_TEMT) \<Longrightarrow> lsr_wait E n fd junk w = Hang"
  by (induction n arbitrary: w) (simp_all add: Let_def case_prod_beta)

lemma end_transmission_forever:
  "(\<And>fd a w. fst (fst (tiocsergetlsr_op E fd a w)) \<noteq> TIOCSER_TEMT)
    \<Longrightarrow> end_transmission E n fc foo junk count fd w = Hang"
  by (simp add: end_transmission_def lsr_wait_forever)

text \<open>The loop around \<open>write\<close> goes on while bytes are left, whatever the calls return, so its last call has
  written something.\<close>

lemma rs_write_loop_done:
  "tot < length bytes \<Longrightarrow> rs_write_loop E n fd bytes tot w = Done (r, w') \<Longrightarrow> 0 < r"
  by (induction n arbitrary: tot w) (auto simp: Let_def split: prod.splits if_splits)

lemma rs_write_loop_no_fault: "rs_write_loop E n fd bytes tot w \<noteq> Fault"
  by (induction n arbitrary: tot w) (auto simp: Let_def split: prod.splits)

lemma slice_in_range:
  "0 < count \<Longrightarrow> 0 \<le> off \<Longrightarrow> off + count \<le> int (length body) \<Longrightarrow>
   slice body off count = Done (take (nat count) (drop (nat off) body))"
  by (simp add: slice_def)

text \<open>A driver whose writes leave the lines alone.\<close>

locale half_duplex = modem_driver E p live attr lines
  for E :: "'w posix" and p :: platform and live :: "fd \<Rightarrow> 'w \<Rightarrow> bool" and attr :: "fd \<Rightarrow> 'w \<Rightarrow> termios"
    and lines :: "fd \<Rightarrow> 'w \<Rightarrow> u32" +
  assumes write_lines: "live fd w \<Longrightarrow> live fd (snd (write_op E fd bs w))
    \<and> lines fd (snd (write_op E fd bs w)) AND out_lines = lines fd w AND out_lines"
begin

lemma write_line:
  assumes "live fd w" and "write_op E fd bs w = (r, w')"
  shows "live fd w'" and "lines fd w' AND TIOCM_DTR = lines fd w AND TIOCM_DTR"
  using write_lines [OF assms(1), of bs] assms(2) masked_bit [of "lines fd w'" out_lines "lines fd w" TIOCM_DTR]
  by simp_all

lemma dtr_raised:
  assumes "live (j_fd jp) w"
  shows "live (j_fd jp) (rs_setDTR E jp True w)"
    and "lines (j_fd jp) (rs_setDTR E jp True w) AND TIOCM_DTR \<noteq> 0"
  using setDTR_spec [OF assms, of True] line_queries(2) by (simp_all add: rs_line_methods)

lemma rs_writeByte_line:
  assumes "live (j_fd jp) w"
    and "retry_eintr ef (errno_of E) (write_op E (j_fd jp) bs) (rs_setDTR E jp True w) = Some (r, w')"
  shows "fst (rs_isDTR E jp w')"
proof -
  have "live (j_fd jp) w' \<and> lines (j_fd jp) w' AND TIOCM_DTR \<noteq> 0"
    by (rule retry_eintr_inv [OF _ _ assms(2)]) (use write_line dtr_raised [OF assms(1)] in auto)
  then show ?thesis using line_queries(2) by (simp add: rs_line_methods)
qed

end

interpretation ref_hd: half_duplex refposix Linux ref_live ref_attr ref_modem
  by unfold_locales (auto simp: refposix_def ref_defs split: option.splits)

section \<open>The events of a round\<close>

lemma rs_count_events: "rs_count type target cur sent = sent @ replicate (unat (target - cur)) (type, True)"
proof (induction type target cur sent rule: rs_count.induct)
  case (1 type target cur sent)
  then show ?case
    using unat_step [of target cur] by (subst rs_count.simps) (cases "target = cur"; simp)
qed

lemma rs_changed_iff: "rs_changed type b cur old = (if cur AND b = old AND b then [] else [(type, True)])"
  by (simp add: rs_changed_def)

section \<open>Properties\<close>

text \<open>C30. Transmitting on an RS485 port never ends normally. \<open>ioctl(fd, TIOCSERGETLSR)\<close> answers through its
  argument and returns 0 or -1, but the wait for the last bit compares the returned value with
  \<open>TIOCSER_TEMT\<close>, which is 1. So \<open>writeByte\<close> and \<open>writeArray\<close> spin for ever once the bytes are with the
  driver, with every bound on the rounds. \<open>writeByte\<close> returns only after a failed write, and then DTR, raised
  for the transmission, is still raised: the port keeps driving the bus. \<open>writeArray\<close> does not even return
  then, because it repeats the write while bytes are left, whatever the error.\<close>

theorem rs_write_outcome:
  assumes "half_duplex E p live attr lines" and "live (j_fd jp) w"
    and "\<And>fd a w. fst (fst (tiocsergetlsr_op E fd a w)) \<noteq> TIOCSER_TEMT"
  shows "rs_writeByte E ef n fc junk jp b w =
      (case retry_eintr ef (errno_of E) (write_op E (j_fd jp) [word_of_int b]) (rs_setDTR E jp True w) of
         Some (r, w') \<Rightarrow> if r < 0 then Done (io_error E fc ''writeByte'' w', w') else Hang | None \<Rightarrow> Hang)
    \<and> (\<forall>e w'. rs_writeByte E ef n fc junk jp b w = Done (e, w') \<longrightarrow> fst (rs_isDTR E jp w'))
    \<and> (0 < count \<longrightarrow> 0 \<le> off \<longrightarrow> off + count \<le> int (length body) \<longrightarrow>
        rs_writeArray E n fc junk jp body off count w = Hang)"
proof (intro conjI allI impI)
  note ends = end_transmission_forever [of E, OF assms(3)]
  show byte: "rs_writeByte E ef n fc junk jp b w =
      (case retry_eintr ef (errno_of E) (write_op E (j_fd jp) [word_of_int b]) (rs_setDTR E jp True w) of
         Some (r, w') \<Rightarrow> if r < 0 then Done (io_error E fc ''writeByte'' w', w') else Hang | None \<Rightarrow> Hang)"
    by (simp add: rs_writeByte_def rs_dtr_set ends split: option.splits)
  show "fst (rs_isDTR E jp w')" if "rs_writeByte E ef n fc junk jp b w = Done (e, w')" for e w'
    using that half_duplex.rs_writeByte_line [OF assms(1,2)] by (auto simp: byte split: option.splits if_splits)
  assume range: "0 < count" "0 \<le> off" "off + count \<le> int (length body)"
  define bytes where "bytes = take (nat count) (drop (nat off) body)"
  have "0 < length bytes" using range by (auto simp: bytes_def)
  then have "rs_write_loop E n (j_fd jp) bytes 0 w1 = Hang
      \<or> (\<exists>r w2. 0 < r \<and> rs_write_loop E n (j_fd jp) bytes 0 w1 = Done (r, w2))" for w1
    using rs_write_loop_done [of 0 bytes E n "j_fd jp" w1] rs_write_loop_no_fault [of E n "j_fd jp" bytes 0 w1]
    by (cases "rs_write_loop E n (j_fd jp) bytes 0 w1") auto
  from this [of "rs_setDTR E jp True w"] show "rs_writeArray E n fc junk jp body off count w = Hang"
    using range by (auto simp: rs_writeArray_def rs_dtr_set ends slice_in_range bytes_def [symmetric])
qed

theorem rs_write_outcome_witness:
  "\<forall>n. rs_writeByte refposix 1 n (\<lambda>c. True) 0 jport0 65 ref_dev0 = Hang
    \<and> rs_writeArray refposix n (\<lambda>c. True) 0 jport0 [1, 2, 3] 1 2 ref_dev0 = Hang"
proof
  fix n
  have "fst (fst (tiocsergetlsr_op refposix fd a w)) \<noteq> TIOCSER_TEMT" for fd a w
    by (simp add: refposix_def ref_query_def split: option.splits)
  from rs_write_outcome [OF ref_hd.half_duplex_axioms ref_dev0_live this, of 1 n "\<lambda>c. True" 0 65 2 1 "[1, 2, 3]"]
  show "rs_writeByte refposix 1 n (\<lambda>c. True) 0 jport0 65 ref_dev0 = Hang
      \<and> rs_writeArray refposix n (\<lambda>c. True) 0 jport0 [1, 2, 3] 1 2 ref_dev0 = Hang"
    by (simp add: refposix_def ref_defs ref_dev0_def jport0_def rs_setDTR_def rs_drive_def)
qed

text \<open>Reading from an RS485 port, on every byte source: \<open>read_byte_array\<close> returns, after at most one round
  more than the number of bytes asked for; the buffer then holds exactly the bytes the driver handed out
  during the call, in order; and a return value other than -1 is their number and at most the number asked
  for.\<close>

theorem rs_read_correct:
  assumes "byte_source E live consumed" and "live fd w" and "0 \<le> len"
    and "\<And>w tv. rs_select E left ef fd tv w \<noteq> Hang"
  shows "\<exists>r bs w'. rs_read_byte_array E left (Suc (nat len)) ef fd len timeout w = Done ((r, bs), w')
    \<and> live fd w' \<and> consumed fd w' = consumed fd w @ bs \<and> (r = -1 \<or> r = int (length bs) \<and> r \<le> len)"
  using byte_source.rs_read_stream [OF assms] .

theorem rs_read_correct_witness:
  "\<exists>r bs w'. rs_read_byte_array refposix (\<lambda>w tv. tv) 3 1 5 2 100 ref_dev_data = Done ((r, bs), w')
    \<and> ref_got 5 w' = bs \<and> (r = -1 \<or> r = int (length bs) \<and> r \<le> 2)"
proof -
  have "rs_select refposix (\<lambda>w tv. tv) 1 5 tv w \<noteq> Hang" for tv w
    by (auto simp: refposix_def ref_err_def split: option.splits if_splits)
  with rs_read_correct [OF ref_bytes.byte_source_axioms, of 5 ref_dev_data 2 "\<lambda>w tv. tv" 1 100] show ?thesis
    by (auto simp: ref_dev_data_def ref_dev0_def ref_live_def ref_got_def ref_line0_def eval_nat_numeral)
qed

text \<open>RS485 parameters, on every driver that keeps the POSIX contract: a listed speed other than 0 with valid
  data bits, stop bits and parity is accepted, and the settings then read back are those, but for the
  parity: once a line has sticky parity (mark or space), asking for odd parity gives mark and asking for
  even parity gives space, because \<open>translate_parity\<close> does not clear \<open>CMSPAR\<close>.\<close>

theorem rs_params_effect:
  assumes "tty_driver E Linux live attr" and "live (j_fd jp) w" and "raw_mode (attr (j_fd jp) w)"
    and "(speed, b) \<in> set rs_speed_cases" and "b \<noteq> B0" and "d \<in> {5, 6, 7, 8}" and "s \<in> {1, 2}"
    and "q \<in> {1, 2, 3, 4} \<or> q = 0 \<and> c_cflag (attr (j_fd jp) w) AND CMSPAR = 0"
  shows "\<exists>w'. nativeSetRS485PortParams E fc t0 jp speed d s q w = (None, w') \<and> live (j_fd jp) w'
    \<and> set_java_vars E Linux t1 (j_fd jp) jp w' =
      (jp\<lparr>j_speed := speed, j_dataBits := d, j_stopBits := if s = 2 \<and> d = 5 then 3 else s,
          j_parity := if c_cflag (attr (j_fd jp) w) AND CMSPAR = 0 then q
            else if q = 1 then 3 else if q = 2 then 4 else q\<rparr>, w')"
  using tty_driver.rs_params_reported [OF assms(1) refl assms(2-), of "''nativeSetRS485PortParams''" fc t0 t1]
  unfolding rs_parity_seen_def nativeSetRS485PortParams_def by metis

definition ref_sticky :: refdev where
  "ref_sticky = ref_dev0\<lparr>rd_lines := [5 \<mapsto> ref_line0\<lparr>rl_attr := (rl_attr ref_line0)\<lparr>c_cflag :=
     CREAD OR CLOCAL OR CS8 OR B9600 OR PARENB OR PARODD OR CMSPAR\<rparr>\<rparr>]\<rparr>"

theorem rs_params_effect_witness:
  "\<exists>w'. nativeSetRS485PortParams refposix (\<lambda>c. True) zero_termios jport0 19200 8 1 2 ref_sticky = (None, w')
    \<and> set_java_vars refposix Linux zero_termios (j_fd jport0) jport0 w' =
      (jport0\<lparr>j_speed := 19200, j_dataBits := 8, j_stopBits := 1, j_parity := 4\<rparr>, w')"
proof -
  have "ref_live (j_fd jport0) ref_sticky" "raw_mode (ref_attr (j_fd jport0) ref_sticky)"
    "c_cflag (ref_attr (j_fd jport0) ref_sticky) AND CMSPAR \<noteq> 0"
    by (simp_all add: ref_live_def ref_attr_def ref_sticky_def ref_dev0_def jport0_def ref_line0_def raw_mode_def
      zero_termios_def)
  moreover have "(19200, B19200) \<in> set rs_speed_cases" by (simp add: rs_speed_cases_def)
  ultimately show ?thesis
    using rs_params_effect [OF ref_tty_driver, of jport0 ref_sticky 19200 B19200 8 1 2 "\<lambda>c. True" zero_termios zero_termios]
    by auto
qed

text \<open>One round of the RS485 event loop in which every query succeeds sends, in this order: an output event when
  the line status is not 0; as many framing, overrun, parity and break events as the driver's counters
  advanced modulo 2^32; an event for each of CTS, DSR, RI and CD that differs from the round before; and a
  data event when input waits. Every event carries the value true, so a falling line is reported like a
  rising one. The counters and lines seen become the ones to compare with, and the loop goes on unless the
  thread was interrupted.\<close>

theorem rs_round_events:
  assumes "rs_select E left ef fd (Some (1, 0)) w = Done ((ret, tv), w1)" and "0 \<le> ret"
    and "tiocsergetlsr_op E fd change0 w1 = ((0, lsr), w2)"
    and "tiocgicount_op E fd (rs_osis m) w2 = ((0, sis), w3)"
    and "tiocmget_op E fd (rs_omflags m) w3 = ((0, mf), w4)" and "intr w4 = (i, w5)"
    and "\<And>a. fionread_op E fd a w5 = ((0, avail), w6)"
  shows "rs_eventLoop_iter E left intr ef change0 fd m w =
    Done ((\<not> i, m\<lparr>rs_osis := sis, rs_omflags := mf, rs_sent := rs_sent m
      @ (if lsr \<noteq> 0 then [(SPE_OUTPUT_BUFFER_EMPTY, True)] else [])
      @ replicate (unat (ic_frame sis - ic_frame (rs_osis m))) (SPE_FE, True)
      @ replicate (unat (ic_overrun sis - ic_overrun (rs_osis m))) (SPE_OE, True)
      @ replicate (unat (ic_parity sis - ic_parity (rs_osis m))) (SPE_PE, True)
      @ replicate (unat (ic_brk sis - ic_brk (rs_osis m))) (SPE_BI, True)
      @ map (\<lambda>(e, b). (e, True)) (filter (\<lambda>(e, b). mf AND b \<noteq> rs_omflags m AND b)
          [(SPE_CTS, TIOCM_CTS), (SPE_DSR, TIOCM_DSR), (SPE_RI, TIOCM_RNG), (SPE_CD, TIOCM_CD)])
      @ (if avail \<noteq> 0 then [(SPE_DATA_AVAILABLE, True)] else [])\<rparr>),
      if avail \<noteq> 0 then usleep_op E 1000 w6 else w6)"
  using assms by (simp add: rs_eventLoop_iter_def rs_count_events rs_changed_iff Let_def)

definition ref_counting :: "refdev posix" where
  \<comment> \<open>a driver whose framing counter has wrapped round\<close>
  "ref_counting = refposix\<lparr>tiocgicount_op := \<lambda>fd c w. ((0, \<lparr>ic_frame = 1, ic_overrun = 0, ic_parity = 4, ic_brk = 0\<rparr>), w)\<rparr>"

definition rs_mon0 :: rs_mon where
  "rs_mon0 = \<lparr>rs_osis = osis eis0, rs_omflags = TIOCM_CTS OR TIOCM_CD, rs_sent = []\<rparr>"

theorem rs_round_events_witness:
  "rs_eventLoop_iter ref_counting (\<lambda>w tv. tv) (\<lambda>w. (False, w)) 1 0 5 rs_mon0 ref_dev_data =
    Done ((True, \<lparr>rs_osis = \<lparr>ic_frame = 1, ic_overrun = 0, ic_parity = 4, ic_brk = 0\<rparr>, rs_omflags = TIOCM_CTS,
      rs_sent = [(SPE_OUTPUT_BUFFER_EMPTY, True), (SPE_FE, True), (SPE_FE, True), (SPE_CD, True), (SPE_DATA_AVAILABLE, True)]\<rparr>),
      ref_dev_data\<lparr>rd_time := 1\<rparr>)"
proof -
  have "rs_select ref_counting (\<lambda>w tv. tv) 1 5 (Some (1, 0)) ref_dev_data = Done ((1, Some (1, 0)), ref_dev_data)"
    "tiocsergetlsr_op ref_counting 5 0 ref_dev_data = ((0, 1), ref_dev_data)"
    "tiocgicount_op ref_counting 5 (rs_osis rs_mon0) ref_dev_data
      = ((0, \<lparr>ic_frame = 1, ic_overrun = 0, ic_parity = 4, ic_brk = 0\<rparr>), ref_dev_data)"
    "tiocmget_op ref_counting 5 (rs_omflags rs_mon0) ref_dev_data = ((0, TIOCM_CTS), ref_dev_data)"
    "fionread_op ref_counting 5 a ref_dev_data = ((0, 2), ref_dev_data)" for a
    by (simp_all add: ref_counting_def refposix_def ref_query_def ref_dev_data_def ref_dev0_def ref_line0_def)
  note facts = this
  have two: "replicate 2 x = [x, x]" for x :: "nat \<times> bool" by (simp add: numeral_2_eq_2)
  from rs_round_events [where intr = "\<lambda>w. (False, w)", OF facts(1) _ facts(2,3,4) refl facts(5)]
  show ?thesis
    by (simp add: rs_mon0_def eis0_def ref_counting_def refposix_def ref_dev_data_def ref_dev0_def ref_line0_def
      two)
qed

text \<open>\<open>send_modem_events\<close>, which nothing calls, would report a line that changed \<open>n\<close> times correctly: the values
  alternate and the last one is the line's state.\<close>

theorem send_modem_events_ends:
  assumes "0 < change"
  shows "last (send_modem_events event change state) = (event, state)
    \<and> (\<forall>i. Suc i < change \<longrightarrow>
        snd (send_modem_events event change state ! Suc i) \<noteq> snd (send_modem_events event change state ! i))"
  using assms by (simp add: send_modem_events_def last_conv_nth)

end
