(* ===== verification/I2C_Raw.thy ===== *)
theory I2C_Raw
  imports RS485
begin

text \<open>
  The I2C and raw ports (\<open>I2CImp.c\<close>, \<open>RawImp.c\<close>). Both files are copies of \<open>RS485Imp.c\<close>. The I2C port differs in
  writing: it has no transmitter to switch, and \<open>writeArray\<close> adds the offset a second time. The raw port
  differs in opening and closing, which ask for and give back three I/O ports, and has bus accesses of its
  own; as the class \<open>Raw\<close> has no field \<open>fd\<close>, its copies of the terminal methods work on what
  \<open>get_java_var\<close> returns for a missing field, which is descriptor 0.
\<close>

section \<open>The I2C port\<close>

definition i2c_open :: "'w posix \<Rightarrow> nat \<Rightarrow> (string \<Rightarrow> bool) \<Rightarrow> termios \<Rightarrow> string \<Rightarrow> 'w \<Rightarrow> ((int \<times> jexc option) \<times> 'w) run" where
  "i2c_open = rs_open"

definition i2c_nativeClose :: "'w posix \<Rightarrow> nat \<Rightarrow> jport \<Rightarrow> 'w \<Rightarrow> 'w run" where
  "i2c_nativeClose = rs_nativeClose"

definition nativeSetI2CPortParams :: "'w posix \<Rightarrow> (string \<Rightarrow> bool) \<Rightarrow> termios \<Rightarrow> jport \<Rightarrow> int \<Rightarrow> int \<Rightarrow> int \<Rightarrow> int \<Rightarrow> 'w
    \<Rightarrow> jexc option \<times> 'w" where
  "nativeSetI2CPortParams = set_line_params ''nativeSetI2CPortParams''"

definition i2c_writeByte :: "'w posix \<Rightarrow> nat \<Rightarrow> (string \<Rightarrow> bool) \<Rightarrow> jport \<Rightarrow> int \<Rightarrow> 'w \<Rightarrow> (jexc option \<times> 'w) run" where
  "i2c_writeByte E ef fc jp ji w =
     (case retry_eintr ef (errno_of E) (write_op E (j_fd jp) [word_of_int ji]) w of
        None \<Rightarrow> Hang
      | Some (result, w) \<Rightarrow> Done (if 0 \<le> result then None else io_error E fc ''writeByte'' w, w))"



definition i2c_setflowcontrol :: "'w posix \<Rightarrow> (string \<Rightarrow> bool) \<Rightarrow> termios \<Rightarrow> jport \<Rightarrow> u32 \<Rightarrow> 'w \<Rightarrow> jexc option \<times> 'w" where
  "i2c_setflowcontrol = rs_setflowcontrol"

definition i2c_readArray :: "'w posix \<Rightarrow> ('w \<Rightarrow> int \<times> int \<Rightarrow> int \<times> int) \<Rightarrow> nat \<Rightarrow> nat \<Rightarrow> (string \<Rightarrow> bool) \<Rightarrow> jport \<Rightarrow> u8 list \<Rightarrow> int
    \<Rightarrow> int \<Rightarrow> 'w \<Rightarrow> (((int \<times> jexc option) \<times> u8 list) \<times> 'w) run" where
  "i2c_readArray = rs_readArray"

definition i2c_eventLoop :: "'w posix \<Rightarrow> ('w \<Rightarrow> int \<times> int \<Rightarrow> int \<times> int) \<Rightarrow> ('w \<Rightarrow> bool \<times> 'w) \<Rightarrow> nat \<Rightarrow> nat \<Rightarrow> int \<Rightarrow> rs_mon \<Rightarrow> jport
    \<Rightarrow> 'w \<Rightarrow> (rs_mon \<times> 'w) run" where
  "i2c_eventLoop = rs_eventLoop"

text \<open>The methods that are the same text as those of the RS485 port.\<close>

definition i2c_translate_speed :: "(string \<Rightarrow> bool) \<Rightarrow> int \<Rightarrow> u32 \<times> jexc option" where
  "i2c_translate_speed = rs_translate_speed"

definition i2c_translate_data_bits :: "(string \<Rightarrow> bool) \<Rightarrow> u32 \<Rightarrow> int
    \<Rightarrow> (bool \<times> jexc option) \<times> u32" where
  "i2c_translate_data_bits = rs_translate_data_bits"

definition i2c_translate_stop_bits :: "(string \<Rightarrow> bool) \<Rightarrow> u32 \<Rightarrow> int
    \<Rightarrow> (bool \<times> jexc option) \<times> u32" where
  "i2c_translate_stop_bits = rs_translate_stop_bits"

definition i2c_translate_parity :: "(string \<Rightarrow> bool) \<Rightarrow> u32 \<Rightarrow> int
    \<Rightarrow> (bool \<times> jexc option) \<times> u32" where
  "i2c_translate_parity = rs_translate_parity"

definition i2c_drain :: "'w posix \<Rightarrow> (string \<Rightarrow> bool) \<Rightarrow> jport
    \<Rightarrow> 'w \<Rightarrow> jexc option \<times> 'w" where
  "i2c_drain = rs_drain"

definition i2c_sendBreak :: "'w posix \<Rightarrow> jport \<Rightarrow> int \<Rightarrow> 'w \<Rightarrow> 'w" where
  "i2c_sendBreak = rs_sendBreak"

definition i2c_NativegetReceiveTimeout :: "'w posix \<Rightarrow> (string \<Rightarrow> bool)
    \<Rightarrow> termios \<Rightarrow> jport \<Rightarrow> 'w \<Rightarrow> (int \<times> jexc option) \<times> 'w" where
  "i2c_NativegetReceiveTimeout = rs_NativegetReceiveTimeout"

definition i2c_NativeisReceiveTimeoutEnabled :: "'w posix \<Rightarrow> (string \<Rightarrow> bool)
    \<Rightarrow> termios \<Rightarrow> jport \<Rightarrow> 'w \<Rightarrow> (bool \<times> jexc option) \<times> 'w" where
  "i2c_NativeisReceiveTimeoutEnabled = rs_NativeisReceiveTimeoutEnabled"

definition i2c_isDSR :: "'w posix \<Rightarrow> jport \<Rightarrow> 'w \<Rightarrow> bool \<times> 'w" where
  "i2c_isDSR = rs_isDSR"

definition i2c_isCD :: "'w posix \<Rightarrow> jport \<Rightarrow> 'w \<Rightarrow> bool \<times> 'w" where
  "i2c_isCD = rs_isCD"

definition i2c_isCTS :: "'w posix \<Rightarrow> jport \<Rightarrow> 'w \<Rightarrow> bool \<times> 'w" where
  "i2c_isCTS = rs_isCTS"

definition i2c_isRI :: "'w posix \<Rightarrow> jport \<Rightarrow> 'w \<Rightarrow> bool \<times> 'w" where
  "i2c_isRI = rs_isRI"

definition i2c_isRTS :: "'w posix \<Rightarrow> jport \<Rightarrow> 'w \<Rightarrow> bool \<times> 'w" where
  "i2c_isRTS = rs_isRTS"

definition i2c_setRTS :: "'w posix \<Rightarrow> jport \<Rightarrow> bool \<Rightarrow> 'w \<Rightarrow> 'w" where
  "i2c_setRTS = rs_setRTS"

definition i2c_setDSR :: "'w posix \<Rightarrow> jport \<Rightarrow> bool \<Rightarrow> 'w \<Rightarrow> 'w" where
  "i2c_setDSR = rs_setDSR"

definition i2c_isDTR :: "'w posix \<Rightarrow> jport \<Rightarrow> 'w \<Rightarrow> bool \<times> 'w" where
  "i2c_isDTR = rs_isDTR"

definition i2c_setDTR :: "'w posix \<Rightarrow> jport \<Rightarrow> bool \<Rightarrow> 'w \<Rightarrow> 'w" where
  "i2c_setDTR = rs_setDTR"

definition i2c_read_byte_array :: "'w posix \<Rightarrow> ('w \<Rightarrow> int \<times> int
    \<Rightarrow> int \<times> int) \<Rightarrow> nat \<Rightarrow> nat \<Rightarrow> fd \<Rightarrow> int \<Rightarrow> int \<Rightarrow> 'w \<Rightarrow> ((int \<times> u8 list) \<times> 'w) run" where
  "i2c_read_byte_array = rs_read_byte_array"

definition i2c_NativeEnableReceiveTimeoutThreshold :: "'w posix \<Rightarrow> (string \<Rightarrow> bool)
    \<Rightarrow> termios \<Rightarrow> jport \<Rightarrow> int \<Rightarrow> int \<Rightarrow> 'w \<Rightarrow> jexc option \<times> 'w" where
  "i2c_NativeEnableReceiveTimeoutThreshold = rs_NativeEnableReceiveTimeoutThreshold"

definition i2c_readByte :: "'w posix \<Rightarrow> ('w \<Rightarrow> int \<times> int
    \<Rightarrow> int \<times> int) \<Rightarrow> nat \<Rightarrow> nat \<Rightarrow> (string \<Rightarrow> bool) \<Rightarrow> jport \<Rightarrow> 'w \<Rightarrow> ((int \<times> jexc option) \<times> 'w) run" where
  "i2c_readByte = rs_readByte"

definition i2c_nativeavailable :: "'w posix \<Rightarrow> (string \<Rightarrow> bool) \<Rightarrow> int
    \<Rightarrow> jport \<Rightarrow> 'w \<Rightarrow> (int \<times> jexc option) \<times> 'w" where
  "i2c_nativeavailable = rs_nativeavailable"

definition i2c_send_modem_events :: "nat \<Rightarrow> nat \<Rightarrow> bool \<Rightarrow> (nat \<times> bool) list" where
  "i2c_send_modem_events = send_modem_events"

definition i2c_IsDeviceGood :: "'w posix \<Rightarrow> string \<Rightarrow> bool \<Rightarrow> 'w
    \<Rightarrow> ((bool \<times> bool) \<times> 'w) run" where
  "i2c_IsDeviceGood = IsDeviceGood"

section \<open>The raw port\<close>

text \<open>The I/O port instructions, of the processor or of the C library.\<close>

record 'w io_ports =
  ioperm_op :: "int \<Rightarrow> int \<Rightarrow> bool \<Rightarrow> 'w \<Rightarrow> int \<times> 'w"
  inb_op :: "16 word \<Rightarrow> 'w \<Rightarrow> u8 \<times> 'w"
  inw_op :: "16 word \<Rightarrow> 'w \<Rightarrow> 16 word \<times> 'w"
  inl_op :: "16 word \<Rightarrow> 'w \<Rightarrow> u32 \<times> 'w"
  outb_op :: "u8 \<Rightarrow> 16 word \<Rightarrow> 'w \<Rightarrow> 'w"
  outl_op :: "u32 \<Rightarrow> 16 word \<Rightarrow> 'w \<Rightarrow> 'w"

definition raw_open :: "'w posix \<Rightarrow> 'w io_ports \<Rightarrow> (string \<Rightarrow> bool) \<Rightarrow> int \<Rightarrow> 'w \<Rightarrow> (int \<times> jexc option) \<times> 'w" where
  "raw_open E B fc ciAddress w =
     (let (r, w) = ioperm_op B ciAddress 3 True w in
      if r \<noteq> 0 then ((-1, io_error E fc ''open'' w), w) else ((0, None), w))"

definition raw_nativeClose :: "'w io_ports \<Rightarrow> (string \<Rightarrow> bool) \<Rightarrow> int \<Rightarrow> 'w \<Rightarrow> (int \<times> jexc option) \<times> 'w" where
  \<comment> \<open>\<open>ciAddress\<close> is the field of the Java object\<close>
  "raw_nativeClose B fc ciAddress w =
     (let (r, w) = ioperm_op B ciAddress 3 False w in
      if r \<noteq> 0 then ((-1, throw_java_exception fc IO_EXCEPTION ''close'' ''failed''), w) else ((0, None), w))"

definition Bus_read8 :: "'w io_ports \<Rightarrow> int \<Rightarrow> 'w \<Rightarrow> int \<times> 'w" where
  "Bus_read8 B piPort w = (let (v, w) = inb_op B (word_of_int piPort) w in (uint v, w))"

definition Bus_write8 :: "'w io_ports \<Rightarrow> int \<Rightarrow> int \<Rightarrow> 'w \<Rightarrow> 'w" where
  "Bus_write8 B piData piPort w = outb_op B (word_of_int piData) (word_of_int piPort) w"

definition Bus_read16 :: "'w io_ports \<Rightarrow> int \<Rightarrow> 'w \<Rightarrow> int \<times> 'w" where
  "Bus_read16 B piPort w = (let (v, w) = inw_op B (word_of_int piPort) w in (uint v, w))"

definition Bus_write16 :: "'w io_ports \<Rightarrow> int \<Rightarrow> int \<Rightarrow> 'w \<Rightarrow> 'w" where
  \<comment> \<open>\<open>outb((unsigned short) piData, ..)\<close>: \<open>outb\<close> takes an \<open>unsigned char\<close>\<close>
  "Bus_write16 B piPort piData w = outb_op B (ucast (word_of_int piData :: 16 word)) (word_of_int piPort) w"

definition Bus_read32 :: "'w io_ports \<Rightarrow> int \<Rightarrow> 'w \<Rightarrow> int \<times> 'w" where
  "Bus_read32 B piPort w = (let (v, w) = inl_op B (word_of_int piPort) w in (sint v, w))"

definition Bus_write32 :: "'w io_ports \<Rightarrow> int \<Rightarrow> int \<Rightarrow> 'w \<Rightarrow> 'w" where
  "Bus_write32 B piPort piData w = outl_op B (word_of_int piData) (word_of_int piPort) w"

definition raw_port :: "jport \<Rightarrow> jport" where
  \<comment> \<open>the fields as \<open>get_java_var\<close> reads them\<close>
  "raw_port jp = jp\<lparr>j_fd := 0\<rparr>"

definition nativeSetRawPortParams :: "'w posix \<Rightarrow> (string \<Rightarrow> bool) \<Rightarrow> termios \<Rightarrow> jport \<Rightarrow> int \<Rightarrow> int \<Rightarrow> int \<Rightarrow> int \<Rightarrow> 'w
    \<Rightarrow> jexc option \<times> 'w" where
  "nativeSetRawPortParams E fc t0 jp = set_line_params ''nativeSetRawPortParams'' E fc t0 (raw_port jp)"

definition raw_writeByte :: "'w posix \<Rightarrow> nat \<Rightarrow> (string \<Rightarrow> bool) \<Rightarrow> jport \<Rightarrow> int \<Rightarrow> 'w \<Rightarrow> (jexc option \<times> 'w) run" where
  "raw_writeByte E ef fc jp = i2c_writeByte E ef fc (raw_port jp)"

definition raw_writeArray :: "'w posix \<Rightarrow> nat \<Rightarrow> (string \<Rightarrow> bool) \<Rightarrow> jport \<Rightarrow> u8 list \<Rightarrow> int \<Rightarrow> int \<Rightarrow> 'w
    \<Rightarrow> (jexc option \<times> 'w) run" where
  "raw_writeArray E n fc jp body offset count w =
     (if count < 0 then Fault
      else run_bind (slice body offset count) (\<lambda>bytes.
        run_bind (rs_write_loop E n (j_fd (raw_port jp)) bytes 0 w) (\<lambda>(result, w).
        Done (if result < 0 then io_error E fc ''writeArray'' w else None, w))))"

text \<open>The methods that are the same text as those of the RS485 port, on the descriptor they read.\<close>

definition raw_translate_speed :: "(string \<Rightarrow> bool) \<Rightarrow> int \<Rightarrow> u32 \<times> jexc option" where
  "raw_translate_speed = rs_translate_speed"

definition raw_translate_data_bits :: "(string \<Rightarrow> bool) \<Rightarrow> u32 \<Rightarrow> int
    \<Rightarrow> (bool \<times> jexc option) \<times> u32" where
  "raw_translate_data_bits = rs_translate_data_bits"

definition raw_translate_stop_bits :: "(string \<Rightarrow> bool) \<Rightarrow> u32 \<Rightarrow> int
    \<Rightarrow> (bool \<times> jexc option) \<times> u32" where
  "raw_translate_stop_bits = rs_translate_stop_bits"

definition raw_translate_parity :: "(string \<Rightarrow> bool) \<Rightarrow> u32 \<Rightarrow> int
    \<Rightarrow> (bool \<times> jexc option) \<times> u32" where
  "raw_translate_parity = rs_translate_parity"

definition raw_drain :: "'w posix \<Rightarrow> (string \<Rightarrow> bool) \<Rightarrow> jport
    \<Rightarrow> 'w \<Rightarrow> jexc option \<times> 'w" where
  "raw_drain E fc jp = rs_drain E fc (raw_port jp)"

definition raw_sendBreak :: "'w posix \<Rightarrow> jport \<Rightarrow> int \<Rightarrow> 'w \<Rightarrow> 'w" where
  "raw_sendBreak E jp = rs_sendBreak E (raw_port jp)"

definition raw_NativegetReceiveTimeout :: "'w posix \<Rightarrow> (string \<Rightarrow> bool)
    \<Rightarrow> termios \<Rightarrow> jport \<Rightarrow> 'w \<Rightarrow> (int \<times> jexc option) \<times> 'w" where
  "raw_NativegetReceiveTimeout E fc t0 jp = rs_NativegetReceiveTimeout E fc t0 (raw_port jp)"

definition raw_NativeisReceiveTimeoutEnabled :: "'w posix \<Rightarrow> (string \<Rightarrow> bool)
    \<Rightarrow> termios \<Rightarrow> jport \<Rightarrow> 'w \<Rightarrow> (bool \<times> jexc option) \<times> 'w" where
  "raw_NativeisReceiveTimeoutEnabled E fc t0 jp = rs_NativeisReceiveTimeoutEnabled E fc t0 (raw_port jp)"

definition raw_isDSR :: "'w posix \<Rightarrow> jport \<Rightarrow> 'w \<Rightarrow> bool \<times> 'w" where
  "raw_isDSR E jp = rs_isDSR E (raw_port jp)"

definition raw_isCD :: "'w posix \<Rightarrow> jport \<Rightarrow> 'w \<Rightarrow> bool \<times> 'w" where
  "raw_isCD E jp = rs_isCD E (raw_port jp)"

definition raw_isCTS :: "'w posix \<Rightarrow> jport \<Rightarrow> 'w \<Rightarrow> bool \<times> 'w" where
  "raw_isCTS E jp = rs_isCTS E (raw_port jp)"

definition raw_isRI :: "'w posix \<Rightarrow> jport \<Rightarrow> 'w \<Rightarrow> bool \<times> 'w" where
  "raw_isRI E jp = rs_isRI E (raw_port jp)"

definition raw_isRTS :: "'w posix \<Rightarrow> jport \<Rightarrow> 'w \<Rightarrow> bool \<times> 'w" where
  "raw_isRTS E jp = rs_isRTS E (raw_port jp)"

definition raw_setRTS :: "'w posix \<Rightarrow> jport \<Rightarrow> bool \<Rightarrow> 'w \<Rightarrow> 'w" where
  "raw_setRTS E jp = rs_setRTS E (raw_port jp)"

definition raw_setDSR :: "'w posix \<Rightarrow> jport \<Rightarrow> bool \<Rightarrow> 'w \<Rightarrow> 'w" where
  "raw_setDSR E jp = rs_setDSR E (raw_port jp)"

definition raw_isDTR :: "'w posix \<Rightarrow> jport \<Rightarrow> 'w \<Rightarrow> bool \<times> 'w" where
  "raw_isDTR E jp = rs_isDTR E (raw_port jp)"

definition raw_setDTR :: "'w posix \<Rightarrow> jport \<Rightarrow> bool \<Rightarrow> 'w \<Rightarrow> 'w" where
  "raw_setDTR E jp = rs_setDTR E (raw_port jp)"

definition raw_read_byte_array :: "'w posix \<Rightarrow> ('w \<Rightarrow> int \<times> int
    \<Rightarrow> int \<times> int) \<Rightarrow> nat \<Rightarrow> nat \<Rightarrow> fd \<Rightarrow> int \<Rightarrow> int \<Rightarrow> 'w \<Rightarrow> ((int \<times> u8 list) \<times> 'w) run" where
  "raw_read_byte_array = rs_read_byte_array"

definition raw_NativeEnableReceiveTimeoutThreshold :: "'w posix \<Rightarrow> (string \<Rightarrow> bool)
    \<Rightarrow> termios \<Rightarrow> jport \<Rightarrow> int \<Rightarrow> int \<Rightarrow> 'w \<Rightarrow> jexc option \<times> 'w" where
  "raw_NativeEnableReceiveTimeoutThreshold E fc t0 jp = rs_NativeEnableReceiveTimeoutThreshold E fc t0 (raw_port jp)"

definition raw_readByte :: "'w posix \<Rightarrow> ('w \<Rightarrow> int \<times> int
    \<Rightarrow> int \<times> int) \<Rightarrow> nat \<Rightarrow> nat \<Rightarrow> (string \<Rightarrow> bool) \<Rightarrow> jport \<Rightarrow> 'w \<Rightarrow> ((int \<times> jexc option) \<times> 'w) run" where
  "raw_readByte E left n ef fc jp = rs_readByte E left n ef fc (raw_port jp)"

definition raw_nativeavailable :: "'w posix \<Rightarrow> (string \<Rightarrow> bool) \<Rightarrow> int
    \<Rightarrow> jport \<Rightarrow> 'w \<Rightarrow> (int \<times> jexc option) \<times> 'w" where
  "raw_nativeavailable E fc x0 jp = rs_nativeavailable E fc x0 (raw_port jp)"

definition raw_readArray :: "'w posix \<Rightarrow> ('w \<Rightarrow> int \<times> int
    \<Rightarrow> int \<times> int) \<Rightarrow> nat \<Rightarrow> nat \<Rightarrow> (string \<Rightarrow> bool) \<Rightarrow> jport \<Rightarrow> u8 list \<Rightarrow> int \<Rightarrow> int \<Rightarrow> 'w \<Rightarrow> (((int \<times> jexc option) \<times> u8 list) \<times> 'w) run" where
  "raw_readArray E left n ef fc jp = rs_readArray E left n ef fc (raw_port jp)"

definition raw_setflowcontrol :: "'w posix \<Rightarrow> (string \<Rightarrow> bool) \<Rightarrow> termios
    \<Rightarrow> jport \<Rightarrow> u32 \<Rightarrow> 'w \<Rightarrow> jexc option \<times> 'w" where
  "raw_setflowcontrol E fc t0 jp = rs_setflowcontrol E fc t0 (raw_port jp)"

definition raw_eventLoop :: "'w posix \<Rightarrow> ('w \<Rightarrow> int \<times> int
    \<Rightarrow> int \<times> int) \<Rightarrow> ('w \<Rightarrow> bool \<times> 'w) \<Rightarrow> nat \<Rightarrow> nat \<Rightarrow> int \<Rightarrow> rs_mon \<Rightarrow> jport \<Rightarrow> 'w \<Rightarrow> (rs_mon \<times> 'w) run" where
  "raw_eventLoop E left intr n ef x0 m0 jp = rs_eventLoop E left intr n ef x0 m0 (raw_port jp)"

definition raw_send_modem_events :: "nat \<Rightarrow> nat \<Rightarrow> bool \<Rightarrow> (nat \<times> bool) list" where
  "raw_send_modem_events = send_modem_events"

definition raw_IsDeviceGood :: "'w posix \<Rightarrow> string \<Rightarrow> bool \<Rightarrow> 'w
    \<Rightarrow> ((bool \<times> bool) \<times> 'w) run" where
  "raw_IsDeviceGood = IsDeviceGood"

section \<open>Properties\<close>


lemma write_loop_report:
  assumes "bytes \<noteq> []"
  shows "run_bind (rs_write_loop E n fd bytes 0 w) (\<lambda>(result, w). Done (if result < 0 then e w else None, w))
    = (case rs_write_loop E n fd bytes 0 w of Done (r, w') \<Rightarrow> Done (None, w') | _ \<Rightarrow> Hang)"
  using rs_write_loop_done [of 0 bytes E n fd w] rs_write_loop_no_fault [of E n fd bytes 0 w] assms
  by (cases "rs_write_loop E n fd bytes 0 w") auto

lemma write_loop_failing:
  assumes "\<And>bs w. fst (write_op E fd bs w) \<le> 0" and "tot < length bytes"
  shows "rs_write_loop E n fd bytes tot w = Hang"
  using assms(2)
proof (induction n arbitrary: w)
  case (Suc n)
  then show ?case using assms(1) [of "drop tot bytes" w] by (auto simp: Let_def not_less split: prod.splits)
qed simp



text \<open>On the raw port a write that fails for good is repeated for ever instead of being reported.\<close>

theorem raw_write_error_hangs:
  assumes "0 < count" and "0 \<le> off" and "off + count \<le> int (length body)"
    and "\<And>bs w. fst (write_op E 0 bs w) \<le> 0"
  shows "raw_writeArray E n fc jp body off count w = Hang"
  using assms
  by (simp add: raw_writeArray_def raw_port_def slice_in_range write_loop_report write_loop_failing)

definition ref_broken :: "refdev posix" where
  "ref_broken = refposix\<lparr>write_op := \<lambda>fd bs w. (-1, ref_err EIO w)\<rparr>"

theorem raw_write_error_hangs_witness:
  "\<forall>n. raw_writeArray ref_broken n (\<lambda>c. True) jport0 [1, 2, 3] 1 2 ref_dev0 = Hang"
  using raw_write_error_hangs [of 2 1 "[1, 2, 3]" ref_broken] by (simp add: ref_broken_def)

text \<open>A 16 bit write to the bus is an 8 bit write with its arguments in the other order.\<close>

theorem Bus_write16_is_write8: "Bus_write16 B piPort piData = Bus_write8 B piData piPort"
proof -
  have "ucast (word_of_int piData :: 16 word) = (word_of_int piData :: u8)"
    by (simp add: unsigned_of_int word_of_int_eq_iff)
  then show ?thesis by (simp add: fun_eq_iff Bus_write16_def Bus_write8_def)
qed

text \<open>The terminal methods of the raw port do not depend on the port: whatever descriptor the object might have, they work on
  standard input.\<close>

theorem raw_ignores_port:
  "raw_drain E fc (jp\<lparr>j_fd := fd\<rparr>) = rs_drain E fc (jp\<lparr>j_fd := 0\<rparr>)"
  "raw_readByte E left n ef fc (jp\<lparr>j_fd := fd\<rparr>) = rs_readByte E left n ef fc (jp\<lparr>j_fd := 0\<rparr>)"
  "raw_readArray E left n ef fc (jp\<lparr>j_fd := fd\<rparr>) = rs_readArray E left n ef fc (jp\<lparr>j_fd := 0\<rparr>)"
  "raw_nativeavailable E fc x (jp\<lparr>j_fd := fd\<rparr>) = rs_nativeavailable E fc x (jp\<lparr>j_fd := 0\<rparr>)"
  "raw_setDTR E (jp\<lparr>j_fd := fd\<rparr>) = rs_setDTR E (jp\<lparr>j_fd := 0\<rparr>)"
  "raw_setRTS E (jp\<lparr>j_fd := fd\<rparr>) = rs_setRTS E (jp\<lparr>j_fd := 0\<rparr>)"
  by (simp_all add: raw_drain_def raw_readByte_def raw_readArray_def raw_nativeavailable_def raw_setDTR_def raw_setRTS_def
    raw_port_def)

end
