(* ===== verification/Parallel.thy ===== *)
theory Parallel
  imports RS485
begin

text \<open>
  The parallel port (\<open>ParallelImp.c\<close>), for Linux and Windows: printer status, writing, reading and the event
  loop. The calls it makes beyond those of \<open>posix\<close> are a record \<open>lp_env\<close>: the status request of the \<open>lp\<close>
  driver and, on Windows, the file and device calls. Descriptors are handles there.
\<close>

section \<open>The environment\<close>

record lp_timeouts =
  lp_WriteTotalTimeoutMultiplier :: int
  lp_WriteTotalTimeoutConstant :: int

record 'w lp_env =
  lp_open_op :: "string \<Rightarrow> 'w \<Rightarrow> int \<times> 'w"
  lpgetstatus_op :: "fd \<Rightarrow> u32 \<Rightarrow> 'w \<Rightarrow> (int \<times> u32) \<times> 'w"
  lp_CreateFile_op :: "string \<Rightarrow> 'w \<Rightarrow> int \<times> 'w"
  lp_CloseHandle_op :: "fd \<Rightarrow> 'w \<Rightarrow> 'w"
  lp_WriteFile_op :: "fd \<Rightarrow> u8 list \<Rightarrow> 'w \<Rightarrow> (bool \<times> nat) \<times> 'w"
  lp_ReadFile_op :: "fd \<Rightarrow> int \<Rightarrow> 'w \<Rightarrow> (bool \<times> u8 list) \<times> 'w"
  lp_QueryInformation_op :: "fd \<Rightarrow> u32 \<Rightarrow> 'w \<Rightarrow> (bool \<times> u32 \<times> nat) \<times> 'w"
  lp_GetCommTimeouts_op :: "fd \<Rightarrow> lp_timeouts \<Rightarrow> 'w \<Rightarrow> lp_timeouts"
  lp_SetCommTimeouts_op :: "fd \<Rightarrow> lp_timeouts \<Rightarrow> 'w \<Rightarrow> 'w"
  lp_Sleep_op :: "int \<Rightarrow> 'w \<Rightarrow> 'w"
  lp_FormatMessage_op :: "'w \<Rightarrow> string"

record jlpr = jport +
  j_threshold :: int

text \<open>The bits of \<open>linux/lp.h\<close> and of the Windows parallel driver that the code tests.\<close>

abbreviation (input) LP_SELEC :: u32 where "LP_SELEC \<equiv> 0x2"
abbreviation (input) LP_BUSY :: u32 where "LP_BUSY \<equiv> 0x4"
abbreviation (input) LP_NOPA :: u32 where "LP_NOPA \<equiv> 0x10"
abbreviation (input) LP_ERR :: u32 where "LP_ERR \<equiv> 0x20"
abbreviation (input) PARALLEL_PAPER_EMPTY :: u32 where "PARALLEL_PAPER_EMPTY \<equiv> 0x4"
abbreviation (input) PARALLEL_OFF_LINE :: u32 where "PARALLEL_OFF_LINE \<equiv> 0x8"
abbreviation (input) PARALLEL_POWER_OFF :: u32 where "PARALLEL_POWER_OFF \<equiv> 0x10"
abbreviation (input) PARALLEL_NOT_CONNECTED :: u32 where "PARALLEL_NOT_CONNECTED \<equiv> 0x20"
abbreviation (input) PARALLEL_BUSY :: u32 where "PARALLEL_BUSY \<equiv> 0x40"
abbreviation (input) PARALLEL_SELECTED :: u32 where "PARALLEL_SELECTED \<equiv> 0x80"
abbreviation (input) PAR_EV_ERROR :: nat where "PAR_EV_ERROR \<equiv> 1"

section \<open>Exceptions and modes\<close>

definition lpr_text :: "platform \<Rightarrow> string \<Rightarrow> string \<Rightarrow> string" where
  \<comment> \<open>what is printed into \<open>buf[128]\<close>: by \<open>snprintf\<close> with 60 on Linux, by \<open>sprintf\<close> on Windows, after a long
    message has been cut\<close>
  "lpr_text p foo msg =
     (let msg = (if 128 < length msg + length foo + 5 then take (128 - length foo - 5) msg else msg);
          text = msg @ '' in '' @ foo
      in if p = Linux then take 59 text else text)"

definition lpr_throw :: "platform \<Rightarrow> (string \<Rightarrow> bool) \<Rightarrow> string \<Rightarrow> string \<Rightarrow> string \<Rightarrow> jexc option" where
  "lpr_throw p fc exc foo msg = (if \<not> fc exc then None else Some (JExc exc (lpr_text p foo msg)))"

definition lpr_throw_system_msg :: "'w posix \<Rightarrow> 'w lp_env \<Rightarrow> platform \<Rightarrow> (string \<Rightarrow> bool) \<Rightarrow> string \<Rightarrow> string \<Rightarrow> 'w \<Rightarrow> jexc option" where
  "lpr_throw_system_msg E L p fc exc foo w =
     lpr_throw p fc exc foo (if p = Win32 then lp_FormatMessage_op L w else strerror_of E (errno_of E w))"

definition setLPRMode :: "platform \<Rightarrow> (string \<Rightarrow> bool) \<Rightarrow> int \<Rightarrow> bool \<times> jexc option" where
  "setLPRMode p fc mode =
     (True, if mode = 0 then None
            else lpr_throw p fc RS_UNSUPPORTED ''nativeSetSerialPortParams''
              (''setLPRMode was unable to proced the requested '' @ replicate 4 (CHR 0x09) @ ''mode''))"

section \<open>Printer status\<close>

definition getWin32ParallelStatusFlags :: "'w lp_env \<Rightarrow> fd \<Rightarrow> 'w \<Rightarrow> u32 \<times> 'w" where
  \<comment> \<open>\<open>!DeviceIoControl(..) && count == 1\<close>\<close>
  "getWin32ParallelStatusFlags L fd w =
     (let ((ok, status, count), w) = lp_QueryInformation_op L fd 0 w in
      if \<not> ok \<and> count = 1 then (0, w) else (status, w))"

definition getWin32ParallelStatus :: "'w lp_env \<Rightarrow> fd \<Rightarrow> u32 \<Rightarrow> 'w \<Rightarrow> bool \<times> 'w" where
  "getWin32ParallelStatus L fd flag w = (let (s, w) = getWin32ParallelStatusFlags L fd w in (s AND flag \<noteq> 0, w))"

definition lp_status_bit :: "'w lp_env \<Rightarrow> fd \<Rightarrow> u32 \<Rightarrow> u32 \<Rightarrow> 'w \<Rightarrow> bool \<times> 'w" where
  \<comment> \<open>\<open>status0\<close> is the uninitialised local, which a failing request leaves as it is\<close>
  "lp_status_bit L fd status0 flag w = (let ((_, status), w) = lpgetstatus_op L fd status0 w in (status AND flag \<noteq> 0, w))"

definition isPaperOut :: "'w lp_env \<Rightarrow> platform \<Rightarrow> u32 \<Rightarrow> jlpr \<Rightarrow> 'w \<Rightarrow> bool \<times> 'w" where
  "isPaperOut L p status0 jp w =
     (if p = Linux then lp_status_bit L (j_fd jp) status0 LP_NOPA w
      else getWin32ParallelStatus L (j_fd jp) PARALLEL_PAPER_EMPTY w)"

definition isPrinterBusy :: "'w lp_env \<Rightarrow> platform \<Rightarrow> u32 \<Rightarrow> jlpr \<Rightarrow> 'w \<Rightarrow> bool \<times> 'w" where
  "isPrinterBusy L p status0 jp w =
     (if p = Linux then lp_status_bit L (j_fd jp) status0 LP_BUSY w
      else getWin32ParallelStatus L (j_fd jp) PARALLEL_BUSY w)"

definition isPrinterError :: "'w lp_env \<Rightarrow> platform \<Rightarrow> u32 \<Rightarrow> jlpr \<Rightarrow> 'w \<Rightarrow> bool \<times> 'w" where
  "isPrinterError L p status0 jp w =
     (if p = Linux then lp_status_bit L (j_fd jp) status0 LP_ERR w
      else getWin32ParallelStatus L (j_fd jp) (PARALLEL_PAPER_EMPTY OR PARALLEL_OFF_LINE OR PARALLEL_POWER_OFF
        OR PARALLEL_NOT_CONNECTED OR PARALLEL_BUSY) w)"

definition isPrinterSelected :: "'w lp_env \<Rightarrow> platform \<Rightarrow> u32 \<Rightarrow> jlpr \<Rightarrow> 'w \<Rightarrow> bool \<times> 'w" where
  "isPrinterSelected L p status0 jp w =
     (if p = Linux then lp_status_bit L (j_fd jp) status0 LP_SELEC w
      else getWin32ParallelStatus L (j_fd jp) PARALLEL_SELECTED w)"

definition isPrinterTimedOut :: "'w lp_env \<Rightarrow> platform \<Rightarrow> u32 \<Rightarrow> jlpr \<Rightarrow> 'w \<Rightarrow> bool \<times> 'w" where
  "isPrinterTimedOut L p status0 jp w =
     (if p = Linux then lp_status_bit L (j_fd jp) status0 LP_BUSY w else (False, w))"

section \<open>Opening, closing, writing\<close>

definition lpr_open :: "'w posix \<Rightarrow> 'w lp_env \<Rightarrow> platform \<Rightarrow> (string \<Rightarrow> bool) \<Rightarrow> string \<Rightarrow> 'w \<Rightarrow> (int \<times> jexc option) \<times> 'w" where
  "lpr_open E L p fc filename w =
     (let (fd, w) = (if p = Win32 then lp_CreateFile_op L filename w else lp_open_op L filename w) in
      if fd < 0 then ((-1, lpr_throw_system_msg E L p fc PORT_IN_USE_EXCEPTION ''open'' w), w) else ((fd, None), w))"

definition lpr_nativeClose :: "'w posix \<Rightarrow> 'w lp_env \<Rightarrow> platform \<Rightarrow> jlpr \<Rightarrow> 'w \<Rightarrow> 'w" where
  "lpr_nativeClose E L p jp w = (if p = Win32 then lp_CloseHandle_op L (j_fd jp) w else snd (close_op E (j_fd jp) w))"

definition lpr_writeByte :: "'w posix \<Rightarrow> 'w lp_env \<Rightarrow> platform \<Rightarrow> (string \<Rightarrow> bool) \<Rightarrow> jlpr \<Rightarrow> int \<Rightarrow> 'w \<Rightarrow> jexc option \<times> 'w" where
  \<comment> \<open>on Windows the truth value that \<open>WriteFile\<close> returns is compared with \<open>< 0\<close>\<close>
  "lpr_writeByte E L p fc jp ji w =
     (if p = Win32
      then let ((ok, _), w) = lp_WriteFile_op L (j_fd jp) [word_of_int ji] w in
        if (if ok then 1 else 0 :: int) < 0 then (None, w)
        else (lpr_throw_system_msg E L p fc IO_EXCEPTION ''writeByte'' w, w)
      else let (r, w) = write_op E (j_fd jp) [word_of_int ji] w in
        if 0 \<le> r then (None, w) else (lpr_throw_system_msg E L p fc IO_EXCEPTION ''writeByte'' w, w))"




section \<open>Reading\<close>

fun lpr_read_loop :: "'w posix \<Rightarrow> 'w lp_env \<Rightarrow> platform \<Rightarrow> ('w \<Rightarrow> int \<times> int \<Rightarrow> int \<times> int) \<Rightarrow> nat \<Rightarrow> nat \<Rightarrow> fd \<Rightarrow> int \<Rightarrow> int \<Rightarrow> int
    \<Rightarrow> (int \<times> int) \<Rightarrow> int \<Rightarrow> u8 list \<Rightarrow> 'w \<Rightarrow> ((int \<times> u8 list) \<times> 'w) run" where
  \<comment> \<open>\<open>while (bytes < length && bytes < threshold)\<close>\<close>
  "lpr_read_loop E L p left 0 ef fd len threshold timeout tv bytes buf w = Hang"
| "lpr_read_loop E L p left (Suc n) ef fd len threshold timeout tv bytes buf w =
     (if \<not> (bytes < len \<and> bytes < threshold) then Done ((bytes, buf), w)
      else run_bind (if 0 < timeout then rs_select E left ef fd (Some tv) w else Done ((1, Some tv), w)) (\<lambda>((ret, tv'), w).
        if ret = 0 then Done ((bytes, buf), w)
        else if ret < 0 then Done ((-1, buf), w)
        else let ((ret, bs), w) = (if p = Win32
                  then (let ((ok, bs), w) = lp_ReadFile_op L fd (len - bytes) w in ((if ok then int (length bs) else -1, bs), w))
                  else read_op E fd (len - bytes) w) in
        if ret = 0 then Done ((bytes, buf), w)
        else if ret < 0 then Done ((-1, buf), w)
        else lpr_read_loop E L p left n ef fd len threshold timeout (case tv' of None \<Rightarrow> tv | Some t \<Rightarrow> t) (bytes + ret) (buf @ bs) w))"

definition lpr_read_byte_array :: "'w posix \<Rightarrow> 'w lp_env \<Rightarrow> platform \<Rightarrow> ('w \<Rightarrow> int \<times> int \<Rightarrow> int \<times> int) \<Rightarrow> nat \<Rightarrow> nat \<Rightarrow> fd \<Rightarrow> int
    \<Rightarrow> int \<Rightarrow> int \<Rightarrow> 'w \<Rightarrow> ((int \<times> u8 list) \<times> 'w) run" where
  "lpr_read_byte_array E L p left n ef fd len threshold timeout w =
     lpr_read_loop E L p left n ef fd len threshold timeout (timeout sdiv 1000, 1000 * (timeout smod 1000)) 0 [] w"

definition lpr_readByte :: "'w posix \<Rightarrow> 'w lp_env \<Rightarrow> platform \<Rightarrow> ('w \<Rightarrow> int \<times> int \<Rightarrow> int \<times> int) \<Rightarrow> nat \<Rightarrow> nat \<Rightarrow> (string \<Rightarrow> bool) \<Rightarrow> jlpr \<Rightarrow> 'w
    \<Rightarrow> ((int \<times> jexc option) \<times> 'w) run" where
  "lpr_readByte E L p left n ef fc jp w =
     run_bind (lpr_read_byte_array E L p left n ef (j_fd jp) 1 1 (j_timeout jp) w) (\<lambda>((bytes, buf), w).
     if bytes < 0 then Done ((-1, lpr_throw_system_msg E L p fc IO_EXCEPTION ''readByte'' w), w)
     else Done ((if bytes \<noteq> 0 \<and> buf \<noteq> [] then uint (hd buf) else -1, None), w))"

definition lpr_readArray :: "'w posix \<Rightarrow> 'w lp_env \<Rightarrow> platform \<Rightarrow> ('w \<Rightarrow> int \<times> int \<Rightarrow> int \<times> int) \<Rightarrow> nat \<Rightarrow> nat \<Rightarrow> (string \<Rightarrow> bool) \<Rightarrow> jlpr
    \<Rightarrow> u8 list \<Rightarrow> int \<Rightarrow> int \<Rightarrow> 'w \<Rightarrow> (((int \<times> jexc option) \<times> u8 list) \<times> 'w) run" where
  \<comment> \<open>the timeout is read from the field \<open>threshold\<close>\<close>
  "lpr_readArray E L p left n ef fc jp body offset len w =
     (if len < 1 then Done (((-1, lpr_throw p fc IO_EXCEPTION ''readArray'' ''Invalid length''), body), w)
      else run_bind (lpr_read_byte_array E L p left n ef (j_fd jp) len (j_threshold jp) (j_threshold jp) w) (\<lambda>((bytes, buf), w).
        if bytes < 0 then Done (((-1, lpr_throw_system_msg E L p fc IO_EXCEPTION ''readArray'' w), body), w)
        else run_bind (store_at body offset buf) (\<lambda>body. Done (((if bytes \<noteq> 0 then bytes else -1, None), body), w))))"

definition lpr_nativeavailable :: "'w posix \<Rightarrow> 'w lp_env \<Rightarrow> platform \<Rightarrow> (string \<Rightarrow> bool) \<Rightarrow> int \<Rightarrow> jlpr \<Rightarrow> 'w \<Rightarrow> (int \<times> jexc option) \<times> 'w" where
  "lpr_nativeavailable E L p fc result0 jp w =
     (let ((r, result), w) = fionread_op E (j_fd jp) result0 w in
      if r < 0 \<or> result = -1 then ((result, lpr_throw_system_msg E L p fc IO_EXCEPTION ''nativeavailable'' w), w)
      else ((result, None), w))"

section \<open>Events\<close>

definition lp_events :: "platform \<Rightarrow> u32 \<Rightarrow> (nat \<times> bool) list" where
  "lp_events p pflags =
     (if p = Win32 then (if pflags AND PARALLEL_BUSY \<noteq> 0 then [(PAR_EV_ERROR, True)] else [])
      else (if pflags AND LP_BUSY \<noteq> 0 then [(PAR_EV_ERROR, True)] else [])
        @ (if pflags AND LP_NOPA \<noteq> 0 then [(PAR_EV_ERROR, True)] else [])
        @ (if pflags AND LP_SELEC \<noteq> 0 then [(PAR_EV_ERROR, True)] else [])
        @ (if pflags AND LP_ERR \<noteq> 0 then [(PAR_EV_ERROR, True)] else []))"

definition lpr_round :: "'w posix \<Rightarrow> 'w lp_env \<Rightarrow> platform \<Rightarrow> ('w \<Rightarrow> int \<times> int \<Rightarrow> int \<times> int) \<Rightarrow> ('w \<Rightarrow> bool \<times> 'w) \<Rightarrow> nat \<Rightarrow> fd \<Rightarrow> u32
    \<Rightarrow> (nat \<times> bool) list \<Rightarrow> 'w \<Rightarrow> ((bool \<times> u32 \<times> (nat \<times> bool) list) \<times> 'w) run" where
  \<comment> \<open>one round: whether the loop goes on, the status word and the events sent so far\<close>
  "lpr_round E L p left intr ef fd pflags sent w =
     run_bind (rs_select E left ef fd (Some (1, 0)) w) (\<lambda>((ret, _), w).
     if ret < 0 then Done ((False, pflags, sent), w)
     else let (interrupted, w) = intr w in
     if interrupted then Done ((False, pflags, sent), w)
     else let (pflags, w) = (if p = Win32 then getWin32ParallelStatusFlags L fd w
            else let ((_, s), w) = lpgetstatus_op L fd pflags w in (s, w))
          in Done ((True, pflags, sent @ lp_events p pflags), usleep_op E 1000 w))"

fun lpr_loop :: "'w posix \<Rightarrow> 'w lp_env \<Rightarrow> platform \<Rightarrow> ('w \<Rightarrow> int \<times> int \<Rightarrow> int \<times> int) \<Rightarrow> ('w \<Rightarrow> bool \<times> 'w) \<Rightarrow> nat \<Rightarrow> nat \<Rightarrow> fd \<Rightarrow> u32
    \<Rightarrow> (nat \<times> bool) list \<Rightarrow> 'w \<Rightarrow> ((nat \<times> bool) list \<times> 'w) run" where
  "lpr_loop E L p left intr 0 ef fd pflags sent w = Hang"
| "lpr_loop E L p left intr (Suc n) ef fd pflags sent w =
     run_bind (lpr_round E L p left intr ef fd pflags sent w) (\<lambda>((go, pflags, sent), w).
     if go then lpr_loop E L p left intr n ef fd pflags sent w else Done (sent, w))"

definition lpr_eventLoop :: "'w posix \<Rightarrow> 'w lp_env \<Rightarrow> platform \<Rightarrow> ('w \<Rightarrow> int \<times> int \<Rightarrow> int \<times> int) \<Rightarrow> ('w \<Rightarrow> bool \<times> 'w) \<Rightarrow> nat \<Rightarrow> nat \<Rightarrow> jlpr
    \<Rightarrow> 'w \<Rightarrow> ((nat \<times> bool) list \<times> 'w) run" where
  "lpr_eventLoop E L p left intr n ef jp w =
     (let (interrupted, w) = intr w in
      if interrupted then Done ([], w) else lpr_loop E L p left intr n ef (j_fd jp) 0 [] w)"

section \<open>Writing on Windows\<close>






section \<open>Reading from a byte source\<close>

context byte_source
begin

lemma lpr_wait_quiet:
  assumes "live fd w" and "(if 0 < timeout then rs_select E left ef fd (Some tv) w else Done ((1, Some tv), w)) = Done (r, w')"
  shows "live fd w' \<and> consumed fd w' = consumed fd w"
  using assms rs_select_quiet by (auto split: if_splits)

lemma lpr_read_loop_stream:
  assumes "live fd w" and "bytes = int (length buf)" and "bytes \<le> len" and "nat (len - bytes) < n"
    and "\<And>w tv. rs_select E left ef fd tv w \<noteq> Hang"
  shows "\<exists>r new w'. lpr_read_loop E L Linux left n ef fd len threshold timeout tv bytes buf w = Done ((r, buf @ new), w')
    \<and> live fd w' \<and> consumed fd w' = consumed fd w @ new
    \<and> (r = -1 \<or> r = bytes + int (length new) \<and> r \<le> len)"
  using assms(1-4)
proof (induction n arbitrary: tv bytes buf w)
  case (Suc n)
  show ?case
  proof (cases "bytes < len \<and> bytes < threshold")
    case False
    with Suc.prems show ?thesis by (auto intro!: exI [of _ "[]"])
  next
    case lt: True
    let ?wait = "if 0 < timeout then rs_select E left ef fd (Some tv) w else Done ((1, Some tv), w)"
    obtain ret tv1 w1 where sel: "?wait = Done ((ret, tv1), w1)"
      using assms(5) [of "Some tv" w] rs_select_no_fault [of E left ef fd "Some tv" w]
      by (cases "rs_select E left ef fd (Some tv) w"; cases "0 < timeout") auto
    have w1: "live fd w1" "consumed fd w1 = consumed fd w" using lpr_wait_quiet [OF Suc.prems(1) sel] by simp_all
    obtain rr bs w2 where rd: "read_op E fd (len - bytes) w1 = ((rr, bs), w2)" by (metis surj_pair)
    have w2: "live fd w2" "consumed fd w2 = consumed fd w @ bs" "int (length bs) = max rr 0" "rr \<le> len - bytes"
      using read_bytes [OF w1(1) _ rd] lt w1(2) by auto
    define tv2 where "tv2 = (case tv1 of None \<Rightarrow> tv | Some t \<Rightarrow> t)"
    have unf: "lpr_read_loop E L Linux left (Suc n) ef fd len threshold timeout tv bytes buf w =
      (if ret = 0 then Done ((bytes, buf), w1) else if ret < 0 then Done ((-1, buf), w1)
       else if rr = 0 then Done ((bytes, buf), w2) else if rr < 0 then Done ((-1, buf), w2)
       else lpr_read_loop E L Linux left n ef fd len threshold timeout tv2 (bytes + rr) (buf @ bs) w2)"
      using lt rd by (simp add: sel tv2_def del: split_paired_All)
    show ?thesis
    proof (cases "0 < ret \<and> 0 < rr")
      case True
      then have "nat (len - (bytes + rr)) < n" using Suc.prems(4) lt by linarith
      with True obtain r new w' where "lpr_read_loop E L Linux left n ef fd len threshold timeout tv2 (bytes + rr) (buf @ bs) w2
          = Done ((r, (buf @ bs) @ new), w')" "live fd w'" "consumed fd w' = consumed fd w2 @ new"
          "r = -1 \<or> r = bytes + rr + int (length new) \<and> r \<le> len"
        using Suc.IH [OF w2(1), of "bytes + rr" "buf @ bs" tv2] w2 Suc.prems lt by auto
      with True w2 show ?thesis unfolding unf by (auto intro!: exI [of _ "bs @ new"])
    next
      case False
      with w2 have "bs = [] \<or> ret \<le> 0" by auto
      with False w1 w2 Suc.prems show ?thesis unfolding unf by (auto intro!: exI [of _ "[]"])
    qed
  qed
qed simp

end

section \<open>The printer's status\<close>

text \<open>
  What \<open>LPGETSTATUS\<close> stores, as \<open>linux/lp.h\<close> documents it: the status port of the interface, with the busy and
  error lines inverted and three low bits that belong to no line.
\<close>

record printer =
  pr_busy :: bool
  pr_ack :: bool
  pr_paper_out :: bool
  pr_selected :: bool
  pr_error :: bool

definition status_port :: "printer \<Rightarrow> u32 \<Rightarrow> u32" where
  "status_port pr low =
     (if pr_busy pr then 0 else 0x80) OR (if pr_ack pr then 0 else 0x40) OR (if pr_paper_out pr then 0x20 else 0)
     OR (if pr_selected pr then 0x10 else 0) OR (if pr_error pr then 0 else 0x8) OR (low AND 0x7)"

lemma status_port_bits:
  "status_port pr low AND LP_NOPA \<noteq> 0 \<longleftrightarrow> pr_selected pr"
  "status_port pr low AND LP_ERR \<noteq> 0 \<longleftrightarrow> pr_paper_out pr"
  "status_port pr low AND LP_BUSY = low AND LP_BUSY"
  "status_port pr low AND LP_SELEC = low AND LP_SELEC"
  by (simp_all add: status_port_def bitfield)

section \<open>Properties\<close>

text \<open>C36. The printer status is misread on Linux. \<open>LPGETSTATUS\<close> stores the status port, and the code tests it with
  the constants for the driver's own flags: \<open>isPaperOut\<close> answers whether the printer is selected,
  \<open>isPrinterError\<close> whether paper is out, and \<open>isPrinterBusy\<close>, \<open>isPrinterTimedOut\<close> and \<open>isPrinterSelected\<close>
  answer with bits that belong to no line, whatever state the printer is in.\<close>

theorem printer_status_misread:
  assumes "lpgetstatus_op L (j_fd jp) s0 w = ((0, status_port pr low), w')"
  shows "isPaperOut L Linux s0 jp w = (pr_selected pr, w')
    \<and> isPrinterError L Linux s0 jp w = (pr_paper_out pr, w')
    \<and> isPrinterBusy L Linux s0 jp w = (low AND LP_BUSY \<noteq> 0, w')
    \<and> isPrinterTimedOut L Linux s0 jp w = (low AND LP_BUSY \<noteq> 0, w')
    \<and> isPrinterSelected L Linux s0 jp w = (low AND LP_SELEC \<noteq> 0, w')"
  using assms status_port_bits [of pr low]
  by (simp add: isPaperOut_def isPrinterError_def isPrinterBusy_def isPrinterTimedOut_def isPrinterSelected_def
    lp_status_bit_def)

definition reflp :: "printer \<Rightarrow> refdev lp_env" where
  \<comment> \<open>a printer behind the reference kernel that takes at most two bytes at a time\<close>
  "reflp pr = \<lparr>lp_open_op = (\<lambda>name w. (-1, ref_err ENOENT w)), lpgetstatus_op = (\<lambda>fd s w. ((0, status_port pr 0x7), w)),
     lp_CreateFile_op = (\<lambda>name w. (-1, w)), lp_CloseHandle_op = (\<lambda>fd w. w),
     lp_WriteFile_op = (\<lambda>fd bs w. if pr_busy pr then ((False, 0), w)
       else ((True, length (take 2 bs)), snd (ref_with fd (\<lambda>l. (0, l\<lparr>rl_out := rl_out l @ take 2 bs\<rparr>)) w))),
     lp_ReadFile_op = (\<lambda>fd n w. ((False, []), w)), lp_QueryInformation_op = (\<lambda>fd s w. ((True, 0, 4), w)),
     lp_GetCommTimeouts_op = (\<lambda>fd t w. t), lp_SetCommTimeouts_op = (\<lambda>fd t w. w),
     lp_Sleep_op = (\<lambda>ms w. w\<lparr>rd_time := rd_time w + ms\<rparr>), lp_FormatMessage_op = (\<lambda>w. ''The device is not ready'')\<rparr>"

definition printer0 :: printer where
  "printer0 = \<lparr>pr_busy = False, pr_ack = False, pr_paper_out = False, pr_selected = True, pr_error = False\<rparr>"

definition jlpr0 :: jlpr where
  "jlpr0 = \<lparr>j_fd = 5, j_pid = 0, j_timeout = 0, j_speed = 0, j_dataBits = 0, j_stopBits = 0, j_parity = 0, j_threshold = 1\<rparr>"

theorem printer_status_misread_witness:
  "fst (isPaperOut (reflp printer0) Linux 0 jlpr0 ref_dev0) \<and> fst (isPrinterBusy (reflp printer0) Linux 0 jlpr0 ref_dev0)"
proof -
  have "lpgetstatus_op (reflp printer0) (j_fd jlpr0) 0 ref_dev0 = ((0, status_port printer0 0x7), ref_dev0)"
    by (simp add: reflp_def)
  from printer_status_misread [OF this] show ?thesis by (simp add: printer0_def)
qed




text \<open>Reading on Linux, on every byte source: the call returns, after at most one round more than the bytes asked for,
  with the bytes the driver handed out, in order.\<close>

theorem lpr_read_correct:
  assumes "byte_source E live consumed" and "live fd w" and "0 \<le> len"
    and "\<And>w tv. rs_select E left ef fd tv w \<noteq> Hang"
  shows "\<exists>r bs w'. lpr_read_byte_array E L Linux left (Suc (nat len)) ef fd len threshold timeout w = Done ((r, bs), w')
    \<and> live fd w' \<and> consumed fd w' = consumed fd w @ bs \<and> (r = -1 \<or> r = int (length bs) \<and> r \<le> len)"
  using byte_source.lpr_read_loop_stream [OF assms(1,2), of 0 "[]" len "Suc (nat len)" left ef] assms(3,4)
  by (simp add: lpr_read_byte_array_def)

text \<open>The text of an exception fits its buffer of 128 characters on both systems, whatever the system's message is,
  for the method names of the file (all shorter than 123 characters).\<close>

theorem lpr_text_fits:
  assumes "length foo \<le> 123"
  shows "length (lpr_text p foo msg) < 128"
  using assms by (auto simp: lpr_text_def Let_def min_def)

theorem lpr_text_fits_witness: "length (lpr_text Win32 ''writeArray'' (replicate 500 (CHR ''x''))) < 128"
  using lpr_text_fits [of "''writeArray''" Win32 "replicate 500 (CHR ''x'')"] by simp

end
