(* ===== verification/WinCE_Port.thy ===== *)
theory WinCE_Port
  imports Ref_Win32 Serial_IO
begin

text \<open>
  The port for Windows CE (\<open>WinCE/gnu_io_RXTXPort.cpp\<close>, \<open>WinCE/gnu_io_RXTXCommDriver.cpp\<close> and
  \<open>WinCE/rxtxHelpers.cpp\<close>): the native methods written directly over the communication API, without a
  \<open>termios\<close> layer. The API is a record \<open>ceapi\<close> of functions over a kernel state; a failing query is \<open>None\<close>.
  The structure shared with the event thread is in a heap; the threads themselves are in \<open>WinCE_Events\<close>.
  \<open>throw_java_exceptionW\<close> prints into 500 characters without a look at the length; the system's messages are
  taken to be shorter.
\<close>

section \<open>The API and the state\<close>

record CE_DCB = DCB +
  fErrorChar :: bool
  fNull :: bool
  fAbortOnError :: bool

record event_struct =
  es_fd :: handle
  es_ef :: u32
  es_handle :: handle
  es_event :: u32
  es_ready :: bool

record 'k ceapi =
  ce_CreateFile_op :: "string \<Rightarrow> 'k \<Rightarrow> handle \<times> 'k"
  ce_CloseHandle_op :: "handle \<Rightarrow> 'k \<Rightarrow> bool \<times> 'k"
  ce_GetCommState_op :: "handle \<Rightarrow> 'k \<Rightarrow> CE_DCB option"
  ce_SetCommState_op :: "handle \<Rightarrow> CE_DCB \<Rightarrow> 'k \<Rightarrow> bool \<times> 'k"
  ce_GetCommTimeouts_op :: "handle \<Rightarrow> 'k \<Rightarrow> COMMTIMEOUTS option"
  ce_SetCommTimeouts_op :: "handle \<Rightarrow> COMMTIMEOUTS \<Rightarrow> 'k \<Rightarrow> bool \<times> 'k"
  ce_EscapeCommFunction_op :: "handle \<Rightarrow> escape \<Rightarrow> 'k \<Rightarrow> 'k"
  ce_GetCommModemStatus_op :: "handle \<Rightarrow> 'k \<Rightarrow> u32 option"
  ce_SetCommBreak_op :: "handle \<Rightarrow> 'k \<Rightarrow> 'k"
  ce_ClearCommBreak_op :: "handle \<Rightarrow> 'k \<Rightarrow> 'k"
  ce_Sleep_op :: "int \<Rightarrow> 'k \<Rightarrow> 'k"
  ce_WriteFile_op :: "handle \<Rightarrow> u8 list \<Rightarrow> 'k \<Rightarrow> nat option \<times> 'k"
  ce_ReadFile_op :: "handle \<Rightarrow> nat \<Rightarrow> 'k \<Rightarrow> u8 list option \<times> 'k"
  ce_ClearCommError_op :: "handle \<Rightarrow> 'k \<Rightarrow> (u32 \<times> COMSTAT) option \<times> 'k"
  ce_SetCommMask_op :: "handle \<Rightarrow> u32 \<Rightarrow> 'k \<Rightarrow> bool \<times> 'k"
  ce_malloc_op :: "'k \<Rightarrow> addr option \<times> 'k"
  ce_CreateEvent_op :: "handle \<Rightarrow> 'k \<Rightarrow> handle \<times> 'k"
  ce_GetLastError_op :: "'k \<Rightarrow> nat"
  ce_FormatMessage_op :: "nat \<Rightarrow> string"

record 'k cesys =
  ce_heap :: "addr \<Rightarrow> event_struct option"
  ce_kern :: 'k

text \<open>The fields of the Java object; a handle is kept as an integer.\<close>

record cejport =
  cej_fd :: handle
  cej_eis :: "addr option"
  cej_threshold :: int
  cej_interrupted :: bool

abbreviation (input) CE_UNSUPPORTED :: string where "CE_UNSUPPORTED \<equiv> ''javax/comm/UnsupportedCommOperationException''"
abbreviation (input) CE_PORT_IN_USE :: string where "CE_PORT_IN_USE \<equiv> ''javax/comm/PortInUseException''"
abbreviation (input) ERROR_NOT_ENOUGH_MEMORY :: nat where "ERROR_NOT_ENOUGH_MEMORY \<equiv> 8"
abbreviation (input) ERROR_ALREADY_EXISTS :: nat where "ERROR_ALREADY_EXISTS \<equiv> 183"
abbreviation (input) DTR_CONTROL_HANDSHAKE :: nat where "DTR_CONTROL_HANDSHAKE \<equiv> 2"
abbreviation (input) EV_POWER :: u32 where "EV_POWER \<equiv> 0x2000"
abbreviation (input) CE_OVERRUN :: u32 where "CE_OVERRUN \<equiv> 2"

definition ce_get_fd :: "cejport \<Rightarrow> handle" where
  "ce_get_fd jp = (if cej_fd jp \<noteq> NULL_HANDLE then cej_fd jp else INVALID_HANDLE)"

definition ce_throw :: "(string \<Rightarrow> bool) \<Rightarrow> string \<Rightarrow> string \<Rightarrow> string \<Rightarrow> jexc option" where
  \<comment> \<open>\<open>throw_java_exceptionW\<close>\<close>
  "ce_throw fc exc foo msg = (if \<not> fc exc then None else Some (JExc exc (exc @ '': '' @ msg @ '' in '' @ foo)))"

definition ce_fail :: "'k ceapi \<Rightarrow> (string \<Rightarrow> bool) \<Rightarrow> string \<Rightarrow> string \<Rightarrow> nat \<Rightarrow> jexc option" where
  \<comment> \<open>\<open>CreateErrorMsg\<close> cuts the line end of the system's message\<close>
  "ce_fail C fc exc foo err = ce_throw fc exc foo (let m = ce_FormatMessage_op C err in take (length m - 2) m)"

definition ce_last :: "'k ceapi \<Rightarrow> (string \<Rightarrow> bool) \<Rightarrow> string \<Rightarrow> string \<Rightarrow> 'k cesys \<Rightarrow> jexc option" where
  "ce_last C fc exc foo s = ce_fail C fc exc foo (ce_GetLastError_op C (ce_kern s))"

definition on_kern :: "('k \<Rightarrow> 'a \<times> 'k) \<Rightarrow> 'k cesys \<Rightarrow> 'a \<times> 'k cesys" where
  "on_kern f s = (let (r, k) = f (ce_kern s) in (r, s\<lparr>ce_kern := k\<rparr>))"

section \<open>Opening and closing\<close>

definition InitialiseEventInfoStruct :: "'k ceapi \<Rightarrow> handle \<Rightarrow> addr \<Rightarrow> 'k cesys \<Rightarrow> (nat \<times> addr) \<times> 'k cesys" where
  \<comment> \<open>\<open>p0\<close> is the caller's uninitialised pointer\<close>
  "InitialiseEventInfoStruct C hPort p0 s =
     (let (a, s) = on_kern (ce_malloc_op C) s in
      case a of
        None \<Rightarrow> ((ERROR_NOT_ENOUGH_MEMORY, p0), s)
      | Some a \<Rightarrow>
          let (h, s) = on_kern (ce_CreateEvent_op C hPort) s; dwErr = ce_GetLastError_op C (ce_kern s) in
          if h = NULL_HANDLE \<or> dwErr = ERROR_ALREADY_EXISTS then ((dwErr, a), s)
          else ((0, a), s\<lparr>ce_heap := (ce_heap s)(a \<mapsto>
            \<lparr>es_fd = hPort, es_ef = EV_POWER, es_handle = h, es_event = 0, es_ready = False\<rparr>)\<rparr>))"

definition ce_settings :: "CE_DCB \<Rightarrow> CE_DCB" where
  "ce_settings d = d\<lparr>fBinary := True, fParity := True, fOutxDsrFlow := False, fDtrControl := DTR_CONTROL_HANDSHAKE,
     fDsrSensitivity := False, fTXContinueOnXoff := True, fErrorChar := False, fNull := False,
     fRtsControl := RTS_CONTROL_ENABLE, fAbortOnError := False\<rparr>"

definition ce_timeouts :: "COMMTIMEOUTS \<Rightarrow> COMMTIMEOUTS" where
  "ce_timeouts t = t\<lparr>ReadIntervalTimeout := 0, ReadTotalTimeoutMultiplier := 0, ReadTotalTimeoutConstant := MAXDWORD,
     WriteTotalTimeoutMultiplier := 10, WriteTotalTimeoutConstant := 1000\<rparr>"

definition ce_open :: "'k ceapi \<Rightarrow> (string \<Rightarrow> bool) \<Rightarrow> bool \<Rightarrow> CE_DCB \<Rightarrow> COMMTIMEOUTS \<Rightarrow> addr \<Rightarrow> string \<Rightarrow> cejport \<Rightarrow> 'k cesys
    \<Rightarrow> ((handle \<times> jexc option) \<times> cejport) \<times> 'k cesys" where
  \<comment> \<open>\<open>has_eis\<close>: the class has a field \<open>eis\<close> of type \<open>int\<close>; \<open>d0\<close>, \<open>t0\<close> and \<open>p0\<close> are the uninitialised locals\<close>
  "ce_open C fc has_eis d0 t0 p0 name jp s =
     (let (hPort, s) = on_kern (ce_CreateFile_op C name) s in
      if hPort = INVALID_HANDLE then (((INVALID_HANDLE, ce_last C fc CE_PORT_IN_USE ''open - CreateFile'' s), jp), s)
      else let d = ce_settings (case ce_GetCommState_op C hPort (ce_kern s) of None \<Rightarrow> d0 | Some d \<Rightarrow> d);
               (ok, s) = on_kern (ce_SetCommState_op C hPort d) s in
      if \<not> ok then (((INVALID_HANDLE, ce_last C fc CE_PORT_IN_USE ''open - SetCommState'' s), jp), s)
      else let t = ce_timeouts (case ce_GetCommTimeouts_op C hPort (ce_kern s) of None \<Rightarrow> t0 | Some t \<Rightarrow> t);
               (ok, s) = on_kern (ce_SetCommTimeouts_op C hPort t) s in
      if \<not> ok then (((INVALID_HANDLE, ce_last C fc CE_PORT_IN_USE ''open - SetCommTimeouts'' s), jp), s)
      else let s = s\<lparr>ce_kern := ce_EscapeCommFunction_op C hPort SETRTS (ce_kern s)\<rparr>;
               ((err, a), s) = InitialiseEventInfoStruct C hPort p0 s in
      if err \<noteq> 0 then (((INVALID_HANDLE, ce_fail C fc IO_EXCEPTION ''open - InitialiseEventInfoStruct'' err), jp), s)
      else if \<not> has_eis then (((INVALID_HANDLE, None), jp), s)
      else (((hPort, None), jp\<lparr>cej_eis := Some a\<rparr>), s))"

definition ce_nativeClose :: "'k ceapi \<Rightarrow> cejport \<Rightarrow> 'k cesys \<Rightarrow> 'k cesys" where
  "ce_nativeClose C jp s = snd (on_kern (ce_CloseHandle_op C (ce_get_fd jp)) s)"

section \<open>Parameters\<close>

definition edit_dcb :: "'k ceapi \<Rightarrow> handle \<Rightarrow> (CE_DCB \<Rightarrow> CE_DCB) \<Rightarrow> ('k cesys \<Rightarrow> 'a) \<Rightarrow> ('k cesys \<Rightarrow> 'a) \<Rightarrow> 'a \<Rightarrow> 'k cesys \<Rightarrow> 'a \<times> 'k cesys" where
  \<comment> \<open>\<open>GetCommState\<close>, an edit of the block, \<open>SetCommState\<close>; what to answer when either fails or both succeed\<close>
  "edit_dcb C h f noget noset r s =
     (case ce_GetCommState_op C h (ce_kern s) of
        None \<Rightarrow> (noget s, s)
      | Some d \<Rightarrow> let (ok, s) = on_kern (ce_SetCommState_op C h (f d)) s in (if ok then r else noset s, s))"

definition ce_stopbits :: "int \<Rightarrow> u8 option" where
  "ce_stopbits stopBits =
     (if stopBits = 1 then Some ONESTOPBIT else if stopBits = 2 then Some TWOSTOPBITS
      else if stopBits = 3 then Some ONE5STOPBITS else None)"

definition ce_nativeSetSerialPortParams :: "'k ceapi \<Rightarrow> (string \<Rightarrow> bool) \<Rightarrow> cejport \<Rightarrow> int \<Rightarrow> int \<Rightarrow> int \<Rightarrow> int \<Rightarrow> 'k cesys
    \<Rightarrow> jexc option \<times> 'k cesys" where
  \<comment> \<open>a bad number of stop bits throws and goes on\<close>
  "ce_nativeSetSerialPortParams C fc jp speed dataBits stopBits parity s =
     edit_dcb C (ce_get_fd jp)
       (\<lambda>d. d\<lparr>BaudRate := word_of_int speed, ByteSize := word_of_int dataBits, Parity := word_of_int parity,
              StopBits := case ce_stopbits stopBits of None \<Rightarrow> StopBits d | Some b \<Rightarrow> b\<rparr>)
       (ce_last C fc CE_UNSUPPORTED ''nativeSetSerialPortParams - GetCommState'')
       (\<lambda>s. ce_last C fc CE_UNSUPPORTED ''nativeSetSerialPortParams - SetCommState'' s)
       (if ce_stopbits stopBits = None then ce_throw fc CE_UNSUPPORTED ''nativeSetSerialPortParams'' ''Incorrect stopBits'' else None) s"

definition ce_flow :: "u32 \<Rightarrow> CE_DCB \<Rightarrow> CE_DCB" where
  "ce_flow m d = d\<lparr>fRtsControl := (if m AND 3 \<noteq> 0 then RTS_CONTROL_HANDSHAKE else RTS_CONTROL_ENABLE),
     fOutxCtsFlow := (m AND 2 \<noteq> 0), fInX := (m AND FLOWCONTROL_XONXOFF_IN \<noteq> 0), fOutX := (m AND FLOWCONTROL_XONXOFF_OUT \<noteq> 0)\<rparr>"

definition ce_setflowcontrol :: "'k ceapi \<Rightarrow> (string \<Rightarrow> bool) \<Rightarrow> cejport \<Rightarrow> u32 \<Rightarrow> 'k cesys \<Rightarrow> jexc option \<times> 'k cesys" where
  "ce_setflowcontrol C fc jp m s =
     edit_dcb C (ce_get_fd jp) (ce_flow m) (ce_last C fc CE_UNSUPPORTED ''setflowcontrol - GetCommState'')
       (ce_last C fc CE_UNSUPPORTED ''setflowcontrol - SetCommState'') None s"

definition ce_NativegetReceiveTimeout :: "'k ceapi \<Rightarrow> (string \<Rightarrow> bool) \<Rightarrow> cejport \<Rightarrow> 'k cesys \<Rightarrow> int \<times> jexc option" where
  "ce_NativegetReceiveTimeout C fc jp s =
     (case ce_GetCommTimeouts_op C (ce_get_fd jp) (ce_kern s) of
        None \<Rightarrow> (-1, ce_last C fc IO_EXCEPTION ''NativegetReceiveTimeout - GetCommTimeouts'' s)
      | Some t \<Rightarrow> (min (uint (ReadIntervalTimeout t div 100)) 255, None))"

definition ce_NativeisReceiveTimeoutEnabled :: "'k ceapi \<Rightarrow> (string \<Rightarrow> bool) \<Rightarrow> cejport \<Rightarrow> 'k cesys \<Rightarrow> bool \<times> jexc option" where
  \<comment> \<open>the failing branch returns -1 as a \<open>jboolean\<close>\<close>
  "ce_NativeisReceiveTimeoutEnabled C fc jp s =
     (case ce_GetCommTimeouts_op C (ce_get_fd jp) (ce_kern s) of
        None \<Rightarrow> (True, ce_last C fc IO_EXCEPTION ''NativeisReceiveTimeoutEnabled - GetCommTimeouts'' s)
      | Some t \<Rightarrow> (ReadIntervalTimeout t \<noteq> 0 \<or> ReadTotalTimeoutConstant t \<noteq> 0 \<or> ReadTotalTimeoutMultiplier t \<noteq> 0, None))"

definition ce_threshold_timeouts :: "int \<Rightarrow> COMMTIMEOUTS \<Rightarrow> COMMTIMEOUTS" where
  "ce_threshold_timeouts time t =
     (if time = 0 then t\<lparr>ReadIntervalTimeout := MAXDWORD, ReadTotalTimeoutMultiplier := MAXDWORD, ReadTotalTimeoutConstant := 1\<rparr>
      else if time = -1 then t\<lparr>ReadIntervalTimeout := 0, ReadTotalTimeoutMultiplier := 0, ReadTotalTimeoutConstant := 0\<rparr>
      else t\<lparr>ReadIntervalTimeout := 0, ReadTotalTimeoutMultiplier := 0, ReadTotalTimeoutConstant := word_of_int time\<rparr>)"

definition ce_NativeEnableReceiveTimeoutThreshold :: "'k ceapi \<Rightarrow> (string \<Rightarrow> bool) \<Rightarrow> cejport \<Rightarrow> int \<Rightarrow> int \<Rightarrow> int \<Rightarrow> 'k cesys
    \<Rightarrow> jexc option \<times> 'k cesys" where
  "ce_NativeEnableReceiveTimeoutThreshold C fc jp time threshold InputBuffer s =
     (case ce_GetCommTimeouts_op C (ce_get_fd jp) (ce_kern s) of
        None \<Rightarrow> (ce_last C fc IO_EXCEPTION ''NativeEnableReceiveTimeoutThreshold - GetCommTimeouts'' s, s)
      | Some t \<Rightarrow>
          let (ok, s) = on_kern (ce_SetCommTimeouts_op C (ce_get_fd jp) (ce_threshold_timeouts time t)) s in
          (if ok then None else ce_last C fc IO_EXCEPTION ''NativeEnableReceiveTimeoutThreshold - SetCommTimeouts'' s, s))"

section \<open>Lines\<close>

definition ce_isDTR :: "'k ceapi \<Rightarrow> cejport \<Rightarrow> 'k cesys \<Rightarrow> bool" where
  "ce_isDTR C jp s =
     (case ce_GetCommState_op C (ce_get_fd jp) (ce_kern s) of None \<Rightarrow> False | Some d \<Rightarrow> fDtrControl d \<noteq> DTR_CONTROL_DISABLE)"

definition ce_setDTR :: "'k ceapi \<Rightarrow> cejport \<Rightarrow> bool \<Rightarrow> 'k cesys \<Rightarrow> 'k cesys" where
  "ce_setDTR C jp state s =
     snd (edit_dcb C (ce_get_fd jp) (\<lambda>d. d\<lparr>fDtrControl := if state then DTR_CONTROL_HANDSHAKE else DTR_CONTROL_DISABLE\<rparr>)
       (\<lambda>_. ()) (\<lambda>_. ()) () s)"

definition ce_setRTS :: "'k ceapi \<Rightarrow> cejport \<Rightarrow> bool \<Rightarrow> 'k cesys \<Rightarrow> 'k cesys" where
  "ce_setRTS C jp state s =
     s\<lparr>ce_kern := ce_EscapeCommFunction_op C (ce_get_fd jp) (if state then SETRTS else CLRRTS) (ce_kern s)\<rparr>"

definition ce_setDSR :: "'k ceapi \<Rightarrow> cejport \<Rightarrow> bool \<Rightarrow> 'k cesys \<Rightarrow> 'k cesys" where
  "ce_setDSR C jp state s =
     snd (edit_dcb C (ce_get_fd jp) (\<lambda>d. d\<lparr>fOutxDsrFlow := state\<rparr>) (\<lambda>_. ()) (\<lambda>_. ()) () s)"

definition ce_modem :: "'k ceapi \<Rightarrow> u32 \<Rightarrow> cejport \<Rightarrow> 'k cesys \<Rightarrow> bool" where
  \<comment> \<open>\<open>ModemStat | MS_CTS_ON ? JNI_TRUE : JNI_FALSE\<close>\<close>
  "ce_modem C b jp s =
     (case ce_GetCommModemStatus_op C (ce_get_fd jp) (ce_kern s) of None \<Rightarrow> False | Some m \<Rightarrow> m OR b \<noteq> 0)"

definition ce_isCTS :: "'k ceapi \<Rightarrow> cejport \<Rightarrow> 'k cesys \<Rightarrow> bool" where "ce_isCTS C = ce_modem C MS_CTS_ON"
definition ce_isDSR :: "'k ceapi \<Rightarrow> cejport \<Rightarrow> 'k cesys \<Rightarrow> bool" where "ce_isDSR C = ce_modem C MS_DSR_ON"
definition ce_isCD :: "'k ceapi \<Rightarrow> cejport \<Rightarrow> 'k cesys \<Rightarrow> bool" where "ce_isCD C = ce_modem C MS_RLSD_ON"
definition ce_isRI :: "'k ceapi \<Rightarrow> cejport \<Rightarrow> 'k cesys \<Rightarrow> bool" where "ce_isRI C = ce_modem C MS_RING_ON"

definition ce_isRTS :: "'k ceapi \<Rightarrow> cejport \<Rightarrow> 'k cesys \<Rightarrow> bool" where
  "ce_isRTS C jp s =
     (case ce_GetCommState_op C (ce_get_fd jp) (ce_kern s) of None \<Rightarrow> False | Some d \<Rightarrow> fRtsControl d = RTS_CONTROL_ENABLE)"

definition ce_sendBreak :: "'k ceapi \<Rightarrow> cejport \<Rightarrow> int \<Rightarrow> 'k cesys \<Rightarrow> 'k cesys" where
  "ce_sendBreak C jp duration s =
     s\<lparr>ce_kern := ce_ClearCommBreak_op C (ce_get_fd jp) (ce_Sleep_op C duration (ce_SetCommBreak_op C (ce_get_fd jp) (ce_kern s)))\<rparr>"

section \<open>Writing and reading\<close>

fun ce_write_byte_loop :: "'k ceapi \<Rightarrow> nat \<Rightarrow> (string \<Rightarrow> bool) \<Rightarrow> handle \<Rightarrow> u8 \<Rightarrow> 'k cesys \<Rightarrow> (jexc option \<times> 'k cesys) run" where
  \<comment> \<open>\<open>do ... while (dwNumBytesWritten == 0)\<close>\<close>
  "ce_write_byte_loop C 0 fc h b s = Hang"
| "ce_write_byte_loop C (Suc n) fc h b s =
     (let (r, s) = on_kern (ce_WriteFile_op C h [b]) s in
      case r of
        None \<Rightarrow> Done (ce_last C fc IO_EXCEPTION ''writeByte - WriteFile'' s, s)
      | Some k \<Rightarrow> if k = 0 then ce_write_byte_loop C n fc h b s else Done (None, s))"

definition ce_writeByte :: "'k ceapi \<Rightarrow> nat \<Rightarrow> (string \<Rightarrow> bool) \<Rightarrow> cejport \<Rightarrow> int \<Rightarrow> 'k cesys \<Rightarrow> (jexc option \<times> 'k cesys) run" where
  "ce_writeByte C n fc jp b s = ce_write_byte_loop C n fc (ce_get_fd jp) (word_of_int b) s"

fun ce_write_loop :: "'k ceapi \<Rightarrow> nat \<Rightarrow> (string \<Rightarrow> bool) \<Rightarrow> handle \<Rightarrow> u8 list \<Rightarrow> int \<Rightarrow> int \<Rightarrow> int \<Rightarrow> 'k cesys
    \<Rightarrow> (jexc option \<times> 'k cesys) run" where
  \<comment> \<open>\<open>do ... while (total < len)\<close>\<close>
  "ce_write_loop C 0 fc h body off len tot s = Hang"
| "ce_write_loop C (Suc n) fc h body off len tot s =
     run_bind (slice body (tot + off) (len - tot)) (\<lambda>bs.
       let (r, s) = on_kern (ce_WriteFile_op C h bs) s in
       case r of
         None \<Rightarrow> Done (ce_last C fc IO_EXCEPTION ''writeArray - WriteFile'' s, s)
       | Some k \<Rightarrow> let tot = tot + int k in
           if tot < len then ce_write_loop C n fc h body off len tot s else Done (None, s))"

definition ce_writeArray :: "'k ceapi \<Rightarrow> nat \<Rightarrow> (string \<Rightarrow> bool) \<Rightarrow> cejport \<Rightarrow> u8 list \<Rightarrow> int \<Rightarrow> int \<Rightarrow> 'k cesys
    \<Rightarrow> (jexc option \<times> 'k cesys) run" where
  \<comment> \<open>a negative length is a huge count of bytes for \<open>WriteFile\<close>\<close>
  "ce_writeArray C n fc jp body off len s =
     (if len < 0 then Fault else ce_write_loop C n fc (ce_get_fd jp) body off len 0 s)"

definition ce_nativeDrain :: "cejport \<Rightarrow> 'k cesys \<Rightarrow> bool \<times> 'k cesys" where
  \<comment> \<open>both ways of waiting are commented out\<close>
  "ce_nativeDrain jp s = (False, s)"

definition ce_nativeavailable :: "'k ceapi \<Rightarrow> (string \<Rightarrow> bool) \<Rightarrow> cejport \<Rightarrow> 'k cesys \<Rightarrow> (int \<times> jexc option) \<times> 'k cesys" where
  "ce_nativeavailable C fc jp s =
     (let (r, s) = on_kern (ce_ClearCommError_op C (ce_get_fd jp)) s in
      (case r of
         None \<Rightarrow> (-1, ce_last C fc IO_EXCEPTION ''nativeavailable - ClearCommError'' s)
       | Some (_, st) \<Rightarrow> (cbInQue st, None), s))"

definition ce_readByte :: "'k ceapi \<Rightarrow> (string \<Rightarrow> bool) \<Rightarrow> cejport \<Rightarrow> 'k cesys \<Rightarrow> (int \<times> jexc option) \<times> 'k cesys" where
  "ce_readByte C fc jp s =
     (let (r, s) = on_kern (ce_ReadFile_op C (ce_get_fd jp) 1) s in
      (case r of
         None \<Rightarrow> (-1, ce_last C fc IO_EXCEPTION ''readByte - ReadFile'' s)
       | Some [] \<Rightarrow> (-1, None)
       | Some (b # _) \<Rightarrow> (uint b, None), s))"

fun ce_read_loop :: "'k ceapi \<Rightarrow> nat \<Rightarrow> (string \<Rightarrow> bool) \<Rightarrow> handle \<Rightarrow> u8 list \<Rightarrow> int \<Rightarrow> nat \<Rightarrow> u32 \<Rightarrow> nat \<Rightarrow> 'k cesys
    \<Rightarrow> (((nat option \<times> jexc option) \<times> u8 list) \<times> 'k cesys) run" where
  \<comment> \<open>the loop of \<open>readArray\<close>: every pass stores at \<open>body + off\<close>, with the whole length\<close>
  "ce_read_loop C 0 fc h body off len threshold tot s = Hang"
| "ce_read_loop C (Suc n) fc h body off len threshold tot s =
     (let (r, s) = on_kern (ce_ReadFile_op C h len) s in
      case r of
        None \<Rightarrow> Done (((None, ce_last C fc IO_EXCEPTION ''readArray - WriteFile'' s), body), s)
      | Some bs \<Rightarrow> run_bind (store_at body off bs) (\<lambda>body.
          let tot = tot + length bs in
          if bs \<noteq> [] \<and> threshold \<noteq> 0 \<and> tot \<le> len \<and> tot < unat threshold
          then ce_read_loop C n fc h body off len threshold tot s
          else Done (((Some tot, None), body), s)))"

definition ce_readArray :: "'k ceapi \<Rightarrow> nat \<Rightarrow> (string \<Rightarrow> bool) \<Rightarrow> cejport \<Rightarrow> u8 list \<Rightarrow> int \<Rightarrow> int \<Rightarrow> 'k cesys
    \<Rightarrow> (((int \<times> jexc option) \<times> u8 list) \<times> 'k cesys) run" where
  \<comment> \<open>after a failure the array is released with \<open>JNI_ABORT\<close>\<close>
  "ce_readArray C n fc jp body off len s =
     (if len < 0 then Done (((-1, ce_throw fc ARRAY_INDEX_OUT_OF_BOUNDS ''readArray'' ''Negative number of character to read''), body), s)
      else run_bind (ce_read_loop C n fc (ce_get_fd jp) body off (nat len) (word_of_int (cej_threshold jp)) 0 s)
        (\<lambda>(((r, e), body'), s). Done (case r of
             None \<Rightarrow> (((-1, e), body), s)
           | Some tot \<Rightarrow> (((sint (word_of_nat tot :: u32), e), body'), s))))"

section \<open>Special characters\<close>

definition ce_nativeGetParityErrorChar :: "'k ceapi \<Rightarrow> cejport \<Rightarrow> 'k cesys \<Rightarrow> int" where
  "ce_nativeGetParityErrorChar C jp s =
     (case ce_GetCommState_op C (ce_get_fd jp) (ce_kern s) of None \<Rightarrow> -1 | Some d \<Rightarrow> sint (ErrorChar d))"

definition ce_nativeSetParityErrorChar :: "'k ceapi \<Rightarrow> cejport \<Rightarrow> u8 \<Rightarrow> 'k cesys \<Rightarrow> bool \<times> 'k cesys" where
  "ce_nativeSetParityErrorChar C jp b s =
     edit_dcb C (ce_get_fd jp) (\<lambda>d. d\<lparr>fErrorChar := (b \<noteq> 0), fParity := (b \<noteq> 0), ErrorChar := b\<rparr>)
       (\<lambda>_. False) (\<lambda>_. False) True s"

definition ce_nativeGetEndOfInputChar :: "'k ceapi \<Rightarrow> cejport \<Rightarrow> 'k cesys \<Rightarrow> int" where
  "ce_nativeGetEndOfInputChar C jp s =
     (case ce_GetCommState_op C (ce_get_fd jp) (ce_kern s) of None \<Rightarrow> -1 | Some d \<Rightarrow> sint (EofChar d))"

definition ce_nativeSetEndOfInputChar :: "'k ceapi \<Rightarrow> (string \<Rightarrow> bool) \<Rightarrow> cejport \<Rightarrow> u8 \<Rightarrow> 'k cesys \<Rightarrow> (bool \<times> jexc option) \<times> 'k cesys" where
  "ce_nativeSetEndOfInputChar C fc jp b s =
     edit_dcb C (ce_get_fd jp) (\<lambda>d. d\<lparr>fBinary := (b = 0), EofChar := b\<rparr>)
       (\<lambda>_. (False, None)) (\<lambda>s. (False, ce_last C fc CE_UNSUPPORTED ''nativeSetEndOfInputChar'' s)) (True, None) s"

section \<open>Events\<close>

definition ce_event_mask :: "nat \<Rightarrow> u32 option" where
  "ce_event_mask event =
     (if event = SPE_DATA_AVAILABLE then Some EV_RXCHAR
      else if event = SPE_OUTPUT_BUFFER_EMPTY then Some EV_TXEMPTY
      else if event = SPE_CTS then Some EV_CTS
      else if event = SPE_DSR then Some EV_DSR
      else if event = SPE_RI then Some EV_RING
      else if event = SPE_CD then Some EV_RLSD
      else if event = SPE_OE \<or> event = SPE_PE \<or> event = SPE_FE then Some EV_ERR
      else if event = SPE_BI then Some EV_BREAK
      else None)"

definition ce_nativeSetEventFlag :: "'k ceapi \<Rightarrow> u32 \<Rightarrow> cejport \<Rightarrow> handle \<Rightarrow> nat \<Rightarrow> bool \<Rightarrow> 'k cesys \<Rightarrow> 'k cesys run" where
  \<comment> \<open>\<open>flag0\<close> is the uninitialised \<open>NewFlag\<close>\<close>
  "ce_nativeSetEventFlag C flag0 jp hPort event flag s =
     (let NewFlag = (case ce_event_mask event of None \<Rightarrow> flag0 | Some m \<Rightarrow> m) in
      case Option.bind (cej_eis jp) (\<lambda>a. map_option (Pair a) (ce_heap s a)) of
        None \<Rightarrow> Fault
      | Some (a, es) \<Rightarrow>
          let es = es\<lparr>es_ef := if flag then es_ef es OR NewFlag else es_ef es AND NOT NewFlag\<rparr>;
              s = s\<lparr>ce_heap := (ce_heap s)(a \<mapsto> es)\<rparr>
          in Done (snd (on_kern (ce_SetCommMask_op C hPort (es_ef es)) s)))"

definition ce_candidates :: "u32 \<Rightarrow> u32 \<Rightarrow> nat list" where
  \<comment> \<open>the events of \<open>SendEvents\<close> in the order it tries them, for the masked event word and the error word\<close>
  "ce_candidates dwEvent dwErrors =
     map snd (filter fst [(dwEvent AND EV_RXCHAR \<noteq> 0, SPE_DATA_AVAILABLE), (dwEvent AND EV_TXEMPTY \<noteq> 0, SPE_OUTPUT_BUFFER_EMPTY),
        (dwEvent AND EV_CTS \<noteq> 0, SPE_CTS), (dwEvent AND EV_DSR \<noteq> 0, SPE_DSR), (dwEvent AND EV_RING \<noteq> 0, SPE_RI),
        (dwEvent AND EV_RLSD \<noteq> 0, SPE_CD), (dwEvent AND EV_ERR \<noteq> 0 \<and> dwErrors AND CE_OVERRUN \<noteq> 0, SPE_OE),
        (dwEvent AND EV_ERR \<noteq> 0 \<and> dwErrors AND CE_RXPARITY \<noteq> 0, SPE_PE),
        (dwEvent AND EV_ERR \<noteq> 0 \<and> dwErrors AND CE_FRAME \<noteq> 0, SPE_FE), (dwEvent AND EV_BREAK \<noteq> 0, SPE_BI)])"

fun call_sendEvent :: "(nat \<Rightarrow> bool \<Rightarrow> bool) \<Rightarrow> nat list \<Rightarrow> int \<times> (nat \<times> bool) list" where
  \<comment> \<open>call Java for one event after the other, always with \<open>JNI_TRUE\<close> (\<open>Stat.fCtsHold ? JNI_TRUE : JNI_TRUE\<close>),
    until it answers true: what is returned, and the calls\<close>
  "call_sendEvent cb [] = (0, [])"
| "call_sendEvent cb (e # es) =
     (if cb e True then (int e, [(e, True)]) else let (r, sent) = call_sendEvent cb es in (r, (e, True) # sent))"

definition SendEvents :: "'k ceapi \<Rightarrow> (nat \<Rightarrow> bool \<Rightarrow> bool) \<Rightarrow> u32 \<Rightarrow> event_struct \<Rightarrow> 'k cesys
    \<Rightarrow> (int \<times> (nat \<times> bool) list) \<times> 'k cesys" where
  "SendEvents C cb dwEvent es s =
     (let (r, s) = on_kern (ce_ClearCommError_op C (es_fd es)) s in
      (case r of
         None \<Rightarrow> (-1, [])
       | Some (dwErrors, _) \<Rightarrow> call_sendEvent cb (ce_candidates (dwEvent AND es_ef es) dwErrors), s))"

definition ce_interruptEventLoop :: "cejport \<Rightarrow> cejport" where
  "ce_interruptEventLoop jp = jp\<lparr>cej_interrupted := True\<rparr>"

section \<open>The driver's queries and the operations that are not there\<close>

definition ce_registerKnownPorts :: "int \<Rightarrow> bool" where
  "ce_registerKnownPorts portType = False"

definition ce_isPortPrefixValid :: "string \<Rightarrow> bool" where
  "ce_isPortPrefixValid dev = (take 3 dev = ''COM'' \<or> take 3 dev = ''LPT'')"

definition ce_testRead :: "'k ceapi \<Rightarrow> string \<Rightarrow> int \<Rightarrow> 'k cesys \<Rightarrow> bool \<times> 'k cesys" where
  "ce_testRead C dev type s =
     (if type = 1
      then let (hPort, s) = on_kern (ce_CreateFile_op C dev) s in
           if hPort = INVALID_HANDLE then (False, s) else (True, snd (on_kern (ce_CloseHandle_op C hPort) s))
      else (False, s))"

definition ce_getDeviceDirectory :: string where
  "ce_getDeviceDirectory = []"

definition ce_unsupported :: "(string \<Rightarrow> bool) \<Rightarrow> string \<Rightarrow> 'r \<Rightarrow> 'r \<times> jexc option" where
  \<comment> \<open>the UART, divisor, baud base, latency and hangup methods\<close>
  "ce_unsupported fc foo r = (r, ce_throw fc CE_UNSUPPORTED foo ''Operation not implemented'')"

definition ce_nativeSetUartType :: "(string \<Rightarrow> bool) \<Rightarrow> bool \<times> jexc option" where
  "ce_nativeSetUartType fc = ce_unsupported fc ''nativeSetUartType'' False"

definition ce_nativeGetUartType :: "(string \<Rightarrow> bool) \<Rightarrow> string \<times> jexc option" where
  "ce_nativeGetUartType fc = ce_unsupported fc ''nativeSetUartType'' ''Unknown''"

definition ce_nativeSetBaudBase :: "(string \<Rightarrow> bool) \<Rightarrow> bool \<times> jexc option" where
  "ce_nativeSetBaudBase fc = ce_unsupported fc ''nativeSetBaudBase'' False"

definition ce_nativeGetBaudBase :: "(string \<Rightarrow> bool) \<Rightarrow> int \<times> jexc option" where
  "ce_nativeGetBaudBase fc = ce_unsupported fc ''nativeGetBaudBase'' (-1)"

definition ce_nativeSetDivisor :: "(string \<Rightarrow> bool) \<Rightarrow> bool \<times> jexc option" where
  "ce_nativeSetDivisor fc = ce_unsupported fc ''nativeSetDivisor'' False"

definition ce_nativeGetDivisor :: "(string \<Rightarrow> bool) \<Rightarrow> int \<times> jexc option" where
  "ce_nativeGetDivisor fc = ce_unsupported fc ''nativeGetDivisor'' (-1)"

definition ce_nativeSetLowLatency :: "(string \<Rightarrow> bool) \<Rightarrow> bool \<times> jexc option" where
  "ce_nativeSetLowLatency fc = ce_unsupported fc ''nativeSetLowLatency'' False"

definition ce_nativeGetLowLatency :: "(string \<Rightarrow> bool) \<Rightarrow> bool \<times> jexc option" where
  "ce_nativeGetLowLatency fc = ce_unsupported fc ''nativeGetLowLatency'' False"

definition ce_nativeSetCallOutHangup :: "(string \<Rightarrow> bool) \<Rightarrow> bool \<times> jexc option" where
  "ce_nativeSetCallOutHangup fc = ce_unsupported fc ''nativeSetCallOutHangup'' False"

definition ce_nativeGetCallOutHangup :: "(string \<Rightarrow> bool) \<Rightarrow> bool \<times> jexc option" where
  "ce_nativeGetCallOutHangup fc = ce_unsupported fc ''nativeGetCallOutHangup'' False"

section \<open>The contract of the device\<close>

definition overwrite :: "u8 list \<Rightarrow> nat \<Rightarrow> u8 list \<Rightarrow> u8 list" where
  "overwrite body off bs = take off body @ bs @ drop (off + length bs) body"

lemma store_at_overwrite:
  "0 \<le> off \<Longrightarrow> off + int (length bs) \<le> int (length body) \<Longrightarrow> store_at body off bs = Done (overwrite body (nat off) bs)"
  by (simp add: store_at_def overwrite_def)

definition read_chunks :: "(handle \<Rightarrow> 'k \<Rightarrow> u8 list) \<Rightarrow> handle \<Rightarrow> u8 list \<Rightarrow> nat \<Rightarrow> nat \<Rightarrow> u32 \<Rightarrow> nat \<Rightarrow> 'k cesys
    \<Rightarrow> (((nat option \<times> jexc option) \<times> u8 list) \<times> 'k cesys) run \<Rightarrow> u8 list list \<Rightarrow> bool" where
  \<comment> \<open>a run of the loop that took the chunks \<open>cs\<close> from the port and laid each over the one before\<close>
  "read_chunks consumed h body off len t tot s r cs =
     (\<exists>s'. consumed h (ce_kern s') = consumed h (ce_kern s) @ concat cs \<and> tot + length (concat (butlast cs)) \<le> len
       \<and> (\<forall>c \<in> set cs. length c \<le> len)
       \<and> ((\<exists>e body'. r = Done (((None, e), body'), s'))
          \<or> cs \<noteq> [] \<and> (t = 0 \<longrightarrow> length cs = 1)
            \<and> r = Done (((Some (tot + length (concat cs)), None), foldl (\<lambda>b. overwrite b off) body cs), s')))"

lemma read_chunks_Cons:
  assumes "read_chunks consumed h (overwrite body off bs) off len t (tot + length bs) (s\<lparr>ce_kern := k\<rparr>) r cs"
    and "consumed h k = consumed h (ce_kern s) @ bs" and "t \<noteq> 0" and "tot + length bs \<le> len"
  shows "read_chunks consumed h body off len t tot s r (bs # cs)"
  using assms by (cases cs) (auto simp: read_chunks_def add.assoc)

text \<open>
  What the documentation says of the settings calls: a control block or timeouts that were accepted are what the next
  query gives, a refused block changes nothing, and the two kinds of settings and the modem lines are apart.
\<close>

locale ce_device =
  fixes C :: "'k ceapi"
  assumes set_get: "ce_SetCommState_op C h d k = (True, k') \<Longrightarrow> ce_GetCommState_op C h k' = Some d"
    and set_refused: "ce_SetCommState_op C h d k = (False, k') \<Longrightarrow> ce_GetCommState_op C h k' = ce_GetCommState_op C h k"
    and tset_get: "ce_SetCommTimeouts_op C h t k = (True, k') \<Longrightarrow> ce_GetCommTimeouts_op C h k' = Some t"
    and tset_state: "ce_SetCommTimeouts_op C h t k = (ok, k') \<Longrightarrow> ce_GetCommState_op C h k' = ce_GetCommState_op C h k"
    and escape_keeps: "ce_GetCommState_op C h (ce_EscapeCommFunction_op C h e k) = ce_GetCommState_op C h k
      \<and> ce_GetCommTimeouts_op C h (ce_EscapeCommFunction_op C h e k) = ce_GetCommTimeouts_op C h k"
    and malloc_keeps: "ce_malloc_op C k = (a, k') \<Longrightarrow>
      ce_GetCommState_op C h k' = ce_GetCommState_op C h k \<and> ce_GetCommTimeouts_op C h k' = ce_GetCommTimeouts_op C h k"
    and event_null: "ce_CreateEvent_op C h' k = (NULL_HANDLE, k') \<Longrightarrow> ce_GetLastError_op C k' \<noteq> 0"
    and event_keeps: "ce_CreateEvent_op C h' k = (ev, k') \<Longrightarrow>
      ce_GetCommState_op C h k' = ce_GetCommState_op C h k \<and> ce_GetCommTimeouts_op C h k' = ce_GetCommTimeouts_op C h k"
begin

text \<open>An edit of the control block that is not answered as a failure is in force afterwards.\<close>

lemma edit_dcb_cases:
  assumes "edit_dcb C h f noget noset r s = (r', s')"
  obtains (noget) "ce_GetCommState_op C h (ce_kern s) = None" "r' = noget s" "s' = s"
  | (noset) "r' = noset s'" "ce_GetCommState_op C h (ce_kern s') = ce_GetCommState_op C h (ce_kern s)"
  | (ok) d where "r' = r" "ce_GetCommState_op C h (ce_kern s) = Some d" "ce_GetCommState_op C h (ce_kern s') = Some (f d)"
proof (cases "ce_GetCommState_op C h (ce_kern s)")
  case None
  with assms show ?thesis by (intro noget) (auto simp: edit_dcb_def)
next
  case (Some d)
  obtain b k where c: "ce_SetCommState_op C h (f d) (ce_kern s) = (b, k)" by (metis surj_pair)
  show ?thesis
  proof (cases b)
    case True
    with Some assms c set_get show ?thesis by (intro ok [of d]) (auto simp: edit_dcb_def on_kern_def)
  next
    case False
    with Some assms c set_refused show ?thesis by (intro noset) (auto simp: edit_dcb_def on_kern_def)
  qed
qed

end

context ce_device
begin

text \<open>The shared structure is made beside the settings.\<close>

lemma init_struct_keeps:
  assumes "InitialiseEventInfoStruct C h p0 s = ((0, a), s')"
  shows "ce_GetCommState_op C g (ce_kern s') = ce_GetCommState_op C g (ce_kern s)
    \<and> ce_GetCommTimeouts_op C g (ce_kern s') = ce_GetCommTimeouts_op C g (ce_kern s)
    \<and> (\<exists>es. ce_heap s' a = Some es \<and> es_fd es = h \<and> es_ef es = EV_POWER \<and> es_event es = 0 \<and> \<not> es_ready es)"
proof -
  obtain b k1 where m: "ce_malloc_op C (ce_kern s) = (b, k1)" by (metis surj_pair)
  obtain e k2 where ev: "ce_CreateEvent_op C h k1 = (e, k2)" by (metis surj_pair)
  from assms m ev malloc_keeps [OF m] event_keeps [OF ev] event_null [of h k1 k2] show ?thesis
    by (auto simp: InitialiseEventInfoStruct_def on_kern_def Let_def split: option.splits if_splits)
qed

end

locale ce_serial = ce_device C
  for C :: "'k ceapi" +
  fixes consumed sent :: "handle \<Rightarrow> 'k \<Rightarrow> u8 list"
  assumes read_some: "ce_ReadFile_op C h n k = (Some bs, k') \<Longrightarrow> length bs \<le> n \<and> consumed h k' = consumed h k @ bs"
    and read_none: "ce_ReadFile_op C h n k = (None, k') \<Longrightarrow> consumed h k' = consumed h k"
    and write_some: "ce_WriteFile_op C h bs k = (Some j, k') \<Longrightarrow> j \<le> length bs \<and> sent h k' = sent h k @ take j bs"
    and write_none: "ce_WriteFile_op C h bs k = (None, k') \<Longrightarrow> sent h k' = sent h k"
begin

lemma ce_read_loop_chunks:
  assumes "0 \<le> off" and "off + int len \<le> int (length body)" and "tot \<le> len" and "len < n + tot"
  shows "\<exists>cs. read_chunks consumed h body (nat off) len t tot s (ce_read_loop C n fc h body off len t tot s) cs"
  using assms
proof (induction n arbitrary: body tot s)
  case (Suc n)
  obtain r k where c: "ce_ReadFile_op C h len (ce_kern s) = (r, k)" by (metis surj_pair)
  show ?case
  proof (cases r)
    case None
    with c read_none Suc.prems show ?thesis by (auto simp: read_chunks_def on_kern_def intro!: exI [of _ "[]"])
  next
    case (Some bs)
    then have bs: "length bs \<le> len" "consumed h k = consumed h (ce_kern s) @ bs" using read_some c by auto
    have st: "store_at body off bs = Done (overwrite body (nat off) bs)"
      using Suc.prems bs by (simp add: store_at_overwrite)
    show ?thesis
    proof (cases "bs \<noteq> [] \<and> t \<noteq> 0 \<and> tot + length bs \<le> len \<and> tot + length bs < unat t")
      case True
      then have eq: "ce_read_loop C (Suc n) fc h body off len t tot s
          = ce_read_loop C n fc h (overwrite body (nat off) bs) off len t (tot + length bs) (s\<lparr>ce_kern := k\<rparr>)"
        using c Some st by (simp add: on_kern_def)
      have "0 < length bs" using True by simp
      with True Suc.prems have "len < n + (tot + length bs)" by linarith
      moreover have "length (overwrite body (nat off) bs) = length body"
        using Suc.prems bs by (auto simp: overwrite_def)
      ultimately show ?thesis
        using Suc.IH [of "overwrite body (nat off) bs" "tot + length bs" "s\<lparr>ce_kern := k\<rparr>"] True Suc.prems(1,2) bs
        unfolding eq by (auto intro: read_chunks_Cons)
    next
      case False
      then have "ce_read_loop C (Suc n) fc h body off len t tot s
          = Done (((Some (tot + length bs), None), overwrite body (nat off) bs), s\<lparr>ce_kern := k\<rparr>)"
        using c Some st by (auto simp: on_kern_def Let_def)
      with bs Suc.prems show ?thesis by (intro exI [of _ "[bs]"]) (simp add: read_chunks_def)
    qed
  qed
qed simp

lemma ce_write_loop_sent:
  assumes "ce_write_loop C n fc h body off len tot s = Done (e, s')" and "0 \<le> off" and "0 \<le> tot" and "tot \<le> len"
    and "off + len \<le> int (length body)"
  shows "\<exists>j. j \<le> nat (len - tot) \<and> sent h (ce_kern s') = sent h (ce_kern s) @ take j (drop (nat (tot + off)) body)
    \<and> (e = None \<and> j = nat (len - tot) \<or> e = ce_last C fc IO_EXCEPTION ''writeArray - WriteFile'' s')"
  using assms
proof (induction n arbitrary: tot s)
  case (Suc n)
  define bs where "bs = take (nat (len - tot)) (drop (nat (tot + off)) body)"
  have sl: "slice body (tot + off) (len - tot) = Done bs" using Suc.prems by (auto simp: slice_def bs_def)
  obtain r k where c: "ce_WriteFile_op C h bs (ce_kern s) = (r, k)" by (metis surj_pair)
  show ?case
  proof (cases r)
    case None
    with c sl Suc.prems write_none show ?thesis by (auto simp: on_kern_def intro!: exI [of _ 0])
  next
    case (Some i)
    have "length bs \<le> nat (len - tot)" by (simp add: bs_def)
    with Some have i: "i \<le> nat (len - tot)" "sent h k = sent h (ce_kern s) @ take i (drop (nat (tot + off)) body)"
      using write_some [of h bs "ce_kern s" i k] c by (auto simp: bs_def)
    show ?thesis
    proof (cases "tot + int i < len")
      case True
      with Suc.prems c sl Some have rest: "ce_write_loop C n fc h body off len (tot + int i) (s\<lparr>ce_kern := k\<rparr>) = Done (e, s')"
        by (simp add: on_kern_def)
      obtain j where j: "j \<le> nat (len - (tot + int i))"
          "sent h (ce_kern s') = sent h k @ take j (drop (nat (tot + int i + off)) body)"
          "e = None \<and> j = nat (len - (tot + int i)) \<or> e = ce_last C fc IO_EXCEPTION ''writeArray - WriteFile'' s'"
        using Suc.IH [OF rest] Suc.prems True by auto
      have "nat (tot + int i + off) = i + nat (tot + off)" using Suc.prems by simp
      then have "sent h (ce_kern s') = sent h (ce_kern s) @ take (i + j) (drop (nat (tot + off)) body)"
        using i j(2) by (simp add: take_add)
      with j i True Suc.prems show ?thesis by (intro exI [of _ "i + j"]) auto
    next
      case False
      with Suc.prems c sl Some i show ?thesis by (intro exI [of _ i]) (auto simp: on_kern_def)
    qed
  qed
qed simp

end

lemma ce_write_loop_returns:
  assumes "\<And>bs k. bs \<noteq> [] \<Longrightarrow> fst (ce_WriteFile_op C h bs k) \<noteq> Some 0" and "0 \<le> off" and "0 \<le> tot" and "tot \<le> len"
    and "off + len \<le> int (length body)" and "nat (len - tot) < n"
  shows "\<exists>x. ce_write_loop C n fc h body off len tot s = Done x"
  using assms(3,4,6)
proof (induction n arbitrary: tot s)
  case (Suc n)
  define bs where "bs = take (nat (len - tot)) (drop (nat (tot + off)) body)"
  have sl: "slice body (tot + off) (len - tot) = Done bs" using Suc.prems assms(2,5) by (auto simp: slice_def bs_def)
  obtain r k where c: "ce_WriteFile_op C h bs (ce_kern s) = (r, k)" by (metis surj_pair)
  have "i \<noteq> 0" if "r = Some i" "tot + int i < len" for i
  proof -
    have "tot < len" using that(2) by linarith
    then have "bs \<noteq> []" using Suc.prems assms(2,5) by (auto simp: bs_def)
    from assms(1) [OF this, of "ce_kern s"] c that(1) show ?thesis by auto
  qed
  with Suc.IH [of "tot + int i" "s\<lparr>ce_kern := k\<rparr>" for i] Suc.prems c sl show ?case
    by (cases r) (auto simp: on_kern_def Let_def)
qed simp

lemma ce_write_loop_stuck:
  assumes "\<And>bs k. fst (ce_WriteFile_op C h bs k) = Some 0" and "0 \<le> off" and "0 < len" and "off + len \<le> int (length body)"
  shows "ce_write_loop C n fc h body off len 0 s = Hang"
proof (induction n arbitrary: s)
  case (Suc n)
  have sl: "slice body off len = Done (take (nat len) (drop (nat off) body))" using assms(2-4) by (simp add: slice_def)
  obtain k where "ce_WriteFile_op C h (take (nat len) (drop (nat off) body)) (ce_kern s) = (Some 0, k)"
    using assms(1) by (metis prod.collapse)
  with Suc sl assms(3) show ?case by (simp add: on_kern_def)
qed simp

section \<open>A device\<close>

text \<open>A port that accepts every setting, hands out what arrived packet by packet and takes up to \<open>cd_quota\<close> bytes at once.\<close>

record ce_dev =
  cd_dcb :: CE_DCB
  cd_timeouts :: COMMTIMEOUTS
  cd_status :: u32
  cd_in :: "u8 list list"
  cd_got :: "u8 list"
  cd_out :: "u8 list"
  cd_quota :: nat
  cd_errors :: u32

definition ce_take :: "nat \<Rightarrow> ce_dev \<Rightarrow> u8 list option \<times> ce_dev" where
  "ce_take n k = (case cd_in k of
       [] \<Rightarrow> (Some [], k)
     | p # ps \<Rightarrow> (Some (take n p), k\<lparr>cd_got := cd_got k @ take n p, cd_in := if length p \<le> n then ps else drop n p # ps\<rparr>))"

definition refce :: "ce_dev ceapi" where
  "refce = \<lparr>
     ce_CreateFile_op = (\<lambda>name k. (Handle 1, k)),
     ce_CloseHandle_op = (\<lambda>h k. (True, k)),
     ce_GetCommState_op = (\<lambda>h k. Some (cd_dcb k)),
     ce_SetCommState_op = (\<lambda>h d k. (True, k\<lparr>cd_dcb := d\<rparr>)),
     ce_GetCommTimeouts_op = (\<lambda>h k. Some (cd_timeouts k)),
     ce_SetCommTimeouts_op = (\<lambda>h t k. (True, k\<lparr>cd_timeouts := t\<rparr>)),
     ce_EscapeCommFunction_op = (\<lambda>h e k. k),
     ce_GetCommModemStatus_op = (\<lambda>h k. Some (cd_status k)),
     ce_SetCommBreak_op = (\<lambda>h k. k),
     ce_ClearCommBreak_op = (\<lambda>h k. k),
     ce_Sleep_op = (\<lambda>ms k. k),
     ce_WriteFile_op = (\<lambda>h bs k. (Some (min (cd_quota k) (length bs)), k\<lparr>cd_out := cd_out k @ take (cd_quota k) bs\<rparr>)),
     ce_ReadFile_op = (\<lambda>h. ce_take),
     ce_ClearCommError_op = (\<lambda>h k. (Some (cd_errors k, \<lparr>cbInQue = int (length (concat (cd_in k))), cbOutQue = 0\<rparr>), k\<lparr>cd_errors := 0\<rparr>)),
     ce_SetCommMask_op = (\<lambda>h m k. (True, k)),
     ce_malloc_op = (\<lambda>k. (Some 1, k)),
     ce_CreateEvent_op = (\<lambda>h k. (Handle 2, k)),
     ce_GetLastError_op = (\<lambda>k. 0),
     ce_FormatMessage_op = (\<lambda>e. ''Error  '')\<rparr>"

definition ce_dcb0 :: CE_DCB where
  "ce_dcb0 = DCB.extend (rc_dcb refcom0) \<lparr>fErrorChar = False, fNull = False, fAbortOnError = False\<rparr>"

definition ce_sys0 :: "u8 list list \<Rightarrow> nat \<Rightarrow> ce_dev cesys" where
  "ce_sys0 packets quota = \<lparr>ce_heap = (\<lambda>a. None), ce_kern = \<lparr>cd_dcb = ce_dcb0, cd_timeouts = rc_timeouts refcom0, cd_status = 0,
     cd_in = packets, cd_got = [], cd_out = [], cd_quota = quota, cd_errors = 0\<rparr>\<rparr>"

definition ce_jp0 :: cejport where
  "ce_jp0 = \<lparr>cej_fd = Handle 1, cej_eis = Some 1, cej_threshold = 3, cej_interrupted = False\<rparr>"

interpretation refce: ce_serial refce "\<lambda>h. cd_got" "\<lambda>h. cd_out"
  by unfold_locales (auto simp: refce_def ce_take_def min_def split: list.splits)

section \<open>Properties\<close>

text \<open>The four modem lines are asked with \<open>|\<close> in place of \<open>&\<close>: each is reported on whenever the status can be had.\<close>

lemma ce_modem_blind:
  "ce_isCTS C jp s = (ce_GetCommModemStatus_op C (ce_get_fd jp) (ce_kern s) \<noteq> None)"
  "ce_isDSR C jp s = ce_isCTS C jp s" "ce_isCD C jp s = ce_isCTS C jp s" "ce_isRI C jp s = ce_isCTS C jp s"
proof -
  have "m OR b \<noteq> 0" if "b \<noteq> 0" for m b :: u32 using that by (metis or_eq_0_iff)
  then have "ce_modem C b jp s = (ce_GetCommModemStatus_op C (ce_get_fd jp) (ce_kern s) \<noteq> None)" if "b \<noteq> 0" for b
    using that by (auto simp: ce_modem_def split: option.splits)
  then show "ce_isCTS C jp s = (ce_GetCommModemStatus_op C (ce_get_fd jp) (ce_kern s) \<noteq> None)"
    "ce_isDSR C jp s = ce_isCTS C jp s" "ce_isCD C jp s = ce_isCTS C jp s" "ce_isRI C jp s = ce_isCTS C jp s"
    by (simp_all add: ce_isCTS_def ce_isDSR_def ce_isCD_def ce_isRI_def)
qed

text \<open>C33. \<open>readArray\<close> on Windows CE returns within \<open>len + 1\<close> calls. Unless it fails, the number it returns is the number
  of bytes it took from the port, but every chunk is stored at the start of the region, over the chunk before it; the
  array holds what was read only when one chunk was enough, as it always is without a threshold.\<close>

theorem ce_readArray_chunks:
  assumes "ce_serial C consumed sent" and "0 \<le> off" and "0 \<le> len" and "off + len \<le> int (length body)" and "len < 2 ^ 30"
    and "nat len < n"
  shows "\<exists>r e body' s' cs. ce_readArray C n fc jp body off len s = Done (((r, e), body'), s')
    \<and> consumed (ce_get_fd jp) (ce_kern s') = consumed (ce_get_fd jp) (ce_kern s) @ concat cs
    \<and> (r = -1 \<and> body' = body
       \<or> e = None \<and> cs \<noteq> [] \<and> r = int (length (concat cs)) \<and> r \<le> 2 * len
         \<and> body' = foldl (\<lambda>b. overwrite b (nat off)) body cs \<and> (cej_threshold jp = 0 \<longrightarrow> length cs = 1))"
proof -
  define R where "R = ce_read_loop C n fc (ce_get_fd jp) body off (nat len) (word_of_int (cej_threshold jp)) 0 s"
  have arr: "ce_readArray C n fc jp body off len s = run_bind R (\<lambda>(((r, e), body'), s). Done (case r of
             None \<Rightarrow> (((-1, e), body), s) | Some tot \<Rightarrow> (((sint (word_of_nat tot :: u32), e), body'), s)))"
    using assms(3) by (simp add: ce_readArray_def R_def)
  obtain cs where "read_chunks consumed (ce_get_fd jp) body (nat off) (nat len) (word_of_int (cej_threshold jp)) 0 s R cs"
    using ce_serial.ce_read_loop_chunks [OF assms(1,2), of "nat len" body 0 n "ce_get_fd jp" "word_of_int (cej_threshold jp)" s fc]
      assms unfolding R_def by auto
  then obtain s' where s': "consumed (ce_get_fd jp) (ce_kern s') = consumed (ce_get_fd jp) (ce_kern s) @ concat cs"
    and len: "length (concat (butlast cs)) \<le> nat len" "\<forall>c \<in> set cs. length c \<le> nat len"
    and R: "(\<exists>e body'. R = Done (((None, e), body'), s'))
       \<or> cs \<noteq> [] \<and> (word_of_int (cej_threshold jp) = (0 :: u32) \<longrightarrow> length cs = 1)
         \<and> R = Done (((Some (length (concat cs)), None), foldl (\<lambda>b. overwrite b (nat off)) body cs), s')"
    unfolding read_chunks_def by auto
  from R show ?thesis
  proof (elim disjE exE conjE)
    assume cs: "cs \<noteq> []" and one: "word_of_int (cej_threshold jp) = (0 :: u32) \<longrightarrow> length cs = 1"
      and R: "R = Done (((Some (length (concat cs)), None), foldl (\<lambda>b. overwrite b (nat off)) body cs), s')"
    from cs len have "length (concat cs) \<le> 2 * nat len"
      by (cases cs rule: rev_cases) auto
    then have le: "int (length (concat cs)) \<le> 2 * len" and "int (length (concat cs)) < 2 ^ 31" using assms(3,5) by auto
    then have "sint (word_of_nat (length (concat cs)) :: u32) = int (length (concat cs))"
      by (subst signed_of_nat) (simp add: signed_take_bit_int_eq_self)
    with arr R cs one s' le show ?thesis by auto
  qed (use arr s' in auto)
qed

theorem ce_readArray_chunks_witness:
  "ce_readArray refce 4 (\<lambda>c. True) ce_jp0 [0, 0, 0, 0] 0 3 (ce_sys0 [[1, 2], [3]] 9) \<noteq> Hang
   \<and> (\<exists>s. ce_readArray refce 4 (\<lambda>c. True) ce_jp0 [0, 0, 0, 0] 0 3 (ce_sys0 [[1, 2], [3]] 9) = Done (((3, None), [3, 2, 0, 0]), s))"
proof -
  have fuel: "(4 :: nat) = Suc (Suc (Suc (Suc 0)))" by simp
  have "\<exists>s. ce_readArray refce 4 (\<lambda>c. True) ce_jp0 [0, 0, 0, 0] 0 3 (ce_sys0 [[1, 2], [3]] 9) = Done (((3, None), [3, 2, 0, 0]), s)"
    unfolding fuel by (simp add: ce_readArray_def ce_jp0_def ce_sys0_def refce_def ce_take_def on_kern_def store_at_def)
  then show ?thesis
    using ce_readArray_chunks [OF refce.ce_serial_axioms, of 0 3 "[0, 0, 0, 0]" 4 "\<lambda>c. True" ce_jp0 "ce_sys0 [[1, 2], [3]] 9"]
    by auto
qed

text \<open>\<open>writeArray\<close> on Windows CE: when it returns without an exception the port was given exactly the bytes
  asked for, in order; after an exception, a beginning of them. It returns, within \<open>len + 1\<close> calls, when every call
  takes at least one byte or fails; while the calls time out with nothing written (the peer holds the line), it never
  returns.\<close>

theorem ce_writeArray_outcome:
  assumes "ce_serial C consumed sent" and "0 \<le> off" and "0 \<le> len" and "off + len \<le> int (length body)"
  shows "(\<forall>e s'. ce_writeArray C n fc jp body off len s = Done (e, s') \<longrightarrow>
       (\<exists>j \<le> nat len. sent (ce_get_fd jp) (ce_kern s') = sent (ce_get_fd jp) (ce_kern s) @ take j (drop (nat off) body)
         \<and> (e = None \<and> j = nat len \<or> e = ce_last C fc IO_EXCEPTION ''writeArray - WriteFile'' s')))
    \<and> (nat len < n \<and> (\<forall>bs k. bs \<noteq> [] \<longrightarrow> fst (ce_WriteFile_op C (ce_get_fd jp) bs k) \<noteq> Some 0) \<longrightarrow>
         (\<exists>x. ce_writeArray C n fc jp body off len s = Done x))
    \<and> (0 < len \<and> (\<forall>bs k. fst (ce_WriteFile_op C (ce_get_fd jp) bs k) = Some 0) \<longrightarrow>
         ce_writeArray C n fc jp body off len s = Hang)"
proof -
  have eq: "ce_writeArray C n fc jp body off len s = ce_write_loop C n fc (ce_get_fd jp) body off len 0 s"
    using assms(3) by (simp add: ce_writeArray_def)
  show ?thesis
    using ce_serial.ce_write_loop_sent [OF assms(1), of n fc "ce_get_fd jp" body off len 0 s] assms
      ce_write_loop_returns [of C "ce_get_fd jp" off 0 len body n fc s] ce_write_loop_stuck [of C "ce_get_fd jp" off len body n fc s]
    unfolding eq by auto
qed

theorem ce_writeArray_outcome_witness:
  "ce_writeArray refce 3 (\<lambda>c. True) ce_jp0 [1, 2, 3] 1 2 (ce_sys0 [] 0) = Hang
   \<and> (\<exists>s. ce_writeArray refce 3 (\<lambda>c. True) ce_jp0 [1, 2, 3] 1 2 (ce_sys0 [] 1) = Done (None, s) \<and> cd_out (ce_kern s) = [2, 3])"
proof -
  have fuel: "(3 :: nat) = Suc (Suc (Suc 0))" by simp
  have hang: "ce_writeArray refce 3 (\<lambda>c. True) ce_jp0 [1, 2, 3] 1 2 (ce_sys0 [] 0) = Hang"
    unfolding fuel by (simp add: ce_writeArray_def slice_def on_kern_def refce_def ce_sys0_def)
  obtain s where s: "ce_writeArray refce 3 (\<lambda>c. True) ce_jp0 [1, 2, 3] 1 2 (ce_sys0 [] 1) = Done (None, s)"
    unfolding fuel by (simp add: ce_writeArray_def slice_def on_kern_def refce_def ce_sys0_def)
  have "ce_last refce (\<lambda>c. True) IO_EXCEPTION ''writeArray - WriteFile'' s \<noteq> None"
    by (simp add: ce_last_def ce_fail_def ce_throw_def)
  then have "cd_out (ce_kern s) = [2, 3]"
    using ce_writeArray_outcome [OF refce.ce_serial_axioms, of 1 2 "[1, 2, 3]" 3 "\<lambda>c. True" ce_jp0 "ce_sys0 [] 1"] s
    by (auto simp: ce_sys0_def)
  with hang s show ?thesis by blast
qed

text \<open>A receive timeout is not reported as it was set. Once \<open>NativeEnableReceiveTimeoutThreshold\<close> has succeeded,
  \<open>NativegetReceiveTimeout\<close>, which asks another field, gives 0 for every positive time, 255 for a time of zero, and 0 for
  none; whether a timeout is enabled is reported right.\<close>

theorem ce_receive_timeout_report:
  assumes "ce_device C" and "\<forall>c. fc c" and "-1 \<le> time" and "time < 2 ^ 31"
    and "ce_NativeEnableReceiveTimeoutThreshold C fc jp time threshold InputBuffer s = (None, s')"
  shows "ce_NativegetReceiveTimeout C fc jp s' = (if time = 0 then 255 else 0, None)
    \<and> ce_NativeisReceiveTimeoutEnabled C fc jp s' = (time \<noteq> -1, None)"
proof -
  from assms(2,5) obtain t where t: "ce_GetCommTimeouts_op C (ce_get_fd jp) (ce_kern s) = Some t"
    by (auto simp: ce_NativeEnableReceiveTimeoutThreshold_def ce_last_def ce_fail_def ce_throw_def split: option.splits)
  obtain b k where c: "ce_SetCommTimeouts_op C (ce_get_fd jp) (ce_threshold_timeouts time t) (ce_kern s) = (b, k)"
    by (metis surj_pair)
  with t assms(2,5) have b: b and s': "s' = s\<lparr>ce_kern := k\<rparr>"
    by (auto simp: ce_NativeEnableReceiveTimeoutThreshold_def ce_last_def ce_fail_def ce_throw_def on_kern_def split: if_splits)
  have "ce_GetCommTimeouts_op C (ce_get_fd jp) (ce_kern s') = Some (ce_threshold_timeouts time t)"
    using ce_device.tset_get [OF assms(1)] c b s' by simp
  moreover have "word_of_int time \<noteq> (0 :: u32)" if "0 < time"
    using that assms(4) zdvd_not_zless [of time "2 ^ 32"] by (simp add: word_of_int_eq_0_iff)
  ultimately show ?thesis
    using assms(3) by (auto simp: ce_NativegetReceiveTimeout_def ce_NativeisReceiveTimeoutEnabled_def ce_threshold_timeouts_def)
qed

theorem ce_receive_timeout_report_witness:
  "(\<exists>s. ce_NativeEnableReceiveTimeoutThreshold refce (\<lambda>c. True) ce_jp0 500 0 0 (ce_sys0 [] 1) = (None, s)
     \<and> ce_NativegetReceiveTimeout refce (\<lambda>c. True) ce_jp0 s = (0, None)
     \<and> ce_NativeisReceiveTimeoutEnabled refce (\<lambda>c. True) ce_jp0 s = (True, None))"
proof -
  obtain s where s: "ce_NativeEnableReceiveTimeoutThreshold refce (\<lambda>c. True) ce_jp0 500 0 0 (ce_sys0 [] 1) = (None, s)"
    by (simp add: ce_NativeEnableReceiveTimeoutThreshold_def refce_def on_kern_def)
  with ce_receive_timeout_report [OF refce.ce_device_axioms _ _ _ s] show ?thesis by auto
qed

text \<open>The port parameters on Windows CE: when \<open>nativeSetSerialPortParams\<close> throws nothing, the port runs with the
  speed, data bits, stop bits and parity asked for, and nothing else of the control block has changed; for a number of
  stop bits that does not exist it throws, and has all the same set the other three.\<close>

theorem ce_params_stored:
  assumes "ce_device C" and "\<forall>c. fc c" and "ce_nativeSetSerialPortParams C fc jp speed dataBits stopBits parity s = (e, s')"
  defines "edit \<equiv> \<lambda>d. d\<lparr>BaudRate := word_of_int speed, ByteSize := word_of_int dataBits, Parity := word_of_int parity\<rparr>"
  shows "(e = None \<longrightarrow> (\<exists>d b. ce_GetCommState_op C (ce_get_fd jp) (ce_kern s) = Some d \<and> ce_stopbits stopBits = Some b
      \<and> ce_GetCommState_op C (ce_get_fd jp) (ce_kern s') = Some (edit d\<lparr>StopBits := b\<rparr>)))
    \<and> (ce_stopbits stopBits = None \<longrightarrow> e \<noteq> None
      \<and> (\<forall>d. ce_GetCommState_op C (ce_get_fd jp) (ce_kern s) = Some d
             \<and> fst (ce_SetCommState_op C (ce_get_fd jp) (edit d) (ce_kern s)) \<longrightarrow>
           ce_GetCommState_op C (ce_get_fd jp) (ce_kern s') = Some (edit d)))"
proof -
  have throws: "ce_last C fc x y z \<noteq> None" "ce_throw fc x y m \<noteq> None" for x y z m
    using assms(2) by (auto simp: ce_last_def ce_fail_def ce_throw_def)
  have stored: "ce_GetCommState_op C (ce_get_fd jp) (ce_kern s') = Some (edit d)"
    if "ce_stopbits stopBits = None" "ce_GetCommState_op C (ce_get_fd jp) (ce_kern s) = Some d"
      "fst (ce_SetCommState_op C (ce_get_fd jp) (edit d) (ce_kern s))" for d
    using that assms(3) ce_device.set_get [OF assms(1)]
    by (cases "ce_SetCommState_op C (ce_get_fd jp) (edit d) (ce_kern s)")
       (auto simp: ce_nativeSetSerialPortParams_def edit_dcb_def on_kern_def edit_def)
  have "(e = None \<longrightarrow> (\<exists>d b. ce_GetCommState_op C (ce_get_fd jp) (ce_kern s) = Some d \<and> ce_stopbits stopBits = Some b
      \<and> ce_GetCommState_op C (ce_get_fd jp) (ce_kern s') = Some (edit d\<lparr>StopBits := b\<rparr>)))
      \<and> (ce_stopbits stopBits = None \<longrightarrow> e \<noteq> None)"
  proof (rule ce_device.edit_dcb_cases [OF assms(1) assms(3) [unfolded ce_nativeSetSerialPortParams_def]])
    fix d
    assume "e = (if ce_stopbits stopBits = None
        then ce_throw fc CE_UNSUPPORTED ''nativeSetSerialPortParams'' ''Incorrect stopBits'' else None)"
      and "ce_GetCommState_op C (ce_get_fd jp) (ce_kern s) = Some d"
      and "ce_GetCommState_op C (ce_get_fd jp) (ce_kern s') = Some (d\<lparr>BaudRate := word_of_int speed,
        ByteSize := word_of_int dataBits, Parity := word_of_int parity,
        StopBits := case ce_stopbits stopBits of None \<Rightarrow> StopBits d | Some b \<Rightarrow> b\<rparr>)"
    then show ?thesis using throws(2) by (cases "ce_stopbits stopBits") (simp_all add: edit_def)
  qed (simp_all add: throws(1) del: not_None_eq)
  with stored show ?thesis by blast
qed

theorem ce_params_stored_witness:
  "\<exists>s. ce_nativeSetSerialPortParams refce (\<lambda>c. True) ce_jp0 9600 8 2 0 (ce_sys0 [] 1) = (None, s)
     \<and> ce_GetCommState_op refce (Handle 1) (ce_kern s)
       = Some (ce_dcb0\<lparr>BaudRate := 9600, ByteSize := 8, Parity := 0, StopBits := TWOSTOPBITS\<rparr>)"
proof -
  obtain s where s: "ce_nativeSetSerialPortParams refce (\<lambda>c. True) ce_jp0 9600 8 2 0 (ce_sys0 [] 1) = (None, s)"
    by (simp add: ce_nativeSetSerialPortParams_def edit_dcb_def refce_def on_kern_def ce_stopbits_def)
  with ce_params_stored [OF refce.ce_device_axioms _ s] show ?thesis
    by (auto simp: ce_jp0_def ce_get_fd_def ce_stopbits_def refce_def ce_sys0_def)
qed

text \<open>Opening a port on Windows CE without an exception. With a field \<open>eis\<close> of type \<open>int\<close> the handle is returned and
  the port runs with the settings and timeouts of \<open>open\<close>; without one (the class declares it \<open>long\<close>) the port has been
  opened and set up just the same, but the answer is the invalid handle, so that nobody will close it.\<close>

theorem ce_open_effect:
  assumes "ce_device C" and "\<forall>c. fc c" and "ce_open C fc has_eis d0 t0 p0 name jp s = (((h, None), jp'), s')"
  shows "\<exists>hPort d t. hPort \<noteq> INVALID_HANDLE \<and> h = (if has_eis then hPort else INVALID_HANDLE)
    \<and> ce_GetCommState_op C hPort (ce_kern s') = Some (ce_settings d)
    \<and> ce_GetCommTimeouts_op C hPort (ce_kern s') = Some (ce_timeouts t)
    \<and> (has_eis \<longrightarrow> (\<exists>a es. cej_eis jp' = Some a \<and> ce_heap s' a = Some es \<and> es_fd es = hPort \<and> es_event es = 0))"
proof -
  have throws: "(ce_last C fc x y z = None) = False" "(ce_fail C fc x y n = None) = False" for x y z n
    using assms(2) by (simp_all add: ce_last_def ce_fail_def ce_throw_def)
  obtain hPort k1 where c1: "ce_CreateFile_op C name (ce_kern s) = (hPort, k1)" by (metis surj_pair)
  define d where "d = (case ce_GetCommState_op C hPort k1 of None \<Rightarrow> d0 | Some d \<Rightarrow> d)"
  obtain b2 k2 where c2: "ce_SetCommState_op C hPort (ce_settings d) k1 = (b2, k2)" by (metis surj_pair)
  define t where "t = (case ce_GetCommTimeouts_op C hPort k2 of None \<Rightarrow> t0 | Some t \<Rightarrow> t)"
  obtain b3 k3 where c3: "ce_SetCommTimeouts_op C hPort (ce_timeouts t) k2 = (b3, k3)" by (metis surj_pair)
  define k4 where "k4 = ce_EscapeCommFunction_op C hPort SETRTS k3"
  obtain err a s5 where c5: "InitialiseEventInfoStruct C hPort p0 (s\<lparr>ce_kern := k4\<rparr>) = ((err, a), s5)" by (metis surj_pair)
  note defs = c1 c2 c3 c5 d_def [symmetric] t_def [symmetric] k4_def [symmetric]
  have ok: "hPort \<noteq> INVALID_HANDLE" "b2" "b3" "err = 0"
    using assms(3) by (auto simp: ce_open_def on_kern_def defs Let_def throws split: if_splits)
  have res: "s' = s5" "h = (if has_eis then hPort else INVALID_HANDLE)" "has_eis \<longrightarrow> cej_eis jp' = Some a"
    using assms(3) ok by (auto simp: ce_open_def on_kern_def defs Let_def split: if_splits)
  have "ce_GetCommState_op C hPort k4 = Some (ce_settings d)" "ce_GetCommTimeouts_op C hPort k4 = Some (ce_timeouts t)"
    using ce_device.escape_keeps [OF assms(1)] ce_device.tset_state [OF assms(1) c3] ce_device.set_get [OF assms(1)] c2
      ce_device.tset_get [OF assms(1)] c3 ok by (auto simp: k4_def)
  with ce_device.init_struct_keeps [OF assms(1), of hPort p0 "s\<lparr>ce_kern := k4\<rparr>" a s5 hPort] c5 ok res
  show ?thesis by auto
qed

theorem ce_open_effect_witness:
  "\<exists>jp s. ce_open refce (\<lambda>c. True) False ce_dcb0 (rc_timeouts refcom0) 0 ''COM1:'' ce_jp0 (ce_sys0 [] 1) = (((INVALID_HANDLE, None), jp), s)
     \<and> (\<exists>hPort d. hPort \<noteq> INVALID_HANDLE \<and> ce_GetCommState_op refce hPort (ce_kern s) = Some (ce_settings d))"
proof -
  obtain jp s where s: "ce_open refce (\<lambda>c. True) False ce_dcb0 (rc_timeouts refcom0) 0 ''COM1:'' ce_jp0 (ce_sys0 [] 1)
      = (((INVALID_HANDLE, None), jp), s)"
    by (simp add: ce_open_def refce_def on_kern_def InitialiseEventInfoStruct_def Let_def)
  with ce_open_effect [OF refce.ce_device_axioms _ s] show ?thesis by auto
qed

text \<open>Of the lines the program drives, the report on DTR follows \<open>setDTR\<close>; the report on RTS does not follow \<open>setRTS\<close>,
  which works on the line directly.\<close>

lemma ce_driven_lines:
  assumes "ce_device C"
  shows "ce_isRTS C jp (ce_setRTS C jp b s) = ce_isRTS C jp s"
    and "(\<And>d. fst (ce_SetCommState_op C (ce_get_fd jp) d (ce_kern s))) \<Longrightarrow>
      ce_GetCommState_op C (ce_get_fd jp) (ce_kern s) \<noteq> None \<Longrightarrow> ce_isDTR C jp (ce_setDTR C jp b s) = b"
proof -
  show "ce_isRTS C jp (ce_setRTS C jp b s) = ce_isRTS C jp s"
    by (simp add: ce_isRTS_def ce_setRTS_def ce_device.escape_keeps [OF assms])
next
  assume ok: "\<And>d. fst (ce_SetCommState_op C (ce_get_fd jp) d (ce_kern s))"
    and "ce_GetCommState_op C (ce_get_fd jp) (ce_kern s) \<noteq> None"
  then obtain d where d: "ce_GetCommState_op C (ce_get_fd jp) (ce_kern s) = Some d" by auto
  define d' where "d' = d\<lparr>fDtrControl := if b then DTR_CONTROL_HANDSHAKE else DTR_CONTROL_DISABLE\<rparr>"
  obtain k where k: "ce_SetCommState_op C (ce_get_fd jp) d' (ce_kern s) = (True, k)"
    using ok [of d'] by (cases "ce_SetCommState_op C (ce_get_fd jp) d' (ce_kern s)") auto
  show "ce_isDTR C jp (ce_setDTR C jp b s) = b"
    using d k ce_device.set_get [OF assms k]
    by (simp add: ce_isDTR_def ce_setDTR_def edit_dcb_def on_kern_def flip: d'_def) (simp add: d'_def)
qed

text \<open>The error and end-of-input characters read back as they were set.\<close>

lemma ce_chars_stored:
  assumes "ce_device C"
  shows "ce_nativeSetParityErrorChar C jp b s = (True, s') \<Longrightarrow> ce_nativeGetParityErrorChar C jp s' = sint b"
    and "ce_nativeSetEndOfInputChar C fc jp b s = ((True, x), s') \<Longrightarrow> ce_nativeGetEndOfInputChar C jp s' = sint b"
  unfolding ce_nativeSetParityErrorChar_def ce_nativeSetEndOfInputChar_def
  by (auto elim!: ce_device.edit_dcb_cases [OF assms] simp: ce_nativeGetParityErrorChar_def ce_nativeGetEndOfInputChar_def)

section \<open>What Java is told\<close>

definition ce_error_bit :: "nat \<Rightarrow> u32" where
  \<comment> \<open>the bit of the error word that makes an error event\<close>
  "ce_error_bit e = (if e = SPE_OE then CE_OVERRUN else if e = SPE_PE then CE_RXPARITY else if e = SPE_FE then CE_FRAME else 0)"

definition ce_due :: "u32 \<Rightarrow> u32 \<Rightarrow> nat \<Rightarrow> bool" where
  \<comment> \<open>an event is due when the flag it is subscribed with is among the flags that occurred and, for an error, its bit is set\<close>
  "ce_due flags errors e = (case ce_event_mask e of None \<Rightarrow> False
     | Some m \<Rightarrow> flags AND m \<noteq> 0 \<and> (ce_error_bit e = 0 \<or> errors AND ce_error_bit e \<noteq> 0))"

lemma tagged_filter: "map snd (filter fst (map (\<lambda>x. (P x, x)) xs)) = filter P xs"
  by (induction xs) auto

lemma one_to_ten: "[1..<11] = [1, 2, 3, 4, 5, 6, 7, 8, 9, 10 :: nat]"
  by (simp add: upt_rec)

lemma ce_due_simps:
  "ce_due flags errors SPE_DATA_AVAILABLE = (flags AND EV_RXCHAR \<noteq> 0)"
  "ce_due flags errors SPE_OUTPUT_BUFFER_EMPTY = (flags AND EV_TXEMPTY \<noteq> 0)"
  "ce_due flags errors SPE_CTS = (flags AND EV_CTS \<noteq> 0)"
  "ce_due flags errors SPE_DSR = (flags AND EV_DSR \<noteq> 0)"
  "ce_due flags errors SPE_RI = (flags AND EV_RING \<noteq> 0)"
  "ce_due flags errors SPE_CD = (flags AND EV_RLSD \<noteq> 0)"
  "ce_due flags errors SPE_OE = (flags AND EV_ERR \<noteq> 0 \<and> errors AND CE_OVERRUN \<noteq> 0)"
  "ce_due flags errors SPE_PE = (flags AND EV_ERR \<noteq> 0 \<and> errors AND CE_RXPARITY \<noteq> 0)"
  "ce_due flags errors SPE_FE = (flags AND EV_ERR \<noteq> 0 \<and> errors AND CE_FRAME \<noteq> 0)"
  "ce_due flags errors SPE_BI = (flags AND EV_BREAK \<noteq> 0)"
  by (simp_all add: ce_due_def ce_event_mask_def ce_error_bit_def)

lemma ce_candidates_due: "ce_candidates flags errors = filter (ce_due flags errors) [1..<11]"
proof -
  have "filter (ce_due flags errors) [1..<11] = map snd (filter fst (map (\<lambda>e. (ce_due flags errors e, e)) [1..<11]))"
    by (simp only: tagged_filter)
  then show ?thesis by (simp only: ce_candidates_def one_to_ten list.map ce_due_simps)
qed

lemma call_sendEvent_until:
  "call_sendEvent cb es = (case dropWhile (\<lambda>e. \<not> cb e True) es of [] \<Rightarrow> 0 | e # _ \<Rightarrow> int e,
     map (\<lambda>e. (e, True)) (takeWhile (\<lambda>e. \<not> cb e True) es @ take 1 (dropWhile (\<lambda>e. \<not> cb e True) es)))"
  by (induction es) auto

text \<open>C32. \<open>SendEvents\<close> agrees with the subscriptions of \<open>nativeSetEventFlag\<close>: Java is called, in the order of the event
  numbers and always with true, for the events whose subscription flag occurred and is still set (for an error, when its
  bit is in the error word too), up to the first that Java accepts, whose number is returned; 0 when Java accepts none.\<close>

theorem SendEvents_due:
  assumes "fst (ce_ClearCommError_op C (es_fd es) (ce_kern s)) = Some (errors, st)"
    and "due = filter (ce_due (ev AND es_ef es) errors) [1..<11]"
  shows "fst (SendEvents C cb ev es s) = (case dropWhile (\<lambda>e. \<not> cb e True) due of [] \<Rightarrow> 0 | e # _ \<Rightarrow> int e,
     map (\<lambda>e. (e, True)) (takeWhile (\<lambda>e. \<not> cb e True) due @ take 1 (dropWhile (\<lambda>e. \<not> cb e True) due)))"
  using assms by (simp add: SendEvents_def on_kern_def case_prod_beta ce_candidates_due call_sendEvent_until)

definition ce_es0 :: event_struct where
  "ce_es0 = \<lparr>es_fd = Handle 1, es_ef = EV_POWER OR EV_ERR OR EV_BREAK OR EV_RXCHAR, es_handle = Handle 2, es_event = 0, es_ready = True\<rparr>"

theorem SendEvents_due_witness:
  "fst (SendEvents refce (\<lambda>e _. e = SPE_FE) (EV_ERR OR EV_BREAK OR EV_RXCHAR) ce_es0
     ((ce_sys0 [] 1)\<lparr>ce_kern := (ce_kern (ce_sys0 [] 1))\<lparr>cd_errors := CE_OVERRUN OR CE_FRAME\<rparr>\<rparr>))
   = (int SPE_FE, [(SPE_DATA_AVAILABLE, True), (SPE_OE, True), (SPE_FE, True)])"
  by (subst SendEvents_due [OF _ refl, unfolded one_to_ten],
      simp_all add: refce_def ce_es0_def ce_due_def ce_event_mask_def ce_error_bit_def) simp

text \<open>The three errors have one flag between them: taking back one subscription takes back all three.\<close>

lemma ce_error_flag_shared:
  assumes "event \<in> {SPE_OE, SPE_PE, SPE_FE}" and "cej_eis jp = Some a"
    and "ce_nativeSetEventFlag C flag0 jp h event False s = Done s'"
  shows "\<exists>es. ce_heap s' a = Some es \<and> \<not> ce_due (ev AND es_ef es) errors SPE_OE
    \<and> \<not> ce_due (ev AND es_ef es) errors SPE_PE \<and> \<not> ce_due (ev AND es_ef es) errors SPE_FE"
proof -
  have mask: "ce_event_mask event = Some EV_ERR" using assms(1) by (auto simp: ce_event_mask_def)
  obtain es where es: "ce_heap s a = Some es" using assms(2,3)
    by (cases "ce_heap s a") (simp_all add: ce_nativeSetEventFlag_def)
  have s': "ce_heap s' a = Some (es\<lparr>es_ef := es_ef es AND NOT EV_ERR\<rparr>)"
    using assms(2,3) es mask by (auto simp: ce_nativeSetEventFlag_def on_kern_def Let_def split: prod.splits)
  have "ev AND (es_ef es AND NOT EV_ERR) AND EV_ERR = 0" by (simp add: and.assoc and.left_commute)
  with s' show ?thesis by (simp add: ce_due_def ce_event_mask_def and.assoc)
qed

end
