(* ===== verification/WinCE_Events.thy ===== *)
theory WinCE_Events
  imports WinCE_Port
begin

text \<open>
  The two threads of a Windows CE port and the structure they share: \<open>CommEventThread\<close> waits for the port's events,
  puts each into the structure, signals an auto-reset event and waits until it has been taken;
  \<open>eventLoop\<close> waits for the signal, takes the event and calls \<open>SendEvents\<close>. Meanwhile Java interrupts the loop,
  changes the subscriptions or closes the port. Every look at the structure is a step of its own; looking at it after
  it has been freed is a step to \<open>CFault\<close>, \<open>LFault\<close> or \<open>es_misused\<close>. Two lists record the events the port reported and
  the events passed on. What \<open>SendEvents\<close> tells Java is in \<open>WinCE_Port\<close>; here only whether its result ends the loop
  matters.
\<close>

section \<open>The threads\<close>

datatype comm_pc = CMask | CWait | CRemask | CSignal | CSpin | CGone | CFault

datatype loop_pc = LTop | LReady | LWait | LTake | LClear u32 | LSend u32 | LGone | LFault

record ce_threads =
  shared :: "event_struct option"
  signalled :: bool
  handle_open :: bool
  port_open :: bool
  interrupted :: bool
  MonitorThreadLock :: bool
  MonitorThreadCloseLock :: bool
  comm :: comm_pc
  loop :: loop_pc
  es_misused :: bool
  reported :: "u32 list"
  passed :: "u32 list"

datatype ce_label = Report u32 | Tau | Close | Interrupt | SetFlags u32

text \<open>\<open>CommEventThread\<close>. \<open>WaitCommEvent\<close> fails for an empty mask, for a closed port, or otherwise; it reports events
  of the mask, or 0 when the mask was changed meanwhile.\<close>

inductive comm_step :: "ce_threads \<Rightarrow> ce_label \<Rightarrow> ce_threads \<Rightarrow> bool" where
  mask: "comm st = CMask \<Longrightarrow> shared st = Some es \<Longrightarrow> port_open st \<Longrightarrow>
    comm_step st Tau (st\<lparr>comm := CWait, shared := Some (es\<lparr>es_ready := True\<rparr>)\<rparr>)"
| mask_fails: "comm st = CMask \<Longrightarrow> shared st = Some es \<Longrightarrow> comm_step st Tau (st\<lparr>comm := CGone\<rparr>)"
| event: "comm st = CWait \<Longrightarrow> shared st = Some es \<Longrightarrow> port_open st \<Longrightarrow> m = 0 \<or> m AND es_ef es \<noteq> 0 \<Longrightarrow>
    comm_step st (Report m) (st\<lparr>comm := CRemask, shared := Some (es\<lparr>es_event := m\<rparr>), reported := reported st @ [m]\<rparr>)"
| empty_mask: "comm st = CWait \<Longrightarrow> shared st = Some es \<Longrightarrow> es_ef es = 0 \<Longrightarrow> comm_step st Tau st"
| port_closed: "comm st = CWait \<Longrightarrow> shared st = Some es \<Longrightarrow> \<not> port_open st \<Longrightarrow>
    comm_step st Tau (st\<lparr>comm := CGone, shared := None\<rparr>)"
| wait_fails: "comm st = CWait \<Longrightarrow> shared st = Some es \<Longrightarrow> comm_step st Tau (st\<lparr>comm := CGone\<rparr>)"
| remask: "comm st = CRemask \<Longrightarrow> shared st = Some es \<Longrightarrow> port_open st \<Longrightarrow> comm_step st Tau (st\<lparr>comm := CSignal\<rparr>)"
| remask_fails: "comm st = CRemask \<Longrightarrow> shared st = Some es \<Longrightarrow> comm_step st Tau (st\<lparr>comm := CGone\<rparr>)"
| signal: "comm st = CSignal \<Longrightarrow> shared st = Some es \<Longrightarrow> handle_open st \<Longrightarrow>
    comm_step st Tau (st\<lparr>comm := CSpin, signalled := True\<rparr>)"
| handle_closed: "comm st = CSignal \<Longrightarrow> shared st = Some es \<Longrightarrow> \<not> handle_open st \<Longrightarrow>
    comm_step st Tau (st\<lparr>comm := CGone, shared := None\<rparr>)"
| signal_fails: "comm st = CSignal \<Longrightarrow> shared st = Some es \<Longrightarrow> comm_step st Tau (st\<lparr>comm := CGone\<rparr>)"
| spin: "comm st = CSpin \<Longrightarrow> shared st = Some es \<Longrightarrow> es_event es \<noteq> 0 \<Longrightarrow> comm_step st Tau st"
| cleared: "comm st = CSpin \<Longrightarrow> shared st = Some es \<Longrightarrow> es_event es = 0 \<Longrightarrow> comm_step st Tau (st\<lparr>comm := CWait\<rparr>)"
| comm_fault: "comm st \<notin> {CGone, CFault} \<Longrightarrow> shared st = None \<Longrightarrow> comm_step st Tau (st\<lparr>comm := CFault\<rparr>)"

text \<open>Leaving \<open>eventLoop\<close>, which every way out does alike.\<close>

definition leave_loop :: "ce_threads \<Rightarrow> ce_threads" where
  "leave_loop st = st\<lparr>loop := LGone, handle_open := False, signalled := False, MonitorThreadCloseLock := False\<rparr>"

text \<open>\<open>eventLoop\<close>, from the creation of the other thread on.\<close>

inductive loop_step :: "ce_threads \<Rightarrow> ce_label \<Rightarrow> ce_threads \<Rightarrow> bool" where
  stop: "loop st = LTop \<Longrightarrow> interrupted st \<Longrightarrow> shared st = Some es \<Longrightarrow> loop_step st Tau (leave_loop st)"
| go_on: "loop st = LTop \<Longrightarrow> \<not> interrupted st \<Longrightarrow> loop_step st Tau (st\<lparr>loop := LReady\<rparr>)"
| ready: "loop st = LReady \<Longrightarrow> shared st = Some es \<Longrightarrow> es_ready es \<Longrightarrow>
    loop_step st Tau (st\<lparr>loop := LWait, MonitorThreadLock := False, shared := Some (es\<lparr>es_ready := False\<rparr>)\<rparr>)"
| not_ready: "loop st = LReady \<Longrightarrow> shared st = Some es \<Longrightarrow> \<not> es_ready es \<Longrightarrow> loop_step st Tau (st\<lparr>loop := LWait\<rparr>)"
| woken: "loop st = LWait \<Longrightarrow> shared st = Some es \<Longrightarrow> handle_open st \<Longrightarrow> signalled st \<Longrightarrow>
    loop_step st Tau (st\<lparr>loop := LTake, signalled := False\<rparr>)"
| timed_out: "loop st = LWait \<Longrightarrow> shared st = Some es \<Longrightarrow> handle_open st \<Longrightarrow> \<not> signalled st \<Longrightarrow>
    loop_step st Tau (st\<lparr>loop := LTop\<rparr>)"
| wait_failed: "loop st = LWait \<Longrightarrow> shared st = Some es \<Longrightarrow> loop_step st Tau (leave_loop st)"
| take: "loop st = LTake \<Longrightarrow> shared st = Some es \<Longrightarrow> loop_step st Tau (st\<lparr>loop := LClear (es_event es)\<rparr>)"
| clear: "loop st = LClear ev \<Longrightarrow> shared st = Some es \<Longrightarrow>
    loop_step st Tau (st\<lparr>loop := LSend ev, shared := Some (es\<lparr>es_event := 0\<rparr>), passed := passed st @ [ev]\<rparr>)"
| sent: "loop st = LSend ev \<Longrightarrow> shared st = Some es \<Longrightarrow> loop_step st Tau (st\<lparr>loop := LTop\<rparr>)"
| accepted: "loop st = LSend ev \<Longrightarrow> shared st = Some es \<Longrightarrow> loop_step st Tau (leave_loop st)"
| loop_fault: "loop st \<notin> {LGone, LFault} \<Longrightarrow> loop st = LTop \<longrightarrow> interrupted st \<Longrightarrow> shared st = None \<Longrightarrow>
    loop_step st Tau (st\<lparr>loop := LFault\<rparr>)"

text \<open>\<open>nativeClose\<close>, \<open>interruptEventLoop\<close> and \<open>nativeSetEventFlag\<close>, called from other threads of Java.\<close>

inductive java_step :: "ce_threads \<Rightarrow> ce_label \<Rightarrow> ce_threads \<Rightarrow> bool" where
  close: "java_step st Close (st\<lparr>port_open := False\<rparr>)"
| interrupt: "java_step st Interrupt (st\<lparr>interrupted := True\<rparr>)"
| set_flags: "shared st = Some es \<Longrightarrow> java_step st (SetFlags f) (st\<lparr>shared := Some (es\<lparr>es_ef := f\<rparr>)\<rparr>)"
| flags_fault: "shared st = None \<Longrightarrow> java_step st (SetFlags f) (st\<lparr>es_misused := True\<rparr>)"

inductive ce_step :: "ce_threads \<Rightarrow> ce_label \<Rightarrow> ce_threads \<Rightarrow> bool" where
  by_comm: "comm_step st l st' \<Longrightarrow> ce_step st l st'"
| by_loop: "loop_step st l st' \<Longrightarrow> ce_step st l st'"
| by_java: "java_step st l st' \<Longrightarrow> ce_step st l st'"

definition ce_start :: "event_struct \<Rightarrow> ce_threads" where
  \<comment> \<open>after \<open>open\<close> and \<open>CreateThread\<close>\<close>
  "ce_start es = \<lparr>shared = Some es, signalled = False, handle_open = True, port_open = True, interrupted = False,
     MonitorThreadLock = True, MonitorThreadCloseLock = True, comm = CMask, loop = LTop, es_misused = False, reported = [], passed = []\<rparr>"

definition ce_eventLoop :: "(string \<Rightarrow> bool) \<Rightarrow> bool \<Rightarrow> event_struct \<Rightarrow> ce_threads option" where
  \<comment> \<open>how \<open>eventLoop\<close> begins: which members Java's class has, and whether the thread can be created\<close>
  "ce_eventLoop member created es =
     (if \<not> member ''MonitorThreadLock'' \<or> \<not> member ''monThreadisInterrupted'' \<or> \<not> member ''MonitorThreadCloseLock''
         \<or> \<not> member ''sendEvent'' then None
      else if \<not> created then None
      else Some (ce_start es))"

inductive ce_reach :: "(ce_threads \<Rightarrow> ce_label \<Rightarrow> bool) \<Rightarrow> ce_threads \<Rightarrow> ce_threads \<Rightarrow> bool"
  for allowed :: "ce_threads \<Rightarrow> ce_label \<Rightarrow> bool" and st0 :: ce_threads where
  start: "ce_reach allowed st0 st0"
| step: "ce_reach allowed st0 st \<Longrightarrow> ce_step st l st' \<Longrightarrow> allowed st l \<Longrightarrow> ce_reach allowed st0 st'"

text \<open>Java's order: the port is closed only when the loop has ended. And a port whose mask is never changed while it is
  waited for, so that every report has an event.\<close>

definition closes_last :: "ce_threads \<Rightarrow> ce_label \<Rightarrow> bool" where
  "closes_last st l = (l = Close \<longrightarrow> loop st = LGone)"

definition reports_events :: "ce_threads \<Rightarrow> ce_label \<Rightarrow> bool" where
  "reports_events st l = (l \<noteq> Report 0)"

section \<open>The structure is not used after it is freed\<close>










section \<open>Every event is passed on once\<close>

definition in_hand :: "loop_pc \<Rightarrow> bool" where
  "in_hand l = (l = LTake \<or> (\<exists>ev. l = LClear ev))"

definition handed_over :: "ce_threads \<Rightarrow> bool" where
  \<comment> \<open>what is reported and not yet passed on, by the place of the two threads\<close>
  "handed_over st = (case shared st of
       None \<Rightarrow> comm st \<in> {CGone, CFault} \<and> \<not> in_hand (loop st) \<and> (\<exists>p. reported st = passed st @ p \<and> length p \<le> 1)
     | Some es \<Rightarrow>
         (if es_event es = 0 then reported st = passed st else reported st = passed st @ [es_event es])
         \<and> (comm st \<in> {CMask, CWait} \<longrightarrow> es_event es = 0)
         \<and> (comm st \<in> {CRemask, CSignal} \<longrightarrow> es_event es \<noteq> 0)
         \<and> (signalled st \<longrightarrow> comm st = CSpin \<and> es_event es \<noteq> 0)
         \<and> (in_hand (loop st) \<longrightarrow> comm st = CSpin \<and> \<not> signalled st \<and> es_event es \<noteq> 0)
         \<and> (\<forall>ev. loop st = LClear ev \<longrightarrow> ev = es_event es))"

lemma handed_over_step:
  assumes "handed_over st" and "ce_step st l st'" and "reports_events st l"
  shows "handed_over st'"
  using assms(2)
proof cases
  case by_comm
  then show ?thesis using assms(1,3)
    by cases (auto simp: handed_over_def in_hand_def reports_events_def)
next
  case by_loop
  then show ?thesis using assms(1)
    by cases (auto simp: handed_over_def in_hand_def leave_loop_def split: option.splits)
next
  case by_java
  then show ?thesis using assms(1) by cases (auto simp: handed_over_def split: option.splits)
qed

lemma handed_over_start: "es_event es = 0 \<Longrightarrow> handed_over (ce_start es)"
  by (simp add: handed_over_def ce_start_def in_hand_def)

lemma reach_comm: "ce_reach A st0 st \<Longrightarrow> comm_step st l st' \<Longrightarrow> A st l \<Longrightarrow> ce_reach A st0 st'"
  and reach_loop: "ce_reach A st0 st \<Longrightarrow> loop_step st l st' \<Longrightarrow> A st l \<Longrightarrow> ce_reach A st0 st'"
  and reach_java: "ce_reach A st0 st \<Longrightarrow> java_step st l st' \<Longrightarrow> A st l \<Longrightarrow> ce_reach A st0 st'"
  by (auto intro: ce_reach.step ce_step.intros)

section \<open>Endings\<close>

text \<open>A spinning thread whose event nobody will take stays where it is, whatever happens.\<close>

definition abandoned :: "ce_threads \<Rightarrow> bool" where
  "abandoned st = (comm st = CSpin \<and> loop st = LGone \<and> (\<exists>es. shared st = Some es \<and> es_event es \<noteq> 0))"

lemma abandoned_step: "abandoned st \<Longrightarrow> ce_step st l st' \<Longrightarrow> abandoned st'"
  by (erule ce_step.cases; erule comm_step.cases loop_step.cases java_step.cases) (auto simp: abandoned_def)

lemma abandoned_reach: "ce_reach A st st' \<Longrightarrow> abandoned st \<Longrightarrow> abandoned st'"
  by (induction rule: ce_reach.induct) (auto intro: abandoned_step)

text \<open>A loop over a closed event handle passes nothing on.\<close>

definition deaf :: "ce_threads \<Rightarrow> bool" where
  "deaf st = (\<not> handle_open st \<and> loop st \<in> {LTop, LReady, LWait, LGone, LFault})"

lemma deaf_step: "deaf st \<Longrightarrow> ce_step st l st' \<Longrightarrow> deaf st' \<and> passed st' = passed st"
  by (erule ce_step.cases; erule comm_step.cases loop_step.cases java_step.cases) (auto simp: deaf_def leave_loop_def)

lemma deaf_reach: "ce_reach A st st' \<Longrightarrow> deaf st \<Longrightarrow> deaf st' \<and> passed st' = passed st"
  by (induction rule: ce_reach.induct) (auto dest: deaf_step)

text \<open>Nothing to pass on, and nothing passed on but empty reports.\<close>

definition quiet :: "ce_threads \<Rightarrow> ce_label \<Rightarrow> bool" where
  "quiet st l = (\<forall>m. l \<noteq> Report m)"

definition blank :: "ce_threads \<Rightarrow> bool" where
  "blank st = ((\<forall>es. shared st = Some es \<longrightarrow> es_event es = 0) \<and> (\<forall>ev. loop st = LClear ev \<longrightarrow> ev = 0) \<and> set (passed st) \<subseteq> {0})"

lemma blank_step: "blank st \<Longrightarrow> ce_step st l st' \<Longrightarrow> quiet st l \<Longrightarrow> blank st'"
  by (erule ce_step.cases; erule comm_step.cases loop_step.cases java_step.cases) (auto simp: blank_def quiet_def leave_loop_def)

lemma blank_reach: "ce_reach quiet st st' \<Longrightarrow> blank st \<Longrightarrow> blank st'"
  by (induction rule: ce_reach.induct) (auto intro: blank_step)

lemma reach_abandoned:
  assumes "es_ef es \<noteq> 0" and "\<And>st. A st Tau" and "\<And>st. A st Interrupt" and "\<And>st. A st (Report (es_ef es))"
  shows "\<exists>st. ce_reach A (ce_start es) st \<and> abandoned st"
proof -
  let ?es1 = "es\<lparr>es_ready := True\<rparr>" and ?m = "es_ef es"
  let ?es2 = "?es1\<lparr>es_event := ?m\<rparr>"
  let ?s0 = "ce_start es"
  let ?s1 = "?s0\<lparr>comm := CWait, shared := Some ?es1\<rparr>"
  let ?s2 = "?s1\<lparr>comm := CRemask, shared := Some ?es2, reported := reported ?s1 @ [?m]\<rparr>"
  let ?s3 = "?s2\<lparr>comm := CSignal\<rparr>"
  let ?s4 = "?s3\<lparr>comm := CSpin, signalled := True\<rparr>"
  let ?s5 = "?s4\<lparr>interrupted := True\<rparr>"
  have "ce_reach A ?s0 ?s1"
    by (rule reach_comm [OF ce_reach.start comm_step.mask [of ?s0 es]]) (simp_all add: assms(2) ce_start_def)
  then have "ce_reach A ?s0 ?s2"
    by (rule reach_comm [OF _ comm_step.event [of ?s1 ?es1 ?m]]) (simp_all add: assms ce_start_def)
  then have "ce_reach A ?s0 ?s3"
    by (rule reach_comm [OF _ comm_step.remask [of ?s2 ?es2]]) (simp_all add: assms(2) ce_start_def)
  then have "ce_reach A ?s0 ?s4"
    by (rule reach_comm [OF _ comm_step.signal [of ?s3 ?es2]]) (simp_all add: assms(2) ce_start_def)
  then have "ce_reach A ?s0 ?s5" by (rule reach_java [OF _ java_step.interrupt [of ?s4]]) (rule assms(3))
  then have "ce_reach A ?s0 (leave_loop ?s5)"
    by (rule reach_loop [OF _ loop_step.stop [of ?s5 ?es2]]) (simp_all add: assms(2) ce_start_def)
  then show ?thesis using assms(1) by (intro exI conjI) (assumption, simp add: abandoned_def leave_loop_def ce_start_def)
qed

text \<open>The loop reads an empty report, the next event arrives, and the loop clears it unread.\<close>

lemma reach_lost:
  assumes "es_ef es \<noteq> 0"
  shows "\<exists>st. ce_reach closes_last (ce_start es) st \<and> reported st = [0, es_ef es] \<and> blank st"
proof -
  let ?A = closes_last
  let ?es1 = "es\<lparr>es_ready := True\<rparr>" and ?m = "es_ef es"
  let ?es2 = "?es1\<lparr>es_event := 0\<rparr>"
  let ?es3 = "?es2\<lparr>es_ready := False\<rparr>"
  let ?es4 = "?es3\<lparr>es_event := ?m\<rparr>"
  let ?s0 = "ce_start es"
  let ?s1 = "?s0\<lparr>comm := CWait, shared := Some ?es1\<rparr>"
  let ?s2 = "?s1\<lparr>comm := CRemask, shared := Some ?es2, reported := reported ?s1 @ [0]\<rparr>"
  let ?s3 = "?s2\<lparr>comm := CSignal\<rparr>"
  let ?s4 = "?s3\<lparr>comm := CSpin, signalled := True\<rparr>"
  let ?s5 = "?s4\<lparr>comm := CWait\<rparr>"
  let ?s6 = "?s5\<lparr>loop := LReady\<rparr>"
  let ?s7 = "?s6\<lparr>loop := LWait, MonitorThreadLock := False, shared := Some ?es3\<rparr>"
  let ?s8 = "?s7\<lparr>loop := LTake, signalled := False\<rparr>"
  let ?s9 = "?s8\<lparr>loop := LClear (es_event ?es3)\<rparr>"
  let ?s10 = "?s9\<lparr>comm := CRemask, shared := Some ?es4, reported := reported ?s9 @ [?m]\<rparr>"
  let ?s11 = "?s10\<lparr>loop := LSend 0, shared := Some (?es4\<lparr>es_event := 0\<rparr>), passed := passed ?s10 @ [0]\<rparr>"
  have "ce_reach ?A ?s0 ?s1"
    by (rule reach_comm [OF ce_reach.start comm_step.mask [of ?s0 es]]) (simp_all add: closes_last_def ce_start_def)
  then have "ce_reach ?A ?s0 ?s2"
    by (rule reach_comm [OF _ comm_step.event [of ?s1 ?es1 0]]) (simp_all add: closes_last_def ce_start_def)
  then have "ce_reach ?A ?s0 ?s3"
    by (rule reach_comm [OF _ comm_step.remask [of ?s2 ?es2]]) (simp_all add: closes_last_def ce_start_def)
  then have "ce_reach ?A ?s0 ?s4"
    by (rule reach_comm [OF _ comm_step.signal [of ?s3 ?es2]]) (simp_all add: closes_last_def ce_start_def)
  then have "ce_reach ?A ?s0 ?s5"
    by (rule reach_comm [OF _ comm_step.cleared [of ?s4 ?es2]]) (simp_all add: closes_last_def)
  then have "ce_reach ?A ?s0 ?s6"
    by (rule reach_loop [OF _ loop_step.go_on [of ?s5]]) (simp_all add: closes_last_def ce_start_def)
  then have "ce_reach ?A ?s0 ?s7"
    by (rule reach_loop [OF _ loop_step.ready [of ?s6 ?es2]]) (simp_all add: closes_last_def)
  then have "ce_reach ?A ?s0 ?s8"
    by (rule reach_loop [OF _ loop_step.woken [of ?s7 ?es3]]) (simp_all add: closes_last_def ce_start_def)
  then have "ce_reach ?A ?s0 ?s9"
    by (rule reach_loop [OF _ loop_step.take [of ?s8 ?es3]]) (simp_all add: closes_last_def)
  then have "ce_reach ?A ?s0 ?s10"
    by (rule reach_comm [OF _ comm_step.event [of ?s9 ?es3 ?m]]) (simp_all add: assms closes_last_def ce_start_def)
  then have "ce_reach ?A ?s0 ?s11"
    by (rule reach_loop [OF _ loop_step.clear [of ?s10 0 ?es4]]) (simp_all add: closes_last_def)
  then show ?thesis by (intro exI conjI) (assumption, simp_all add: ce_start_def blank_def)
qed

text \<open>The port is closed while the loop waits: the other thread frees the structure, and the loop goes on with it.\<close>

lemma reach_use_after_free: "\<exists>st. ce_reach (\<lambda>_ _. True) (ce_start es) st \<and> loop st = LFault"
proof -
  let ?A = "\<lambda>_ _. True"
  let ?es1 = "es\<lparr>es_ready := True\<rparr>"
  let ?s0 = "ce_start es"
  let ?s1 = "?s0\<lparr>comm := CWait, shared := Some ?es1\<rparr>"
  let ?s2 = "?s1\<lparr>loop := LReady\<rparr>"
  let ?s3 = "?s2\<lparr>port_open := False\<rparr>"
  let ?s4 = "?s3\<lparr>comm := CGone, shared := None\<rparr>"
  have "ce_reach ?A ?s0 ?s1"
    by (rule reach_comm [OF ce_reach.start comm_step.mask [of ?s0 es]]) (simp_all add: ce_start_def)
  then have "ce_reach ?A ?s0 ?s2" by (rule reach_loop [OF _ loop_step.go_on [of ?s1]]) (simp_all add: ce_start_def)
  then have "ce_reach ?A ?s0 ?s3" by (rule reach_java [OF _ java_step.close [of ?s2]]) simp
  then have "ce_reach ?A ?s0 ?s4" by (rule reach_comm [OF _ comm_step.port_closed [of ?s3 ?es1]]) simp_all
  then have "ce_reach ?A ?s0 (?s4\<lparr>loop := LFault\<rparr>)" by (rule reach_loop [OF _ loop_step.loop_fault [of ?s4]]) simp_all
  then show ?thesis by (intro exI conjI) (assumption, simp)
qed


section \<open>Properties\<close>



text \<open>C9. Every event the port reports is passed to \<open>SendEvents\<close> once, in the order of the reports, with at most one
  outstanding, in every interleaving, as long as \<open>WaitCommEvent\<close> never returns without an event.\<close>

theorem ce_events_once:
  assumes "ce_reach reports_events (ce_start es) st" and "es_event es = 0"
  shows "\<exists>p. reported st = passed st @ p \<and> length p \<le> 1"
proof -
  have "handed_over st"
    using assms by (induction rule: ce_reach.induct) (auto intro: handed_over_step handed_over_start)
  then show ?thesis by (auto simp: handed_over_def split: option.splits if_splits)
qed

theorem ce_events_once_witness:
  "\<exists>st p. ce_reach reports_events (ce_start ce_es0) st \<and> abandoned st \<and> reported st = passed st @ p \<and> length p \<le> 1"
proof -
  obtain st where st: "ce_reach reports_events (ce_start ce_es0) st" "abandoned st"
    using reach_abandoned [of ce_es0 reports_events] by (auto simp: reports_events_def ce_es0_def)
  from ce_events_once [OF st(1)] st show ?thesis by (auto simp: ce_es0_def)
qed

text \<open>C34. The event thread need not end. When the loop is interrupted while an event is waiting to be taken, which
  Java's own order allows, \<open>CommEventThread\<close> spins on the event from then on: no later step of either thread or of Java,
  closing the port included, ends it or frees the structure.\<close>

theorem ce_thread_abandoned:
  assumes "es_ef es \<noteq> 0"
  shows "\<exists>st. ce_reach closes_last (ce_start es) st \<and> loop st = LGone
    \<and> (\<forall>st'. ce_reach (\<lambda>_ _. True) st st' \<longrightarrow> comm st' = CSpin \<and> shared st' \<noteq> None)"
proof -
  obtain st where st: "ce_reach closes_last (ce_start es) st" "abandoned st"
    using reach_abandoned [OF assms, of closes_last] by (auto simp: closes_last_def)
  then have "comm st' = CSpin \<and> shared st' \<noteq> None" if "ce_reach (\<lambda>_ _. True) st st'" for st'
    using abandoned_reach [OF that] by (auto simp: abandoned_def)
  with st show ?thesis by (auto simp: abandoned_def)
qed

theorem ce_thread_abandoned_witness:
  "\<exists>st. ce_reach closes_last (ce_start ce_es0) st \<and> loop st = LGone
    \<and> (\<forall>st'. ce_reach (\<lambda>_ _. True) st st' \<longrightarrow> comm st' = CSpin \<and> shared st' \<noteq> None)"
  using ce_thread_abandoned [of ce_es0] by (simp add: ce_es0_def)

text \<open>An event can be lost. \<open>WaitCommEvent\<close> also returns, with no event, when the subscriptions are changed meanwhile;
  the thread signals it all the same and does not wait for it to be taken. The loop may then read the empty event and
  clear the next one: that event has been reported and is never passed on.\<close>

theorem ce_event_lost:
  assumes "es_ef es \<noteq> 0"
  shows "\<exists>st. ce_reach closes_last (ce_start es) st \<and> reported st = [0, es_ef es]
    \<and> (\<forall>st'. ce_reach quiet st st' \<longrightarrow> es_ef es \<notin> set (passed st'))"
proof -
  obtain st where st: "ce_reach closes_last (ce_start es) st" "reported st = [0, es_ef es]" "blank st"
    using reach_lost [OF assms] by blast
  then have "es_ef es \<notin> set (passed st')" if "ce_reach quiet st st'" for st'
    using blank_reach [OF that] assms by (auto simp: blank_def)
  with st show ?thesis by blast
qed

theorem ce_event_lost_witness:
  "\<exists>st. ce_reach closes_last (ce_start ce_es0) st \<and> reported st = [0, es_ef ce_es0]
    \<and> (\<forall>st'. ce_reach quiet st st' \<longrightarrow> es_ef ce_es0 \<notin> set (passed st'))"
  using ce_event_lost [of ce_es0] by (simp add: ce_es0_def)

end
