(* ===== verification/Drain_Thread.thy ===== *)
theory Drain_Thread
  imports Prelude
begin

text \<open>
  What \<open>SerialImp.c\<close> does where the driver has no line status register (no \<open>TIOCSERGETLSR\<close>, not Windows): a thread
  per port waits in \<open>tcdrain\<close> and tells the monitor thread when the output buffer has run empty. Five agents share
  one structure, which lives in the frame of \<open>eventLoop\<close>: the drain thread (\<open>drain_loop\<close>), the monitor thread (the loop
  of \<open>eventLoop\<close> with \<open>check_line_status_register\<close> and \<open>finalize_threads\<close>), a writer (the end of \<open>writeByte\<close>
  and \<open>writeArray\<close>), a caller of \<open>nativeDrain\<close> and the caller of \<open>interruptEventLoop\<close>. Every access to the structure is a step of its own; an
  access after \<open>eventLoop\<close> has returned is a step to a fault. The dispositions of the signals that \<open>Initialize\<close> and
  \<open>init_threads\<close> set are a map.
\<close>

section \<open>Signals\<close>

datatype disposition = SIG_DFL | SIG_IGN | warn_sig_abort | Other_handler nat

datatype signal = SIGIO | SIGABRT | SIGCHLD | SIGALRM | SIGCONT | Other_signal nat

type_synonym signals = "signal \<Rightarrow> disposition"

definition Initialize :: "signals \<Rightarrow> signals" where
  \<comment> \<open>a null handler is \<open>SIG_DFL\<close>\<close>
  "Initialize sg = (if sg SIGIO = SIG_DFL then sg(SIGIO := SIG_IGN) else sg)"

definition rs_Initialize :: "signals \<Rightarrow> signals" where "rs_Initialize = Initialize"
definition i2c_Initialize :: "signals \<Rightarrow> signals" where "i2c_Initialize = Initialize"
definition raw_Initialize :: "signals \<Rightarrow> signals" where "raw_Initialize = Initialize"

definition init_signals :: "signals \<times> signal set \<Rightarrow> signals \<times> signal set" where
  \<comment> \<open>the handlers \<open>init_threads\<close> installs, and the mask it sets for the monitor thread\<close>
  "init_signals s = (case s of (sg, blocked) \<Rightarrow>
     (sg(SIGABRT := warn_sig_abort, SIGCHLD := warn_sig_abort, SIGALRM := warn_sig_abort, SIGCONT := warn_sig_abort), {SIGCHLD}))"

text \<open>\<open>SIGIO\<close> does not kill the process any more, an existing handler is kept, and repeating the call changes nothing.\<close>

lemma Initialize_effect:
  "Initialize sg SIGIO \<noteq> SIG_DFL" "sg SIGIO \<noteq> SIG_DFL \<Longrightarrow> Initialize sg = sg" "x \<noteq> SIGIO \<Longrightarrow> Initialize sg x = sg x"
  "Initialize (Initialize sg) = Initialize sg"
  by (auto simp: Initialize_def)

section \<open>The agents\<close>

datatype drain_pc = DTop | DSleep | DCheck | DDrain | DTest | DSet | DClear | DEnd | DGone | DFault

datatype mon_pc = MTop | MLook | MSend | MReset | MFinal | MGone

datatype writer_pc = WIdle | WMark | WFault

datatype native_pc = NIdle | NDrain | NTest | NTake | NFlag | NWanted | NCopy | NSend | NFault

datatype stop_pc = IIdle | ISet | IKill | ICheck | ICancel | IClose | IDone | IFault

record drain_state =
  eventloop_interrupted :: bool
  closing :: bool
  writing :: bool
  output_buffer_empty_flag :: bool
  wanted :: bool
  in_frame :: bool
  in_transit :: bool
  cancelled :: bool
  drain :: drain_pc
  mon :: mon_pc
  writer :: writer_pc
  native :: native_pc
  stop :: stop_pc
  writes :: nat
  empty_events :: nat
  drain_calls :: nat
  drain_events :: nat

text \<open>\<open>drain_loop\<close>. \<open>tcdrain\<close> returns when nothing is in transit, or is interrupted, or fails. A cancelled thread ends in
  \<open>usleep\<close> or \<open>tcdrain\<close>, not elsewhere.\<close>

inductive drain_step :: "drain_state \<Rightarrow> drain_state \<Rightarrow> bool" where
  d_stop: "drain st \<in> {DTop, DCheck} \<Longrightarrow> in_frame st \<Longrightarrow> eventloop_interrupted st \<Longrightarrow> drain_step st (st\<lparr>drain := DEnd\<rparr>)"
| d_top: "drain st = DTop \<Longrightarrow> in_frame st \<Longrightarrow> \<not> eventloop_interrupted st \<Longrightarrow> drain_step st (st\<lparr>drain := DSleep\<rparr>)"
| d_sleep: "drain st = DSleep \<Longrightarrow> drain_step st (st\<lparr>drain := DCheck\<rparr>)"
| d_check: "drain st = DCheck \<Longrightarrow> in_frame st \<Longrightarrow> \<not> eventloop_interrupted st \<Longrightarrow> drain_step st (st\<lparr>drain := DDrain\<rparr>)"
| d_drained: "drain st = DDrain \<Longrightarrow> in_frame st \<Longrightarrow> \<not> in_transit st \<Longrightarrow> drain_step st (st\<lparr>drain := DTest\<rparr>)"
| d_eintr: "drain st = DDrain \<Longrightarrow> in_frame st \<Longrightarrow> drain_step st (st\<lparr>drain := DTop\<rparr>)"
| d_bad: "drain st = DDrain \<Longrightarrow> in_frame st \<Longrightarrow> drain_step st (st\<lparr>drain := DEnd\<rparr>)"
| d_writing: "drain st = DTest \<Longrightarrow> in_frame st \<Longrightarrow> writing st \<Longrightarrow> drain_step st (st\<lparr>drain := DSet\<rparr>)"
| d_not_writing: "drain st = DTest \<Longrightarrow> in_frame st \<Longrightarrow> \<not> writing st \<Longrightarrow> drain_step st (st\<lparr>drain := DTop\<rparr>)"
| d_set: "drain st = DSet \<Longrightarrow> in_frame st \<Longrightarrow> drain_step st (st\<lparr>drain := DClear, output_buffer_empty_flag := True\<rparr>)"
| d_clear: "drain st = DClear \<Longrightarrow> in_frame st \<Longrightarrow> drain_step st (st\<lparr>drain := DTop, writing := False\<rparr>)"
| d_end: "drain st = DEnd \<Longrightarrow> in_frame st \<Longrightarrow> drain_step st (st\<lparr>drain := DGone, closing := True\<rparr>)"
| d_cancelled: "drain st \<in> {DSleep, DDrain} \<Longrightarrow> cancelled st \<Longrightarrow> drain_step st (st\<lparr>drain := DGone\<rparr>)"
| d_fault: "drain st \<notin> {DSleep, DGone, DFault} \<Longrightarrow> \<not> in_frame st \<Longrightarrow> drain_step st (st\<lparr>drain := DFault\<rparr>)"

definition finalize_threads :: "drain_state \<Rightarrow> drain_state" where
  "finalize_threads st = st\<lparr>output_buffer_empty_flag := False\<rparr>"

text \<open>The monitor thread: leave when \<open>closing\<close> is set, else look and send. \<open>finalize_threads\<close> clears the flag.\<close>

inductive monitor_step :: "drain_state \<Rightarrow> drain_state \<Rightarrow> bool" where
  m_close: "mon st = MTop \<Longrightarrow> closing st \<Longrightarrow> monitor_step st (finalize_threads st\<lparr>mon := MFinal\<rparr>)"
| m_look: "mon st = MTop \<Longrightarrow> \<not> closing st \<Longrightarrow> monitor_step st (st\<lparr>mon := MLook\<rparr>)"
| m_empty: "mon st = MLook \<Longrightarrow> output_buffer_empty_flag st \<Longrightarrow> wanted st \<Longrightarrow> monitor_step st (st\<lparr>mon := MSend\<rparr>)"
| m_nothing: "mon st = MLook \<Longrightarrow> \<not> (output_buffer_empty_flag st \<and> wanted st) \<Longrightarrow> monitor_step st (st\<lparr>mon := MTop\<rparr>)"
| m_send: "mon st = MSend \<Longrightarrow> monitor_step st (st\<lparr>mon := MReset, empty_events := Suc (empty_events st)\<rparr>)"
| m_reset: "mon st = MReset \<Longrightarrow> monitor_step st (st\<lparr>mon := MTop, output_buffer_empty_flag := False\<rparr>)"
| m_return: "mon st = MFinal \<Longrightarrow> monitor_step st (st\<lparr>mon := MGone, in_frame := False\<rparr>)"

text \<open>A writer: the bytes go out, then \<open>writing\<close> is set. The system transmits what is in transit.\<close>

inductive writer_step :: "drain_state \<Rightarrow> drain_state \<Rightarrow> bool" where
  w_write: "writer st = WIdle \<Longrightarrow> writer_step st (st\<lparr>writer := WMark, in_transit := True, writes := Suc (writes st)\<rparr>)"
| w_mark: "writer st = WMark \<Longrightarrow> in_frame st \<Longrightarrow> writer_step st (st\<lparr>writer := WIdle, writing := True\<rparr>)"
| w_fault: "writer st = WMark \<Longrightarrow> \<not> in_frame st \<Longrightarrow> writer_step st (st\<lparr>writer := WFault\<rparr>)"

text \<open>\<open>nativeDrain\<close>: the address of the structure comes from the field \<open>eis\<close> of the Java object, which nobody resets. After
  \<open>tcdrain\<close>, whatever it returned, a caller that was not interrupted takes a write back from the drain thread and sends an
  event of its own, from a copy of the structure, if the event is wanted.\<close>

inductive native_step :: "drain_state \<Rightarrow> drain_state \<Rightarrow> bool" where
  n_call: "native st = NIdle \<Longrightarrow> native_step st (st\<lparr>native := NDrain, drain_calls := Suc (drain_calls st)\<rparr>)"
| n_interrupted: "native st = NDrain \<Longrightarrow> native_step st (st\<lparr>native := NIdle\<rparr>)"
| n_drained: "native st = NDrain \<Longrightarrow> native_step st (st\<lparr>native := NTest\<rparr>)"
| n_writing: "native st = NTest \<Longrightarrow> in_frame st \<Longrightarrow> writing st \<Longrightarrow> native_step st (st\<lparr>native := NTake\<rparr>)"
| n_not_writing: "native st = NTest \<Longrightarrow> in_frame st \<Longrightarrow> \<not> writing st \<Longrightarrow> native_step st (st\<lparr>native := NWanted\<rparr>)"
| n_take: "native st = NTake \<Longrightarrow> in_frame st \<Longrightarrow> native_step st (st\<lparr>native := NFlag, writing := False\<rparr>)"
| n_flag: "native st = NFlag \<Longrightarrow> in_frame st \<Longrightarrow> native_step st (st\<lparr>native := NWanted, output_buffer_empty_flag := False\<rparr>)"
| n_wanted: "native st = NWanted \<Longrightarrow> in_frame st \<Longrightarrow> wanted st \<Longrightarrow> native_step st (st\<lparr>native := NCopy\<rparr>)"
| n_unwanted: "native st = NWanted \<Longrightarrow> in_frame st \<Longrightarrow> \<not> wanted st \<Longrightarrow> native_step st (st\<lparr>native := NIdle\<rparr>)"
| n_copy: "native st = NCopy \<Longrightarrow> in_frame st \<Longrightarrow> native_step st (st\<lparr>native := NSend\<rparr>)"
| n_send: "native st = NSend \<Longrightarrow> native_step st (st\<lparr>native := NIdle, drain_events := Suc (drain_events st)\<rparr>)"
| n_fault: "native st \<in> {NTest, NTake, NFlag, NWanted, NCopy} \<Longrightarrow> \<not> in_frame st \<Longrightarrow> native_step st (st\<lparr>native := NFault\<rparr>)"

inductive line_step :: "drain_state \<Rightarrow> drain_state \<Rightarrow> bool" where
  transmitted: "line_step st (st\<lparr>in_transit := False\<rparr>)"

text \<open>\<open>interruptEventLoop\<close>: once the structure is found, it is kept as a pointer; 50 milliseconds after the signal,
  \<open>closing\<close> is looked at through it.\<close>

inductive stop_step :: "drain_state \<Rightarrow> drain_state \<Rightarrow> bool" where
  i_found: "stop st = IIdle \<Longrightarrow> in_frame st \<Longrightarrow> stop_step st (st\<lparr>stop := ISet\<rparr>)"
| i_set: "stop st = ISet \<Longrightarrow> in_frame st \<Longrightarrow> stop_step st (st\<lparr>stop := IKill, eventloop_interrupted := True\<rparr>)"
| i_kill: "stop st = IKill \<Longrightarrow> in_frame st \<Longrightarrow> stop_step st (st\<lparr>stop := ICheck\<rparr>)"
| i_closed: "stop st = ICheck \<Longrightarrow> in_frame st \<Longrightarrow> closing st \<Longrightarrow> stop_step st (st\<lparr>stop := IDone\<rparr>)"
| i_blocked: "stop st = ICheck \<Longrightarrow> in_frame st \<Longrightarrow> \<not> closing st \<Longrightarrow> stop_step st (st\<lparr>stop := ICancel\<rparr>)"
| i_cancel: "stop st = ICancel \<Longrightarrow> in_frame st \<Longrightarrow> stop_step st (st\<lparr>stop := IClose, cancelled := True\<rparr>)"
| i_close: "stop st = IClose \<Longrightarrow> in_frame st \<Longrightarrow> stop_step st (st\<lparr>stop := IDone, closing := True\<rparr>)"
| i_fault: "stop st \<notin> {IIdle, IDone, IFault} \<Longrightarrow> \<not> in_frame st \<Longrightarrow> stop_step st (st\<lparr>stop := IFault\<rparr>)"

inductive agent_step :: "drain_state \<Rightarrow> drain_state \<Rightarrow> bool" where
  "drain_step st st' \<Longrightarrow> agent_step st st'"
| "monitor_step st st' \<Longrightarrow> agent_step st st'"
| "writer_step st st' \<Longrightarrow> agent_step st st'"
| "native_step st st' \<Longrightarrow> agent_step st st'"
| "line_step st st' \<Longrightarrow> agent_step st st'"
| "stop_step st st' \<Longrightarrow> agent_step st st'"

definition init_threads :: "bool \<Rightarrow> drain_state" where
  \<comment> \<open>the structure when the thread has been created; \<open>want\<close> is the event flag\<close>
  "init_threads want = \<lparr>eventloop_interrupted = False, closing = False, writing = False, output_buffer_empty_flag = False,
     wanted = want, in_frame = True, in_transit = False, cancelled = False, drain = DTop, mon = MTop, writer = WIdle,
     native = NIdle, stop = IIdle, writes = 0, empty_events = 0, drain_calls = 0, drain_events = 0\<rparr>"

abbreviation runs :: "drain_state \<Rightarrow> drain_state \<Rightarrow> bool" where "runs \<equiv> agent_step\<^sup>*\<^sup>*"

section \<open>The structure outlives the drain thread\<close>

definition framed :: "drain_state \<Rightarrow> bool" where
  \<comment> \<open>while nobody is cancelled, \<open>closing\<close> is set by the drain thread, as the last thing it does\<close>
  "framed st = ((\<not> cancelled st \<longrightarrow> (closing st \<longrightarrow> drain st = DGone) \<and> stop st \<noteq> IClose)
     \<and> (mon st \<in> {MFinal, MGone} \<longrightarrow> closing st) \<and> (\<not> in_frame st \<longrightarrow> mon st = MGone)
     \<and> (\<not> cancelled st \<longrightarrow> drain st \<noteq> DFault))"

lemma framed_start: "framed (init_threads want)"
  by (simp add: framed_def init_threads_def)

lemma framed_step: "framed st \<Longrightarrow> agent_step st st' \<Longrightarrow> framed st'"
  by (erule agent_step.cases; erule drain_step.cases monitor_step.cases writer_step.cases native_step.cases line_step.cases stop_step.cases)
     (auto simp: finalize_threads_def framed_def)

lemma framed_runs: "runs st st' \<Longrightarrow> framed st \<Longrightarrow> framed st'"
  by (induction rule: rtranclp_induct) (auto intro: framed_step)

section \<open>An event for a write\<close>

definition accounted :: "drain_state \<Rightarrow> bool" where
  \<comment> \<open>events sent, an event about to be sent, a write the drain thread has still to report, a write not yet marked\<close>
  "accounted st = (empty_events st
     + (if mon st = MSend \<or> output_buffer_empty_flag st \<and> mon st \<noteq> MReset then 1 else 0)
     + (if drain st = DSet \<or> writing st \<and> drain st \<notin> {DClear, DFault} then 1 else 0)
     + (if writer st = WMark then 1 else 0) \<le> writes st
   \<and> drain_events st + (if native st \<notin> {NIdle, NFault} then 1 else 0) \<le> drain_calls st)"

lemma accounted_start: "accounted (init_threads want)"
  by (simp add: accounted_def init_threads_def)

lemma accounted_step: "accounted st \<Longrightarrow> agent_step st st' \<Longrightarrow> accounted st'"
  by (erule agent_step.cases; erule drain_step.cases monitor_step.cases writer_step.cases native_step.cases line_step.cases stop_step.cases)
     (auto simp: finalize_threads_def accounted_def split: if_splits)

lemma accounted_runs: "runs st st' \<Longrightarrow> accounted st \<Longrightarrow> accounted st'"
  by (induction rule: rtranclp_induct) (auto intro: accounted_step)

section \<open>Runs\<close>

lemma runs_drain: "runs st0 st \<Longrightarrow> drain_step st st' \<Longrightarrow> runs st0 st'"
  and runs_monitor: "runs st0 st \<Longrightarrow> monitor_step st st' \<Longrightarrow> runs st0 st'"
  and runs_writer: "runs st0 st \<Longrightarrow> writer_step st st' \<Longrightarrow> runs st0 st'"
  and runs_line: "runs st0 st \<Longrightarrow> line_step st st' \<Longrightarrow> runs st0 st'"
  and runs_native: "runs st0 st \<Longrightarrow> native_step st st' \<Longrightarrow> runs st0 st'"
  and runs_stop: "runs st0 st \<Longrightarrow> stop_step st st' \<Longrightarrow> runs st0 st'"
  by (auto intro: rtranclp.rtrancl_into_rtrancl agent_step.intros)

text \<open>After the caller has set \<open>eventloop_interrupted\<close>, the drain thread ends, the monitor thread leaves, and the caller comes
  back from its sleep to a structure that is gone.\<close>

lemma runs_stop_fault: "\<exists>st. runs (init_threads want) st \<and> \<not> cancelled st \<and> stop st = IFault"
proof -
  let ?s0 = "init_threads want"
  let ?s1 = "?s0\<lparr>stop := ISet\<rparr>"
  let ?s2 = "?s1\<lparr>stop := IKill, eventloop_interrupted := True\<rparr>"
  let ?s3 = "?s2\<lparr>stop := ICheck\<rparr>"
  let ?s4 = "?s3\<lparr>drain := DEnd\<rparr>"
  let ?s5 = "?s4\<lparr>drain := DGone, closing := True\<rparr>"
  let ?s6 = "finalize_threads ?s5\<lparr>mon := MFinal\<rparr>"
  let ?s7 = "?s6\<lparr>mon := MGone, in_frame := False\<rparr>"
  have "runs ?s0 ?s1" by (rule runs_stop [OF rtranclp.rtrancl_refl stop_step.i_found]) (simp_all add: init_threads_def)
  then have "runs ?s0 ?s2" by (rule runs_stop [OF _ stop_step.i_set]) (simp_all add: init_threads_def)
  then have "runs ?s0 ?s3" by (rule runs_stop [OF _ stop_step.i_kill]) (simp_all add: init_threads_def)
  then have "runs ?s0 ?s4" by (rule runs_drain [OF _ drain_step.d_stop]) (simp_all add: init_threads_def)
  then have "runs ?s0 ?s5" by (rule runs_drain [OF _ drain_step.d_end]) (simp_all add: init_threads_def)
  then have "runs ?s0 ?s6" by (rule runs_monitor [OF _ monitor_step.m_close]) (simp_all add: init_threads_def)
  then have "runs ?s0 ?s7" by (rule runs_monitor [OF _ monitor_step.m_return]) simp
  then have "runs ?s0 (?s7\<lparr>stop := IFault\<rparr>)" by (rule runs_stop [OF _ stop_step.i_fault]) (simp_all add: finalize_threads_def)
  then show ?thesis by (intro exI conjI) (assumption, simp_all add: init_threads_def finalize_threads_def)
qed

text \<open>The same run with a drain that is called once the loop has returned: it reads the structure that is gone. And a drain
  without any write sends an event.\<close>

lemma runs_native_fault: "\<exists>st. runs (init_threads want) st \<and> \<not> cancelled st \<and> native st = NFault"
proof -
  let ?s0 = "init_threads want"
  let ?s1 = "?s0\<lparr>stop := ISet\<rparr>"
  let ?s2 = "?s1\<lparr>stop := IKill, eventloop_interrupted := True\<rparr>"
  let ?s3 = "?s2\<lparr>drain := DEnd\<rparr>"
  let ?s4 = "?s3\<lparr>drain := DGone, closing := True\<rparr>"
  let ?s5 = "finalize_threads ?s4\<lparr>mon := MFinal\<rparr>"
  let ?s6 = "?s5\<lparr>mon := MGone, in_frame := False\<rparr>"
  let ?s7 = "?s6\<lparr>native := NDrain, drain_calls := Suc (drain_calls ?s6)\<rparr>"
  let ?s8 = "?s7\<lparr>native := NTest\<rparr>"
  note start = init_threads_def finalize_threads_def
  have "runs ?s0 ?s1" by (rule runs_stop [OF rtranclp.rtrancl_refl stop_step.i_found]) (simp_all add: start)
  then have "runs ?s0 ?s2" by (rule runs_stop [OF _ stop_step.i_set]) (simp_all add: start)
  then have "runs ?s0 ?s3" by (rule runs_drain [OF _ drain_step.d_stop]) (simp_all add: start)
  then have "runs ?s0 ?s4" by (rule runs_drain [OF _ drain_step.d_end]) (simp_all add: start)
  then have "runs ?s0 ?s5" by (rule runs_monitor [OF _ monitor_step.m_close]) (simp_all add: start)
  then have "runs ?s0 ?s6" by (rule runs_monitor [OF _ monitor_step.m_return]) simp
  then have "runs ?s0 ?s7" by (rule runs_native [OF _ native_step.n_call]) (simp add: start)
  then have "runs ?s0 ?s8" by (rule runs_native [OF _ native_step.n_drained]) simp
  then have "runs ?s0 (?s8\<lparr>native := NFault\<rparr>)" by (rule runs_native [OF _ native_step.n_fault]) simp_all
  then show ?thesis by (intro exI conjI) (assumption, simp_all add: start)
qed

lemma runs_drain_event: "\<exists>st. runs (init_threads True) st \<and> writes st = 0 \<and> drain_events st = 1"
proof -
  let ?s0 = "init_threads True"
  let ?s1 = "?s0\<lparr>native := NDrain, drain_calls := Suc (drain_calls ?s0)\<rparr>"
  let ?s2 = "?s1\<lparr>native := NTest\<rparr>"
  let ?s3 = "?s2\<lparr>native := NWanted\<rparr>"
  let ?s4 = "?s3\<lparr>native := NCopy\<rparr>"
  let ?s5 = "?s4\<lparr>native := NSend\<rparr>"
  note start = init_threads_def
  have "runs ?s0 ?s1" by (rule runs_native [OF rtranclp.rtrancl_refl native_step.n_call]) (simp add: start)
  then have "runs ?s0 ?s2" by (rule runs_native [OF _ native_step.n_drained]) simp
  then have "runs ?s0 ?s3" by (rule runs_native [OF _ native_step.n_not_writing]) (simp_all add: start)
  then have "runs ?s0 ?s4" by (rule runs_native [OF _ native_step.n_wanted]) (simp_all add: start)
  then have "runs ?s0 ?s5" by (rule runs_native [OF _ native_step.n_copy]) (simp_all add: start)
  then have "runs ?s0 (?s5\<lparr>native := NIdle, drain_events := Suc (drain_events ?s5)\<rparr>)"
    by (rule runs_native [OF _ native_step.n_send]) simp
  then show ?thesis by (intro exI conjI) (assumption, simp_all add: start)
qed

text \<open>Two writes, the second marked while the drain thread reports the first: its mark is erased.\<close>

definition settled :: "drain_state \<Rightarrow> bool" where
  "settled st = (\<not> writing st \<and> \<not> output_buffer_empty_flag st \<and> drain st \<notin> {DSet, DClear} \<and> mon st \<notin> {MSend, MReset}
     \<and> writer st \<noteq> WMark)"

lemma settled_step: "settled st \<Longrightarrow> agent_step st st' \<Longrightarrow> writes st' = writes st \<Longrightarrow> settled st' \<and> empty_events st' = empty_events st"
  by (erule agent_step.cases; erule drain_step.cases monitor_step.cases writer_step.cases native_step.cases line_step.cases stop_step.cases)
     (auto simp: finalize_threads_def settled_def)

lemma writes_step: "agent_step st st' \<Longrightarrow> writes st \<le> writes st'"
  by (erule agent_step.cases; erule drain_step.cases monitor_step.cases writer_step.cases native_step.cases line_step.cases stop_step.cases)
     (auto simp: finalize_threads_def)

lemma writes_runs: "runs st st' \<Longrightarrow> writes st \<le> writes st'"
  by (induction rule: rtranclp_induct) (auto dest: writes_step)

lemma settled_runs:
  "runs st st' \<Longrightarrow> settled st \<Longrightarrow> writes st' = writes st \<Longrightarrow> settled st' \<and> empty_events st' = empty_events st"
proof (induction rule: rtranclp_induct)
  case (step y z)
  then have "writes y = writes st" using writes_runs [of st y] writes_step [of y z] by simp
  with step settled_step [of y z] show ?case by auto
qed simp

lemma runs_event_lost: "\<exists>st. runs (init_threads True) st \<and> writes st = 2 \<and> empty_events st = 1 \<and> settled st"
proof -
  let ?s0 = "init_threads True"
  let ?s1 = "?s0\<lparr>writer := WMark, in_transit := True, writes := Suc (writes ?s0)\<rparr>"
  let ?s2 = "?s1\<lparr>writer := WIdle, writing := True\<rparr>"
  let ?s3 = "?s2\<lparr>drain := DSleep\<rparr>"
  let ?s4 = "?s3\<lparr>drain := DCheck\<rparr>"
  let ?s5 = "?s4\<lparr>drain := DDrain\<rparr>"
  let ?s6 = "?s5\<lparr>in_transit := False\<rparr>"
  let ?s7 = "?s6\<lparr>drain := DTest\<rparr>"
  let ?s8 = "?s7\<lparr>drain := DSet\<rparr>"
  let ?s9 = "?s8\<lparr>drain := DClear, output_buffer_empty_flag := True\<rparr>"
  let ?t1 = "?s9\<lparr>writer := WMark, in_transit := True, writes := Suc (writes ?s9)\<rparr>"
  let ?t2 = "?t1\<lparr>writer := WIdle, writing := True\<rparr>"
  let ?t3 = "?t2\<lparr>drain := DTop, writing := False\<rparr>"
  let ?t4 = "?t3\<lparr>mon := MLook\<rparr>"
  let ?t5 = "?t4\<lparr>mon := MSend\<rparr>"
  let ?t6 = "?t5\<lparr>mon := MReset, empty_events := Suc (empty_events ?t5)\<rparr>"
  let ?t7 = "?t6\<lparr>mon := MTop, output_buffer_empty_flag := False\<rparr>"
  note start = init_threads_def
  have "runs ?s0 ?s1" by (rule runs_writer [OF rtranclp.rtrancl_refl writer_step.w_write]) (simp add: start)
  then have "runs ?s0 ?s2" by (rule runs_writer [OF _ writer_step.w_mark]) (simp_all add: start)
  then have "runs ?s0 ?s3" by (rule runs_drain [OF _ drain_step.d_top]) (simp_all add: start)
  then have "runs ?s0 ?s4" by (rule runs_drain [OF _ drain_step.d_sleep]) simp
  then have "runs ?s0 ?s5" by (rule runs_drain [OF _ drain_step.d_check]) (simp_all add: start)
  then have "runs ?s0 ?s6" by (rule runs_line [OF _ line_step.transmitted])
  then have "runs ?s0 ?s7" by (rule runs_drain [OF _ drain_step.d_drained]) (simp_all add: start)
  then have "runs ?s0 ?s8" by (rule runs_drain [OF _ drain_step.d_writing]) (simp_all add: start)
  then have "runs ?s0 ?s9" by (rule runs_drain [OF _ drain_step.d_set]) (simp_all add: start)
  then have "runs ?s0 ?t1" by (rule runs_writer [OF _ writer_step.w_write]) simp
  then have "runs ?s0 ?t2" by (rule runs_writer [OF _ writer_step.w_mark]) (simp_all add: start)
  then have "runs ?s0 ?t3" by (rule runs_drain [OF _ drain_step.d_clear]) (simp_all add: start)
  then have "runs ?s0 ?t4" by (rule runs_monitor [OF _ monitor_step.m_look]) (simp_all add: start)
  then have "runs ?s0 ?t5" by (rule runs_monitor [OF _ monitor_step.m_empty]) (simp_all add: start)
  then have "runs ?s0 ?t6" by (rule runs_monitor [OF _ monitor_step.m_send]) simp
  then have "runs ?s0 ?t7" by (rule runs_monitor [OF _ monitor_step.m_reset]) simp
  then show ?thesis by (intro exI conjI) (assumption, simp_all add: start settled_def)
qed

section \<open>Properties\<close>

text \<open>C40. In every interleaving of the drain thread, the monitor thread, a writer, a caller of \<open>nativeDrain\<close> and
  \<open>interruptEventLoop\<close>, the drain thread does not touch the structure after \<open>eventLoop\<close> has returned, as long as it has not
  been cancelled; the monitor thread never sends more output-empty events than there were writes; and \<open>nativeDrain\<close>, which
  sends events of its own, written or not, never sends more than one for a call. (The other agents can reach a structure
  that is gone: the caller of \<open>interruptEventLoop\<close> and that of \<open>nativeDrain\<close> do in the runs shown above.)\<close>

theorem drain_thread_safe:
  assumes "runs (init_threads want) st"
  shows "(\<not> cancelled st \<longrightarrow> drain st \<noteq> DFault) \<and> empty_events st \<le> writes st \<and> drain_events st \<le> drain_calls st"
  using framed_runs [OF assms framed_start] accounted_runs [OF assms accounted_start]
  by (auto simp: framed_def accounted_def)

theorem drain_thread_safe_witness:
  "\<exists>st. runs (init_threads True) st \<and> writes st = 2 \<and> (\<not> cancelled st \<longrightarrow> drain st \<noteq> DFault) \<and> empty_events st \<le> 2
     \<and> drain_events st \<le> drain_calls st"
proof -
  obtain st where st: "runs (init_threads True) st" "writes st = 2" using runs_event_lost by blast
  from drain_thread_safe [OF st(1)] st show ?thesis by auto
qed

text \<open>But not every write is reported: a write that is marked while the drain thread reports an earlier one is forgotten,
  and the monitor thread sends no event for it unless something else is written.\<close>

theorem drain_event_lost:
  "\<exists>st. runs (init_threads True) st \<and> writes st = 2 \<and> (\<forall>st'. runs st st' \<and> writes st' = 2 \<longrightarrow> empty_events st' = 1)"
proof -
  obtain st where st: "runs (init_threads True) st" "writes st = 2" "empty_events st = 1" "settled st"
    using runs_event_lost by blast
  then have "empty_events st' = 1" if "runs st st'" "writes st' = 2" for st'
    using settled_runs [OF that(1)] that(2) by simp
  with st show ?thesis by blast
qed

end
