(* ===== verification/BeOS_Port.thy ===== *)
theory BeOS_Port
  imports Serial_IO Port_Open
begin

text \<open>
  The port for BeOS (\<open>SerialImp.cpp\<close>): the native methods over the system's class \<open>BSerialPort\<close>. A Java
  descriptor is an index into the table \<open>PortArray\<close> of pointers to such objects. The class is a record
  \<open>bserial\<close> of functions over a world; \<open>bport_contract\<close> states what the code relies on and \<open>ref_bserial\<close>
  provides it. A null, dangling or out-of-range pointer is \<open>Fault\<close>. The branches without \<open>__BEOS__\<close> are not part
  of this build: \<open>isRTS\<close>, \<open>setDSR\<close> and \<open>isDTR\<close> are not defined and the event loop only prints. Of the two ways to
  print into a buffer the one with a bound (\<open>_GNU_SOURCE\<close>) is taken.
\<close>

section \<open>The class and the table\<close>

datatype data_rate = B_0_BPS | B_50_BPS | B_75_BPS | B_110_BPS | B_134_BPS | B_150_BPS | B_200_BPS | B_300_BPS
  | B_600_BPS | B_1200_BPS | B_1800_BPS | B_2400_BPS | B_4800_BPS | B_9600_BPS | B_19200_BPS | B_38400_BPS
  | B_57600_BPS | B_115200_BPS | B_230400_BPS | B_31250_BPS

datatype data_bits = B_DATA_BITS_7 | B_DATA_BITS_8

datatype stop_bits = B_STOP_BITS_1 | B_STOP_BITS_2

datatype parity_mode = B_NO_PARITY | B_ODD_PARITY | B_EVEN_PARITY

datatype flow_mode = B_NOFLOW_CONTROL | B_HARDWARE_CONTROL | B_SOFTWARE_CONTROL

record 'w bserial =
  bs_new :: "'w \<Rightarrow> addr \<times> 'w"
  bs_delete :: "addr \<Rightarrow> 'w \<Rightarrow> 'w"
  bs_Open :: "addr \<Rightarrow> string \<Rightarrow> 'w \<Rightarrow> int \<times> 'w"
  bs_SetFlowControl :: "addr \<Rightarrow> flow_mode \<Rightarrow> 'w \<Rightarrow> 'w"
  bs_FlowControl :: "addr \<Rightarrow> 'w \<Rightarrow> flow_mode"
  bs_SetBlocking :: "addr \<Rightarrow> bool \<Rightarrow> 'w \<Rightarrow> 'w"
  bs_SetDataRate :: "addr \<Rightarrow> data_rate \<Rightarrow> 'w \<Rightarrow> bool \<times> 'w"
  bs_SetDataBits :: "addr \<Rightarrow> data_bits \<Rightarrow> 'w \<Rightarrow> 'w"
  bs_SetStopBits :: "addr \<Rightarrow> stop_bits \<Rightarrow> 'w \<Rightarrow> 'w"
  bs_SetParityMode :: "addr \<Rightarrow> parity_mode \<Rightarrow> 'w \<Rightarrow> 'w"
  bs_Write :: "addr \<Rightarrow> u8 list \<Rightarrow> 'w \<Rightarrow> int \<times> 'w"
  bs_Read :: "addr \<Rightarrow> nat \<Rightarrow> 'w \<Rightarrow> (int \<times> u8 list) \<times> 'w"
  bs_SetTimeout :: "addr \<Rightarrow> int \<Rightarrow> 'w \<Rightarrow> bool \<times> 'w"
  bs_ClearOutput :: "addr \<Rightarrow> 'w \<Rightarrow> 'w"
  bs_WaitForInput :: "addr \<Rightarrow> 'w \<Rightarrow> int \<times> 'w"
  bs_IsDSR :: "addr \<Rightarrow> 'w \<Rightarrow> bool"
  bs_IsDCD :: "addr \<Rightarrow> 'w \<Rightarrow> bool"
  bs_IsCTS :: "addr \<Rightarrow> 'w \<Rightarrow> bool"
  bs_IsRI :: "addr \<Rightarrow> 'w \<Rightarrow> bool"
  bs_SetRTS :: "addr \<Rightarrow> bool \<Rightarrow> 'w \<Rightarrow> 'w"
  bs_SetDTR :: "addr \<Rightarrow> bool \<Rightarrow> 'w \<Rightarrow> 'w"

record 'w beos =
  be_PortArray :: "addr option list"
  be_alive :: "addr \<Rightarrow> bool"
  be_world :: 'w

abbreviation (input) BEOS_DEVICEDIR :: string where "BEOS_DEVICEDIR \<equiv> ''/dev/ports/''"
abbreviation (input) B_OS_NAME_LENGTH :: nat where "B_OS_NAME_LENGTH \<equiv> 32"

definition beos_init :: "'w \<Rightarrow> 'w beos" where
  \<comment> \<open>a global array is zeroed\<close>
  "beos_init w = \<lparr>be_PortArray = replicate 65 None, be_alive = (\<lambda>a. False), be_world = w\<rparr>"

definition be_port :: "'w beos \<Rightarrow> int \<Rightarrow> addr run" where
  \<comment> \<open>the object behind \<open>PortArray[fd]->\<close>\<close>
  "be_port s fd =
     (if fd < 0 \<or> 65 \<le> fd then Fault
      else case be_PortArray s ! nat fd of None \<Rightarrow> Fault | Some a \<Rightarrow> if be_alive s a then Done a else Fault)"

definition on_port :: "int \<Rightarrow> (addr \<Rightarrow> 'w \<Rightarrow> 'a \<times> 'w) \<Rightarrow> 'w beos \<Rightarrow> ('a \<times> 'w beos) run" where
  "on_port fd f s = run_bind (be_port s fd) (\<lambda>a. let (r, w) = f a (be_world s) in Done (r, s\<lparr>be_world := w\<rparr>))"

definition be_error :: "'w posix \<Rightarrow> (string \<Rightarrow> bool) \<Rightarrow> string \<Rightarrow> string \<Rightarrow> 'w \<Rightarrow> jexc option" where
  "be_error E fc exc foo w = throw_java_exception fc exc foo (strerror_of E (errno_of E w))"

section \<open>Opening and closing\<close>

fun free_slot :: "nat \<Rightarrow> nat \<Rightarrow> addr option list \<Rightarrow> nat option" where
  \<comment> \<open>\<open>for (i = 1; i < 65; i++)\<close> from \<open>i\<close> on, \<open>n\<close> places\<close>
  "free_slot i 0 ps = None"
| "free_slot i (Suc n) ps = (if ps ! i = None then Some i else free_slot (Suc i) n ps)"

fun strstr :: "string \<Rightarrow> string \<Rightarrow> string option" where
  "strstr pat [] = (if pat = [] then Some [] else None)"
| "strstr pat (c # cs) = (if take (length pat) (c # cs) = pat then Some (c # cs) else strstr pat cs)"

definition be_setup :: "'w posix \<Rightarrow> 'w bserial \<Rightarrow> (string \<Rightarrow> bool) \<Rightarrow> nat \<Rightarrow> addr \<Rightarrow> string \<Rightarrow> 'w \<Rightarrow> (int \<times> jexc option) \<times> 'w" where
  \<comment> \<open>the calls on the new object\<close>
  "be_setup E B fc i a devName w =
     (let (results, w) = bs_Open B a devName w in
      if results < 1 then ((-1, be_error E fc PORT_IN_USE_EXCEPTION ''open'' w), w)
      else let w = bs_SetBlocking B a False (bs_SetFlowControl B a B_NOFLOW_CONTROL w);
               (ok, w) = bs_SetDataRate B a B_9600_BPS w in
      if \<not> ok then ((-1, be_error E fc PORT_IN_USE_EXCEPTION ''open'' w), w) else ((int i, None), w))"

definition be_open :: "'w posix \<Rightarrow> 'w bserial \<Rightarrow> (string \<Rightarrow> bool) \<Rightarrow> string \<Rightarrow> 'w beos \<Rightarrow> ((int \<times> jexc option) \<times> 'w beos) run" where
  \<comment> \<open>\<open>strncpy\<close> copies the whole name into \<open>devName[B_OS_NAME_LENGTH]\<close>\<close>
  "be_open E B fc filename s =
     (case free_slot 1 64 (be_PortArray s) of
        None \<Rightarrow> Done ((-1, be_error E fc PORT_IN_USE_EXCEPTION ''open'' (be_world s)), s)
      | Some i \<Rightarrow> (case strstr ''serial'' filename of
            None \<Rightarrow> Fault
          | Some devName \<Rightarrow>
              if B_OS_NAME_LENGTH < length devName + 1 then Fault
              else let (a, w) = bs_new B (be_world s); (r, w) = be_setup E B fc i a devName w
                in Done (r, s\<lparr>be_PortArray := (be_PortArray s)[i := Some a], be_alive := (be_alive s)(a := True),
                             be_world := w\<rparr>)))"

definition be_nativeClose :: "'w bserial \<Rightarrow> jport \<Rightarrow> 'w beos \<Rightarrow> 'w beos run" where
  \<comment> \<open>\<open>delete PortArray[fd]\<close>: of a null pointer nothing; the entry of the table stays\<close>
  "be_nativeClose B jp s =
     (if j_fd jp < 0 \<or> 65 \<le> j_fd jp then Fault
      else case be_PortArray s ! nat (j_fd jp) of
        None \<Rightarrow> Done s
      | Some a \<Rightarrow> if \<not> be_alive s a then Fault
          else Done (s\<lparr>be_alive := (be_alive s)(a := False), be_world := bs_delete B a (be_world s)\<rparr>))"

section \<open>Parameters\<close>

definition be_translate_speed :: "(string \<Rightarrow> bool) \<Rightarrow> int \<Rightarrow> data_rate \<times> jexc option" where
  "be_translate_speed fc speed =
     (if speed = 0 then (B_0_BPS, None) else if speed = 50 then (B_50_BPS, None) else if speed = 75 then (B_75_BPS, None)
      else if speed = 110 then (B_110_BPS, None) else if speed = 134 then (B_134_BPS, None)
      else if speed = 150 then (B_150_BPS, None) else if speed = 200 then (B_200_BPS, None)
      else if speed = 300 then (B_300_BPS, None) else if speed = 600 then (B_600_BPS, None)
      else if speed = 1200 then (B_1200_BPS, None) else if speed = 1800 then (B_1800_BPS, None)
      else if speed = 2400 then (B_2400_BPS, None) else if speed = 4800 then (B_4800_BPS, None)
      else if speed = 9600 then (B_9600_BPS, None) else if speed = 19200 then (B_19200_BPS, None)
      else if speed = 38400 then (B_38400_BPS, None) else if speed = 57600 then (B_57600_BPS, None)
      else if speed = 115200 then (B_115200_BPS, None) else if speed = 230400 then (B_230400_BPS, None)
      else if speed = 31250 then (B_31250_BPS, None)
      else (B_0_BPS, throw_java_exception fc UNSUPPORTED_COMM_OPERATION ''translate_speed'' ''speed''))"

definition be_translate_data_bits :: "(string \<Rightarrow> bool) \<Rightarrow> int \<Rightarrow> data_bits option \<times> jexc option" where
  "be_translate_data_bits fc dataBits =
     (if dataBits = JDATABITS_7 then (Some B_DATA_BITS_7, None) else if dataBits = JDATABITS_8 then (Some B_DATA_BITS_8, None)
      else (None, throw_java_exception fc UNSUPPORTED_COMM_OPERATION ''translate_data_bits'' ''data bits''))"

definition be_translate_stop_bits :: "(string \<Rightarrow> bool) \<Rightarrow> int \<Rightarrow> stop_bits option \<times> jexc option" where
  "be_translate_stop_bits fc stopBits =
     (if stopBits = 1 then (Some B_STOP_BITS_1, None) else if stopBits = 2 then (Some B_STOP_BITS_2, None)
      else (None, throw_java_exception fc UNSUPPORTED_COMM_OPERATION ''translate_stop_bits'' ''stop bits''))"

definition be_translate_parity :: "(string \<Rightarrow> bool) \<Rightarrow> int \<Rightarrow> parity_mode option \<times> jexc option" where
  "be_translate_parity fc parity =
     (if parity = JPARITY_NONE then (Some B_NO_PARITY, None) else if parity = JPARITY_EVEN then (Some B_EVEN_PARITY, None)
      else if parity = JPARITY_ODD then (Some B_ODD_PARITY, None)
      else (None, throw_java_exception fc UNSUPPORTED_COMM_OPERATION ''translate_parity'' ''parity''))"

definition be_apply :: "'w bserial \<Rightarrow> data_rate \<Rightarrow> data_bits \<Rightarrow> stop_bits \<Rightarrow> parity_mode \<Rightarrow> addr \<Rightarrow> 'w \<Rightarrow> bool \<times> 'w" where
  "be_apply B r d sb q a w =
     bs_SetDataRate B a r (bs_SetParityMode B a q (bs_SetStopBits B a sb (bs_SetDataBits B a d w)))"

definition be_nativeSetSerialPortParams :: "'w posix \<Rightarrow> 'w bserial \<Rightarrow> (string \<Rightarrow> bool) \<Rightarrow> jport \<Rightarrow> int \<Rightarrow> int \<Rightarrow> int \<Rightarrow> int \<Rightarrow> 'w beos
    \<Rightarrow> (jexc option \<times> 'w beos) run" where
  \<comment> \<open>\<open>B_0_BPS\<close> is 0, and so is the rate of an unknown speed\<close>
  "be_nativeSetSerialPortParams E B fc jp speed dataBits stopBits parity s =
     (case be_translate_speed fc speed of (r, e) \<Rightarrow>
      if r = B_0_BPS then Done (e, s)
      else case be_translate_data_bits fc dataBits of (None, e) \<Rightarrow> Done (e, s) | (Some d, _) \<Rightarrow>
      (case be_translate_stop_bits fc stopBits of (None, e) \<Rightarrow> Done (e, s) | (Some sb, _) \<Rightarrow>
      (case be_translate_parity fc parity of (None, e) \<Rightarrow> Done (e, s) | (Some q, _) \<Rightarrow>
        run_bind (on_port (j_fd jp) (be_apply B r d sb q) s) (\<lambda>(ok, s).
          Done (if ok then None else be_error E fc UNSUPPORTED_COMM_OPERATION ''nativeSetSerialPortParams'' (be_world s), s)))))"

definition be_flow :: "'w posix \<Rightarrow> 'w bserial \<Rightarrow> (string \<Rightarrow> bool) \<Rightarrow> int \<Rightarrow> flow_mode \<Rightarrow> 'w beos \<Rightarrow> (jexc option \<times> 'w beos) run" where
  "be_flow E B fc fd m s =
     run_bind (on_port fd (\<lambda>a w. let w = bs_SetFlowControl B a m w in (bs_FlowControl B a w, w)) s) (\<lambda>(m', s).
       Done (if m' \<noteq> m then be_error E fc IO_EXCEPTION ''setHWFC'' (be_world s) else None, s))"

definition be_setflowcontrol :: "'w posix \<Rightarrow> 'w bserial \<Rightarrow> (string \<Rightarrow> bool) \<Rightarrow> jport \<Rightarrow> int \<Rightarrow> 'w beos \<Rightarrow> (jexc option \<times> 'w beos) run" where
  "be_setflowcontrol E B fc jp flowmode s =
     (if flowmode = 0 then be_flow E B fc (j_fd jp) B_NOFLOW_CONTROL s
      else if flowmode = 1 \<or> flowmode = 2 then be_flow E B fc (j_fd jp) B_HARDWARE_CONTROL s
      else if flowmode = 4 \<or> flowmode = 8 then be_flow E B fc (j_fd jp) B_SOFTWARE_CONTROL s
      else Done (None, s))"

section \<open>Writing and reading\<close>

definition be_writeByte :: "'w posix \<Rightarrow> 'w bserial \<Rightarrow> nat \<Rightarrow> (string \<Rightarrow> bool) \<Rightarrow> jport \<Rightarrow> int \<Rightarrow> 'w beos \<Rightarrow> (jexc option \<times> 'w beos) run" where
  "be_writeByte E B n fc jp ji s =
     run_bind (be_port s (j_fd jp)) (\<lambda>a.
       case retry_eintr n (errno_of E) (bs_Write B a [word_of_int ji]) (be_world s) of
         None \<Rightarrow> Hang
       | Some (result, w) \<Rightarrow> Done (if 0 \<le> result then None else be_error E fc IO_EXCEPTION ''writeByte'' w, s\<lparr>be_world := w\<rparr>))"

fun be_write_loop :: "'w bserial \<Rightarrow> nat \<Rightarrow> addr \<Rightarrow> u8 list \<Rightarrow> int \<Rightarrow> 'w \<Rightarrow> 'w run" where
  \<comment> \<open>the loop tests \<open>total < count\<close> only: \<open>result\<close> is unsigned, never below 0, and a negative answer of
    \<open>Write\<close> takes the position back by its amount. A position before the buffer is \<open>Fault\<close>.\<close>
  "be_write_loop B 0 a bytes pos w = Hang"
| "be_write_loop B (Suc n) a bytes pos w =
     (if pos < 0 then Fault
      else let (result, w) = bs_Write B a (drop (nat pos) bytes) w; pos = pos + result in
        if pos < int (length bytes) then be_write_loop B n a bytes pos w else Done w)"

definition be_writeArray :: "'w bserial \<Rightarrow> nat \<Rightarrow> jport \<Rightarrow> u8 list \<Rightarrow> int \<Rightarrow> int \<Rightarrow> 'w beos \<Rightarrow> 'w beos run" where
  \<comment> \<open>no exception is ever thrown\<close>
  "be_writeArray B n jp body offset count s =
     (if count < 0 then Fault
      else run_bind (slice body offset count) (\<lambda>bytes.
        run_bind (be_port s (j_fd jp)) (\<lambda>a.
        run_bind (be_write_loop B n a bytes 0 (be_world s)) (\<lambda>w. Done (s\<lparr>be_world := w\<rparr>)))))"

fun be_clear :: "'w posix \<Rightarrow> 'w bserial \<Rightarrow> nat \<Rightarrow> addr \<Rightarrow> 'w \<Rightarrow> 'w" where
  \<comment> \<open>\<open>do { ClearOutput(); count++; } while (errno == EINTR && count < 5)\<close>, \<open>n\<close> more rounds allowed\<close>
  "be_clear E B 0 a w = bs_ClearOutput B a w"
| "be_clear E B (Suc n) a w = (let w = bs_ClearOutput B a w in if errno_of E w = EINTR then be_clear E B n a w else w)"

definition be_drain :: "'w posix \<Rightarrow> 'w bserial \<Rightarrow> jport \<Rightarrow> 'w beos \<Rightarrow> (unit \<times> 'w beos) run" where
  "be_drain E B jp s = on_port (j_fd jp) (\<lambda>a w. ((), be_clear E B 4 a w)) s"

definition be_readByte :: "'w posix \<Rightarrow> 'w bserial \<Rightarrow> (string \<Rightarrow> bool) \<Rightarrow> jport \<Rightarrow> 'w beos \<Rightarrow> ((int \<times> jexc option) \<times> 'w beos) run" where
  "be_readByte E B fc jp s =
     on_port (j_fd jp) (\<lambda>a w.
       let (ok, w) = bs_SetTimeout B a (j_timeout jp) w in
       if \<not> ok then ((-1, be_error E fc IO_EXCEPTION ''readByte'' w), w)
       else let ((r, bs), w) = bs_Read B a 1 w in
       if r \<noteq> 1 \<or> bs = [] then ((-1, be_error E fc IO_EXCEPTION ''readByte'' w), w)
       else ((uint (hd bs), None), w)) s"

fun be_read_loop :: "'w posix \<Rightarrow> nat \<Rightarrow> fd \<Rightarrow> int \<Rightarrow> int \<Rightarrow> u8 list \<Rightarrow> 'w \<Rightarrow> ((int \<times> u8 list) \<times> 'w) run" where
  \<comment> \<open>no \<open>select\<close> in this build\<close>
  "be_read_loop E 0 fd len bytes buf w = Hang"
| "be_read_loop E (Suc n) fd len bytes buf w =
     (if \<not> bytes < len then Done ((bytes, buf), w)
      else let ((ret, bs), w) = read_op E fd (len - bytes) w in
        if ret = 0 then Done ((bytes, buf), w)
        else if ret < 0 then Done ((-1, buf), w)
        else be_read_loop E n fd len (bytes + ret) (buf @ bs) w)"

definition be_read_byte_array :: "'w posix \<Rightarrow> nat \<Rightarrow> fd \<Rightarrow> int \<Rightarrow> int \<Rightarrow> 'w \<Rightarrow> ((int \<times> u8 list) \<times> 'w) run" where
  "be_read_byte_array E n fd len timeout w = be_read_loop E n fd len 0 [] w"

definition be_readArray :: "'w posix \<Rightarrow> nat \<Rightarrow> (string \<Rightarrow> bool) \<Rightarrow> jport \<Rightarrow> u8 list \<Rightarrow> int \<Rightarrow> int \<Rightarrow> 'w beos
    \<Rightarrow> (((int \<times> jexc option) \<times> u8 list) \<times> 'w beos) run" where
  \<comment> \<open>the buffer is allocated. The index into the table is read from as a file descriptor.\<close>
  "be_readArray E n fc jp body offset len s =
     (if len < 0
      then Done (((-1, throw_java_exception fc ARRAY_INDEX_OUT_OF_BOUNDS ''readArray'' ''Invalid length''), body), s)
      else run_bind (be_read_byte_array E n (j_fd jp) len (j_timeout jp) (be_world s)) (\<lambda>((bytes, buf), w).
        let s = s\<lparr>be_world := w\<rparr> in
        if bytes < 0 then Done (((-1, be_error E fc IO_EXCEPTION ''readArray'' w), body), s)
        else run_bind (store_at body offset buf) (\<lambda>body. Done (((if bytes \<noteq> 0 then bytes else -1, None), body), s))))"

definition be_nativeavailable :: "'w bserial \<Rightarrow> jport \<Rightarrow> 'w beos \<Rightarrow> (int \<times> 'w beos) run" where
  "be_nativeavailable B jp s = on_port (j_fd jp) (\<lambda>a w. let (r, w) = bs_WaitForInput B a w in (to_int32 r, w)) s"

section \<open>Lines\<close>

definition be_isDSR :: "'w bserial \<Rightarrow> jport \<Rightarrow> 'w beos \<Rightarrow> (bool \<times> 'w beos) run" where
  "be_isDSR B jp s = on_port (j_fd jp) (\<lambda>a w. (bs_IsDSR B a w, w)) s"

definition be_isCD :: "'w bserial \<Rightarrow> jport \<Rightarrow> 'w beos \<Rightarrow> (bool \<times> 'w beos) run" where
  "be_isCD B jp s = on_port (j_fd jp) (\<lambda>a w. (bs_IsDCD B a w, w)) s"

definition be_isCTS :: "'w bserial \<Rightarrow> jport \<Rightarrow> 'w beos \<Rightarrow> (bool \<times> 'w beos) run" where
  "be_isCTS B jp s = on_port (j_fd jp) (\<lambda>a w. (bs_IsCTS B a w, w)) s"

definition be_isRI :: "'w bserial \<Rightarrow> jport \<Rightarrow> 'w beos \<Rightarrow> (bool \<times> 'w beos) run" where
  "be_isRI B jp s = on_port (j_fd jp) (\<lambda>a w. (bs_IsRI B a w, w)) s"

definition be_setRTS :: "'w bserial \<Rightarrow> jport \<Rightarrow> bool \<Rightarrow> 'w beos \<Rightarrow> (unit \<times> 'w beos) run" where
  "be_setRTS B jp state s = on_port (j_fd jp) (\<lambda>a w. ((), bs_SetRTS B a state w)) s"

definition be_setDTR :: "'w bserial \<Rightarrow> jport \<Rightarrow> bool \<Rightarrow> 'w beos \<Rightarrow> (unit \<times> 'w beos) run" where
  "be_setDTR B jp state s = on_port (j_fd jp) (\<lambda>a w. ((), bs_SetDTR B a state w)) s"

section \<open>Methods on the number as a descriptor\<close>

definition be_sendBreak :: "'w posix \<Rightarrow> jport \<Rightarrow> int \<Rightarrow> 'w beos \<Rightarrow> 'w beos" where
  "be_sendBreak E jp duration s = s\<lparr>be_world := snd (tcsendbreak_op E (j_fd jp) (duration sdiv 250) (be_world s))\<rparr>"

definition be_NativegetReceiveTimeout :: "'w posix \<Rightarrow> (string \<Rightarrow> bool) \<Rightarrow> termios \<Rightarrow> jport \<Rightarrow> 'w beos \<Rightarrow> (int \<times> jexc option) \<times> 'w beos" where
  "be_NativegetReceiveTimeout E fc t0 jp s =
     (let ((r, t), w) = tcgetattr_op E (j_fd jp) t0 (be_world s); s = s\<lparr>be_world := w\<rparr> in
      if r < 0 then ((-1, be_error E fc IO_EXCEPTION ''getReceiveTimeout'' w), s) else ((uint (c_cc t VTIME) * 100, None), s))"

definition be_NativeisReceiveTimeoutEnabled :: "'w posix \<Rightarrow> (string \<Rightarrow> bool) \<Rightarrow> termios \<Rightarrow> jport \<Rightarrow> 'w beos \<Rightarrow> (bool \<times> jexc option) \<times> 'w beos" where
  "be_NativeisReceiveTimeoutEnabled E fc t0 jp s =
     (let ((r, t), w) = tcgetattr_op E (j_fd jp) t0 (be_world s); s = s\<lparr>be_world := w\<rparr> in
      if r < 0 then ((False, be_error E fc IO_EXCEPTION ''isReceiveTimeoutEnabled'' w), s) else ((0 < c_cc t VTIME, None), s))"

definition be_NativeEnableReceiveTimeoutThreshold :: "'w posix \<Rightarrow> (string \<Rightarrow> bool) \<Rightarrow> termios \<Rightarrow> jport \<Rightarrow> int \<Rightarrow> int \<Rightarrow> 'w beos
    \<Rightarrow> jexc option \<times> 'w beos" where
  "be_NativeEnableReceiveTimeoutThreshold E fc t0 jp vtime threshold s =
     (let ((r, t), w) = tcgetattr_op E (j_fd jp) t0 (be_world s) in
      if r < 0 then (be_error E fc IO_EXCEPTION ''TimeoutThreshold'' w, s\<lparr>be_world := w\<rparr>)
      else let t = t\<lparr>c_cc := (c_cc t)(VMIN := cc_of_int threshold, VTIME := cc_of_int (vtime sdiv 100))\<rparr>;
               (r, w) = tcsetattr_op E (j_fd jp) t w in
      (if r < 0 then be_error E fc IO_EXCEPTION ''TimeoutThreshold'' w else None, s\<lparr>be_world := w\<rparr>))"

section \<open>Devices and callbacks\<close>

fun be_probe_units :: "'w posix \<Rightarrow> string \<Rightarrow> nat \<Rightarrow> nat \<Rightarrow> bool \<Rightarrow> 'w \<Rightarrow> (bool \<times> bool) \<times> 'w" where
  "be_probe_units E name i 0 chr w = ((chr, False), w)"
| "be_probe_units E name i (Suc n) chr w =
     (let ((chr, ok), w) = probe E (take 255 (BEOS_DEVICEDIR @ name @ digits_of i)) chr w in
      if ok then ((chr, True), w) else be_probe_units E name (Suc i) n chr w)"

definition be_isDeviceGood :: "'w posix \<Rightarrow> string \<Rightarrow> bool \<Rightarrow> 'w \<Rightarrow> (bool \<times> bool) \<times> 'w" where
  \<comment> \<open>\<open>mystat\<close> is static, as in \<open>probe\<close>\<close>
  "be_isDeviceGood E name chr w =
     (let ((chr, ok), w) = be_probe_units E name 0 64 chr w;
          ((chr, ok'), w) = probe E (take 255 (BEOS_DEVICEDIR @ name)) chr w
      in ((chr, ok \<or> ok'), w))"

definition be_getDeviceDirectory :: string where
  "be_getDeviceDirectory = BEOS_DEVICEDIR"

definition be_is_interrupted :: "bool \<Rightarrow> bool \<Rightarrow> ('w \<Rightarrow> bool \<times> 'w) \<Rightarrow> 'w \<Rightarrow> bool \<times> 'w" where
  \<comment> \<open>whether the class and the method \<open>checkMonitorThread\<close> are found, and the call\<close>
  "be_is_interrupted has_class has_method checkMonitorThread w =
     (if \<not> has_class then (True, w) else if \<not> has_method then (True, w) else checkMonitorThread w)"

definition be_send_event :: "bool \<Rightarrow> (nat \<Rightarrow> bool \<Rightarrow> 'w \<Rightarrow> bool \<times> 'w) \<Rightarrow> nat \<Rightarrow> int \<Rightarrow> 'w \<Rightarrow> bool \<times> 'w" where
  \<comment> \<open>the method \<open>sendEvent\<close> is taken to be there: its identifier is not tested\<close>
  "be_send_event has_class sendEvent type flag w = (if \<not> has_class then (True, w) else sendEvent type (flag > 0) w)"

definition be_eventLoop :: "'w beos \<Rightarrow> 'w beos" where
  "be_eventLoop s = s"

section \<open>The table is never cleared\<close>

text \<open>\<open>filled k s\<close>: the places 1 to \<open>k\<close> of the table are taken and the others up to 64 are free.\<close>

definition filled :: "nat \<Rightarrow> 'w beos \<Rightarrow> bool" where
  "filled k s \<longleftrightarrow> length (be_PortArray s) = 65 \<and> k \<le> 64 \<and> (\<forall>i. 1 \<le> i \<and> i \<le> 64 \<longrightarrow> (be_PortArray s ! i \<noteq> None \<longleftrightarrow> i \<le> k))"

lemma free_slot_filled:
  "(\<forall>j. i \<le> j \<and> j < i + n \<longrightarrow> (ps ! j \<noteq> None \<longleftrightarrow> j \<le> k)) \<Longrightarrow> i \<le> Suc k \<Longrightarrow>
   free_slot i n ps = (if Suc k < i + n then Some (Suc k) else None)"
proof (induction n arbitrary: i)
  case (Suc n)
  have i: "ps ! i \<noteq> None \<longleftrightarrow> i \<le> k" using Suc.prems(1) by simp
  show ?case
  proof (cases "i \<le> k")
    case True
    have "free_slot (Suc i) n ps = (if Suc k < Suc i + n then Some (Suc k) else None)"
      using Suc.prems True by (intro Suc.IH) auto
    with True i show ?thesis by simp
  next
    case False
    with i Suc.prems(2) show ?thesis by simp
  qed
qed auto

lemma filled_slot: "filled k s \<Longrightarrow> free_slot (Suc 0) 64 (be_PortArray s) = (if k < 64 then Some (Suc k) else None)"
  using free_slot_filled [of 1 64 "be_PortArray s" k] by (auto simp: filled_def)

lemma be_setup_fd: "be_setup E B fc i a n w = ((fd, e), w') \<Longrightarrow> fd = -1 \<or> fd = int i"
  by (auto simp: be_setup_def Let_def split: prod.splits if_splits)

lemma be_open_filled:
  assumes f: "filled k s" and r: "be_open E B fc n s = Done ((fd, e), s')"
  shows "filled (min 64 (Suc k)) s'" "fd = -1 \<or> k < 64 \<and> fd = int (Suc k)"
proof -
  have "filled (min 64 (Suc k)) s' \<and> (fd = -1 \<or> k < 64 \<and> fd = int (Suc k))"
  proof (cases "k < 64")
    case False
    with f r show ?thesis by (auto simp: be_open_def filled_slot [OF f] filled_def min_def)
  next
    case True
    with r obtain a w w' where "be_setup E B fc (Suc k) a (the (strstr ''serial'' n)) w = ((fd, e), w')"
      "s' = s\<lparr>be_PortArray := (be_PortArray s)[Suc k := Some a], be_alive := (be_alive s)(a := True), be_world := w'\<rparr>"
      by (auto simp: be_open_def filled_slot [OF f] Let_def split: option.splits if_splits prod.splits)
    with True f show ?thesis
      by (auto simp: filled_def min_def nth_list_update dest!: be_setup_fd)
  qed
  then show "filled (min 64 (Suc k)) s'" "fd = -1 \<or> k < 64 \<and> fd = int (Suc k)" by auto
qed

lemma be_close_table: "be_nativeClose B jp s = Done s' \<Longrightarrow> be_PortArray s' = be_PortArray s"
  by (auto simp: be_nativeClose_def split: if_splits option.splits)

datatype be_call = BOpen string | BClose int

fun be_calls :: "'w posix \<Rightarrow> 'w bserial \<Rightarrow> (string \<Rightarrow> bool) \<Rightarrow> jport \<Rightarrow> be_call list \<Rightarrow> 'w beos \<Rightarrow> (int list \<times> 'w beos) run" where
  \<comment> \<open>opening and closing in the life of a process, with the descriptors that \<open>open\<close> returned\<close>
  "be_calls E B fc jp [] s = Done ([], s)"
| "be_calls E B fc jp (BOpen n # cs) s = run_bind (be_open E B fc n s) (\<lambda>((fd, e), s).
     run_bind (be_calls E B fc jp cs s) (\<lambda>(fds, s). Done (if fd = -1 then fds else fd # fds, s)))"
| "be_calls E B fc jp (BClose fd # cs) s = run_bind (be_nativeClose B (jp\<lparr>j_fd := fd\<rparr>) s) (\<lambda>s. be_calls E B fc jp cs s)"

fun opens :: "be_call list \<Rightarrow> nat" where
  "opens [] = 0"
| "opens (BOpen n # cs) = Suc (opens cs)"
| "opens (BClose fd # cs) = opens cs"

lemma be_calls_filled:
  "filled k s \<Longrightarrow> be_calls E B fc jp cs s = Done (fds, s') \<Longrightarrow>
   filled (min 64 (k + opens cs)) s' \<and> sorted_wrt (<) fds \<and> set fds \<subseteq> {int k <.. 64}"
proof (induction cs arbitrary: k s fds)
  case (Cons c cs)
  show ?case
  proof (cases c)
    case (BOpen n)
    with Cons.prems(2) obtain fd e s1 fds1 where o: "be_open E B fc n s = Done ((fd, e), s1)"
      and cs: "be_calls E B fc jp cs s1 = Done (fds1, s')" and fds: "fds = (if fd = -1 then fds1 else fd # fds1)"
      by (auto simp: bind_Done split: prod.splits)
    note f1 = be_open_filled [OF Cons.prems(1) o]
    note IH = Cons.IH [OF f1(1) cs]
    have "k \<le> 64" using Cons.prems(1) by (simp add: filled_def)
    moreover have "min 64 (min 64 (Suc k) + opens cs) = min 64 (k + opens (BOpen n # cs))" by auto
    ultimately show ?thesis using IH f1(2) BOpen fds by (auto simp: min_def split: if_splits)
  next
    case (BClose fd)
    with Cons.prems(2) obtain s1 where c: "be_nativeClose B (jp\<lparr>j_fd := fd\<rparr>) s = Done s1"
      and cs: "be_calls E B fc jp cs s1 = Done (fds, s')" by (auto simp: bind_Done)
    have "filled k s1" using Cons.prems(1) be_close_table [OF c] by (simp add: filled_def)
    from Cons.IH [OF this cs] BClose show ?thesis by simp
  qed
qed (auto simp: filled_def)

text \<open>C39. In the life of a process \<open>open\<close> hands out each descriptor from 1 to 64 at most once, in ascending order,
  whatever is closed in between: \<open>nativeClose\<close> deletes the object and leaves its place in the table taken. After
  64 calls of \<open>open\<close>, successful or not, every further one throws \<open>PortInUseException\<close>.\<close>

theorem slots_used_up:
  assumes "be_calls E B fc jp cs (beos_init w) = Done (fds, s')"
  shows "sorted_wrt (<) fds \<and> set fds \<subseteq> {1..64} \<and> (64 \<le> opens cs \<longrightarrow>
    be_open E B fc n s' = Done ((-1, be_error E fc PORT_IN_USE_EXCEPTION ''open'' (be_world s')), s'))"
proof -
  have "filled 0 (beos_init w)" by (auto simp: filled_def beos_init_def)
  note f = be_calls_filled [OF this assms]
  then have "be_open E B fc n s' = Done ((-1, be_error E fc PORT_IN_USE_EXCEPTION ''open'' (be_world s')), s')"
    if "64 \<le> opens cs" using that filled_slot [of 64 s'] by (simp add: be_open_def)
  with f show ?thesis by auto
qed

text \<open>After \<open>nativeClose\<close> every further call on the descriptor goes through a dangling pointer, a second
  \<open>nativeClose\<close> included, as long as no new object has been allocated.\<close>

theorem closed_port_dangles:
  assumes "be_nativeClose B jp s = Done s'" and "be_PortArray s ! nat (j_fd jp) \<noteq> None"
  shows "be_nativeClose B jp s' = Fault \<and> on_port (j_fd jp) f s' = Fault \<and> be_writeArray B n jp body 0 0 s' = Fault"
proof -
  have "be_port s' (j_fd jp) = Fault" and "be_nativeClose B jp s' = Fault"
    using assms by (auto simp: be_nativeClose_def be_port_def split: if_splits option.splits)
  moreover have "slice body 0 0 = Done []" by (simp add: slice_def)
  ultimately show ?thesis by (simp add: on_port_def be_writeArray_def)
qed

section \<open>What a port object promises\<close>

record bconf =
  bc_rate :: data_rate
  bc_bits :: data_bits
  bc_stop :: stop_bits
  bc_parity :: parity_mode
  bc_flow :: flow_mode
  bc_sent :: "u8 list"

text \<open>The setters of the class store what they are given and leave the rest alone, and \<open>Write\<close> takes a non-empty
  part of what it is given. \<open>conf\<close> is the state of an object.\<close>

locale bport_contract =
  fixes B :: "'w bserial" and conf :: "addr \<Rightarrow> 'w \<Rightarrow> bconf option"
  assumes set_rate: "conf a w = Some c \<Longrightarrow> r \<noteq> B_0_BPS \<Longrightarrow>
      \<exists>w'. bs_SetDataRate B a r w = (True, w') \<and> conf a w' = Some (c\<lparr>bc_rate := r\<rparr>)"
    and set_bits: "conf a w = Some c \<Longrightarrow> conf a (bs_SetDataBits B a d w) = Some (c\<lparr>bc_bits := d\<rparr>)"
    and set_stop: "conf a w = Some c \<Longrightarrow> conf a (bs_SetStopBits B a sb w) = Some (c\<lparr>bc_stop := sb\<rparr>)"
    and set_parity: "conf a w = Some c \<Longrightarrow> conf a (bs_SetParityMode B a q w) = Some (c\<lparr>bc_parity := q\<rparr>)"
    and set_flow: "conf a w = Some c \<Longrightarrow> conf a (bs_SetFlowControl B a m w) = Some (c\<lparr>bc_flow := m\<rparr>)"
    and get_flow: "conf a w = Some c \<Longrightarrow> bs_FlowControl B a w = bc_flow c"
    and write_some: "conf a w = Some c \<Longrightarrow> \<exists>k w'. bs_Write B a bs w = (int k, w') \<and> k \<le> length bs \<and> (bs \<noteq> [] \<longrightarrow> 0 < k) \<and>
      conf a w' = Some (c\<lparr>bc_sent := bc_sent c @ take k bs\<rparr>)"

definition be_java_speed :: "data_rate \<Rightarrow> int" where
  "be_java_speed r = (case r of B_0_BPS \<Rightarrow> 0 | B_50_BPS \<Rightarrow> 50 | B_75_BPS \<Rightarrow> 75 | B_110_BPS \<Rightarrow> 110 | B_134_BPS \<Rightarrow> 134
     | B_150_BPS \<Rightarrow> 150 | B_200_BPS \<Rightarrow> 200 | B_300_BPS \<Rightarrow> 300 | B_600_BPS \<Rightarrow> 600 | B_1200_BPS \<Rightarrow> 1200 | B_1800_BPS \<Rightarrow> 1800
     | B_2400_BPS \<Rightarrow> 2400 | B_4800_BPS \<Rightarrow> 4800 | B_9600_BPS \<Rightarrow> 9600 | B_19200_BPS \<Rightarrow> 19200 | B_38400_BPS \<Rightarrow> 38400
     | B_57600_BPS \<Rightarrow> 57600 | B_115200_BPS \<Rightarrow> 115200 | B_230400_BPS \<Rightarrow> 230400 | B_31250_BPS \<Rightarrow> 31250)"

definition be_java_params :: "bconf \<Rightarrow> int \<times> int \<times> int \<times> int" where
  \<comment> \<open>speed, data bits, stop bits and parity in the numbers of the Java side\<close>
  "be_java_params c = (be_java_speed (bc_rate c), case bc_bits c of B_DATA_BITS_7 \<Rightarrow> 7 | B_DATA_BITS_8 \<Rightarrow> 8,
     case bc_stop c of B_STOP_BITS_1 \<Rightarrow> 1 | B_STOP_BITS_2 \<Rightarrow> 2,
     case bc_parity c of B_NO_PARITY \<Rightarrow> JPARITY_NONE | B_ODD_PARITY \<Rightarrow> JPARITY_ODD | B_EVEN_PARITY \<Rightarrow> JPARITY_EVEN)"

definition be_speeds :: "int set" where
  "be_speeds = {50, 75, 110, 134, 150, 200, 300, 600, 1200, 1800, 2400, 4800, 9600, 19200, 38400, 57600, 115200, 230400,
     31250}"

definition be_supported :: "int \<Rightarrow> int \<Rightarrow> int \<Rightarrow> int \<Rightarrow> bool" where
  "be_supported speed d sb q \<longleftrightarrow> speed \<in> be_speeds \<and> d \<in> {7, 8} \<and> sb \<in> {1, 2} \<and> q \<in> {0, 1, 2}"

lemma be_translate_speed_back: "be_translate_speed fc speed = (r, e) \<Longrightarrow> r \<noteq> B_0_BPS \<Longrightarrow> be_java_speed r = speed"
  by (auto simp: be_translate_speed_def be_java_speed_def split: if_splits)

lemma be_speed_known: "speed \<in> be_speeds \<Longrightarrow> \<exists>r. be_translate_speed fc speed = (r, None) \<and> r \<noteq> B_0_BPS"
  unfolding be_speeds_def be_translate_speed_def by (elim insertE emptyE; simp)

lemma be_translate_supported:
  assumes "be_supported speed d sb q"
  obtains r d' sb' q' where "be_translate_speed fc speed = (r, None)" "r \<noteq> B_0_BPS"
    "be_translate_data_bits fc d = (Some d', None)" "be_translate_stop_bits fc sb = (Some sb', None)"
    "be_translate_parity fc q = (Some q', None)"
    "be_java_params \<lparr>bc_rate = r, bc_bits = d', bc_stop = sb', bc_parity = q', bc_flow = m, bc_sent = o'\<rparr> = (speed, d, sb, q)"
proof -
  obtain r where r: "be_translate_speed fc speed = (r, None)" "r \<noteq> B_0_BPS"
    using assms be_speed_known by (auto simp: be_supported_def)
  obtain d' sb' q' where t: "be_translate_data_bits fc d = (Some d', None)" "be_translate_stop_bits fc sb = (Some sb', None)"
    "be_translate_parity fc q = (Some q', None)"
    using assms by (auto simp: be_supported_def be_translate_data_bits_def be_translate_stop_bits_def be_translate_parity_def)
  have "be_java_params \<lparr>bc_rate = r, bc_bits = d', bc_stop = sb', bc_parity = q', bc_flow = m, bc_sent = o'\<rparr> = (speed, d, sb, q)"
    using t be_translate_speed_back [OF r]
    by (auto simp: be_java_params_def be_translate_data_bits_def be_translate_stop_bits_def be_translate_parity_def split: if_splits)
  then show thesis by (rule that [OF r t])
qed

lemma be_speed_unknown:
  assumes "speed \<notin> be_speeds"
  shows "\<exists>e. be_translate_speed fc speed = (B_0_BPS, e) \<and> (e \<noteq> None \<longleftrightarrow> speed \<noteq> 0 \<and> fc UNSUPPORTED_COMM_OPERATION)"
  using assms by (simp add: be_speeds_def be_translate_speed_def throw_java_exception_def)

lemma be_speed_zero: "fst (be_translate_speed fc speed) = B_0_BPS \<Longrightarrow>
    snd (be_translate_speed fc speed) \<noteq> None \<longleftrightarrow> speed \<noteq> 0 \<and> fc UNSUPPORTED_COMM_OPERATION"
  by (simp add: be_translate_speed_def throw_java_exception_def split: if_splits)

lemma be_unsupported:
  assumes "\<not> be_supported speed d sb q"
  shows "\<exists>e. be_nativeSetSerialPortParams E B fc jp speed d sb q s = Done (e, s) \<and>
     (e \<noteq> None \<longleftrightarrow> speed \<noteq> 0 \<and> fc UNSUPPORTED_COMM_OPERATION)"
proof (cases "fst (be_translate_speed fc speed) = B_0_BPS")
  case True
  with be_speed_zero [OF True] show ?thesis by (cases "be_translate_speed fc speed") (auto simp: be_nativeSetSerialPortParams_def)
next
  case False
  then have "speed \<noteq> 0" by (auto simp: be_translate_speed_def)
  moreover have "d \<notin> {7, 8} \<or> sb \<notin> {1, 2} \<or> q \<notin> {0, 1, 2}"
    using False assms be_speed_unknown [of speed fc] unfolding be_supported_def by (metis fst_conv)
  ultimately show ?thesis using False
    by (cases "be_translate_speed fc speed") (auto simp: be_nativeSetSerialPortParams_def be_translate_data_bits_def
        be_translate_stop_bits_def be_translate_parity_def throw_java_exception_def)
qed

definition be_flow_of :: "int \<Rightarrow> flow_mode \<Rightarrow> flow_mode" where
  \<comment> \<open>what is in force after \<open>setflowcontrol\<close>: a mode of more than one bit changes nothing\<close>
  "be_flow_of m old = (if m = 0 then B_NOFLOW_CONTROL else if m \<in> {1, 2} then B_HARDWARE_CONTROL
     else if m \<in> {4, 8} then B_SOFTWARE_CONTROL else old)"

context bport_contract
begin

lemma apply_effect:
  assumes "conf a w = Some c" and "r \<noteq> B_0_BPS"
  shows "\<exists>w'. be_apply B r d sb q a w = (True, w') \<and>
    conf a w' = Some (c\<lparr>bc_bits := d, bc_stop := sb, bc_parity := q, bc_rate := r\<rparr>)"
  using set_rate [OF set_parity [OF set_stop [OF set_bits [OF assms(1)]]] assms(2)] by (simp add: be_apply_def)

lemma params_in_force:
  assumes p: "be_port s (j_fd jp) = Done a" and c: "conf a (be_world s) = Some c" and ok: "be_supported speed d sb q"
  shows "\<exists>s' c'. be_nativeSetSerialPortParams E B fc jp speed d sb q s = Done (None, s') \<and>
    conf a (be_world s') = Some c' \<and> be_java_params c' = (speed, d, sb, q) \<and> bc_flow c' = bc_flow c \<and> bc_sent c' = bc_sent c"
proof -
  obtain r d' sb' q' where t: "be_translate_speed fc speed = (r, None)" "r \<noteq> B_0_BPS"
    "be_translate_data_bits fc d = (Some d', None)" "be_translate_stop_bits fc sb = (Some sb', None)"
    "be_translate_parity fc q = (Some q', None)"
    and j: "be_java_params \<lparr>bc_rate = r, bc_bits = d', bc_stop = sb', bc_parity = q', bc_flow = bc_flow c, bc_sent = bc_sent c\<rparr>
      = (speed, d, sb, q)" using be_translate_supported [OF ok] .
  obtain w' where w: "be_apply B r d' sb' q' a (be_world s) = (True, w')"
    "conf a w' = Some (c\<lparr>bc_bits := d', bc_stop := sb', bc_parity := q', bc_rate := r\<rparr>)"
    using apply_effect [OF c t(2)] by blast
  have "be_nativeSetSerialPortParams E B fc jp speed d sb q s = Done (None, s\<lparr>be_world := w'\<rparr>)"
    using t by (simp add: be_nativeSetSerialPortParams_def on_port_def p w)
  with w j show ?thesis by (auto simp: be_java_params_def)
qed

lemma flow_in_force:
  assumes p: "be_port s (j_fd jp) = Done a" and c: "conf a (be_world s) = Some c"
  shows "\<exists>s'. be_setflowcontrol E B fc jp m s = Done (None, s') \<and>
    conf a (be_world s') = Some (c\<lparr>bc_flow := be_flow_of m (bc_flow c)\<rparr>)"
proof -
  have "\<exists>s'. be_flow E B fc (j_fd jp) f s = Done (None, s') \<and> conf a (be_world s') = Some (c\<lparr>bc_flow := f\<rparr>)" for f
    using set_flow [OF c] get_flow [OF set_flow [OF c]] by (simp add: be_flow_def on_port_def p)
  then show ?thesis using c by (auto simp: be_setflowcontrol_def be_flow_of_def)
qed

lemma write_loop_sends:
  "conf a w = Some c \<Longrightarrow> i \<le> length bs \<Longrightarrow> length bs - i < n \<Longrightarrow>
   \<exists>w'. be_write_loop B n a bs (int i) w = Done w' \<and> conf a w' = Some (c\<lparr>bc_sent := bc_sent c @ drop i bs\<rparr>)"
proof (induction n arbitrary: i w c)
  case (Suc n)
  obtain k w1 where w: "bs_Write B a (drop i bs) w = (int k, w1)" "k \<le> length bs - i" "drop i bs \<noteq> [] \<longrightarrow> 0 < k"
    "conf a w1 = Some (c\<lparr>bc_sent := bc_sent c @ take k (drop i bs)\<rparr>)"
    using write_some [OF Suc.prems(1), of "drop i bs"] by auto
  show ?case
  proof (cases "i + k < length bs")
    case True
    then have "0 < k" using w(3) by auto
    then have "length bs - (i + k) < n" using Suc.prems(3) True by linarith
    then obtain w' where "be_write_loop B n a bs (int (i + k)) w1 = Done w'"
      "conf a w' = Some (c\<lparr>bc_sent := bc_sent c @ take k (drop i bs) @ drop (i + k) bs\<rparr>)"
      using Suc.IH [OF w(4), of "i + k"] Suc.prems True by auto
    moreover have "take k (drop i bs) @ drop (i + k) bs = drop i bs" by (metis add.commute append_take_drop_id drop_drop)
    ultimately show ?thesis using True by (simp add: w(1))
  next
    case False
    with w(2,4) show ?thesis by (simp add: w(1))
  qed
qed simp

lemma array_sent:
  assumes p: "be_port s (j_fd jp) = Done a" and c: "conf a (be_world s) = Some c"
    and range: "0 \<le> off" "0 \<le> count" "off + count \<le> int (length body)" and fuel: "nat count < n"
  shows "\<exists>s'. be_writeArray B n jp body off count s = Done s' \<and>
    conf a (be_world s') = Some (c\<lparr>bc_sent := bc_sent c @ take (nat count) (drop (nat off) body)\<rparr>)"
proof -
  let ?bs = "take (nat count) (drop (nat off) body)"
  have sl: "slice body off count = Done ?bs" using range by (auto simp: slice_def)
  have "length ?bs < n" using fuel by auto
  then obtain w' where "be_write_loop B n a ?bs 0 (be_world s) = Done w'"
    "conf a w' = Some (c\<lparr>bc_sent := bc_sent c @ ?bs\<rparr>)" using write_loop_sends [OF c, of 0 ?bs n] by auto
  with range(2) show ?thesis by (simp add: be_writeArray_def sl p)
qed

end

section \<open>A reference class\<close>

record rb =
  rb_obj :: "addr \<Rightarrow> bconf option"
  rb_next :: addr

definition rb_edit :: "addr \<Rightarrow> (bconf \<Rightarrow> bconf) \<Rightarrow> rb \<Rightarrow> rb" where
  "rb_edit a f w = (case rb_obj w a of None \<Rightarrow> w | Some c \<Rightarrow> w\<lparr>rb_obj := (rb_obj w)(a \<mapsto> f c)\<rparr>)"

definition rb_conf0 :: bconf where
  "rb_conf0 = \<lparr>bc_rate = B_19200_BPS, bc_bits = B_DATA_BITS_8, bc_stop = B_STOP_BITS_1, bc_parity = B_NO_PARITY,
     bc_flow = B_HARDWARE_CONTROL, bc_sent = []\<rparr>"

definition ref_bserial :: "rb bserial" where
  \<comment> \<open>\<open>Write\<close> takes at most two bytes at a time\<close>
  "ref_bserial = \<lparr>
     bs_new = (\<lambda>w. (rb_next w, w\<lparr>rb_obj := (rb_obj w)(rb_next w \<mapsto> rb_conf0), rb_next := Suc (rb_next w)\<rparr>)),
     bs_delete = (\<lambda>a w. w\<lparr>rb_obj := (rb_obj w)(a := None)\<rparr>),
     bs_Open = (\<lambda>a n w. (1, w)),
     bs_SetFlowControl = (\<lambda>a m. rb_edit a (\<lambda>c. c\<lparr>bc_flow := m\<rparr>)),
     bs_FlowControl = (\<lambda>a w. case rb_obj w a of None \<Rightarrow> B_NOFLOW_CONTROL | Some c \<Rightarrow> bc_flow c),
     bs_SetBlocking = (\<lambda>a b w. w),
     bs_SetDataRate = (\<lambda>a r w. (r \<noteq> B_0_BPS, rb_edit a (\<lambda>c. c\<lparr>bc_rate := r\<rparr>) w)),
     bs_SetDataBits = (\<lambda>a d. rb_edit a (\<lambda>c. c\<lparr>bc_bits := d\<rparr>)),
     bs_SetStopBits = (\<lambda>a sb. rb_edit a (\<lambda>c. c\<lparr>bc_stop := sb\<rparr>)),
     bs_SetParityMode = (\<lambda>a q. rb_edit a (\<lambda>c. c\<lparr>bc_parity := q\<rparr>)),
     bs_Write = (\<lambda>a bs w. (int (length (take 2 bs)), rb_edit a (\<lambda>c. c\<lparr>bc_sent := bc_sent c @ take 2 bs\<rparr>) w)),
     bs_Read = (\<lambda>a n w. ((0, []), w)), bs_SetTimeout = (\<lambda>a t w. (True, w)), bs_ClearOutput = (\<lambda>a w. w),
     bs_WaitForInput = (\<lambda>a w. (0, w)), bs_IsDSR = (\<lambda>a w. False), bs_IsDCD = (\<lambda>a w. False),
     bs_IsCTS = (\<lambda>a w. False), bs_IsRI = (\<lambda>a w. False), bs_SetRTS = (\<lambda>a b w. w), bs_SetDTR = (\<lambda>a b w. w)\<rparr>"

lemma rb_edit_obj: "rb_obj w a = Some c \<Longrightarrow> rb_obj (rb_edit a f w) a = Some (f c)"
  by (simp add: rb_edit_def)

interpretation rb: bport_contract ref_bserial "\<lambda>a w. rb_obj w a"
proof
  fix a c bs and w :: rb
  assume "rb_obj w a = Some c"
  then show "\<exists>k w'. bs_Write ref_bserial a bs w = (int k, w') \<and> k \<le> length bs \<and> (bs \<noteq> [] \<longrightarrow> 0 < k) \<and>
      rb_obj w' a = Some (c\<lparr>bc_sent := bc_sent c @ take k bs\<rparr>)"
    by (intro exI [of _ "length (take 2 bs)"]) (auto simp: ref_bserial_def rb_edit_obj min_def)
qed (auto simp: ref_bserial_def rb_edit_obj)

section \<open>Effects of the methods\<close>

text \<open>C23. Setting the parameters of an open BeOS port: with supported values the object has them afterwards, read
  back in the numbers of the Java side, with flow control and output as they were, and nothing is thrown. With any
  other value the port is left as it was; an exception is thrown exactly if the speed is not 0 and \<open>FindClass\<close> knows
  a class \<open>UnsupportedCommOperationException\<close>. The code asks for it without its package, under which name there is
  none, so in the library as it is the failure is silent. This holds over every class that keeps the contract.\<close>

theorem beos_params_effect:
  assumes "bport_contract B conf" and "be_port s (j_fd jp) = Done a" and "conf a (be_world s) = Some c"
  shows "if be_supported speed d sb q
    then \<exists>s' c'. be_nativeSetSerialPortParams E B fc jp speed d sb q s = Done (None, s') \<and>
      conf a (be_world s') = Some c' \<and> be_java_params c' = (speed, d, sb, q) \<and> bc_flow c' = bc_flow c \<and> bc_sent c' = bc_sent c
    else \<exists>e. be_nativeSetSerialPortParams E B fc jp speed d sb q s = Done (e, s) \<and>
      (e \<noteq> None \<longleftrightarrow> speed \<noteq> 0 \<and> fc UNSUPPORTED_COMM_OPERATION)"
proof (cases "be_supported speed d sb q")
  case True
  with bport_contract.params_in_force [OF assms this, of E fc] show ?thesis by simp
next
  case False
  with be_unsupported [OF this, of E B fc jp s] show ?thesis by simp
qed

text \<open>\<open>setflowcontrol\<close> on an open BeOS port: a single bit selects hardware or software flow control, no bit
  turns it off, and a combination of bits, which the Java side uses for both directions, is dropped without an
  exception.\<close>

theorem beos_flow_effect:
  assumes "bport_contract B conf" and "be_port s (j_fd jp) = Done a" and "conf a (be_world s) = Some c"
  shows "\<exists>s'. be_setflowcontrol E B fc jp m s = Done (None, s') \<and>
    conf a (be_world s') = Some (c\<lparr>bc_flow := be_flow_of m (bc_flow c)\<rparr>) \<and>
    (m \<notin> {0, 1, 2, 4, 8} \<longrightarrow> s' = s)"
proof -
  have "be_setflowcontrol E B fc jp m s = Done (None, s)" if "m \<notin> {0, 1, 2, 4, 8}"
    using that by (simp add: be_setflowcontrol_def)
  with bport_contract.flow_in_force [OF assms] show ?thesis by force
qed

text \<open>C24. \<open>writeArray\<close> on an open BeOS port returns and has sent exactly the bytes asked for, in order, whatever
  parts \<open>Write\<close> takes, after at most one call per byte and one more. It does so only while \<open>Write\<close> does not fail:
  a first call that fails takes the position before the start of the buffer.\<close>

theorem beos_array_sent:
  assumes "be_port s (j_fd jp) = Done a" and "0 \<le> off" "0 \<le> count" "off + count \<le> int (length body)" "nat count < n"
  shows "(\<forall>conf c. bport_contract B conf \<and> conf a (be_world s) = Some c \<longrightarrow>
      (\<exists>s'. be_writeArray B n jp body off count s = Done s' \<and>
        conf a (be_world s') = Some (c\<lparr>bc_sent := bc_sent c @ take (nat count) (drop (nat off) body)\<rparr>))) \<and>
    (fst (bs_Write B a (take (nat count) (drop (nat off) body)) (be_world s)) < 0 \<longrightarrow> 1 < n \<longrightarrow>
      be_writeArray B n jp body off count s = Fault)"
proof (intro conjI allI impI)
  fix conf c assume "bport_contract B conf \<and> conf a (be_world s) = Some c"
  then show "\<exists>s'. be_writeArray B n jp body off count s = Done s' \<and>
      conf a (be_world s') = Some (c\<lparr>bc_sent := bc_sent c @ take (nat count) (drop (nat off) body)\<rparr>)"
    using bport_contract.array_sent [of B conf s jp a c off count body n] assms by auto
next
  let ?bs = "take (nat count) (drop (nat off) body)"
  assume f: "fst (bs_Write B a ?bs (be_world s)) < 0" and "1 < n"
  then obtain k where "n = Suc (Suc k)" by (cases n; cases "n - 1") auto
  then have "be_write_loop B n a ?bs 0 (be_world s) = Fault"
    using f by (cases "bs_Write B a ?bs (be_world s)") simp
  moreover have "slice body off count = Done ?bs" using assms by (auto simp: slice_def)
  ultimately show "be_writeArray B n jp body off count s = Fault" using assms by (simp add: be_writeArray_def)
qed

section \<open>Samples\<close>

definition rb0 :: rb where
  "rb0 = \<lparr>rb_obj = (\<lambda>a. None), rb_next = 100\<rparr>"

definition be_demo :: "rb beos" where
  \<comment> \<open>one port open, as descriptor 5\<close>
  "be_demo = \<lparr>be_PortArray = (replicate 65 None)[5 := Some 100], be_alive = (\<lambda>a. a = 100),
     be_world = \<lparr>rb_obj = (\<lambda>a. None)(100 \<mapsto> rb_conf0), rb_next = 101\<rparr>\<rparr>"

lemma be_demo_port: "be_port be_demo (j_fd jport0) = Done 100" "rb_obj (be_world be_demo) 100 = Some rb_conf0"
  by (simp_all add: be_port_def be_demo_def jport0_def)

lemma be_open_done: "strstr ''serial'' n = Some d \<Longrightarrow> length d < 32 \<Longrightarrow> \<exists>fd e s'. be_open E B fc n s = Done ((fd, e), s')"
  by (auto simp: be_open_def Let_def split: option.splits prod.splits)

lemma be_opens_done:
  "strstr ''serial'' n = Some d \<Longrightarrow> length d < 32 \<Longrightarrow> \<exists>fds s'. be_calls E B fc jp (replicate k (BOpen n)) s = Done (fds, s')"
proof (induction k arbitrary: s)
  case (Suc k)
  obtain fd e s1 where "be_open E B fc n s = Done ((fd, e), s1)" using be_open_done [OF Suc.prems] by blast
  moreover obtain fds s' where "be_calls E B fc jp (replicate k (BOpen n)) s1 = Done (fds, s')"
    using Suc.IH [OF Suc.prems] by blast
  ultimately show ?case by simp
qed simp

lemma opens_replicate [simp]: "opens (replicate k (BOpen n)) = k"
  by (induction k) auto

theorem slots_used_up_witness:
  "\<forall>E. \<exists>fds s'. be_calls E ref_bserial (\<lambda>c. True) jport0 (replicate 64 (BOpen ''/dev/ports/serial1'')) (beos_init rb0) = Done (fds, s') \<and>
     set fds \<subseteq> {1..64} \<and> fst (fst (case be_open E ref_bserial (\<lambda>c. True) ''/dev/ports/serial2'' s' of Done r \<Rightarrow> r)) = -1"
proof
  fix E :: "rb posix"
  obtain fds s' where r: "be_calls E ref_bserial (\<lambda>c. True) jport0 (replicate 64 (BOpen ''/dev/ports/serial1'')) (beos_init rb0) = Done (fds, s')"
    using be_opens_done [of "''/dev/ports/serial1''" "''serial1''"] by fastforce
  from slots_used_up [OF r, of "''/dev/ports/serial2''"] r
  show "\<exists>fds s'. be_calls E ref_bserial (\<lambda>c. True) jport0 (replicate 64 (BOpen ''/dev/ports/serial1'')) (beos_init rb0) = Done (fds, s') \<and>
     set fds \<subseteq> {1..64} \<and> fst (fst (case be_open E ref_bserial (\<lambda>c. True) ''/dev/ports/serial2'' s' of Done r \<Rightarrow> r)) = -1"
    by auto
qed

theorem closed_port_dangles_witness:
  "\<exists>s'. be_nativeClose ref_bserial jport0 be_demo = Done s' \<and> be_nativeClose ref_bserial jport0 s' = Fault \<and>
     be_setRTS ref_bserial jport0 True s' = Fault"
proof -
  obtain s' where r: "be_nativeClose ref_bserial jport0 be_demo = Done s'"
    by (simp add: be_nativeClose_def be_demo_def jport0_def)
  have "be_PortArray be_demo ! nat (j_fd jport0) \<noteq> None" by (simp add: be_demo_def jport0_def)
  from closed_port_dangles [OF r this, of "\<lambda>a w. ((), bs_SetRTS ref_bserial a True w)"] r
  show ?thesis by (auto simp: be_setRTS_def)
qed

theorem beos_params_effect_witness:
  "\<forall>E fc. (\<exists>s'. be_nativeSetSerialPortParams E ref_bserial fc jport0 115200 7 2 JPARITY_EVEN be_demo = Done (None, s')) \<and>
     (\<not> fc UNSUPPORTED_COMM_OPERATION \<longrightarrow> be_nativeSetSerialPortParams E ref_bserial fc jport0 9600 5 1 0 be_demo = Done (None, be_demo))"
proof (intro allI conjI impI)
  have sup: "be_supported 115200 7 2 2" "\<not> be_supported 9600 5 1 0" by (simp_all add: be_supported_def be_speeds_def)
  note effect = beos_params_effect [OF rb.bport_contract_axioms be_demo_port]
  fix E and fc
  show "\<exists>s'. be_nativeSetSerialPortParams E ref_bserial fc jport0 115200 7 2 JPARITY_EVEN be_demo = Done (None, s')"
    using effect [of 115200 7 2 2 E fc] unfolding if_P [OF sup(1)] by blast
  assume "\<not> fc UNSUPPORTED_COMM_OPERATION"
  then show "be_nativeSetSerialPortParams E ref_bserial fc jport0 9600 5 1 0 be_demo = Done (None, be_demo)"
    using effect [of 9600 5 1 0 E fc] unfolding if_not_P [OF sup(2)] by auto
qed

theorem beos_flow_effect_witness:
  "\<forall>E fc. be_setflowcontrol E ref_bserial fc jport0 3 be_demo = Done (None, be_demo)"
  using beos_flow_effect [OF rb.bport_contract_axioms be_demo_port, of _ _ 3] by fastforce

theorem beos_array_sent_witness:
  "\<exists>s'. be_writeArray ref_bserial 4 jport0 [1, 2, 3, 4, 5] 1 3 be_demo = Done s' \<and>
     rb_obj (be_world s') 100 = Some (rb_conf0\<lparr>bc_sent := [2, 3, 4]\<rparr>)"
  using beos_array_sent [OF be_demo_port(1), of 1 3 "[1, 2, 3, 4, 5]" 4 ref_bserial] rb.bport_contract_axioms be_demo_port(2)
  by (fastforce simp: rb_conf0_def)

end
