(* ===== verification/Fuser.thy ===== *)
theory Fuser
  imports Prelude
begin

text \<open>
  The helper that names the owner of a busy port (\<open>fuserImp.c\<close>), for Linux: it looks through \<open>/proc\<close> for the
  processes that have the device file open and answers with a line about the first of them. Its state is in
  static variables: the list \<open>files\<close> of the files asked about, each with its processes, and the text
  \<open>returnstring\<close>. The file system is a record \<open>procfs\<close> of functions over a world; \<open>fd_contract\<close> states what a
  snapshot of \<open>/proc\<close> promises and \<open>ref_procfs\<close> provides it.
\<close>

section \<open>Ends of a call\<close>

text \<open>The code calls \<open>exit\<close> inside the Java process; a write past a buffer or through a null pointer is \<open>Crashes\<close>.\<close>

datatype 'a ending = Goes 'a | Exits int | Crashes

fun and_then :: "'a ending \<Rightarrow> ('a \<Rightarrow> 'b ending) \<Rightarrow> 'b ending" where
  "and_then (Goes x) f = f x"
| "and_then (Exits c) f = Exits c"
| "and_then Crashes f = Crashes"

lemma and_then_Goes: "and_then m f = Goes y \<longleftrightarrow> (\<exists>x. m = Goes x \<and> f x = Goes y)"
  by (cases m) auto

lemma and_then_Crashes: "and_then m f = Crashes \<longleftrightarrow> m = Crashes \<or> (\<exists>x. m = Goes x \<and> f x = Crashes)"
  by (cases m) auto

section \<open>State\<close>

datatype item_type = it_proc | it_mount | it_loop | it_swap

record item_dsc =
  it_type :: item_type
  it_pid :: int
  it_uid :: int
  it_ref_set :: u32

text \<open>Pointers into the list of files are indices; the static \<open>last\<close> is its last element.\<close>

record file_dsc =
  fd_name :: "string option"
  fd_dev :: nat
  fd_ino :: nat
  fd_flags :: u32
  fd_sig_num :: int
  fd_name_space :: "nat option"
  fd_items :: "item_dsc list"
  fd_named :: "nat option"

record fuser =
  fu_files :: "file_dsc list"
  fu_last_named :: "nat option"
  fu_found_item :: bool
  fu_returnstring :: string

definition fu_init :: fuser where
  "fu_init = \<lparr>fu_files = [], fu_last_named = None, fu_found_item = False, fu_returnstring = ''''\<rparr>"

record fstat =
  st_dev :: nat
  st_ino :: nat
  st_sock :: bool
  st_uid :: nat

text \<open>\<open>opendir_op\<close> gives the names that \<open>readdir\<close> hands out; \<open>fopen_op\<close> the text of a file. The address of
  the local \<open>comm\<close> is \<open>comm_addr\<close>.\<close>

record 'w procfs =
  fu_stat_op :: "string \<Rightarrow> 'w \<Rightarrow> fstat option \<times> 'w"
  fu_lstat_op :: "string \<Rightarrow> 'w \<Rightarrow> fstat option \<times> 'w"
  fu_opendir_op :: "string \<Rightarrow> 'w \<Rightarrow> string list option \<times> 'w"
  fu_chdir_op :: "string \<Rightarrow> 'w \<Rightarrow> bool \<times> 'w"
  fu_malloc_op :: "'w \<Rightarrow> bool \<times> 'w"
  fu_seteuid_op :: "'w \<Rightarrow> bool \<times> 'w"
  fu_fopen_op :: "string \<Rightarrow> 'w \<Rightarrow> string option \<times> 'w"
  fu_getpwuid_op :: "int \<Rightarrow> 'w \<Rightarrow> string option \<times> 'w"
  fu_comm_addr :: nat

abbreviation (input) UID_UNKNOWN :: int where "UID_UNKNOWN \<equiv> -1"
abbreviation (input) REF_FILE :: u32 where "REF_FILE \<equiv> 1"
abbreviation (input) FLAG_UID :: u32 where "FLAG_UID \<equiv> 2"
abbreviation (input) FLAG_VERB :: u32 where "FLAG_VERB \<equiv> 4"
abbreviation (input) FLAG_DEV :: u32 where "FLAG_DEV \<equiv> 8"
abbreviation (input) SIGKILL :: int where "SIGKILL \<equiv> 9"

section \<open>Numbers as text\<close>

definition dec_of :: "int \<Rightarrow> string" where
  "dec_of i = (if i < 0 then CHR ''-'' # digits_of (nat (- i)) else digits_of (nat i))"

fun octal_of :: "nat \<Rightarrow> string" where
  "octal_of n = (if n < 8 then [char_of (48 + n)] else octal_of (n div 8) @ [char_of (48 + n mod 8)])"

declare octal_of.simps [simp del]

section \<open>Collecting processes\<close>

definition file_matches :: "nat \<Rightarrow> nat \<Rightarrow> file_dsc \<Rightarrow> bool" where
  \<comment> \<open>the condition of \<open>add_file\<close>; \<open>mount_dev\<close> is \<open>device\<close>\<close>
  "file_matches device inode f \<longleftrightarrow>
     (if fd_flags f AND FLAG_DEV \<noteq> 0 then device \<noteq> 0 \<and> device = fd_dev f
      else device = fd_dev f \<and> inode = fd_ino f)"

definition item_stop :: "int \<Rightarrow> item_dsc \<Rightarrow> bool" where
  "item_stop pid it \<longleftrightarrow> it_type it = it_proc \<and> pid \<le> it_pid it"

definition new_item :: "int \<Rightarrow> item_dsc" where
  "new_item pid = \<lparr>it_type = it_proc, it_pid = pid, it_uid = UID_UNKNOWN, it_ref_set = 0\<rparr>"

definition place_item :: "'w procfs \<Rightarrow> int \<Rightarrow> item_dsc list \<Rightarrow> 'w
    \<Rightarrow> ((bool \<times> item_dsc list \<times> item_dsc \<times> item_dsc list) \<times> 'w) ending" where
  \<comment> \<open>the search for the place in the list, and the new item when the process is not there: whether it was
    allocated, the items before it, it, the items behind it\<close>
  "place_item E pid items w =
     (let before = takeWhile (\<lambda>it. \<not> item_stop pid it) items;
          rest = dropWhile (\<lambda>it. \<not> item_stop pid it) items in
      if rest \<noteq> [] \<and> it_pid (hd rest) = pid then Goes ((False, before, hd rest, tl rest), w)
      else let (ok, w) = fu_malloc_op E w in
        if ok then Goes ((True, before, new_item pid, rest), w) else Exits 1)"

definition update_item :: "'w procfs \<Rightarrow> string \<Rightarrow> u32 \<Rightarrow> u32 \<Rightarrow> item_dsc \<Rightarrow> 'w \<Rightarrow> item_dsc \<times> 'w" where
  \<comment> \<open>\<open>ref_set\<close> and, when wanted and unknown, the owner\<close>
  "update_item E path flags ref it w =
     (let it = it\<lparr>it_ref_set := it_ref_set it OR ref\<rparr> in
      if flags AND (FLAG_UID OR FLAG_VERB) \<noteq> 0 \<and> it_uid it = UID_UNKNOWN
      then (case fu_lstat_op E path w of
              (None, w) \<Rightarrow> (it, w)
            | (Some st, w) \<Rightarrow> (it\<lparr>it_uid := to_int32 (int (st_uid st))\<rparr>, w))
      else (it, w))"

definition add_to_file :: "'w procfs \<Rightarrow> string \<Rightarrow> int \<Rightarrow> u32 \<Rightarrow> file_dsc \<Rightarrow> 'w \<Rightarrow> ((bool \<times> file_dsc) \<times> 'w) ending" where
  "add_to_file E path pid ref f w =
     and_then (place_item E pid (fd_items f) w) (\<lambda>((new, before, this, after), w).
       let (this, w) = update_item E path (fd_flags f) ref this w
       in Goes ((new, f\<lparr>fd_items := before @ this # after\<rparr>), w))"

fun add_file_loop :: "'w procfs \<Rightarrow> string \<Rightarrow> nat \<Rightarrow> nat \<Rightarrow> int \<Rightarrow> u32 \<Rightarrow> nat list \<Rightarrow> fuser \<Rightarrow> 'w \<Rightarrow> (fuser \<times> 'w) ending" where
  \<comment> \<open>the loop over the files, as the list of their places; an entry without a name stands for \<open>named\<close>\<close>
  "add_file_loop E path device inode pid ref [] s w = Goes (s, w)"
| "add_file_loop E path device inode pid ref (i # is) s w =
     (let f = fu_files s ! i in
      if file_matches device inode f
      then (case (if fd_name f = None then fd_named f else Some i) of
              None \<Rightarrow> Crashes
            | Some t \<Rightarrow> and_then (add_to_file E path pid ref (fu_files s ! t) w) (\<lambda>((new, g), w).
                add_file_loop E path device inode pid ref is
                  (s\<lparr>fu_files := (fu_files s)[t := g], fu_found_item := (fu_found_item s \<or> new)\<rparr>) w))
      else add_file_loop E path device inode pid ref is s w)"

definition add_file :: "'w procfs \<Rightarrow> string \<Rightarrow> nat \<Rightarrow> nat \<Rightarrow> int \<Rightarrow> u32 \<Rightarrow> fuser \<Rightarrow> 'w \<Rightarrow> (fuser \<times> 'w) ending" where
  "add_file E path device inode pid ref s w =
     add_file_loop E path device inode pid ref [0..<length (fu_files s)] s w"

fun check_entries :: "'w procfs \<Rightarrow> string \<Rightarrow> int \<Rightarrow> u32 \<Rightarrow> string list \<Rightarrow> fuser \<Rightarrow> 'w \<Rightarrow> (fuser \<times> 'w) ending" where
  "check_entries E rel pid type [] s w = Goes (s, w)"
| "check_entries E rel pid type (n # ns) s w =
     (if n = ''.'' \<or> n = ''..'' then check_entries E rel pid type ns s w
      else let path = rel @ ''/'' @ n in
        case fu_stat_op E path w of
          (None, w) \<Rightarrow> check_entries E rel pid type ns s w
        | (Some st, w) \<Rightarrow> and_then (add_file E path (st_dev st) (st_ino st) pid type s w) (\<lambda>(s, w).
            check_entries E rel pid type ns s w))"

definition check_dir :: "'w procfs \<Rightarrow> string \<Rightarrow> int \<Rightarrow> u32 \<Rightarrow> fuser \<Rightarrow> 'w \<Rightarrow> (fuser \<times> 'w) ending" where
  "check_dir E rel pid type s w =
     (case fu_opendir_op E rel w of (None, w) \<Rightarrow> Goes (s, w) | (Some ns, w) \<Rightarrow> check_entries E rel pid type ns s w)"

fun scan_entries :: "'w procfs \<Rightarrow> string list \<Rightarrow> fuser \<Rightarrow> 'w \<Rightarrow> (fuser \<times> 'w) ending" where
  "scan_entries E [] s w = Goes (s, w)"
| "scan_entries E (n # ns) s w =
     (let pid = atoi n in
      if pid = 0 then scan_entries E ns s w
      else let (ok, w) = fu_chdir_op E (''/proc/'' @ dec_of pid) w in
        if ok then and_then (check_dir E ''fd'' pid REF_FILE s w) (\<lambda>(s, w). scan_entries E ns s w)
        else scan_entries E ns s w)"

definition scan_fd :: "'w procfs \<Rightarrow> fuser \<Rightarrow> 'w \<Rightarrow> (fuser \<times> 'w) ending" where
  "scan_fd E s w =
     (case fu_opendir_op E ''/proc'' w of
        (None, w) \<Rightarrow> Exits 1
      | (Some ns, w) \<Rightarrow> and_then (scan_entries E ns s w) (\<lambda>(s, w).
          if \<forall>n \<in> set ns. atoi n = 0 then Exits 1 else Goes (s, w)))"

section \<open>The files asked about\<close>

definition enter_item :: "'w procfs \<Rightarrow> string \<Rightarrow> u32 \<Rightarrow> int \<Rightarrow> nat \<Rightarrow> nat \<Rightarrow> nat option \<Rightarrow> fuser \<Rightarrow> 'w \<Rightarrow> (fuser \<times> 'w) ending" where
  \<comment> \<open>\<open>strdup\<close> allocates too\<close>
  "enter_item E name flags sig_number dev ino name_space s w =
     (let (ok, w) = fu_malloc_op E w in
      if \<not> ok then Exits 1
      else let same = (case fu_last_named s of None \<Rightarrow> False
             | Some l \<Rightarrow> fd_name (fu_files s ! l) = Some name \<and> fd_name_space (fu_files s ! l) = name_space);
           (ok, w) = (if same then (True, w) else fu_malloc_op E w) in
      if \<not> ok then Exits 1
      else let new = \<lparr>fd_name = (if same then None else Some name), fd_dev = dev, fd_ino = ino, fd_flags = flags,
                 fd_sig_num = sig_number, fd_name_space = name_space, fd_items = [], fd_named = fu_last_named s\<rparr>;
               at = length (fu_files s)
      in Goes (s\<lparr>fu_files := fu_files s @ [new],
                 fu_last_named := (if same then fu_last_named s else Some at)\<rparr>, w))"

definition parse_args :: "'w procfs \<Rightarrow> string \<Rightarrow> fuser \<Rightarrow> 'w \<Rightarrow> (fuser \<times> 'w) ending" where
  "parse_args E argv s w =
     (let s = s\<lparr>fu_last_named := None\<rparr> in
      case fu_stat_op E argv w of
        (None, w) \<Rightarrow> Exits 0
      | (Some st, w) \<Rightarrow>
          if \<not> st_sock st \<or> FLAG_UID AND FLAG_DEV \<noteq> 0
          then enter_item E argv FLAG_UID SIGKILL (st_dev st) (st_ino st) None s w
          else Goes (s, w))"

section \<open>The answer\<close>

definition UNKNOWN_APP :: string where
  "UNKNOWN_APP = ''Unknown Linux Application''"

definition append_to :: "nat \<Rightarrow> string \<Rightarrow> string \<Rightarrow> string ending" where
  \<comment> \<open>\<open>strcat\<close> into an array of \<open>n\<close> characters\<close>
  "append_to n s t = (if length s + length t < n then Goes (s @ t) else Crashes)"

definition scan_comm :: "string \<Rightarrow> string option" where
  \<comment> \<open>\<open>fscanf(f, "%d (%[^)]", &dummy, comm)\<close>: what is stored in \<open>comm\<close>, if anything\<close>
  "scan_comm text =
     (let t = skip_ws text;
          t = (if t \<noteq> [] \<and> (hd t = CHR ''-'' \<or> hd t = CHR ''+'') then tl t else t);
          u = skip_ws (dropWhile is_dig t);
          c = takeWhile (\<lambda>c. c \<noteq> CHR '')'') (tl u)
      in if t = [] \<or> \<not> is_dig (hd t) \<or> u = [] \<or> hd u \<noteq> CHR ''('' \<or> c = [] then None else Some c)"

definition read_comm :: "'w procfs \<Rightarrow> int \<Rightarrow> 'w \<Rightarrow> (string \<times> 'w) ending" where
  \<comment> \<open>\<open>comm\<close> has room for 17 characters and the conversion no width\<close>
  "read_comm E pid w =
     (case fu_fopen_op E (''/proc/'' @ dec_of pid @ ''/stat'') w of
        (None, w) \<Rightarrow> Goes (''???'', w)
      | (Some text, w) \<Rightarrow> (case scan_comm text of
            None \<Rightarrow> Goes (''???'', w)
          | Some c \<Rightarrow> if length c \<le> 16 then Goes (c, w) else Crashes))"

definition user_name :: "'w procfs \<Rightarrow> int \<Rightarrow> 'w \<Rightarrow> (string \<times> 'w) ending" where
  \<comment> \<open>\<open>tmp\<close> has room for 10 characters\<close>
  "user_name E uid w =
     (if uid = UID_UNKNOWN then Goes (''???'', w)
      else case fu_getpwuid_op E uid w of
        (Some user, w) \<Rightarrow> Goes (user, w)
      | (None, w) \<Rightarrow> if length (dec_of uid) < 10 then Goes (dec_of uid, w) else Crashes)"

fun escape_comm :: "nat \<Rightarrow> string \<Rightarrow> string" where
  \<comment> \<open>\<open>a\<close> is the pointer \<open>scan\<close>, which is what is printed for a character that is not\<close>
  "escape_comm a [] = []"
| "escape_comm a (c # cs) =
     (if c = CHR 0x5C then [CHR 0x5C, CHR 0x5C]
      else if 32 < (of_char c :: nat) \<and> (of_char c :: nat) \<le> 126 then [c]
      else CHR 0x5C # pad_left 3 (CHR ''0'') (octal_of a)) @ escape_comm (Suc a) cs"

definition owner_line :: "string \<Rightarrow> int \<Rightarrow> string \<Rightarrow> string" where
  "owner_line user pid prog =
     '' '' @ user @ '' PID = '' @ pad_left 6 (CHR '' '') (dec_of pid) @ '' '' @ ''Program = '' @ prog"

definition show_user :: "'w procfs \<Rightarrow> string \<Rightarrow> fuser \<Rightarrow> 'w \<Rightarrow> ((string \<times> fuser) \<times> 'w) ending" where
  \<comment> \<open>the text in \<open>rs\<close>; the appends to \<open>returnstring\<close> are one, since it only grows. \<open>all\<close> is 0.\<close>
  "show_user E tstring s w =
     and_then (parse_args E tstring s w) (\<lambda>(s, w).
     and_then (scan_fd E s w) (\<lambda>(s, w).
     let (ok, w) = fu_seteuid_op E w in
     if \<not> ok then Goes ((UNKNOWN_APP, s), w)
     else case fu_files s of
       [] \<Rightarrow> Crashes
     | f # _ \<Rightarrow>
        if fd_name f = None \<or> fd_items f = [] then Goes ((UNKNOWN_APP, s), w)
        else let it = hd (fd_items f) in
          and_then (read_comm E (it_pid it) w) (\<lambda>(comm, w).
          and_then (user_name E (it_uid it) w) (\<lambda>(user, w).
          and_then (append_to 256 (fu_returnstring s)
                      (owner_line user (it_pid it) (escape_comm (fu_comm_addr E) comm))) (\<lambda>rs.
          Goes ((rs, s\<lparr>fu_returnstring := rs\<rparr>), w))))))"

definition native_psmisc_report_owner :: "'w procfs \<Rightarrow> bool \<Rightarrow> string \<Rightarrow> fuser \<Rightarrow> 'w \<Rightarrow> ((string \<times> fuser) \<times> 'w) ending" where
  \<comment> \<open>\<open>linux\<close>: \<open>__linux__\<close> is defined; other systems have a constant answer\<close>
  "native_psmisc_report_owner E linux arg s w =
     (if linux then show_user E arg s w else Goes ((''Unknown Application'', s), w))"

section \<open>The lists stay ordered\<close>

definition pids :: "file_dsc \<Rightarrow> int list" where
  "pids f = map it_pid (fd_items f)"

definition file_ok :: "file_dsc \<Rightarrow> bool" where
  "file_ok f \<longleftrightarrow> fd_name f \<noteq> None \<and> (\<forall>it \<in> set (fd_items f). it_type it = it_proc) \<and> sorted_wrt (<) (pids f)"

definition fu_ok :: "fuser \<Rightarrow> bool" where
  "fu_ok s \<longleftrightarrow> (\<forall>f \<in> set (fu_files s). file_ok f)"

lemma items_split:
  assumes "\<forall>it \<in> set items. it_type it = it_proc" and "sorted_wrt (<) (map it_pid items)"
  shows "takeWhile (\<lambda>it. \<not> item_stop pid it) items = filter (\<lambda>it. it_pid it < pid) items"
    and "dropWhile (\<lambda>it. \<not> item_stop pid it) items = filter (\<lambda>it. pid \<le> it_pid it) items"
proof -
  have "takeWhile (\<lambda>it. \<not> item_stop pid it) items = filter (\<lambda>it. it_pid it < pid) items \<and>
      dropWhile (\<lambda>it. \<not> item_stop pid it) items = filter (\<lambda>it. pid \<le> it_pid it) items"
    using assms
  proof (induction items)
    case (Cons a xs)
    show ?case
    proof (cases "pid \<le> it_pid a")
      case True
      with Cons.prems have "\<forall>x \<in> set xs. pid < it_pid x" by auto
      then have "filter (\<lambda>it. it_pid it < pid) xs = []" "filter (\<lambda>it. pid \<le> it_pid it) xs = xs"
        by (auto simp: filter_empty_conv filter_id_conv)
      with True Cons.prems show ?thesis by (simp add: item_stop_def)
    qed (use Cons in \<open>auto simp: item_stop_def\<close>)
  qed simp
  then show "takeWhile (\<lambda>it. \<not> item_stop pid it) items = filter (\<lambda>it. it_pid it < pid) items"
    and "dropWhile (\<lambda>it. \<not> item_stop pid it) items = filter (\<lambda>it. pid \<le> it_pid it) items" by auto
qed

lemma sorted_ge_hd:
  "sorted_wrt (<) (map it_pid items) \<Longrightarrow> filter (\<lambda>it. pid \<le> it_pid it) items = it # its \<Longrightarrow>
   (if it_pid it = pid then its else it # its) = filter (\<lambda>it. pid < it_pid it) items"
proof (induction items)
  case (Cons a xs)
  show ?case
  proof (cases "pid \<le> it_pid a")
    case True
    with Cons.prems have "\<forall>x \<in> set xs. pid < it_pid x" by auto
    then have "filter (\<lambda>it. pid < it_pid it) xs = xs" "filter (\<lambda>it. pid \<le> it_pid it) xs = xs"
      by (auto simp: filter_id_conv)
    with True Cons.prems show ?thesis by auto
  qed (use Cons in auto)
qed simp

lemma sorted_ge_none:
  "filter (\<lambda>it. pid \<le> it_pid it) items = [] \<Longrightarrow> filter (\<lambda>it. pid < it_pid it) items = []"
  by (auto simp: filter_empty_conv)

text \<open>Where the item is placed: between the smaller and the greater processes, and the item of the same
  process is taken out.\<close>

lemma place_item_split:
  assumes ok: "\<forall>it \<in> set items. it_type it = it_proc" "sorted_wrt (<) (map it_pid items)"
    and r: "place_item E pid items w = Goes ((new, before, this, after), w')"
  shows "before = filter (\<lambda>it. it_pid it < pid) items" "after = filter (\<lambda>it. pid < it_pid it) items"
    "it_pid this = pid" "it_type this = it_proc"
    "this = (if pid \<in> set (map it_pid items) then this else new_item pid)"
    "pid \<in> set (map it_pid items) \<Longrightarrow> this \<in> set items"
proof -
  let ?ge = "filter (\<lambda>it. pid \<le> it_pid it) items"
  show "before = filter (\<lambda>it. it_pid it < pid) items"
    using r by (auto simp: place_item_def items_split [OF ok] Let_def split: if_splits prod.splits)
  have r': "if ?ge \<noteq> [] \<and> it_pid (hd ?ge) = pid then this = hd ?ge \<and> after = tl ?ge else this = new_item pid \<and> after = ?ge"
    using r by (auto simp: place_item_def items_split [OF ok] Let_def split: if_splits prod.splits)
  have mem: "set ?ge \<subseteq> set items" by auto
  show "after = filter (\<lambda>it. pid < it_pid it) items"
    using r' sorted_ge_hd [OF ok(2), of pid] sorted_ge_none [of pid items]
    by (cases ?ge) (auto split: if_splits)
  show p: "it_pid this = pid" using r' by (auto simp: new_item_def split: if_splits)
  show "it_type this = it_proc"
    using r' ok(1) by (cases ?ge) (auto simp: new_item_def split: if_splits dest!: filter_eq_ConsD)
  have in_ge: "?ge \<noteq> [] \<and> it_pid (hd ?ge) = pid" if "pid \<in> set (map it_pid items)"
  proof -
    from that obtain it where it: "it \<in> set items" "it_pid it = pid" by auto
    then have ge: "it \<in> set ?ge" "it \<notin> set (filter (\<lambda>it. pid < it_pid it) items)" by auto
    then obtain a as where "?ge = a # as" by (cases ?ge) auto
    with sorted_ge_hd [OF ok(2) this] ge show ?thesis by (metis list.distinct(1) list.sel(1))
  qed
  show "this = (if pid \<in> set (map it_pid items) then this else new_item pid)"
  proof (cases "?ge \<noteq> [] \<and> it_pid (hd ?ge) = pid")
    case True
    then have "hd ?ge \<in> set items" using mem hd_in_set by blast
    with True have "pid \<in> set (map it_pid items)" by force
    then show ?thesis by simp
  qed (use r' in auto)
  show "this \<in> set items" if "pid \<in> set (map it_pid items)"
    using in_ge [OF that] r' mem hd_in_set by (metis (no_types, lifting) subsetD)
qed

lemma update_item_frame:
  "update_item E path flags ref it w = (it', w') \<Longrightarrow> it_pid it' = it_pid it \<and> it_type it' = it_type it"
  by (auto simp: update_item_def Let_def split: if_splits prod.splits option.splits)

text \<open>What a file is asked about, and what a sequence of finds \<open>(process, device, inode)\<close> makes of the lists.\<close>

definition ident :: "file_dsc \<Rightarrow> file_dsc" where
  "ident f = f\<lparr>fd_items := []\<rparr>"

definition grown :: "(nat \<Rightarrow> int set) \<Rightarrow> fuser \<Rightarrow> fuser \<Rightarrow> bool" where
  "grown A s s' \<longleftrightarrow> fu_ok s' \<and> map ident (fu_files s') = map ident (fu_files s) \<and>
     fu_returnstring s' = fu_returnstring s \<and>
     (\<forall>i < length (fu_files s). set (pids (fu_files s' ! i)) = set (pids (fu_files s ! i)) \<union> A i)"

definition finds :: "(int \<times> nat \<times> nat) set \<Rightarrow> fuser \<Rightarrow> nat \<Rightarrow> int set" where
  "finds D s i = {p. \<exists>d n. (p, d, n) \<in> D \<and> file_matches d n (fu_files s ! i)}"

abbreviation adds :: "(int \<times> nat \<times> nat) set \<Rightarrow> fuser \<Rightarrow> fuser \<Rightarrow> bool" where
  "adds D s s' \<equiv> grown (finds D s) s s'"

lemma grown_ok: "grown A s s' \<Longrightarrow> fu_ok s'"
  by (simp add: grown_def)

lemma grown_length: "grown A s s' \<Longrightarrow> length (fu_files s') = length (fu_files s)"
  unfolding grown_def by (metis length_map)

lemma grown_cong: "grown A s s' \<Longrightarrow> (\<And>i. i < length (fu_files s) \<Longrightarrow> A i = B i) \<Longrightarrow> grown B s s'"
  by (simp add: grown_def)

lemma grown_refl [simp]: "fu_ok s \<Longrightarrow> grown (\<lambda>i. {}) s s"
  by (simp add: grown_def)

lemma grown_trans: "grown A s s' \<Longrightarrow> grown B s' s'' \<Longrightarrow> grown (\<lambda>i. A i \<union> B i) s s''"
  using grown_length [of A s s'] by (auto simp: grown_def)

lemma grown_matches:
  assumes "grown A s s'" and "i < length (fu_files s)"
  shows "file_matches d n (fu_files s' ! i) = file_matches d n (fu_files s ! i)"
proof -
  have "ident (fu_files s' ! i) = ident (fu_files s ! i)"
    using assms unfolding grown_def by (metis length_map nth_map)
  then show ?thesis by (cases "fu_files s' ! i", cases "fu_files s ! i") (simp add: ident_def file_matches_def)
qed

lemma finds_empty [simp]: "finds {} s = (\<lambda>i. {})"
  by (auto simp: finds_def)

lemma adds_refl: "fu_ok s \<Longrightarrow> adds {} s s"
  by simp

lemma adds_trans:
  assumes "adds D s s'" and "adds D' s' s''"
  shows "adds (D \<union> D') s s''"
  using grown_trans [OF assms] by (rule grown_cong) (auto simp: finds_def grown_matches [OF assms(1)])

lemma add_to_file_effect:
  assumes ok: "file_ok f" and r: "add_to_file E path pid ref f w = Goes ((new, g), w')"
  shows "file_ok g" "ident g = ident f" "set (pids g) = insert pid (set (pids f))"
proof -
  obtain nw before this after w1 where p: "place_item E pid (fd_items f) w = Goes ((nw, before, this, after), w1)"
    using r by (cases "place_item E pid (fd_items f) w") (auto simp: add_to_file_def)
  obtain this' w2 where u: "update_item E path (fd_flags f) ref this w1 = (this', w2)" by (metis surj_pair)
  have g: "g = f\<lparr>fd_items := before @ this' # after\<rparr>" using r by (simp add: add_to_file_def p u)
  have proc: "\<forall>it \<in> set (fd_items f). it_type it = it_proc" and srt: "sorted_wrt (<) (map it_pid (fd_items f))"
    using ok by (auto simp: file_ok_def pids_def)
  note pl = place_item_split [OF proc srt p] and up = update_item_frame [OF u]
  show "ident g = ident f" by (simp add: g ident_def)
  show "set (pids g) = insert pid (set (pids f))"
    using pl(1-3) up by (auto simp: g pids_def image_iff) (metis linorder_less_linear)
  have "sorted_wrt (<) (map it_pid (filter P (fd_items f)))" for P
    using sorted_wrt_filter [of "\<lambda>x y. it_pid x < it_pid y" "fd_items f" P] srt by (simp add: sorted_wrt_map)
  then show "file_ok g"
    using ok pl(1-4) up by (auto simp: file_ok_def g pids_def sorted_wrt_append)
qed

lemma add_to_file_no_crash: "add_to_file E path pid ref f w \<noteq> Crashes"
  by (auto simp: add_to_file_def and_then_Crashes place_item_def Let_def split: prod.splits if_splits)

lemma grown_update:
  assumes ok: "fu_ok s" and i: "i < length (fu_files s)"
    and r: "add_to_file E path pid ref (fu_files s ! i) w = Goes ((new, g), w')"
  shows "grown (\<lambda>j. if j = i then {pid} else {}) s
    (s\<lparr>fu_files := (fu_files s)[i := g], fu_found_item := (fu_found_item s \<or> new)\<rparr>)"
proof -
  have "file_ok (fu_files s ! i)" using ok i by (simp add: fu_ok_def)
  note ef = add_to_file_effect [OF this r]
  have "map ident ((fu_files s)[i := g]) = map ident (fu_files s)"
    using i by (intro nth_equalityI) (auto simp: nth_list_update ef)
  moreover have "\<forall>f \<in> set ((fu_files s)[i := g]). file_ok f"
    using ok ef(1) set_update_subset_insert [of "fu_files s" i g] by (auto simp: fu_ok_def)
  ultimately show ?thesis using i ef(3) by (auto simp: grown_def fu_ok_def nth_list_update)
qed

lemma add_file_loop_cases:
  assumes ok: "fu_ok s" and i: "i < length (fu_files s)" and r: "add_file_loop E path d n pid ref (i # is) s w = r"
  obtains (other) "\<not> file_matches d n (fu_files s ! i)" "add_file_loop E path d n pid ref is s w = r"
  | (entered) new g w1 where "file_matches d n (fu_files s ! i)"
      "add_to_file E path pid ref (fu_files s ! i) w = Goes ((new, g), w1)"
      "add_file_loop E path d n pid ref is
         (s\<lparr>fu_files := (fu_files s)[i := g], fu_found_item := (fu_found_item s \<or> new)\<rparr>) w1 = r"
  | (out) c where "r = Exits c"
proof -
  have "fd_name (fu_files s ! i) \<noteq> None" using ok i by (simp add: fu_ok_def file_ok_def)
  with r have "r = (if file_matches d n (fu_files s ! i)
     then and_then (add_to_file E path pid ref (fu_files s ! i) w) (\<lambda>((new, g), w).
       add_file_loop E path d n pid ref is
         (s\<lparr>fu_files := (fu_files s)[i := g], fu_found_item := (fu_found_item s \<or> new)\<rparr>) w)
     else add_file_loop E path d n pid ref is s w)" by (auto simp: Let_def)
  then show thesis
    using that add_to_file_no_crash [of E path pid ref "fu_files s ! i" w]
    by (cases "add_to_file E path pid ref (fu_files s ! i) w") (auto split: if_splits)
qed

lemma add_file_loop_grown:
  assumes "fu_ok s" and "distinct is" and "set is \<subseteq> {..< length (fu_files s)}"
    and "add_file_loop E path d n pid ref is s w = Goes (s', w')"
  shows "grown (\<lambda>i. if i \<in> set is \<and> file_matches d n (fu_files s ! i) then {pid} else {}) s s'"
  using assms
proof (induction "is" arbitrary: s w)
  case (Cons i "is")
  have i: "i < length (fu_files s)" using Cons.prems by auto
  from Cons.prems(1) i Cons.prems(4) show ?case
  proof (cases rule: add_file_loop_cases)
    case other
    with Cons.prems Cons.IH [of s w]
    have "grown (\<lambda>j. if j \<in> set is \<and> file_matches d n (fu_files s ! j) then {pid} else {}) s s'" by simp
    then show ?thesis by (rule grown_cong) (use other in auto)
  next
    case (entered new g w1)
    let ?s1 = "s\<lparr>fu_files := (fu_files s)[i := g], fu_found_item := (fu_found_item s \<or> new)\<rparr>"
    note g1 = grown_update [OF Cons.prems(1) i entered(2)]
    have "grown (\<lambda>j. if j \<in> set is \<and> file_matches d n (fu_files ?s1 ! j) then {pid} else {}) ?s1 s'"
      using Cons.prems(2,3) by (intro Cons.IH [OF grown_ok [OF g1] _ _ entered(3)]) auto
    from grown_trans [OF g1 this] show ?thesis
      by (rule grown_cong) (use entered(1) grown_matches [OF g1] in auto)
  qed auto
qed simp

lemma add_file_loop_no_crash:
  "fu_ok s \<Longrightarrow> set is \<subseteq> {..< length (fu_files s)} \<Longrightarrow> add_file_loop E path d n pid ref is s w \<noteq> Crashes"
proof (induction "is" arbitrary: s w)
  case (Cons i "is")
  have i: "i < length (fu_files s)" using Cons.prems by auto
  have "False" if "add_file_loop E path d n pid ref (i # is) s w = Crashes"
    using Cons.prems(1) i that
  proof (cases rule: add_file_loop_cases)
    case (entered new g w1)
    from Cons.IH [OF grown_ok [OF grown_update [OF Cons.prems(1) i entered(2)]]] entered(3) Cons.prems(2)
    show False by auto
  qed (use Cons in auto)
  then show ?case by blast
qed simp

lemma add_file_adds:
  assumes "fu_ok s" and "add_file E path d n pid ref s w = Goes (s', w')"
  shows "adds {(pid, d, n)} s s'"
proof (rule grown_cong)
  show "grown (\<lambda>i. if i \<in> set [0..<length (fu_files s)] \<and> file_matches d n (fu_files s ! i) then {pid} else {}) s s'"
    using assms by (intro add_file_loop_grown) (auto simp: add_file_def)
qed (auto simp: finds_def)

lemma add_file_no_crash: "fu_ok s \<Longrightarrow> add_file E path d n pid ref s w \<noteq> Crashes"
  unfolding add_file_def by (rule add_file_loop_no_crash) auto

section \<open>Scanning\<close>

definition advanced :: "fuser \<Rightarrow> fuser \<Rightarrow> bool" where
  "advanced s s' \<longleftrightarrow> (\<exists>D. adds D s s')"

lemma advanced_refl [simp]: "fu_ok s \<Longrightarrow> advanced s s"
  unfolding advanced_def by (rule exI [of _ "{}"]) simp

lemma advanced_trans: "advanced s s' \<Longrightarrow> advanced s' s'' \<Longrightarrow> advanced s s''"
  unfolding advanced_def by (blast intro: adds_trans)

lemma advanced_ok: "advanced s s' \<Longrightarrow> fu_ok s'"
  by (auto simp: advanced_def grown_ok)

lemma add_file_advanced: "fu_ok s \<Longrightarrow> add_file E path d n pid ref s w = Goes (s', w') \<Longrightarrow> advanced s s'"
  unfolding advanced_def by (blast dest: add_file_adds)

lemma check_entries_advanced: "fu_ok s \<Longrightarrow> check_entries E rel pid type ns s w = Goes (s', w') \<Longrightarrow> advanced s s'"
proof (induction ns arbitrary: s w)
  case (Cons n ns)
  have *: "advanced s s'" if "fu_ok s" "add_file E path d n pid type s w = Goes (s1, w1)"
    "check_entries E rel pid type ns s1 w1 = Goes (s', w')" for path d n w s1 w1
    using that by (meson add_file_advanced advanced_ok advanced_trans Cons.IH)
  from Cons.prems Cons.IH * show ?case
    by (auto simp: and_then_Goes Let_def split: if_splits prod.split_asm option.splits)
qed simp

lemma check_entries_no_crash: "fu_ok s \<Longrightarrow> check_entries E rel pid type ns s w \<noteq> Crashes"
proof (induction ns arbitrary: s w)
  case (Cons n ns)
  then show ?case
    by (auto simp: and_then_Crashes Let_def add_file_no_crash split: if_splits prod.splits option.splits
          dest: add_file_advanced advanced_ok)
qed simp

lemma check_dir_advanced: "fu_ok s \<Longrightarrow> check_dir E rel pid type s w = Goes (s', w') \<Longrightarrow> advanced s s'"
  by (auto simp: check_dir_def split: prod.splits option.splits dest: check_entries_advanced)

lemma check_dir_no_crash: "fu_ok s \<Longrightarrow> check_dir E rel pid type s w \<noteq> Crashes"
  by (auto simp: check_dir_def check_entries_no_crash split: prod.splits option.splits)

lemma scan_entries_advanced: "fu_ok s \<Longrightarrow> scan_entries E ns s w = Goes (s', w') \<Longrightarrow> advanced s s'"
proof (induction ns arbitrary: s w)
  case (Cons n ns)
  have *: "advanced s s'" if "fu_ok s" "check_dir E rel pid type s w = Goes (s1, w1)"
    "scan_entries E ns s1 w1 = Goes (s', w')" for rel pid type w s1 w1
    using that by (meson check_dir_advanced advanced_ok advanced_trans Cons.IH)
  from Cons.prems Cons.IH * show ?case
    by (auto simp: and_then_Goes Let_def split: if_splits prod.split_asm)
qed simp

lemma scan_entries_no_crash: "fu_ok s \<Longrightarrow> scan_entries E ns s w \<noteq> Crashes"
proof (induction ns arbitrary: s w)
  case (Cons n ns)
  then show ?case
    by (auto simp: and_then_Crashes Let_def check_dir_no_crash split: if_splits prod.splits
          dest: check_dir_advanced advanced_ok)
qed simp

lemma scan_fd_advanced: "fu_ok s \<Longrightarrow> scan_fd E s w = Goes (s', w') \<Longrightarrow> advanced s s'"
  by (auto simp: scan_fd_def and_then_Goes split: prod.split_asm option.splits if_splits dest: scan_entries_advanced)

lemma scan_fd_no_crash: "fu_ok s \<Longrightarrow> scan_fd E s w \<noteq> Crashes"
  by (auto simp: scan_fd_def and_then_Crashes scan_entries_no_crash split: prod.splits option.splits if_splits)

lemma parse_args_effect:
  assumes "parse_args E argv s w = Goes (s', w')"
  obtains st where "fst (fu_stat_op E argv w) = Some st" "fu_returnstring s' = fu_returnstring s"
    "fu_files s' = fu_files s @ (if st_sock st then []
       else [\<lparr>fd_name = Some argv, fd_dev = st_dev st, fd_ino = st_ino st, fd_flags = FLAG_UID,
              fd_sig_num = SIGKILL, fd_name_space = None, fd_items = [], fd_named = None\<rparr>])"
  using assms by (auto simp: parse_args_def enter_item_def Let_def split: prod.splits option.splits if_splits)

lemma parse_args_ok: "fu_ok s \<Longrightarrow> parse_args E argv s w = Goes (s', w') \<Longrightarrow> fu_ok s'"
  by (erule parse_args_effect) (auto simp: fu_ok_def file_ok_def pids_def)

lemma parse_args_no_crash: "parse_args E argv s w \<noteq> Crashes"
  by (auto simp: parse_args_def enter_item_def Let_def split: prod.splits option.splits if_splits)

section \<open>What an answer is about\<close>

text \<open>The tail of \<open>show_user\<close>: every answer is the stock phrase or a line about the first process of the first
  file, behind everything answered before.\<close>

lemma show_user_cases:
  assumes "fu_ok s" and "show_user E t s w = Goes ((r, s'), w')"
  obtains s1 w1 s2 w2 where "parse_args E t s w = Goes (s1, w1)" "scan_fd E s1 w1 = Goes (s2, w2)" "fu_ok s2"
    "fu_files s' = fu_files s2"
    "r = UNKNOWN_APP \<and> s' = s2 \<or>
     (\<exists>f fs user prog. fu_files s2 = f # fs \<and> pids f \<noteq> [] \<and> r = fu_returnstring s2 @ owner_line user (hd (pids f)) prog \<and>
        fu_returnstring s' = r \<and> length r < 256)"
proof -
  obtain s1 w1 s2 w2 where p: "parse_args E t s w = Goes (s1, w1)" and sc: "scan_fd E s1 w1 = Goes (s2, w2)"
    using assms(2) by (auto simp: show_user_def and_then_Goes)
  have "fu_ok s2" using assms(1) p sc by (meson parse_args_ok scan_fd_advanced advanced_ok)
  moreover have "fu_files s' = fu_files s2 \<and> (r = UNKNOWN_APP \<and> s' = s2 \<or>
     (\<exists>f fs user prog. fu_files s2 = f # fs \<and> pids f \<noteq> [] \<and> r = fu_returnstring s2 @ owner_line user (hd (pids f)) prog \<and>
        fu_returnstring s' = r \<and> length r < 256))"
    using assms(2)
    by (auto simp: show_user_def p sc and_then_Goes Let_def append_to_def pids_def hd_map
        split: prod.splits if_splits list.splits)
  ultimately show thesis using that p sc by blast
qed

lemma sorted_hd_Min: "sorted_wrt (<) xs \<Longrightarrow> xs \<noteq> [] \<Longrightarrow> hd xs = Min (set xs)" for xs :: "int list"
  by (cases xs) (auto simp: min_def intro!: Min_eqI [symmetric])

text \<open>C37. An answer that names an owner names the process with the least number among those found for the
  file of the first question ever asked, whatever device the present question is about: once a file is in
  the list, later questions are answered from it.\<close>

theorem owner_of_first_file:
  assumes ok: "fu_ok s" and r: "native_psmisc_report_owner E True t s w = Goes ((r, s'), w')"
    and asked: "fu_files s = f # fs" and named: "r \<noteq> UNKNOWN_APP"
  shows "fu_ok s' \<and> (\<exists>user prog. ident (hd (fu_files s')) = ident f \<and>
    r = fu_returnstring s @ owner_line user (Min (set (pids (hd (fu_files s'))))) prog)"
proof -
  from r have q: "show_user E t s w = Goes ((r, s'), w')" by (simp add: native_psmisc_report_owner_def)
  obtain s1 w1 s2 w2 g gs user prog where
    p: "parse_args E t s w = Goes (s1, w1)" and sc: "scan_fd E s1 w1 = Goes (s2, w2)" and ok2: "fu_ok s2"
    and f2: "fu_files s' = fu_files s2" "fu_files s2 = g # gs" "pids g \<noteq> []"
    and rr: "r = fu_returnstring s2 @ owner_line user (hd (pids g)) prog"
    using show_user_cases [OF ok q] named by metis
  have "fu_ok s1" using parse_args_ok [OF ok p] .
  with sc obtain D where D: "adds D s1 s2" by (meson scan_fd_advanced advanced_def)
  have "hd (fu_files s1) = f \<and> fu_files s1 \<noteq> [] \<and> fu_returnstring s1 = fu_returnstring s"
    using p asked by (auto elim!: parse_args_effect)
  moreover have "map ident (fu_files s2) = map ident (fu_files s1)" "fu_returnstring s2 = fu_returnstring s1"
    using D by (auto simp: grown_def)
  ultimately have "ident g = ident f" "fu_returnstring s2 = fu_returnstring s"
    by (cases "fu_files s1"; simp add: f2)+
  moreover have "hd (pids g) = Min (set (pids g))"
    using ok2 f2 by (intro sorted_hd_Min) (auto simp: fu_ok_def file_ok_def)
  ultimately show ?thesis using rr f2 ok2 by (auto simp: fu_ok_def)
qed

fun query_all :: "'w procfs \<Rightarrow> string list \<Rightarrow> fuser \<Rightarrow> 'w \<Rightarrow> ((string list \<times> fuser) \<times> 'w) ending" where
  \<comment> \<open>one question after another in the life of the process\<close>
  "query_all E [] s w = Goes (([], s), w)"
| "query_all E (t # ts) s w = and_then (native_psmisc_report_owner E True t s w) (\<lambda>((r, s), w).
     and_then (query_all E ts s w) (\<lambda>((rs, s), w). Goes ((r # rs, s), w)))"

lemma length_owner_line: "25 \<le> length (owner_line user pid prog)"
  by (simp add: owner_line_def)

lemma answer_grows:
  assumes ok: "fu_ok s" and r: "native_psmisc_report_owner E True t s w = Goes ((r, s'), w')"
    and b: "length (fu_returnstring s) < 256"
  shows "fu_ok s'" "length (fu_returnstring s) + (if r = UNKNOWN_APP then 0 else 25) \<le> length (fu_returnstring s')"
    "length (fu_returnstring s') < 256"
proof -
  from r have q: "show_user E t s w = Goes ((r, s'), w')" by (simp add: native_psmisc_report_owner_def)
  obtain s1 w1 s2 w2 where p: "parse_args E t s w = Goes (s1, w1)" and sc: "scan_fd E s1 w1 = Goes (s2, w2)"
    and ok2: "fu_ok s2" and f: "fu_files s' = fu_files s2"
    and c: "r = UNKNOWN_APP \<and> s' = s2 \<or> (\<exists>f fs user prog. fu_files s2 = f # fs \<and> pids f \<noteq> [] \<and>
        r = fu_returnstring s2 @ owner_line user (hd (pids f)) prog \<and> fu_returnstring s' = r \<and> length r < 256)"
    using show_user_cases [OF ok q] by metis
  have "fu_returnstring s2 = fu_returnstring s"
    using p parse_args_ok [OF ok p] scan_fd_advanced [OF _ sc]
    by (auto simp: advanced_def grown_def elim!: parse_args_effect)
  with c have "r = UNKNOWN_APP \<and> fu_returnstring s' = fu_returnstring s \<or>
      (\<exists>l. fu_returnstring s' = fu_returnstring s @ l \<and> 25 \<le> length l \<and> length (fu_returnstring s') < 256)"
    using length_owner_line by metis
  then show "length (fu_returnstring s) + (if r = UNKNOWN_APP then 0 else 25) \<le> length (fu_returnstring s')"
    "length (fu_returnstring s') < 256" using b by auto
  show "fu_ok s'" using ok2 f by (simp add: fu_ok_def)
qed

lemma answers_bounded:
  "fu_ok s \<Longrightarrow> length (fu_returnstring s) < 256 \<Longrightarrow> query_all E ts s w = Goes ((rs, s'), w') \<Longrightarrow>
   length (fu_returnstring s) + 25 * length (filter (\<lambda>r. r \<noteq> UNKNOWN_APP) rs) \<le> length (fu_returnstring s') \<and>
   length (fu_returnstring s') < 256"
proof (induction ts arbitrary: s w rs)
  case (Cons t ts)
  from Cons.prems(3) obtain r s1 w1 rs1 where
    a: "native_psmisc_report_owner E True t s w = Goes ((r, s1), w1)"
    and q: "query_all E ts s1 w1 = Goes ((rs1, s'), w')" and rs: "rs = r # rs1"
    by (auto simp: and_then_Goes)
  note g = answer_grows [OF Cons.prems(1) a Cons.prems(2)]
  from Cons.IH [OF g(1,3) q] g(2) show ?case by (auto simp: rs)
qed auto

text \<open>C38. In the life of one process at most ten questions can be answered with an owner: every such answer is
  appended to a static array of 256 characters that is never emptied, and the eleventh overruns it.\<close>

theorem owners_overrun:
  "query_all E ts fu_init w = Goes ((rs, s'), w') \<Longrightarrow> length (filter (\<lambda>r. r \<noteq> UNKNOWN_APP) rs) \<le> 10"
  using answers_bounded [of fu_init E ts w rs s' w'] by (simp add: fu_init_def fu_ok_def)

section \<open>Against a snapshot of the processes\<close>

text \<open>What \<open>/proc\<close> promises while nothing changes: its directory lists the processes of \<open>table\<close>, and inside the
  directory of a process \<open>fd\<close> lists its descriptors, whose targets \<open>stat\<close> gives. The table has \<open>None\<close> for a
  process that may not be looked into.\<close>

type_synonym ptable = "(int \<times> (string \<times> fstat) list option) list"

definition find_of :: "int \<Rightarrow> string \<times> fstat \<Rightarrow> int \<times> nat \<times> nat" where
  "find_of p x = (p, st_dev (snd x), st_ino (snd x))"

definition opened :: "ptable \<Rightarrow> (int \<times> nat \<times> nat) set" where
  "opened T = (\<Union>(p, d) \<in> set T. case d of None \<Rightarrow> {} | Some fds \<Rightarrow> find_of p ` set fds)"

lemma opened_fst: "x \<in> opened T \<Longrightarrow> fst x \<in> fst ` set T"
  by (auto simp: opened_def find_of_def split: option.splits) (metis fst_conv image_eqI)

definition opened_by :: "int \<Rightarrow> ptable \<Rightarrow> (int \<times> nat \<times> nat) set" where
  "opened_by p T = {x \<in> opened T. fst x = p}"

lemma fst_find_of [simp]: "fst (find_of p x) = p"
  by (simp add: find_of_def)

lemma opened_by_eq:
  "distinct (map fst T) \<Longrightarrow> (p, d) \<in> set T \<Longrightarrow>
   opened_by p T = (case d of None \<Rightarrow> {} | Some fds \<Rightarrow> find_of p ` set fds)"
proof (induction T)
  case (Cons x T)
  obtain q e where x: "x = (q, e)" by (cases x)
  have o: "opened_by p (x # T) = (if q = p then (case e of None \<Rightarrow> {} | Some fds \<Rightarrow> find_of p ` set fds) else {}) \<union> opened_by p T"
    by (cases e) (auto simp: x opened_by_def opened_def)
  have "opened_by q T = {}" using Cons.prems(1) opened_fst [of _ T] by (fastforce simp: opened_by_def x)
  moreover have "p \<noteq> q" if "(p, d) \<in> set T" using Cons.prems(1) that by (force simp: x)
  ultimately show ?case unfolding o using Cons by (auto simp: x)
qed simp

definition not_dots :: "string \<Rightarrow> bool" where
  "not_dots n \<longleftrightarrow> \<not> (n = ''.'' \<or> n = ''..'')"

locale fd_contract =
  fixes E :: "'w procfs" and good :: "'w \<Rightarrow> bool" and cwd :: "'w \<Rightarrow> int option" and table :: "'w \<Rightarrow> ptable"
  assumes opendir_proc: "good w \<Longrightarrow> \<exists>ns. fu_opendir_op E ''/proc'' w = (Some ns, w) \<and>
      filter (\<lambda>p. p \<noteq> 0) (map atoi ns) = map fst (table w)"
    and chdir_proc: "good w \<Longrightarrow> (p, d) \<in> set (table w) \<Longrightarrow> fu_chdir_op E (''/proc/'' @ dec_of p) w = (b, w') \<Longrightarrow>
      good w' \<and> table w' = table w \<and> (b \<longrightarrow> cwd w' = Some p) \<and> (d \<noteq> None \<longrightarrow> b)"
    and opendir_fd: "good w \<Longrightarrow> cwd w = Some p \<Longrightarrow> (p, d) \<in> set (table w) \<Longrightarrow>
      \<exists>r. fu_opendir_op E ''fd'' w = (r, w) \<and>
        (case d of None \<Rightarrow> r = None | Some fds \<Rightarrow> \<exists>ns. r = Some ns \<and> filter not_dots ns = map fst fds)"
    and stat_fd: "good w \<Longrightarrow> cwd w = Some p \<Longrightarrow> (p, Some fds) \<in> set (table w) \<Longrightarrow> (n, st) \<in> set fds \<Longrightarrow>
      fu_stat_op E (''fd/'' @ n) w = (Some st, w)"
    and lstat_keeps: "good w \<Longrightarrow> snd (fu_lstat_op E path w) = w"
    and malloc_works: "good w \<Longrightarrow> fu_malloc_op E w = (True, w)"
    and some_process: "good w \<Longrightarrow> table w \<noteq> []"
    and one_entry: "good w \<Longrightarrow> distinct (map fst (table w))"
begin

lemma add_to_file_total: "good w \<Longrightarrow> \<exists>x. add_to_file E path pid ref f w = Goes (x, w)"
  using lstat_keeps [of w path] malloc_works [of w]
  by (auto simp: add_to_file_def place_item_def update_item_def Let_def split: prod.splits option.splits)

lemma add_file_loop_total:
  "good w \<Longrightarrow> fu_ok s \<Longrightarrow> set is \<subseteq> {..< length (fu_files s)} \<Longrightarrow>
   \<exists>s'. add_file_loop E path d n pid ref is s w = Goes (s', w)"
proof (induction "is" arbitrary: s)
  case (Cons i "is")
  have i: "i < length (fu_files s)" using Cons.prems by auto
  obtain new g where g: "add_to_file E path pid ref (fu_files s ! i) w = Goes ((new, g), w)"
    using add_to_file_total [OF Cons.prems(1)] by (metis surj_pair)
  have "fd_name (fu_files s ! i) \<noteq> None" using Cons.prems i by (simp add: fu_ok_def file_ok_def)
  moreover have "fu_ok (s\<lparr>fu_files := (fu_files s)[i := g], fu_found_item := (fu_found_item s \<or> new)\<rparr>)"
    using grown_ok [OF grown_update [OF Cons.prems(2) i g]] .
  ultimately show ?case using Cons g by (auto simp: Let_def)
qed simp

lemma add_file_exact:
  assumes "good w" and "fu_ok s"
  obtains s' where "add_file E path d n pid ref s w = Goes (s', w)" "adds {(pid, d, n)} s s'"
proof -
  have "set [0..<length (fu_files s)] \<subseteq> {..< length (fu_files s)}" by auto
  from add_file_loop_total [OF assms this, of path d n pid ref]
  obtain s' where r: "add_file E path d n pid ref s w = Goes (s', w)" by (auto simp: add_file_def)
  show thesis by (rule that [OF r add_file_adds [OF assms(2) r]])
qed

lemma check_entries_exact:
  assumes "good w" "cwd w = Some p" "(p, Some fds) \<in> set (table w)"
    and "fu_ok s" "set (filter not_dots ns) \<subseteq> fst ` set fds"
  shows "\<exists>s'. check_entries E ''fd'' p REF_FILE ns s w = Goes (s', w) \<and>
    adds (find_of p ` {x \<in> set fds. fst x \<in> set ns \<and> not_dots (fst x)}) s s'"
  using assms(4,5)
proof (induction ns arbitrary: s)
  case (Cons n ns)
  let ?D = "\<lambda>ns. find_of p ` {x \<in> set fds. fst x \<in> set ns \<and> not_dots (fst x)}"
  show ?case
  proof (cases "not_dots n")
    case False
    then have "?D (n # ns) = ?D ns" by auto
    moreover have "check_entries E ''fd'' p REF_FILE (n # ns) s w = check_entries E ''fd'' p REF_FILE ns s w"
      using False by (auto simp: not_dots_def)
    ultimately show ?thesis using False Cons by simp
  next
    case True
    with Cons.prems obtain st where st: "(n, st) \<in> set fds" by auto
    note sf = stat_fd [OF assms(1-3) st]
    have *: "x = (n, st)" if "x \<in> set fds" "fst x = n" for x
      using stat_fd [OF assms(1-3), of n "snd x"] that sf by (cases x) auto
    have "{x \<in> set fds. fst x \<in> set (n # ns) \<and> not_dots (fst x)} =
        insert (n, st) {x \<in> set fds. fst x \<in> set ns \<and> not_dots (fst x)}"
    proof (rule set_eqI)
      fix x
      show "x \<in> {x \<in> set fds. fst x \<in> set (n # ns) \<and> not_dots (fst x)} \<longleftrightarrow>
          x \<in> insert (n, st) {x \<in> set fds. fst x \<in> set ns \<and> not_dots (fst x)}"
        using True st * [of x] by (cases "x = (n, st)") auto
    qed
    then have D: "?D (n # ns) = {(p, st_dev st, st_ino st)} \<union> ?D ns" by (simp add: find_of_def)
    obtain s1 where s1: "add_file E (''fd/'' @ n) (st_dev st) (st_ino st) p REF_FILE s w = Goes (s1, w)"
      "adds {(p, st_dev st, st_ino st)} s s1" using add_file_exact [OF assms(1) Cons.prems(1)] .
    have "set (filter not_dots ns) \<subseteq> fst ` set fds" using Cons.prems(2) True by simp
    then obtain s' where s': "check_entries E ''fd'' p REF_FILE ns s1 w = Goes (s', w)" "adds (?D ns) s1 s'"
      using Cons.IH [OF grown_ok [OF s1(2)]] by blast
    show ?thesis unfolding D
      using True s1 s' adds_trans [OF s1(2) s'(2)] sf by (simp add: not_dots_def)
  qed
qed simp

lemma check_dir_exact:
  assumes "good w" "cwd w = Some p" "(p, d) \<in> set (table w)" "fu_ok s"
  shows "\<exists>s'. check_dir E ''fd'' p REF_FILE s w = Goes (s', w) \<and> adds (opened_by p (table w)) s s'"
proof -
  note o = opened_by_eq [OF one_entry [OF assms(1)] assms(3)]
  show ?thesis
  proof (cases d)
    case None
    then have "fu_opendir_op E ''fd'' w = (None, w)" using opendir_fd [OF assms(1-3)] by simp
    moreover have "opened_by p (table w) = {}"
      using None o by simp
    ultimately show ?thesis using assms(4) by (simp add: check_dir_def)
  next
    case (Some fds)
    then obtain ns where ns: "fu_opendir_op E ''fd'' w = (Some ns, w)" "filter not_dots ns = map fst fds"
      using opendir_fd [OF assms(1-3)] by auto
    have in_ns: "n \<in> set ns \<and> not_dots n" if "(n, st) \<in> set fds" for n st
    proof -
      have "n \<in> set (filter not_dots ns)" using that unfolding ns(2) by force
      then show ?thesis by simp
    qed
    have "opened_by p (table w) = find_of p ` set fds" using o Some by simp
    moreover have "{x \<in> set fds. fst x \<in> set ns \<and> not_dots (fst x)} = set fds" using in_ns by auto
    ultimately have "opened_by p (table w) = find_of p ` {x \<in> set fds. fst x \<in> set ns \<and> not_dots (fst x)}" by simp
    with check_entries_exact [OF assms(1,2) _ assms(4), of fds ns] assms(3) Some ns show ?thesis
      by (simp add: check_dir_def)
  qed
qed

lemma scan_entries_exact:
  "good w \<Longrightarrow> fu_ok s \<Longrightarrow> {atoi n | n. n \<in> set ns \<and> atoi n \<noteq> 0} \<subseteq> fst ` set (table w) \<Longrightarrow>
   \<exists>s' w'. scan_entries E ns s w = Goes (s', w') \<and> good w' \<and> table w' = table w \<and>
     adds {x \<in> opened (table w). fst x \<in> atoi ` set ns - {0}} s s'"
proof (induction ns arbitrary: s w)
  case (Cons n ns)
  let ?D = "\<lambda>ns. {x \<in> opened (table w). fst x \<in> atoi ` set ns - {0}}"
  show ?case
  proof (cases "atoi n = 0")
    case True
    then have "?D (n # ns) = ?D ns" by auto
    moreover have "{atoi n | n. n \<in> set ns \<and> atoi n \<noteq> 0} \<subseteq> fst ` set (table w)" using Cons.prems(3) by auto
    ultimately show ?thesis using True Cons.IH [OF Cons.prems(1,2)] by simp
  next
    case False
    with Cons.prems(3) obtain d where d: "(atoi n, d) \<in> set (table w)" by auto
    obtain b w1 where c: "fu_chdir_op E (''/proc/'' @ dec_of (atoi n)) w = (b, w1)" by (metis surj_pair)
    note w1 = chdir_proc [OF Cons.prems(1) d c]
    have D: "?D (n # ns) = opened_by (atoi n) (table w) \<union> ?D ns" using False by (auto simp: opened_by_def)
    obtain s1 where s1: "adds (opened_by (atoi n) (table w)) s s1"
      "if b then check_dir E ''fd'' (atoi n) REF_FILE s w1 = Goes (s1, w1) else s1 = s"
    proof (cases b)
      case True
      then show thesis using check_dir_exact [of w1 "atoi n" d s] w1 d Cons.prems(2) that by auto
    next
      case False
      have "d = None" using w1 False by auto
      then have "opened_by (atoi n) (table w) = {}" using opened_by_eq [OF one_entry [OF Cons.prems(1)] d] by simp
      with False that [of s] Cons.prems(2) show thesis by simp
    qed
    have "{atoi n | n. n \<in> set ns \<and> atoi n \<noteq> 0} \<subseteq> fst ` set (table w1)" using Cons.prems(3) w1 by auto
    then obtain s' w' where r: "scan_entries E ns s1 w1 = Goes (s', w')" "good w'" "table w' = table w" "adds (?D ns) s1 s'"
      using Cons.IH [of w1 s1] w1 grown_ok [OF s1(1)] by auto
    from adds_trans [OF s1(1) r(4)] D have "adds (?D (n # ns)) s s'" by simp
    with r s1(2) c False show ?thesis by (auto simp: Let_def)
  qed
qed auto

lemma scan_fd_exact:
  assumes "good w" and "fu_ok s"
  shows "\<exists>s' w'. scan_fd E s w = Goes (s', w') \<and> good w' \<and> table w' = table w \<and> adds (opened (table w)) s s'"
proof -
  obtain ns where ns: "fu_opendir_op E ''/proc'' w = (Some ns, w)"
    "filter (\<lambda>p. p \<noteq> 0) (map atoi ns) = map fst (table w)" using opendir_proc [OF assms(1)] by auto
  have e: "atoi ` set ns - {0} = fst ` set (table w)"
    using arg_cong [OF ns(2), of set] by auto
  have "{x \<in> opened (table w). fst x \<in> fst ` set (table w)} = opened (table w)"
    using opened_fst by blast
  moreover have "\<exists>n \<in> set ns. atoi n \<noteq> 0" 
  proof -
    obtain q where "q \<in> fst ` set (table w)" using some_process [OF assms(1)] by (cases "table w") auto
    then have "q \<in> atoi ` set ns - {0}" using e by simp
    then show ?thesis by auto
  qed
  moreover have "{atoi n | n. n \<in> set ns \<and> atoi n \<noteq> 0} \<subseteq> fst ` set (table w)" using e by auto
  ultimately show ?thesis
    using scan_entries_exact [OF assms, of ns] by (auto simp: scan_fd_def ns(1) e)
qed

end

text \<open>With account names of at most 32 characters and printable program names, a first question is answered.\<close>

definition plain :: "string \<Rightarrow> bool" where
  "plain c \<longleftrightarrow> length c \<le> 16 \<and> (\<forall>x \<in> set c. 32 < (of_char x :: nat) \<and> (of_char x :: nat) \<le> 126)"

lemma length_escape_plain: "\<forall>x \<in> set c. 32 < (of_char x :: nat) \<and> (of_char x :: nat) \<le> 126 \<Longrightarrow>
    length (escape_comm a c) \<le> 2 * length c"
  by (induction c arbitrary: a) (auto intro: le_SucI)

definition users_of :: "ptable \<Rightarrow> fstat \<Rightarrow> int set" where
  "users_of T st = {p. (p, st_dev st, st_ino st) \<in> opened T}"

locale owner_contract = fd_contract +
  assumes seteuid_works: "good w \<Longrightarrow> \<exists>w'. fu_seteuid_op E w = (True, w') \<and> good w' \<and> table w' = table w"
    and stat_names: "good w \<Longrightarrow> fu_fopen_op E path w = (r, w') \<Longrightarrow>
      good w' \<and> (\<forall>text c. r = Some text \<longrightarrow> scan_comm text = Some c \<longrightarrow> plain c)"
    and accounts: "good w \<Longrightarrow> \<exists>user w'. fu_getpwuid_op E uid w = (Some user, w') \<and> length user \<le> 32"
    and small_pids: "good w \<Longrightarrow> (p, d) \<in> set (table w) \<Longrightarrow> length (dec_of p) \<le> 11"
begin

lemma read_comm_plain:
  assumes "good w"
  shows "\<exists>c w'. read_comm E p w = Goes (c, w') \<and> good w' \<and> plain c"
proof -
  have "plain ''???''" by (simp add: plain_def)
  moreover obtain r w' where r: "fu_fopen_op E (''/proc/'' @ dec_of p @ ''/stat'') w = (r, w')" by (metis surj_pair)
  ultimately show ?thesis
    using stat_names [OF assms r] by (auto simp: read_comm_def r plain_def split: option.splits)
qed

lemma user_name_short:
  assumes "good w"
  shows "\<exists>u w'. user_name E uid w = Goes (u, w') \<and> length u \<le> 32"
  using accounts [OF assms, of uid] by (auto simp: user_name_def)

lemma first_scan:
  assumes "good w" and "fu_stat_op E t w = (Some st, w)" and "\<not> st_sock st"
  obtains s1 s2 f w2 where "parse_args E t fu_init w = Goes (s1, w)" "scan_fd E s1 w = Goes (s2, w2)" "good w2"
    "table w2 = table w" "fu_ok s2" "fu_files s2 = [f]" "set (pids f) = users_of (table w) st" "fu_returnstring s2 = []"
proof -
  define f where "f = \<lparr>fd_name = Some t, fd_dev = st_dev st, fd_ino = st_ino st, fd_flags = FLAG_UID,
    fd_sig_num = SIGKILL, fd_name_space = None, fd_items = [], fd_named = None\<rparr>"
  define s1 where "s1 = fu_init\<lparr>fu_files := [f], fu_last_named := Some 0\<rparr>"
  have p: "parse_args E t fu_init w = Goes (s1, w)"
    using assms malloc_works [OF assms(1)] by (simp add: parse_args_def enter_item_def fu_init_def f_def s1_def)
  have "fu_ok s1" by (simp add: s1_def fu_ok_def file_ok_def pids_def f_def)
  from scan_fd_exact [OF assms(1) this] obtain s2 w2 where
    r: "scan_fd E s1 w = Goes (s2, w2)" "good w2" "table w2 = table w" and a: "adds (opened (table w)) s1 s2" by auto
  have "length (fu_files s2) = 1" using grown_length [OF a] by (simp add: s1_def)
  then obtain g where g: "fu_files s2 = [g]" by (cases "fu_files s2") auto
  have "file_matches d n f \<longleftrightarrow> d = st_dev st \<and> n = st_ino st" for d n
    by (simp add: file_matches_def f_def)
  then have "set (pids g) = users_of (table w) st" and "fu_returnstring s2 = []"
    using a g by (auto simp: grown_def s1_def finds_def fu_init_def users_of_def pids_def f_def)
  with that [OF p r grown_ok [OF a] g] show thesis by simp
qed

lemma first_question:
  assumes "good w" and "fu_stat_op E t w = (Some st, w)" and "\<not> st_sock st"
  shows "\<exists>r s' w'. native_psmisc_report_owner E True t fu_init w = Goes ((r, s'), w') \<and>
    (if users_of (table w) st = {} then r = UNKNOWN_APP
     else \<exists>user prog. r = owner_line user (Min (users_of (table w) st)) prog)"
proof -
  obtain s1 s2 f w2 where r: "parse_args E t fu_init w = Goes (s1, w)" "scan_fd E s1 w = Goes (s2, w2)" "good w2"
    "table w2 = table w" "fu_ok s2" and f: "fu_files s2 = [f]" "set (pids f) = users_of (table w) st" "fu_returnstring s2 = []"
    using first_scan [OF assms] .
  obtain w3 where e: "fu_seteuid_op E w2 = (True, w3)" "good w3" using seteuid_works [OF r(3)] by auto
  have nm: "fd_name f \<noteq> None" and srt: "sorted_wrt (<) (pids f)" using r(5) f(1) by (auto simp: fu_ok_def file_ok_def)
  show ?thesis
  proof (cases "fd_items f = []")
    case True
    then have "users_of (table w) st = {}" using f(2) by (simp add: pids_def)
    with True nm show ?thesis by (simp add: native_psmisc_report_owner_def show_user_def r e f(1))
  next
    case False
    let ?p = "it_pid (hd (fd_items f))"
    have hd: "?p = hd (pids f)" and ne: "pids f \<noteq> []" using False by (simp_all add: pids_def hd_map)
    have pid: "?p = Min (users_of (table w) st)" unfolding hd f(2) [symmetric] by (rule sorted_hd_Min [OF srt ne])
    have user: "?p \<in> users_of (table w) st" unfolding hd f(2) [symmetric] by (rule hd_in_set [OF ne])
    have "?p \<in> fst ` set (table w)" using user opened_fst by (force simp: users_of_def)
    then have small: "length (dec_of ?p) \<le> 11" using small_pids [OF assms(1)] by auto
    obtain c w4 where c: "read_comm E ?p w3 = Goes (c, w4)" "good w4" "plain c" using read_comm_plain [OF e(2)] by blast
    obtain u w5 where u: "user_name E (it_uid (hd (fd_items f))) w4 = Goes (u, w5)" "length u \<le> 32"
      using user_name_short [OF c(2)] by blast
    have "length (escape_comm (fu_comm_addr E) c) \<le> 32"
      using c(3) length_escape_plain [of c "fu_comm_addr E"] by (auto simp: plain_def)
    then have "length (owner_line u ?p (escape_comm (fu_comm_addr E) c)) < 256"
      using u(2) small by (simp add: owner_line_def)
    then have a: "append_to 256 (fu_returnstring s2) (owner_line u ?p (escape_comm (fu_comm_addr E) c)) =
        Goes (owner_line u ?p (escape_comm (fu_comm_addr E) c))" (is "_ = Goes ?l") by (simp only: append_to_def f(3)) simp
    have "native_psmisc_report_owner E True t fu_init w = Goes ((?l, s2\<lparr>fu_returnstring := ?l\<rparr>), w5)"
      using False nm by (auto simp: native_psmisc_report_owner_def show_user_def r(1,2) e(1) f(1) c(1) u(1) a Let_def)
    moreover have "users_of (table w) st \<noteq> {}" using user by auto
    ultimately show ?thesis unfolding pid by (metis (no_types, lifting))
  qed
qed

end

section \<open>A reference \<open>/proc\<close>\<close>

record rproc =
  rf_cwd :: "int option"
  rf_table :: ptable
  rf_dev :: "string \<Rightarrow> fstat option"
  rf_comm :: "int \<Rightarrow> string"
  rf_user :: "int \<Rightarrow> string"

definition rf_fds :: "rproc \<Rightarrow> (string \<times> fstat) list option" where
  "rf_fds w = (case rf_cwd w of None \<Rightarrow> None
     | Some p \<Rightarrow> (case map_of (rf_table w) p of None \<Rightarrow> None | Some d \<Rightarrow> d))"

definition rf_stat :: "string \<Rightarrow> rproc \<Rightarrow> fstat option \<times> rproc" where
  "rf_stat path w =
     (if take 3 path = ''fd/'' then (case rf_fds w of None \<Rightarrow> None | Some fds \<Rightarrow> map_of fds (drop 3 path)) else rf_dev w path, w)"

definition rf_opendir :: "string \<Rightarrow> rproc \<Rightarrow> string list option \<times> rproc" where
  "rf_opendir path w =
     (if path = ''/proc'' then Some (''.'' # ''..'' # ''self'' # ''uptime'' # map (\<lambda>x. dec_of (fst x)) (rf_table w))
      else if path = ''fd'' then map_option (\<lambda>fds. ''.'' # ''..'' # map fst fds) (rf_fds w) else None, w)"

definition rf_entry :: "string \<Rightarrow> rproc \<Rightarrow> int option" where
  "rf_entry path w = map_option fst (List.find (\<lambda>x. ''/proc/'' @ dec_of (fst x) = path) (rf_table w))"

definition rf_chdir :: "string \<Rightarrow> rproc \<Rightarrow> bool \<times> rproc" where
  "rf_chdir path w = (case rf_entry path w of None \<Rightarrow> (False, w) | Some p \<Rightarrow> (True, w\<lparr>rf_cwd := Some p\<rparr>))"

definition rf_fopen :: "string \<Rightarrow> rproc \<Rightarrow> string option \<times> rproc" where
  "rf_fopen path w =
     (map_option (\<lambda>p. dec_of p @ '' ('' @ rf_comm w p @ '') S'') (rf_entry (take (length path - 5) path) w), w)"

definition ref_procfs :: "rproc procfs" where
  "ref_procfs = \<lparr>fu_stat_op = rf_stat, fu_lstat_op = rf_stat, fu_opendir_op = rf_opendir, fu_chdir_op = rf_chdir,
     fu_malloc_op = Pair True, fu_seteuid_op = Pair True, fu_fopen_op = rf_fopen,
     fu_getpwuid_op = (\<lambda>u w. (Some (rf_user w u), w)), fu_comm_addr = 4096\<rparr>"

definition rf_good :: "rproc \<Rightarrow> bool" where
  "rf_good w \<longleftrightarrow> rf_table w \<noteq> [] \<and> distinct (map fst (rf_table w)) \<and>
     (\<forall>(p, d) \<in> set (rf_table w). 0 < p \<and> p < 2^31 \<and>
        (case d of None \<Rightarrow> True | Some fds \<Rightarrow> distinct (map fst fds) \<and> (\<forall>x \<in> set fds. not_dots (fst x)))) \<and>
     (\<forall>p. plain (rf_comm w p)) \<and> (\<forall>u. length (rf_user w u) \<le> 32)"

lemma atoi_dec_of:
  assumes "0 < p" "p < 2^31"
  shows "atoi (dec_of p) = p"
proof -
  obtain c cs where d: "digits_of (nat p) = c # cs" by (cases "digits_of (nat p)") auto
  have dig: "is_dig c" using digits_of_dig [of "nat p"] by (simp add: d)
  then have c: "c \<noteq> CHR ''-''" "c \<noteq> CHR ''+''" by (auto simp: is_dig_def)
  have "read_digits 0 (c # cs) = nat p" using read_digits_of [of "nat p"] by (simp add: d)
  then show ?thesis
    using assms c is_dig_not_space [OF dig, of cs] by (simp add: dec_of_def atoi_def d to_int32_id del: skip_ws.simps)
qed

lemma rf_good_pid: "rf_good w \<Longrightarrow> (p, d) \<in> set (rf_table w) \<Longrightarrow> 0 < p \<and> p < 2^31"
  by (auto simp: rf_good_def)

lemma rf_entry_proc:
  assumes "rf_good w" and "(p, d) \<in> set (rf_table w)"
  shows "rf_entry (''/proc/'' @ dec_of p) w = Some p"
proof -
  have "fst x = p" if "x \<in> set (rf_table w)" "dec_of (fst x) = dec_of p" for x
    using that assms rf_good_pid [OF assms(1)] atoi_dec_of by (metis prod.collapse)
  moreover obtain x where x: "List.find (\<lambda>x. dec_of (fst x) = dec_of p) (rf_table w) = Some x"
    using assms(2) by (cases "List.find (\<lambda>x. dec_of (fst x) = dec_of p) (rf_table w)") (auto simp: find_None_iff)
  moreover have "x \<in> set (rf_table w)" "dec_of (fst x) = dec_of p" using x by (auto simp: find_Some_iff)
  ultimately show ?thesis by (simp add: rf_entry_def)
qed

lemma rf_fds_cwd: "rf_good w \<Longrightarrow> rf_cwd w = Some p \<Longrightarrow> (p, d) \<in> set (rf_table w) \<Longrightarrow> rf_fds w = d"
  by (simp add: rf_good_def rf_fds_def map_of_eq_Some_iff [THEN iffD2] del: map_of_eq_Some_iff)

lemma plain_sub: "plain c \<Longrightarrow> set c' \<subseteq> set c \<Longrightarrow> length c' \<le> length c \<Longrightarrow> plain c'"
  by (auto simp: plain_def)

lemma takeWhile_stop: "\<not> P x \<Longrightarrow> takeWhile P (c @ x # z) = takeWhile P c"
  by (induction c) auto

lemma scan_comm_stat:
  assumes "0 < p" and "plain c" and "scan_comm (dec_of p @ '' ('' @ c @ '') S'') = Some c'"
  shows "plain c'"
proof -
  obtain x xs where d: "digits_of (nat p) = x # xs" by (cases "digits_of (nat p)") auto
  have dig: "is_dig x" "\<forall>y \<in> set xs. is_dig y" using digits_of_dig [of "nat p"] by (auto simp: d)
  then have x: "x \<noteq> CHR ''-''" "x \<noteq> CHR ''+''" by (auto simp: is_dig_def)
  have sp: "\<not> is_dig (CHR '' '')" by (simp add: is_dig_def)
  have "dropWhile is_dig (x # xs @ '' ('' @ c @ '') S'') = '' ('' @ c @ '') S''"
    using dig sp by (simp add: dropWhile_append3)
  with assms(1,3) x is_dig_not_space [OF dig(1), of "xs @ '' ('' @ c @ '') S''"]
  have "c' = takeWhile (\<lambda>y. y \<noteq> CHR '')'') (c @ '') S'')"
    by (auto simp: scan_comm_def dec_of_def d Let_def simp del: dropWhile.simps split: if_splits)
  also have "\<dots> = takeWhile (\<lambda>y. y \<noteq> CHR '')'') c" by (simp add: takeWhile_stop)
  finally have "set c' \<subseteq> set c" "length c' \<le> length c" using set_takeWhileD by (fastforce simp: length_takeWhile_le)+
  then show ?thesis by (rule plain_sub [OF assms(2)])
qed

lemma rf_entry_pid: "rf_entry path w = Some p \<Longrightarrow> p \<in> fst ` set (rf_table w)"
  by (auto simp: rf_entry_def find_Some_iff image_iff) (metis fst_conv nth_mem)

lemma atoi_no_number: "atoi ''.'' = 0" "atoi ''..'' = 0" "atoi ''self'' = 0" "atoi ''uptime'' = 0"
  by (code_simp)+

lemma rf_opendir_proc:
  assumes g: "rf_good w"
  shows "\<exists>ns. fu_opendir_op ref_procfs ''/proc'' w = (Some ns, w) \<and>
      filter (\<lambda>p. p \<noteq> 0) (map atoi ns) = map fst (rf_table w)"
proof -
  have m: "map (\<lambda>x. atoi (dec_of (fst x))) (rf_table w) = map fst (rf_table w)"
    using rf_good_pid [OF g] atoi_dec_of by (auto intro!: map_cong)
  have f: "filter (\<lambda>p. p \<noteq> 0) (map fst (rf_table w)) = map fst (rf_table w)"
    using rf_good_pid [OF g] by (fastforce simp: filter_id_conv)
  show ?thesis by (simp add: ref_procfs_def rf_opendir_def comp_def atoi_no_number m f)
qed

lemma rf_chdir_proc:
  assumes g: "rf_good w" and d: "(p, d) \<in> set (rf_table w)"
    and c: "fu_chdir_op ref_procfs (''/proc/'' @ dec_of p) w = (b, w')"
  shows "rf_good w' \<and> rf_table w' = rf_table w \<and> (b \<longrightarrow> rf_cwd w' = Some p) \<and> (d \<noteq> None \<longrightarrow> b)"
  using c g by (auto simp: ref_procfs_def rf_chdir_def rf_entry_proc [OF g d, simplified] rf_good_def)

lemma rf_dir_fd:
  assumes g: "rf_good w" and c: "rf_cwd w = Some p" and d: "(p, d) \<in> set (rf_table w)"
  shows "\<exists>r. fu_opendir_op ref_procfs ''fd'' w = (r, w) \<and>
      (case d of None \<Rightarrow> r = None | Some fds \<Rightarrow> \<exists>ns. r = Some ns \<and> filter not_dots ns = map fst fds)"
proof -
  have "filter not_dots (map fst fds) = map fst fds" if "d = Some fds" for fds
    using g d that by (fastforce simp: rf_good_def filter_id_conv)
  moreover have "\<not> not_dots ''.''" "\<not> not_dots ''..''" by (simp_all add: not_dots_def)
  ultimately show ?thesis
    by (auto simp: ref_procfs_def rf_opendir_def rf_fds_cwd [OF g c d] split: option.splits)
qed

lemma rf_stat_fd:
  assumes g: "rf_good w" and c: "rf_cwd w = Some p" and d: "(p, Some fds) \<in> set (rf_table w)" and n: "(n, st) \<in> set fds"
  shows "fu_stat_op ref_procfs (''fd/'' @ n) w = (Some st, w)"
proof -
  have "distinct (map fst fds)" using g d by (fastforce simp: rf_good_def)
  with n show ?thesis by (simp add: ref_procfs_def rf_stat_def rf_fds_cwd [OF g c d])
qed

lemma rf_stat_names:
  assumes g: "rf_good w" and r: "fu_fopen_op ref_procfs path w = (r, w')"
  shows "rf_good w' \<and> (\<forall>text c. r = Some text \<longrightarrow> scan_comm text = Some c \<longrightarrow> plain c)"
proof -
  have "plain c" if e: "rf_entry path' w = Some p" and c: "scan_comm (dec_of p @ '' ('' @ rf_comm w p @ '') S'') = Some c"
    for path' p c
  proof -
    have "0 < p" using rf_entry_pid [OF e] rf_good_pid [OF g] by auto
    moreover have "plain (rf_comm w p)" using g by (simp add: rf_good_def)
    ultimately show ?thesis using c by (rule scan_comm_stat)
  qed
  with r g show ?thesis by (auto simp: ref_procfs_def rf_fopen_def)
qed

lemma rf_small_pids:
  assumes "rf_good w" and "(p, d) \<in> set (rf_table w)"
  shows "length (dec_of p) \<le> 11"
  using rf_good_pid [OF assms] length_digits_of [of "nat p" 11] by (auto simp: dec_of_def)

interpretation rf: owner_contract ref_procfs rf_good rf_cwd rf_table
proof (unfold_locales, goal_cases)
  case (1 w) then show ?case by (rule rf_opendir_proc)
next
  case (2 w p d b w') then show ?case by (rule rf_chdir_proc)
next
  case (3 w p d) then show ?case by (rule rf_dir_fd)
next
  case (4 w p fds n st) then show ?case by (rule rf_stat_fd)
next
  case (10 w path r w') then show ?case by (rule rf_stat_names)
next
  case (12 w p d) then show ?case by (rule rf_small_pids)
qed (auto simp: ref_procfs_def rf_stat_def rf_good_def)

section \<open>The first question\<close>

text \<open>C22. The first question of a process, on every \<open>/proc\<close> that keeps still while it is asked (\<open>owner_contract\<close>): a
  process list that is not empty, the same each time it is read; descriptor directories that can be read or not, with
  entries that \<open>stat\<close> identifies; program names of at most 16 plain characters; accounts for all owners, with names of at
  most 32 characters; \<open>malloc\<close> and \<open>seteuid\<close> that do not fail. The device file exists and is no socket. Then the call
  returns, with a line for the least process number among the processes whose readable descriptors include the device, and
  with the stock phrase when there is none. (Elsewhere the call may end the process, crash or overrun its buffer.)\<close>

theorem first_owner_reported:
  assumes "owner_contract E good cwd table" and "good w" and "fu_stat_op E t w = (Some st, w)" and "\<not> st_sock st"
  shows "\<exists>r s' w'. native_psmisc_report_owner E True t fu_init w = Goes ((r, s'), w') \<and>
    (if users_of (table w) st = {} then r = UNKNOWN_APP
     else \<exists>user prog. r = owner_line user (Min (users_of (table w) st)) prog)"
  using owner_contract.first_question [OF assms] .

section \<open>Sample questions\<close>

definition demo_stat :: "string \<Rightarrow> fstat option" where
  "demo_stat path =
     (if path = ''/dev/ttyS0'' \<or> path = ''fd/3'' then Some \<lparr>st_dev = 5, st_ino = 100, st_sock = False, st_uid = 1000\<rparr>
      else if path = ''/dev/ttyS1'' then Some \<lparr>st_dev = 5, st_ino = 101, st_sock = False, st_uid = 1000\<rparr> else None)"

definition demo_procfs :: "unit procfs" where
  "demo_procfs = \<lparr>fu_stat_op = (\<lambda>p w. (demo_stat p, w)), fu_lstat_op = (\<lambda>p w. (demo_stat p, w)),
     fu_opendir_op = (\<lambda>p w. (if p = ''/proc'' then Some [''self'', ''1'', ''42''] else Some [''.'', ''..'', ''3''], w)),
     fu_chdir_op = (\<lambda>p w. (p = ''/proc/42'', w)), fu_malloc_op = Pair True, fu_seteuid_op = Pair True,
     fu_fopen_op = (\<lambda>p w. (Some ''42 (minicom) S'', w)), fu_getpwuid_op = (\<lambda>u w. (Some ''joe'', w)), fu_comm_addr = 4096\<rparr>"

definition demo_file :: "string \<Rightarrow> nat \<Rightarrow> item_dsc list \<Rightarrow> file_dsc" where
  "demo_file n i its = \<lparr>fd_name = Some n, fd_dev = 5, fd_ino = i, fd_flags = 2, fd_sig_num = 9, fd_name_space = None,
     fd_items = its, fd_named = None\<rparr>"

definition demo_item :: item_dsc where
  "demo_item = \<lparr>it_type = it_proc, it_pid = 42, it_uid = 1000, it_ref_set = 1\<rparr>"

definition demo_after :: "string \<Rightarrow> file_dsc list \<Rightarrow> fuser" where
  "demo_after r fs = \<lparr>fu_files = fs, fu_last_named = Some (length fs - 1), fu_found_item = True, fu_returnstring = r\<rparr>"

abbreviation (input) demo_line :: string where "demo_line \<equiv> '' joe PID =     42 Program = minicom''"

lemma demo_first: "native_psmisc_report_owner demo_procfs True ''/dev/ttyS0'' fu_init () =
    Goes ((demo_line, demo_after demo_line [demo_file ''/dev/ttyS0'' 100 [demo_item]]), ())"
  by code_simp

lemma demo_second: "native_psmisc_report_owner demo_procfs True ''/dev/ttyS1''
     (demo_after demo_line [demo_file ''/dev/ttyS0'' 100 [demo_item]]) () =
    Goes ((demo_line @ demo_line, demo_after (demo_line @ demo_line)
      [demo_file ''/dev/ttyS0'' 100 [demo_item], demo_file ''/dev/ttyS1'' 101 []]), ())"
  by code_simp

text \<open>The question about \<open>ttyS1\<close>, which nobody has open, is answered with the owner of \<open>ttyS0\<close>.\<close>

theorem owner_of_first_file_witness:
  "\<exists>user prog. demo_line @ demo_line = demo_line @ owner_line user (Min (set (pids (demo_file ''/dev/ttyS0'' 100 [demo_item])))) prog"
proof -
  have "fu_ok (demo_after demo_line [demo_file ''/dev/ttyS0'' 100 [demo_item]])"
    by (simp add: demo_after_def fu_ok_def file_ok_def demo_file_def demo_item_def pids_def)
  from owner_of_first_file [OF this demo_second] show ?thesis
    by (auto simp: demo_after_def UNKNOWN_APP_def)
qed

theorem owners_overrun_witness:
  "length (filter (\<lambda>r. r \<noteq> UNKNOWN_APP) [demo_line, demo_line @ demo_line]) \<le> 10"
proof -
  have "query_all demo_procfs [''/dev/ttyS0'', ''/dev/ttyS1''] fu_init () =
    Goes (([demo_line, demo_line @ demo_line], demo_after (demo_line @ demo_line)
      [demo_file ''/dev/ttyS0'' 100 [demo_item], demo_file ''/dev/ttyS1'' 101 []]), ())"
    by (simp only: query_all.simps demo_first demo_second and_then.simps split_conv)
  then show ?thesis by (rule owners_overrun)
qed

definition demo_world :: rproc where
  "demo_world = \<lparr>rf_cwd = None,
     rf_table = [(42, Some [(''3'', \<lparr>st_dev = 5, st_ino = 100, st_sock = False, st_uid = 1000\<rparr>)]), (7, None)],
     rf_dev = demo_stat, rf_comm = (\<lambda>p. ''minicom''), rf_user = (\<lambda>u. ''joe'')\<rparr>"

theorem first_owner_reported_witness:
  "\<exists>r s' w' user prog. native_psmisc_report_owner ref_procfs True ''/dev/ttyS0'' fu_init demo_world = Goes ((r, s'), w') \<and>
     r = owner_line user 42 prog"
proof -
  let ?st = "\<lparr>st_dev = 5, st_ino = 100, st_sock = False, st_uid = 1000\<rparr>"
  have g: "rf_good demo_world" by (simp add: rf_good_def demo_world_def plain_def not_dots_def)
  have st: "fu_stat_op ref_procfs ''/dev/ttyS0'' demo_world = (Some ?st, demo_world)"
    by (simp add: ref_procfs_def rf_stat_def demo_world_def demo_stat_def)
  have u: "users_of (rf_table demo_world) ?st = {42}"
    by (auto simp: users_of_def opened_def demo_world_def find_of_def)
  from first_owner_reported [OF rf.owner_contract_axioms g st] show ?thesis by (auto simp: u)
qed

text \<open>A device file that is not there ends the Java process, with status 0; a socket as the first file leaves the
  list empty, and its head is read.\<close>

lemma missing_device_exits:
  "fu_stat_op E t w = (None, w') \<Longrightarrow> native_psmisc_report_owner E True t s w = Exits 0"
  by (simp add: native_psmisc_report_owner_def show_user_def parse_args_def)

lemma socket_first_crashes:
  assumes "fu_stat_op E t w = (Some st, w')" and "st_sock st"
    and "scan_fd E fu_init w' = Goes (fu_init, w'')" and "fst (fu_seteuid_op E w'')"
  shows "native_psmisc_report_owner E True t fu_init w = Crashes"
proof -
  have "parse_args E t fu_init w = Goes (fu_init, w')" using assms(1,2) by (simp add: parse_args_def fu_init_def)
  with assms(3,4) show ?thesis
    by (cases "fu_seteuid_op E w''") (simp add: native_psmisc_report_owner_def show_user_def fu_init_def)
qed

end
