(* ===== verification/Session.thy ===== *)
theory Session
  imports Port_Open
begin

text \<open>
  A port from \<open>open\<close> to \<open>nativeClose\<close>: the terminal driver, the lock service and the native methods together.
  \<open>port_system\<close> joins the contracts of a driver and of a lock service and adds what opening and closing a device
  promise; \<open>ref_session\<close> is the reference driver with the FHS lock files.
\<close>

locale port_system = tty_driver E p live attr + lock_service lck unl ok valid held mine
  for E :: "'w posix" and p :: platform and live :: "fd \<Rightarrow> 'w \<Rightarrow> bool" and attr :: "fd \<Rightarrow> 'w \<Rightarrow> termios"
    and lck :: "'l locker" and unl :: "'l unlocker" and ok :: "string \<Rightarrow> 'l \<Rightarrow> bool" and valid :: "int \<Rightarrow> 'l \<Rightarrow> bool"
    and held :: "string \<Rightarrow> 'l \<Rightarrow> bool" and mine :: "string \<Rightarrow> int \<Rightarrow> 'l \<Rightarrow> bool" +
  fixes openable :: "string \<Rightarrow> 'w \<Rightarrow> bool"
  assumes pid_nonzero: "getpid_of E w \<noteq> 0"
    and open_device: "openable n w \<Longrightarrow> \<exists>fd w'. open_op E n RDWR_NOCTTY_NONBLOCK w = (fd, w') \<and> live fd w'"
    and raw_stays: "live fd w \<Longrightarrow> representable p t \<Longrightarrow> tcsetattr_op E fd t w = (0, w') \<Longrightarrow> raw_mode (attr fd w')"
    and own_keeps: "live fd w \<Longrightarrow> fcntl_setown E fd q w = (r, w') \<Longrightarrow> live fd w' \<and> attr fd w' = attr fd w"
    and flags_keep: "live fd w \<Longrightarrow> fcntl_setfl E fd q w = (r, w') \<Longrightarrow> live fd w' \<and> attr fd w' = attr fd w"
    and close_device: "live fd w \<Longrightarrow> \<exists>r w'. close_op E fd (snd (tcflush_op E fd TCIOFLUSH w)) = (r, w') \<and>
      \<not> (r < 0 \<and> errno_of E w' = EINTR)"
begin

lemma configured_representable:
  assumes "legal_chars p t" and "speed_set p B9600 (t\<lparr>c_iflag := INPCK, c_lflag := 0, c_oflag := 0,
      c_cflag := CREAD OR CS8 OR CLOCAL, c_cc := (c_cc t)(VMIN := 0, VTIME := 0)\<rparr>) u"
  shows "representable p u"
  using assms
  by (cases p) (auto simp: representable_def raw_mode_def speed_set_def legal_chars_def listed_speed_def speed_cases_def
      CBAUD_def java_parity_def)

lemma configure_port_live:
  assumes "live fd w"
  shows "\<exists>w'. configure_port E p t0 fd w = (0, w') \<and> live fd w' \<and> raw_mode (attr fd w')"
proof -
  let ?t = "(attr fd w)\<lparr>c_iflag := INPCK, c_lflag := 0, c_oflag := 0, c_cflag := CREAD OR CS8 OR CLOCAL,
    c_cc := (c_cc (attr fd w))(VMIN := 0, VTIME := 0)\<rparr>"
  have l: "listed_speed p B9600" by (cases p) (auto simp: listed_speed_def speed_cases_def)
  obtain r1 t1 where 1: "cfsetispeed_op E ?t (uint B9600) = (r1, t1)" "0 \<le> r1" "speed_set p B9600 ?t t1"
    using ispeed [OF l] by blast
  then have "c_ispeed t1 = B9600" by (simp add: speed_set_def)
  then obtain r2 t2 where 2: "cfsetospeed_op E t1 (uint B9600) = (r2, t2)" "0 \<le> r2" "speed_set p B9600 t1 t2"
    using ospeed [OF l] by blast
  have rep: "representable p t2"
    by (rule configured_representable [OF attr_chars [OF assms] speed_set_twice [OF 1(3) 2(3)]])
  obtain w1 where w1: "tcsetattr_op E fd t2 w = (0, w1)" "live fd w1" using set_attr [OF assms rep] by blast
  have raw: "raw_mode (attr fd w1)" by (rule raw_stays [OF assms rep w1(1)])
  obtain r3 w2 where w2: "fcntl_setown E fd (getpid_of E w1) w1 = (r3, w2)" by (metis surj_pair)
  obtain r4 w3 where w3: "fcntl_setfl E fd (FASYNC_of E) w2 = (r4, w3)" by (metis surj_pair)
  note o = own_keeps [OF w1(2) w2]
  note f = flags_keep [OF conjunct1 [OF o] w3]
  have pos: "\<not> fd < 0" using live_pos [OF assms] by simp
  show ?thesis
    using pos 1 2 w1 raw o f w2 w3 get_attr [OF assms, of t0] by (cases p) (auto simp: configure_port_def Let_def)
qed

lemma opened:
  assumes lk: "ok n (ps_lock s)" "valid (my_pid E p (ps_w s)) (ps_lock s)" "\<not> held n (ps_lock s)"
    and dev: "openable n (ps_w s)" and pre: "preopened_port (ps_pre s) = None" and short: "length n < 45" and ef: "0 < ef"
  obtains fd s1 where "open_port E p lck pf ef fc t0 n jp s = Done (((fd, None), jp\<lparr>j_pid := my_pid E p (ps_w s)\<rparr>), s1)"
    "live fd (ps_w s1)" "raw_mode (attr fd (ps_w s1))" "ok n (ps_lock s1)" "mine n (my_pid E p (ps_w s)) (ps_lock s1)"
    "\<forall>q. valid q (ps_lock s1) = valid q (ps_lock s)"
proof -
  obtain l where l: "lck n (my_pid E p (ps_w s)) (ps_lock s) = Done (0, l)" "ok n l"
      "mine n (my_pid E p (ps_w s)) l" "\<forall>q. valid q l = valid q (ps_lock s)"
    using lock_free [OF lk] by blast
  obtain fd w1 where o: "open_op E n RDWR_NOCTTY_NONBLOCK (ps_w s) = (fd, w1)" "live fd w1" using open_device [OF dev] by blast
  obtain w2 where c: "configure_port E p t0 fd w1 = (0, w2)" "live fd w2" "raw_mode (attr fd w2)"
    using configure_port_live [OF o(2)] by blast
  have "sys_open E ef n RDWR_NOCTTY_NONBLOCK (ps_w s) = Done (fd, w1)"
    using ef o live_pos [OF o(2)] by (cases ef) (auto simp: sys_open_def)
  then have "open_port E p lck pf ef fc t0 n jp s =
      Done (((fd, None), jp\<lparr>j_pid := my_pid E p (ps_w s)\<rparr>), s\<lparr>ps_lock := l, ps_w := w2\<rparr>)"
    using l(1) pre short c(1) by (cases s) (simp add: open_port_def Let_def find_preopened_ports_def)
  from that [OF this] show thesis using l c by simp
qed

lemma whole_session:
  assumes lk: "ok n (ps_lock s)" "valid (my_pid E p (ps_w s)) (ps_lock s)" "\<not> held n (ps_lock s)"
    and dev: "openable n (ps_w s)" "preopened_port (ps_pre s) = None" "length n < 45" "0 < ef"
    and par: "(speed, b) \<in> set (speed_cases p)" "b \<noteq> B0" "\<not> (p = Linux \<and> b = B38400)"
      "d \<in> {5, 6, 7, 8}" "sb \<in> {1, 2, 3}" "q \<in> {0, 1, 2, 3, 4}"
  shows "\<exists>fd jp1 s1 w2 s3. open_port E p lck pf ef fc t0 n jp s = Done (((fd, None), jp1), s1) \<and>
    (let jp2 = jp1\<lparr>j_fd := fd\<rparr>; s2 = s1\<lparr>ps_w := w2\<rparr> in
     nativeSetSerialPortParams E p t0 ss0 jp2 speed d sb q (ps_w s1) = Some (False, w2) \<and>
     set_java_vars E p t1 fd jp2 w2 =
       (jp2\<lparr>j_speed := speed, j_dataBits := if sb = 3 then 5 else d,
           j_stopBits := if sb = 3 then 3 else if sb = 2 \<and> d = 5 then 3 else sb, j_parity := q\<rparr>, w2) \<and>
     held n (ps_lock s2) \<and> nativeClose E unl ef n jp2 s2 = Done s3 \<and> \<not> held n (ps_lock s3) \<and> ok n (ps_lock s3))"
proof -
  let ?pid = "my_pid E p (ps_w s)"
  obtain fd s1 where o: "open_port E p lck pf ef fc t0 n jp s = Done (((fd, None), jp\<lparr>j_pid := ?pid\<rparr>), s1)"
    and w1: "live fd (ps_w s1)" "raw_mode (attr fd (ps_w s1))"
    and l1: "ok n (ps_lock s1)" "mine n ?pid (ps_lock s1)" "\<forall>q. valid q (ps_lock s1) = valid q (ps_lock s)"
    using opened [OF lk dev] .
  define jp2 where "jp2 = jp\<lparr>j_pid := ?pid\<rparr>\<lparr>j_fd := fd\<rparr>"
  have fd2: "j_fd jp2 = fd" "j_pid jp2 = ?pid" by (simp_all add: jp2_def)
  obtain w2 where p2: "nativeSetSerialPortParams E p t0 ss0 jp2 speed d sb q (ps_w s1) = Some (False, w2)" "live fd w2"
    "set_java_vars E p t1 fd jp2 w2 = (jp2\<lparr>j_speed := speed, j_dataBits := if sb = 3 then 5 else d,
       j_stopBits := if sb = 3 then 3 else if sb = 2 \<and> d = 5 then 3 else sb, j_parity := q\<rparr>, w2)"
    using set_params_reported [of jp2 "ps_w s1" speed b d sb q] w1 par unfolding fd2 by blast
  have v: "valid ?pid (ps_lock s1)" using lk(2) l1(3) by simp
  have nz: "?pid \<noteq> 0" using pid_nonzero by (simp add: my_pid_def)
  obtain r w3 where c: "close_op E fd (snd (tcflush_op E fd TCIOFLUSH w2)) = (r, w3)" "\<not> (r < 0 \<and> errno_of E w3 = EINTR)"
    using close_device [OF p2(2)] by blast
  have e: "retry_eintr ef (errno_of E) (close_op E (j_fd jp2)) (snd (tcflush_op E (j_fd jp2) TCIOFLUSH (ps_w (s1\<lparr>ps_w := w2\<rparr>)))) = Some (r, w3)"
    using c dev(4) by (cases ef) (auto simp: fd2)
  obtain s3 where "nativeClose E unl ef n jp2 (s1\<lparr>ps_w := w2\<rparr>) = Done s3" "\<not> held n (ps_lock s3)" "ok n (ps_lock s3)"
    using close_unlocks [OF _ _ _ _ _ e, of n] l1 v live_pos [OF w1(1)] nz by (auto simp: fd2)
  moreover have "held n (ps_lock s1)" by (rule mine_held [OF l1(1) v l1(2)])
  ultimately show ?thesis using o p2 by (auto simp: jp2_def Let_def)
qed

end

section \<open>The reference driver with lock files\<close>

lemma ref_openable_driver: "tty_driver ref_openable Linux ref_live ref_attr"
proof -
  have same: "tcgetattr_op ref_openable = tcgetattr_op refposix" "tcsetattr_op ref_openable = tcsetattr_op refposix"
    "cfsetispeed_op ref_openable = cfsetispeed_op refposix" "cfsetospeed_op ref_openable = cfsetospeed_op refposix"
    by (simp_all add: ref_openable_def)
  show ?thesis using ref_tty_driver unfolding tty_driver_def same .
qed

interpretation ref_sys: port_system ref_openable Linux ref_live ref_attr
  "fhs_lock linux_conf tmp u" "fhs_unlock linux_conf u" "fhs_ok tmp u" "\<lambda>_ _. True" fhs_held fhs_mine
  "\<lambda>n w. rd_lines w 5 \<noteq> None"
proof (intro port_system.intro ref_openable_driver fhs.lock_service_axioms port_system_axioms.intro)
  fix fd w t w'
  assume "ref_live fd w" "representable Linux t" "tcsetattr_op ref_openable fd t w = (0, w')"
  then show "raw_mode (ref_attr fd w')"
    by (auto simp: ref_openable_def refposix_def ref_defs representable_def split: option.splits)
qed (auto simp: ref_openable_def refposix_def ref_defs split: option.splits prod.splits)

end
