(* ===== verification/Spec2Isabelle.thy ===== *)
theory Spec2Isabelle
  imports Lock_Lib Registry_Race Serial_IO Lock_Daemon Win32_Env I2C_Raw Parallel WinCE_Events Drain_Thread
    BeOS_Port Fuser Session
begin

text \<open>
  A verification library for the native part of RXTX (jRxTx), the serial port library under
  \<open>src/native/src\<close>.

  \<^bold>\<open>The program.\<close> \<open>SerialImp.c\<close> implements the native methods of \<open>gnu.io.RXTXPort\<close> and
  \<open>gnu.io.RXTXCommDriver\<close> on top of a terminal driver. It translates Java's line parameters into
  \<open>termios\<close> flags, drives the modem lines, reads and writes bytes, runs a monitor thread per port
  that turns driver state into Java events, and protects devices by lock files.
  \<open>lfd/lockdaemon.c\<close> is a server that keeps the lock files for unprivileged clients. On Windows,
  \<open>termios.c\<close> provides the terminal interface over the Windows communication API. \<open>RS485Imp.c\<close>, \<open>I2CImp.c\<close>,
  \<open>RawImp.c\<close> and \<open>ParallelImp.c\<close> are the ports of the other kinds, and \<open>WinCE/\<close> is a port for Windows CE that
  uses the communication API directly, with two threads for the events. \<open>SerialImp.cpp\<close> is an older port for BeOS
  over its class \<open>BSerialPort\<close>, and \<open>fuserImp.c\<close> names the process that has a busy device open.

  \<^bold>\<open>The theories.\<close>
  \<^item> \<open>Prelude\<close>: words, \<open>errno\<close>, the retry loop around interrupted calls, C strings, number
    parsing and printing. \<open>Serial_Consts\<close>: the constants and structures of \<open>SerialImp.h\<close> and
    \<open>win32termios.h\<close>; \<open>platform\<close> is the build.
  \<^item> \<open>Line_Params\<close>: the translation tables, as functions of a flag word (\<open>translate_speed\<close>,
    \<open>translate_data_bits\<close>, \<open>translate_stop_bits\<close>, \<open>translate_parity\<close>, \<open>get_java_baudrate\<close>).
  \<^item> \<open>Posix_Env\<close>: the operating system as a record \<open>posix\<close> of functions over an abstract state, the
    fields of the Java object (\<open>jport\<close>), and the contracts \<open>tty_driver\<close> and \<open>modem_driver\<close> that
    POSIX documents. No theorem assumes more of the system than these, or than a stated answer of one call.
  \<^item> \<open>Port_Params\<close> and \<open>Modem_Lines\<close>: the native methods that configure and query an open port.
    \<open>Ref_Tty\<close>: an executable terminal driver on which the contracts are shown to hold.
  \<^item> \<open>Dll\<close>: doubly linked lists in an explicit heap, where following a freed or a null pointer is
    \<open>Fault\<close> and exceeding the fuel of a loop is \<open>Hang\<close>. \<open>Preopened\<close>: the list of ports opened
    before \<open>open()\<close>.
  \<^item> \<open>Lock_Files\<close>: \<open>fhs_lock\<close>, \<open>uucp_lock\<close> and their helpers on a file system and a process
    table; \<open>lock_service\<close> is what a lock promises. \<open>Lock_Daemon\<close>: the lock file server with its
    protocol, and the client \<open>lfs_lock\<close>, \<open>lfs_unlock\<close>, which implement the same promise
    (\<open>lfs_unlock\<close> returns before the server has done its work; the promise is about the state after it). \<open>Lock_Lib\<close>: locking through
    \<open>liblockdev\<close>, whose documented behaviour is \<open>lockdev\<close>.
  \<^item> \<open>Events\<close>: one look of the monitor at the driver (\<open>report_serial_events\<close> and what it calls).
    \<open>Event_Registry\<close>: the list \<open>master_index\<close>, starting, interrupting and leaving an event loop, as
    functions of the whole registry: what each call does when it runs by itself, and the states that calls one after
    the other lead to. \<open>Registry_Race\<close>: the same functions one memory access at a time, for any number of threads.
  \<^item> \<open>Serial_IO\<close>: reading, writing and draining over a \<open>byte_source\<close>.
  \<^item> \<open>Port_Open\<close>: \<open>open\<close>, \<open>close\<close>, the static methods and the port enumeration, over any lock
    service and any system.

  \<^item> \<open>Win32_Convert\<close>: the pure part of \<open>termios.c\<close>, between \<open>termios\<close> and the device control block.
    \<open>Win32_Ports\<close>: the table of open ports, a doubly linked list sorted by descriptor, and the Windows API
    as a record \<open>winapi\<close> of functions over an abstract kernel state. \<open>Win32_Termios\<close>: \<open>tcgetattr\<close>,
    \<open>tcsetattr\<close>, \<open>ioctl\<close>, \<open>fcntl\<close>, \<open>serial_open\<close> and the other entry points. \<open>Win32_IO\<close>:
    \<open>serial_read\<close>, \<open>serial_write\<close> and \<open>serial_select\<close>.
  \<^item> \<open>Win32_Calls\<close> and \<open>Win32_Table\<close>: what every entry point does to the table; the table as a state
    machine, its invariant and its refinement of a map from descriptors to device names. \<open>Ref_Win32\<close>: a
    small kernel for concrete runs.
  \<^item> \<open>Win32_Env\<close>: the emulation as an instance of \<open>posix\<close>; \<open>win32_api\<close> is what Windows documents, and
    from it the emulation is shown to keep the contracts of \<open>Posix_Env\<close> for settings without an end-of-input
    character (with one, \<open>tcsetattr\<close> asks for a block that is not binary, which Windows does not support), so that the theorems on port
    parameters and modem lines hold on Windows.

  \<^item> \<open>RS485\<close>: the RS485 port of \<open>RS485Imp.c\<close>, with parameter tables, half-duplex writing, reading, events and
    device probing of its own. \<open>I2C_Raw\<close>: \<open>I2CImp.c\<close> and \<open>RawImp.c\<close>, copies of that file, with what they do otherwise.
    \<open>half_duplex\<close> is a driver whose writes leave the modem lines alone.
  \<^item> \<open>Parallel\<close>: the parallel port of \<open>ParallelImp.c\<close>, for Linux and Windows, over the calls of a record \<open>lp_env\<close>.
  \<^item> \<open>Drain_Thread\<close>: \<open>drain_loop\<close>, \<open>init_threads\<close> and the agents that share their structure in builds without a line
    status register (monitor, writers, \<open>nativeDrain\<close>, \<open>interruptEventLoop\<close>), as step relations; the signals that \<open>Initialize\<close> sets.
  \<^item> \<open>WinCE_Port\<close>: the native methods of \<open>WinCE/gnu_io_RXTXPort.cpp\<close> and \<open>WinCE/gnu_io_RXTXCommDriver.cpp\<close> over a
    record \<open>ceapi\<close>; \<open>ce_device\<close> and \<open>ce_serial\<close> are what the documentation promises of settings and of reading and
    writing, shown of a small device. \<open>WinCE_Events\<close>: \<open>CommEventThread\<close> and \<open>eventLoop\<close> as a step relation with
    Java's calls.

  \<^item> \<open>BeOS_Port\<close>: the native methods of \<open>SerialImp.cpp\<close> and its table \<open>PortArray\<close>, over a record \<open>bserial\<close> for the class;
    \<open>bport_contract\<close> is what its setters and \<open>Write\<close> promise.
  \<^item> \<open>Fuser\<close>: \<open>fuserImp.c\<close>, its list of files and processes and the text it answers with, over a record \<open>procfs\<close>;
    \<open>fd_contract\<close> and \<open>owner_contract\<close> are what a snapshot of \<open>/proc\<close> promises.
  \<^item> \<open>Session\<close>: a driver and a lock service under one contract \<open>port_system\<close>, and a port from \<open>open\<close> to \<open>nativeClose\<close>
    over it; the property is in this theory.

  \<^bold>\<open>What the lemmas show.\<close> Round trips of every parameter through the flag word and through the
  driver; refusal of bad arguments before anything changes; memory safety and termination of the list
  operations with the exact conditions under which they fail; mutual exclusion of the locks, of the lock
  server and of \<open>open\<close>; exactness of the events sent for modem lines, error counters and input; memory
  safety of the registry when threads take turns, the interleavings in which a thread follows a dangling or unset pointer,
  and the effect of an interrupt; that reading returns,
  and returns the bytes the driver handed out; that the Windows emulation implements the terminal contract,
  that its table of ports stays well formed, leaks nothing and behaves like a map, and where it fails; what the
  RS485 port reads, sets and reports, and that its transmissions and those of its copies do not end or do not
  report errors; what the parallel port reports and how its writes on Windows end; that the two threads
  of Windows CE, with one listener, and the drain thread with the monitor and the writer use no memory after its life,
  under which conditions the same holds of Java's calls, what is delivered exactly once, and the
  interleavings in which an event is lost, a thread never ends or memory is used after its life; that a port of BeOS
  takes its parameters and sends what it is given, and that its table of ports is used up after 64 calls of \<open>open\<close>;
  whom the owner report names, when it is right and when it overruns its buffer; that a session of opening,
  configuring and closing a port leaves the requested parameters in force under the lock and the lock free afterwards.

  \<^bold>\<open>Fuel.\<close> List searches carry a number of steps; every theorem that says such a search returns
  assumes only that it is not below the length of the list. The retry loops around \<open>EINTR\<close> carry a
  number of attempts, and the theorems state the answer once the interruptions end. The loop of
  \<open>read_byte_array\<close> is bounded by 20 rounds in the code itself. The loops of the Windows layer that wait
  for input or for an overlapped operation have no bound in the code; they carry a number of rounds. So do the
  loops of the RS485 port; reading is shown to end after one round more than the bytes asked for, and the
  statements that a write hangs hold for every number of rounds. Reading and writing on Windows CE and reading on the
  parallel port end after one round more than the bytes asked for; on Windows CE under the stated progress of
  \<open>WriteFile\<close>, and writing on BeOS under that of \<open>Write\<close>.

  \<^bold>\<open>Not modelled.\<close> Java code; logging (\<open>report\<close> and its relatives) and debug output; JNI reference handling and
  the helpers that read fields of Java objects; the branches of Solaris, macOS, SCO, QNX and BSD other than the
  UUCP lock; the methods that set and get buffer sizes, which do nothing; in
  \<open>termios.c\<close> the diagnostic text (\<open>show_DCB\<close>, the buffers messages are formatted into) and the
  disabled variants of \<open>serial_read\<close> and \<open>serial_select\<close>; in \<open>SerialImp.cpp\<close> the log file, and the branches for other
  systems than BeOS; \<open>psmisc/\<close>, of which \<open>fuserImp.c\<close> is the part in use; the test program \<open>portmode.c\<close> and the
  programs that fix up sources at build time.
\<close>

section \<open>A whole session\<close>

text \<open>C2. A port from opening to closing, on every driver and every lock service that keep their contracts
  (\<open>port_system\<close>). The device can be opened, its name is shorter than 45 characters, the lock service can work for it
  (\<open>ok\<close>, an invariant of the service) and nobody holds its lock; no port is on the list of ports opened before; and
  the retry loops have at least one attempt. Then \<open>open\<close> returns a descriptor without an exception. Setting a listed
  speed, other than 0 and on Linux other than 38400, with valid data bits, stop bits and parity succeeds on it. What
  Java is told afterwards is the speed, data bits, stop bits and parity that were set, except that 1.5 stop bits
  (code 3) are reported with five data bits whatever was asked for, and two stop bits with five data bits are
  reported as 1.5. The device's lock is still held; and \<open>nativeClose\<close> returns with the lock free again and the
  service able to work for the device.\<close>

theorem port_session:
  assumes "port_system E p live attr lck unl ok valid held mine can_open"
    and "ok n (ps_lock s)" "valid (my_pid E p (ps_w s)) (ps_lock s)" "\<not> held n (ps_lock s)"
    and "can_open n (ps_w s)" "preopened_port (ps_pre s) = None" "length n < 45" "0 < ef"
    and "(speed, b) \<in> set (speed_cases p)" "b \<noteq> B0" "\<not> (p = Linux \<and> b = B38400)"
    and "d \<in> {5, 6, 7, 8}" "sb \<in> {1, 2, 3}" "q \<in> {0, 1, 2, 3, 4}"
  shows "\<exists>fd jp1 s1 w2 s3. open_port E p lck pf ef fc t0 n jp s = Done (((fd, None), jp1), s1) \<and>
    (let jp2 = jp1\<lparr>j_fd := fd\<rparr>; s2 = s1\<lparr>ps_w := w2\<rparr> in
     nativeSetSerialPortParams E p t0 ss0 jp2 speed d sb q (ps_w s1) = Some (False, w2) \<and>
     set_java_vars E p t1 fd jp2 w2 =
       (jp2\<lparr>j_speed := speed, j_dataBits := if sb = 3 then 5 else d,
           j_stopBits := if sb = 3 then 3 else if sb = 2 \<and> d = 5 then 3 else sb, j_parity := q\<rparr>, w2) \<and>
     held n (ps_lock s2) \<and> nativeClose E unl ef n jp2 s2 = Done s3 \<and> \<not> held n (ps_lock s3) \<and> ok n (ps_lock s3))"
  by (rule port_system.whole_session [OF assms])

theorem port_session_witness:
  "\<exists>fd jp1 s1 w2. open_port ref_openable Linux ttyS0_lock 0 1 (\<lambda>_. True) zero_termios ''/dev/ttyS0'' jport0 psys0 =
      Done (((fd, None), jp1), s1) \<and>
    nativeSetSerialPortParams ref_openable Linux zero_termios (rl_serial ref_line0) (jp1\<lparr>j_fd := fd\<rparr>) 115200 8 1 2 (ps_w s1) =
      Some (False, w2) \<and>
    (\<exists>s3. nativeClose ref_openable ttyS0_unlock 1 ''/dev/ttyS0'' (jp1\<lparr>j_fd := fd\<rparr>) (s1\<lparr>ps_w := w2\<rparr>) = Done s3 \<and>
      \<not> fhs_held ''/dev/ttyS0'' (ps_lock s3))"
proof -
  have "fhs_ok (Some ''tmpAb1xYz'') uninit0 ''/dev/ttyS0'' (ps_lock psys0)" "\<not> fhs_held ''/dev/ttyS0'' (ps_lock psys0)"
    "rd_lines (ps_w psys0) 5 \<noteq> None" "preopened_port (ps_pre psys0) = None" "length ''/dev/ttyS0'' < 45"
    using ttyS0_fhs_ok ttyS0_fhs_free by (simp_all add: psys0_def ref_dev0_def)
  moreover have "(115200, 0x1002) \<in> set (speed_cases Linux)" by (simp add: speed_cases_def)
  ultimately show ?thesis
    using port_session [OF ref_sys.port_system_axioms, of "Some ''tmpAb1xYz''" uninit0 "''/dev/ttyS0''" psys0 1 115200
      "0x1002" 8 1 2 0 "\<lambda>_. True" zero_termios jport0 "rl_serial ref_line0" zero_termios]
    by (auto simp: Let_def)
qed

end
